(* ===== verification/Prelude.thy ===== *)
theory Prelude
  imports Complex_Main "HOL-Library.Sublist"
begin

text \<open>
  Shared vocabulary of the development: the Python values the services exchange
  (\<open>pyval\<close>, the image of a parsed JSON document), dictionaries as insertion-ordered
  association lists, truthiness, Python's cross-type equality on numbers, the substring
  tests, and the result type of code that may raise. A Python \<open>str\<close> is a \<open>string\<close>
  whose characters are code points \<open>U+0000\<close> to \<open>U+00FF\<close>; \<open>utf8\<close> is the encoding of
  such a string. The named collections \<open>dict_simps\<close>, \<open>py_defs\<close> and \<open>inv_intros\<close>
  are filled by the component theories.
\<close>

named_theorems dict_simps "lookup and update laws of Python dictionaries"
named_theorems py_defs "unfolding of the small Python built-ins"
named_theorems inv_intros "preservation of component invariants"

section \<open>Python values\<close>

text \<open>
  A float is a finite binary64 value (kept as the rational it denotes), an infinity or NaN.
  Negative zero is identified with zero: no modelled operation tells them apart.
\<close>

datatype pyfloat = Fin rat | PosInf | NegInf | NaN

datatype pyval =
    PNone
  | PBool bool
  | PInt int
  | PFloat pyfloat
  | PStr string
  | PList "pyval list"
  | PDict "(string \<times> pyval) list"

type_synonym dict = "(string \<times> pyval) list"

type_synonym ('e, 'a) result = "'e + 'a"

section \<open>Dictionaries\<close>

text \<open>\<open>d.get(k)\<close> is \<open>PNone\<close> for a missing key; \<open>k in d\<close> tells the two apart.\<close>

definition has_key :: "(string \<times> 'v) list \<Rightarrow> string \<Rightarrow> bool" where
  "has_key d k = (map_of d k \<noteq> None)"

definition dget_default :: "dict \<Rightarrow> string \<Rightarrow> pyval \<Rightarrow> pyval" where
  "dget_default d k v = (case map_of d k of None \<Rightarrow> v | Some x \<Rightarrow> x)"

definition dget :: "dict \<Rightarrow> string \<Rightarrow> pyval" where
  "dget d k = dget_default d k PNone"

text \<open>
  \<open>d[k] = v\<close> keeps the position of an existing key and appends a new one; \<open>d.pop(k, None)\<close>
  removes the key if it is there.
\<close>

fun dset :: "('k \<times> 'v) list \<Rightarrow> 'k \<Rightarrow> 'v \<Rightarrow> ('k \<times> 'v) list" where
  "dset [] k v = [(k, v)]"
| "dset ((a, b) # d) k v = (if a = k then (a, v) # d else (a, b) # dset d k v)"

definition dpop :: "('k \<times> 'v) list \<Rightarrow> 'k \<Rightarrow> ('k \<times> 'v) list" where
  "dpop d k = filter (\<lambda>e. fst e \<noteq> k) d"

text \<open>\<open>{**d, **e}\<close> and the dictionary built from a list of pairs, later pairs winning.\<close>

definition dmerge :: "('k \<times> 'v) list \<Rightarrow> ('k \<times> 'v) list \<Rightarrow> ('k \<times> 'v) list" where
  "dmerge d e = foldl (\<lambda>acc kv. dset acc (fst kv) (snd kv)) d e"

definition dict_of :: "('k \<times> 'v) list \<Rightarrow> ('k \<times> 'v) list" where
  "dict_of e = dmerge [] e"

definition keys_within :: "(string \<times> 'v) list \<Rightarrow> string list \<Rightarrow> bool" where
  "keys_within d ks = list_all (\<lambda>e. fst e \<in> set ks) d"

section \<open>Built-ins\<close>

fun truthy :: "pyval \<Rightarrow> bool" where
  "truthy PNone = False"
| "truthy (PBool b) = b"
| "truthy (PInt i) = (i \<noteq> 0)"
| "truthy (PFloat (Fin r)) = (r \<noteq> 0)"
| "truthy (PFloat _) = True"
| "truthy (PStr s) = (s \<noteq> [])"
| "truthy (PList xs) = (xs \<noteq> [])"
| "truthy (PDict d) = (d \<noteq> [])"

fun is_str :: "pyval \<Rightarrow> bool" where
  "is_str (PStr _) = True"
| "is_str _ = False"

fun is_list :: "pyval \<Rightarrow> bool" where
  "is_list (PList _) = True"
| "is_list _ = False"

fun is_dict :: "pyval \<Rightarrow> bool" where
  "is_dict (PDict _) = True"
| "is_dict _ = False"

text \<open>\<open>s in t\<close> on strings, \<open>t.startswith(s)\<close> and \<open>t.endswith(s)\<close>.\<close>

fun starts_with :: "string \<Rightarrow> string \<Rightarrow> bool" where
  "starts_with t [] = True"
| "starts_with [] (c # s) = False"
| "starts_with (d # t) (c # s) = (c = d \<and> starts_with t s)"

definition ends_with :: "string \<Rightarrow> string \<Rightarrow> bool" where
  "ends_with t s = starts_with (rev t) (rev s)"

fun contains_str :: "string \<Rightarrow> string \<Rightarrow> bool" where
  "contains_str [] s = (s = [])"
| "contains_str (c # t) s = (starts_with (c # t) s \<or> contains_str t s)"

text \<open>\<open>s.strip()\<close>.\<close>

definition is_space :: "char \<Rightarrow> bool" where
  "is_space c = (of_char c \<in> {9, 10, 11, 12, 13, 28, 29, 30, 31, 32, 133, 160 :: nat})"

definition strip :: "string \<Rightarrow> string" where
  "strip s = rev (dropWhile is_space (rev (dropWhile is_space s)))"

text \<open>\<open>str(n)\<close> of a natural number.\<close>

fun dec :: "nat \<Rightarrow> string" where
  "dec n = (if n < 10 then [char_of (48 + n)] else dec (n div 10) @ [char_of (48 + n mod 10)])"

declare dec.simps [simp del]

text \<open>UTF-8 of code points below 256: one byte below 128, two bytes from there on.\<close>

definition utf8_char :: "char \<Rightarrow> int list" where
  "utf8_char c =
     (let n = int (of_char c) in if n < 128 then [n] else [192 + n div 64, 128 + n mod 64])"

definition utf8 :: "string \<Rightarrow> int list" where
  "utf8 s = concat (map utf8_char s)"

text \<open>
  The outcome of a call to a store: it works, it fails before its effect, or its reply is lost
  after its effect.
\<close>

datatype call = CallOk | CallFails | CallLost

section \<open>Lemmas\<close>

lemma map_of_dset [simp, dict_simps]:
  "map_of (dset d k v) = (map_of d)(k \<mapsto> v)"
  by (induction d k v rule: dset.induct) auto

lemma map_of_dpop [simp, dict_simps]:
  "map_of (dpop d k) = (map_of d)(k := None)"
  by (induction d) (auto simp: dpop_def fun_eq_iff)

lemma dom_dset [simp, dict_simps]: "fst ` set (dset d k v) = insert k (fst ` set d)"
  by (induction d k v rule: dset.induct) auto

lemma distinct_dset [simp, intro]:
  "distinct (map fst d) \<Longrightarrow> distinct (map fst (dset d k v))"
  by (induction d k v rule: dset.induct) (auto simp: image_iff)

lemma distinct_dpop [simp, intro]:
  "distinct (map fst d) \<Longrightarrow> distinct (map fst (dpop d k))"
  by (induction d) (auto simp: dpop_def)

lemma distinct_dmerge [simp, intro]:
  "distinct (map fst d) \<Longrightarrow> distinct (map fst (dmerge d e))"
  unfolding dmerge_def by (induction e arbitrary: d) auto

lemma distinct_dict_of [simp, intro]: "distinct (map fst (dict_of e))"
  by (simp add: dict_of_def)

lemma map_of_dmerge [dict_simps]:
  "map_of (dmerge d e) k = (case map_of (rev e) k of Some v \<Rightarrow> Some v | None \<Rightarrow> map_of d k)"
  unfolding dmerge_def
  by (induction e rule: rev_induct) (auto split: option.splits)

lemma map_of_dict_of [dict_simps]: "map_of (dict_of e) k = map_of (rev e) k"
  by (simp add: dict_of_def map_of_dmerge split: option.splits)

lemma has_key_iff [dict_simps]: "has_key d k \<longleftrightarrow> k \<in> fst ` set d"
  by (simp add: has_key_def map_of_eq_None_iff)

lemma dget_Some [simp, dict_simps]: "map_of d k = Some v \<Longrightarrow> dget d k = v"
  by (simp add: dget_def dget_default_def)

lemma dget_None [simp, dict_simps]: "map_of d k = None \<Longrightarrow> dget d k = PNone"
  by (simp add: dget_def dget_default_def)

lemma dget_default_Some [simp, dict_simps]: "map_of d k = Some v \<Longrightarrow> dget_default d k w = v"
  by (simp add: dget_default_def)

lemma dget_default_None [simp, dict_simps]: "map_of d k = None \<Longrightarrow> dget_default d k w = w"
  by (simp add: dget_default_def)

lemma starts_with_iff_prefix: "starts_with t s \<longleftrightarrow> prefix s t"
  by (induction t s rule: starts_with.induct) (auto simp: prefix_Cons)

lemma ends_with_iff_suffix: "ends_with t s \<longleftrightarrow> suffix s t"
  by (simp add: ends_with_def starts_with_iff_prefix suffix_to_prefix)

lemma contains_str_iff_sublist: "contains_str t s \<longleftrightarrow> sublist s t"
  by (induction t) (auto simp: starts_with_iff_prefix sublist_Cons_right)

lemma utf8_char_range:
  assumes "b \<in> set (utf8_char c)"
  shows "0 \<le> b \<and> b < 256"
proof -
  have "of_char c < (256 :: nat)" by simp
  then have "int (of_char c) div 64 < 64" by linarith
  with assms show ?thesis
    by (auto simp: utf8_char_def Let_def split: if_splits)
qed

lemma utf8_range: "b \<in> set (utf8 s) \<Longrightarrow> 0 \<le> b \<and> b < 256"
  by (auto simp: utf8_def dest: utf8_char_range)

lemma utf8_append [simp]: "utf8 (s @ t) = utf8 s @ utf8 t"
  by (simp add: utf8_def)

lemma utf8_Nil [simp]: "utf8 [] = []"
  by (simp add: utf8_def)

lemma those_map_SomeD:
  assumes "those (map f xs) = Some ys"
  shows "length ys = length xs" "\<forall>y \<in> set ys. \<exists>x \<in> set xs. f x = Some y"
  using assms by (induction xs arbitrary: ys) (auto split: option.splits, blast)

lemma those_map_SomeI:
  "(\<And>x. x \<in> set xs \<Longrightarrow> f x = Some (h x)) \<Longrightarrow> those (map f xs) = Some (map h xs)"
  by (induction xs) auto

lemma those_map_None: "x \<in> set xs \<Longrightarrow> f x = None \<Longrightarrow> those (map f xs) = None"
  by (induction xs) (auto split: option.splits)

lemma keys_within_iff [dict_simps]: "keys_within d ks \<longleftrightarrow> fst ` set d \<subseteq> set ks"
  by (auto simp: keys_within_def list_all_iff)

lemma bind_eq_Some_conv: "Option.bind x f = Some y \<longleftrightarrow> (\<exists>z. x = Some z \<and> f z = Some y)"
  by (cases x) auto

section \<open>Runs\<close>

text \<open>
  What a component promises of one step and its clients use of any number of steps: an invariant
  that every step keeps, and an order in which no step goes back.
\<close>

locale monotone_run =
  fixes step :: "'s \<Rightarrow> 's \<Rightarrow> bool" and invar :: "'s \<Rightarrow> bool" and before :: "'s \<Rightarrow> 's \<Rightarrow> bool"
  assumes step_keeps: "invar s \<Longrightarrow> step s t \<Longrightarrow> invar t"
    and step_forward: "invar s \<Longrightarrow> step s t \<Longrightarrow> before s t"
    and before_refl: "before s s"
    and before_trans: "before s t \<Longrightarrow> before t u \<Longrightarrow> before s u"
begin

lemma steps_keep: "step\<^sup>*\<^sup>* s t \<Longrightarrow> invar s \<Longrightarrow> invar t"
  by (induction rule: rtranclp_induct) (auto intro: step_keeps)

lemma steps_forward:
  assumes "step\<^sup>*\<^sup>* s t" and "invar s"
  shows "before s t"
  using assms(1)
proof (induction rule: rtranclp_induct)
  case (step t u)
  then have "before t u" using steps_keep [OF step(1) assms(2)] by (intro step_forward)
  with step(3) show ?case by (rule before_trans)
qed (rule before_refl)

end

text \<open>A component whose steps are commands; a run is a sequence of commands.\<close>

locale monotone_machine =
  fixes exec :: "'s \<Rightarrow> 'c \<Rightarrow> 's" and invar :: "'s \<Rightarrow> bool" and before :: "'s \<Rightarrow> 's \<Rightarrow> bool"
  assumes exec_keeps: "invar s \<Longrightarrow> invar (exec s c)"
    and exec_forward: "invar s \<Longrightarrow> before s (exec s c)"
    and before_refl: "before s s"
    and before_trans: "before s t \<Longrightarrow> before t u \<Longrightarrow> before s u"

sublocale monotone_machine \<subseteq> commands: monotone_run "\<lambda>s t. \<exists>c. t = exec s c" invar before
  by unfold_locales (auto intro: exec_keeps exec_forward before_refl before_trans)

context monotone_machine
begin

lemma command_steps: "(\<lambda>s t. \<exists>c. t = exec s c)\<^sup>*\<^sup>* s (foldl exec s cs)"
proof (induction cs rule: rev_induct)
  case (snoc c cs)
  then show ?case by (auto intro: rtranclp.rtrancl_into_rtrancl)
qed simp

lemma commands_keep: "invar s \<Longrightarrow> invar (foldl exec s cs)"
  by (rule commands.steps_keep [OF command_steps])

lemma commands_forward: "invar s \<Longrightarrow> before s (foldl exec s cs)"
  by (rule commands.steps_forward [OF command_steps])

end

end
