(* ===== verification/Float64.thy ===== *)
theory Float64
  imports Prelude "HOL-Library.Log_Nat"
begin

text \<open>
  Python floats: IEEE binary64 with rounding to nearest, ties to even. \<open>fl x\<close> is the
  rounding of the rational \<open>x\<close> on the unbounded-exponent side (subnormals included);
  \<open>to_float\<close> adds the overflow to infinity. Every arithmetic operation of the modelled
  code on finite floats is the exact operation followed by \<open>fl\<close>, which is what IEEE 754
  prescribes. The lemmas are the ones the components use: \<open>fl\<close> is monotone, odd and exact
  on integers up to \<open>2 ^ 53\<close>.
\<close>

definition pow2 :: "int \<Rightarrow> rat" where
  "pow2 e = (if 0 \<le> e then 2 ^ nat e else 1 / 2 ^ nat (- e))"

text \<open>The exponent of a positive rational: \<open>pow2 (ilog2 x) \<le> x < pow2 (ilog2 x + 1)\<close>.\<close>

definition ilog2 :: "rat \<Rightarrow> int" where
  "ilog2 x = (case quotient_of x of (a, b) \<Rightarrow>
     (let l = bitlen a - bitlen b in if pow2 l \<le> x then l else l - 1))"

definition round_half_even :: "rat \<Rightarrow> int" where
  "round_half_even x =
     (let n = \<lfloor>x\<rfloor>; d = x - of_int n
      in if d < 1 / 2 then n else if 1 / 2 < d then n + 1 else if even n then n else n + 1)"

definition ulp_exp :: "rat \<Rightarrow> int" where
  "ulp_exp x = max (ilog2 \<bar>x\<bar> - 52) (- 1074)"

definition fl :: "rat \<Rightarrow> rat" where
  "fl x = (if x = 0 then 0
           else of_int (round_half_even (x / pow2 (ulp_exp x))) * pow2 (ulp_exp x))"

definition to_float :: "rat \<Rightarrow> pyfloat" where
  "to_float x = (let y = fl x in if pow2 1024 \<le> y then PosInf
                                 else if y \<le> - pow2 1024 then NegInf else Fin y)"

text \<open>\<open>float(i)\<close> of a Python integer: \<open>OverflowError\<close> (here \<open>None\<close>) out of range.\<close>

definition float_of_int :: "int \<Rightarrow> pyfloat option" where
  "float_of_int i = (case to_float (of_int i) of Fin r \<Rightarrow> Some (Fin r) | _ \<Rightarrow> None)"

fun is_finite :: "pyfloat \<Rightarrow> bool" where
  "is_finite (Fin _) = True"
| "is_finite _ = False"

text \<open>Comparisons of floats; every comparison with NaN is false.\<close>

fun flt_less :: "pyfloat \<Rightarrow> pyfloat \<Rightarrow> bool" where
  "flt_less (Fin a) (Fin b) = (a < b)"
| "flt_less NegInf (Fin b) = True"
| "flt_less NegInf PosInf = True"
| "flt_less (Fin a) PosInf = True"
| "flt_less _ _ = False"

fun flt_eq :: "pyfloat \<Rightarrow> pyfloat \<Rightarrow> bool" where
  "flt_eq (Fin a) (Fin b) = (a = b)"
| "flt_eq PosInf PosInf = True"
| "flt_eq NegInf NegInf = True"
| "flt_eq _ _ = False"

definition flt_leq :: "pyfloat \<Rightarrow> pyfloat \<Rightarrow> bool" where
  "flt_leq a b = (flt_less a b \<or> flt_eq a b)"

section \<open>Powers of two\<close>

lemma pow2_pos [simp]: "0 < pow2 e"
  by (simp add: pow2_def)

lemma pow2_nonzero [simp]: "pow2 e \<noteq> 0"
  using pow2_pos [of e] by linarith

lemma pow2_add: "pow2 (a + b) = pow2 a * pow2 b"
proof -
  have powi: "pow2 e = 2 powi e" for e
    by (simp add: pow2_def power_int_def field_simps)
  show ?thesis by (simp add: powi power_int_add)
qed

lemma pow2_nat [simp]: "pow2 (int n) = 2 ^ n"
  by (simp add: pow2_def)

lemma pow2_0 [simp]: "pow2 0 = 1"
  by (simp add: pow2_def)

lemma pow2_mono: "a \<le> b \<Longrightarrow> pow2 a \<le> pow2 b"
proof -
  assume "a \<le> b"
  then obtain n where b: "b = a + int n" using zle_iff_zadd by blast
  have "(1 :: rat) \<le> 2 ^ n" by simp
  then show "pow2 a \<le> pow2 b" by (simp add: b pow2_add)
qed

lemma pow2_less_imp: "pow2 a < pow2 b \<Longrightarrow> a < b"
  using pow2_mono [of b a] by linarith

lemma pow2_diff: "pow2 (a - b) = pow2 a / pow2 b"
proof -
  have "pow2 (a - b) * pow2 b = pow2 a"
    by (simp flip: pow2_add)
  then show ?thesis by (simp add: field_simps)
qed

lemma pow2_integer: "0 \<le> e \<Longrightarrow> pow2 e = of_int (2 ^ nat e)"
  by (simp add: pow2_def)

section \<open>The exponent\<close>

lemma bitlen_bracket:
  assumes "0 < a"
  shows "pow2 (bitlen a - 1) \<le> of_int a" and "(of_int a :: rat) < pow2 (bitlen a)"
proof -
  from assms have b: "2 ^ nat (bitlen a - 1) \<le> a" "a < 2 ^ nat (bitlen a)"
    using bitlen_bounds [of a] by simp_all
  have "0 < bitlen a"
  proof (rule ccontr)
    assume "\<not> 0 < bitlen a"
    with b(2) assms show False by simp
  qed
  then show "pow2 (bitlen a - 1) \<le> of_int a"
    using b(1) of_int_le_iff [of "2 ^ nat (bitlen a - 1)" a, where 'a = rat]
    by (simp add: pow2_def)
  show "(of_int a :: rat) < pow2 (bitlen a)"
    using b(2) \<open>0 < bitlen a\<close> of_int_less_iff [of a "2 ^ nat (bitlen a)", where 'a = rat]
    by (simp add: pow2_def)
qed

lemma ilog2_bracket:
  assumes "0 < x"
  shows "pow2 (ilog2 x) \<le> x" and "x < pow2 (ilog2 x + 1)"
proof -
  obtain a b where q: "quotient_of x = (a, b)" by fastforce
  then have b: "0 < b" and x: "x = of_int a / of_int b"
    using quotient_of_denom_pos quotient_of_div by blast+
  with assms have a: "0 < a" by (simp add: zero_less_divide_iff)
  let ?l = "bitlen a - bitlen b"
  have bp: "(0 :: rat) < of_int b" using b by simp
  have up: "x < pow2 (?l + 1)"
  proof -
    have "of_int a < pow2 (?l + 1) * pow2 (bitlen b - 1)"
      using bitlen_bracket(2) [OF a] by (simp flip: pow2_add)
    also have "\<dots> \<le> pow2 (?l + 1) * of_int b"
      using bitlen_bracket(1) [OF b] by (intro mult_left_mono) (auto simp: less_imp_le)
    finally show ?thesis using bp by (simp add: x pos_divide_less_eq)
  qed
  have lo: "pow2 (?l - 1) \<le> x"
  proof -
    have "pow2 (?l - 1) * of_int b \<le> pow2 (?l - 1) * pow2 (bitlen b)"
      using bitlen_bracket(2) [OF b] by (intro mult_left_mono) (auto simp: less_imp_le)
    also have "\<dots> \<le> of_int a"
      using bitlen_bracket(1) [OF a] by (simp flip: pow2_add add: algebra_simps)
    finally show ?thesis using bp by (simp add: x pos_le_divide_eq)
  qed
  show "pow2 (ilog2 x) \<le> x" "x < pow2 (ilog2 x + 1)"
    using up lo by (auto simp: ilog2_def q Let_def)
qed

lemma ilog2_mono:
  assumes "0 < x" "x \<le> y"
  shows "ilog2 x \<le> ilog2 y"
proof -
  have "pow2 (ilog2 x) < pow2 (ilog2 y + 1)"
    using ilog2_bracket(1) [of x] ilog2_bracket(2) [of y] assms by linarith
  then show ?thesis using pow2_less_imp by fastforce
qed

lemma ilog2_eqI:
  assumes "pow2 e \<le> x" "x < pow2 (e + 1)"
  shows "ilog2 x = e"
proof -
  have x: "0 < x" using assms(1) pow2_pos [of e] by linarith
  have "pow2 (ilog2 x) < pow2 (e + 1)" "pow2 e < pow2 (ilog2 x + 1)"
    using ilog2_bracket [OF x] assms by linarith+
  then have "ilog2 x < e + 1" "e < ilog2 x + 1"
    by (auto dest: pow2_less_imp)
  then show ?thesis by simp
qed

section \<open>Rounding to an integer\<close>

lemma round_half_even_bracket: "\<lfloor>x\<rfloor> \<le> round_half_even x" "round_half_even x \<le> \<lfloor>x\<rfloor> + 1"
  by (auto simp: round_half_even_def Let_def)

lemma round_half_even_of_int [simp]: "round_half_even (of_int n) = n"
  by (simp add: round_half_even_def)

lemma round_half_even_mono:
  assumes "x \<le> y"
  shows "round_half_even x \<le> round_half_even y"
proof (cases "\<lfloor>x\<rfloor> = \<lfloor>y\<rfloor>")
  case True
  with assms show ?thesis by (auto simp: round_half_even_def Let_def)
next
  case False
  then have "\<lfloor>x\<rfloor> + 1 \<le> \<lfloor>y\<rfloor>" using floor_mono [OF assms] by linarith
  then show ?thesis
    using round_half_even_bracket(2) [of x] round_half_even_bracket(1) [of y] by linarith
qed

lemma floor_minus_int: "\<lfloor>- x\<rfloor> = (if x = of_int \<lfloor>x\<rfloor> then - \<lfloor>x\<rfloor> else - \<lfloor>x\<rfloor> - 1)" for x :: rat
proof (cases "x = of_int \<lfloor>x\<rfloor>")
  case True
  then show ?thesis by (metis floor_of_int of_int_minus)
next
  case False
  then have "of_int \<lfloor>x\<rfloor> < x" using of_int_floor_le [of x] by linarith
  moreover have "x < of_int \<lfloor>x\<rfloor> + 1" by linarith
  ultimately have "\<lfloor>- x\<rfloor> = - \<lfloor>x\<rfloor> - 1" by (intro floor_unique) simp_all
  with False show ?thesis by simp
qed

lemma round_half_even_minus: "round_half_even (- x) = - round_half_even x"
proof (cases "x = of_int \<lfloor>x\<rfloor>")
  case True
  then show ?thesis by (metis of_int_minus round_half_even_of_int)
next
  case False
  then have "\<lfloor>- x\<rfloor> = - \<lfloor>x\<rfloor> - 1" by (simp add: floor_minus_int)
  then show ?thesis by (auto simp: round_half_even_def Let_def)
qed

section \<open>Rounding to binary64\<close>

lemma ulp_exp_minus [simp]: "ulp_exp (- x) = ulp_exp x"
  by (simp add: ulp_exp_def)

lemma fl_0 [simp]: "fl 0 = 0"
  by (simp add: fl_def)

lemma fl_minus [simp]: "fl (- x) = - fl x"
  by (simp add: fl_def round_half_even_minus flip: minus_divide_left)

text \<open>A value that is an integer multiple of a spacing no finer than its own is kept.\<close>

lemma fl_exact:
  assumes "x \<noteq> 0" "ulp_exp x \<le> e" "x = of_int n * pow2 e"
  shows "fl x = x"
proof -
  have q: "x / pow2 (ulp_exp x) = of_int (n * 2 ^ nat (e - ulp_exp x))"
  proof -
    have "x / pow2 (ulp_exp x) = of_int n * pow2 (e - ulp_exp x)"
      using assms(3) by (simp add: pow2_diff)
    also have "\<dots> = of_int (n * 2 ^ nat (e - ulp_exp x))"
      using assms(2) by (simp add: pow2_integer)
    finally show ?thesis .
  qed
  then have "fl x = of_int (n * 2 ^ nat (e - ulp_exp x)) * pow2 (ulp_exp x)"
    using assms(1) by (simp only: fl_def round_half_even_of_int if_False)
  also have "\<dots> = x"
    using q by (simp add: field_simps)
  finally show ?thesis .
qed

lemma fl_of_int:
  assumes "\<bar>n\<bar> < 2 ^ 53"
  shows "fl (of_int n) = of_int n"
proof (cases "n = 0")
  case False
  have "ilog2 \<bar>of_int n\<bar> \<le> 52"
  proof -
    have "\<bar>of_int n\<bar> < (pow2 53 :: rat)"
      using assms of_int_less_iff [of "\<bar>n\<bar>" "2 ^ 53", where 'a = rat] by (simp add: pow2_def)
    moreover have "pow2 (ilog2 \<bar>of_int n\<bar>) \<le> \<bar>of_int n\<bar>"
      using False by (intro ilog2_bracket) simp
    ultimately have "pow2 (ilog2 \<bar>of_int n\<bar>) < pow2 53" by linarith
    then show ?thesis using pow2_less_imp by fastforce
  qed
  then have "ulp_exp (of_int n) \<le> 0" by (simp add: ulp_exp_def)
  with False show ?thesis by (intro fl_exact [where e = 0 and n = n]) simp_all
qed simp

lemma fl_one [simp]: "fl 1 = 1"
  using fl_of_int [of 1] by simp

lemma fl_mono_pos:
  assumes "0 < x" "x \<le> y"
  shows "fl x \<le> fl y"
proof (cases "ulp_exp x = ulp_exp y")
  case True
  have "x / pow2 (ulp_exp y) \<le> y / pow2 (ulp_exp y)"
    using assms(2) by (simp add: divide_right_mono less_imp_le)
  then have "round_half_even (x / pow2 (ulp_exp y)) \<le> round_half_even (y / pow2 (ulp_exp y))"
    by (rule round_half_even_mono)
  then show ?thesis using assms True by (simp add: fl_def)
next
  case False
  let ?P = "pow2 (ilog2 y)"
  have "ilog2 x \<le> ilog2 y" using assms by (rule ilog2_mono)
  with False assms have q: "ulp_exp x < ulp_exp y" and qy: "ulp_exp y = ilog2 y - 52"
    and lt: "ilog2 x + 1 \<le> ilog2 y"
    by (auto simp: ulp_exp_def max_def split: if_splits)
  have "x < ?P"
    using ilog2_bracket(2) [OF assms(1)] pow2_mono [OF lt] by linarith
  have P: "?P / pow2 (ulp_exp x) = of_int (2 ^ nat (ilog2 y - ulp_exp x))"
    using q qy by (simp add: pow2_integer flip: pow2_diff)
  have "x / pow2 (ulp_exp x) \<le> ?P / pow2 (ulp_exp x)"
    using \<open>x < ?P\<close> by (simp add: divide_right_mono less_imp_le)
  then have "round_half_even (x / pow2 (ulp_exp x)) \<le> 2 ^ nat (ilog2 y - ulp_exp x)"
    using round_half_even_mono unfolding P by (metis round_half_even_of_int)
  then have "of_int (round_half_even (x / pow2 (ulp_exp x))) \<le> ?P / pow2 (ulp_exp x)"
    unfolding P by (simp only: of_int_le_iff)
  then have "fl x \<le> ?P"
    using assms(1) by (simp add: fl_def field_simps)
  moreover have "?P \<le> fl y"
  proof -
    have Q: "?P / pow2 (ulp_exp y) = of_int (2 ^ 52)"
      by (simp add: qy pow2_diff pow2_nat [of 52, simplified])
    have "?P / pow2 (ulp_exp y) \<le> y / pow2 (ulp_exp y)"
      using ilog2_bracket(1) [of y] assms by (simp add: divide_right_mono less_imp_le)
    then have "2 ^ 52 \<le> round_half_even (y / pow2 (ulp_exp y))"
      using round_half_even_mono unfolding Q by (metis round_half_even_of_int)
    then have "?P / pow2 (ulp_exp y) \<le> of_int (round_half_even (y / pow2 (ulp_exp y)))"
      unfolding Q by (simp only: of_int_le_iff)
    then show ?thesis using assms by (simp add: fl_def field_simps)
  qed
  ultimately show ?thesis by linarith
qed

lemma fl_nonneg: "0 \<le> x \<Longrightarrow> 0 \<le> fl x"
  using round_half_even_mono [of "of_int 0" "x / pow2 (ulp_exp x)"]
  unfolding round_half_even_of_int by (auto simp: fl_def less_imp_le intro!: mult_nonneg_nonneg)

lemma fl_mono: "x \<le> y \<Longrightarrow> fl x \<le> fl y"
proof -
  assume "x \<le> y"
  then consider "0 < x" | "x \<le> 0" "0 \<le> y" | "y < 0" by linarith
  then show "fl x \<le> fl y"
  proof cases
    case 1 then show ?thesis using \<open>x \<le> y\<close> by (rule fl_mono_pos)
  next
    case 2 then show ?thesis using fl_nonneg [of y] fl_nonneg [of "- x"] by simp
  next
    case 3 then show ?thesis using fl_mono_pos [of "- y" "- x"] \<open>x \<le> y\<close> by simp
  qed
qed

lemma fl_idem_bounds: "fl b = b \<Longrightarrow> x \<le> b \<Longrightarrow> fl x \<le> b"
  using fl_mono [of x b] by simp

lemma to_float_small: "\<bar>fl x\<bar> < pow2 1024 \<Longrightarrow> to_float x = Fin (fl x)"
  by (auto simp: to_float_def Let_def)

end
