(* ===== verification/Hashing.thy ===== *)
theory Hashing
  imports Float64 "HOL-Library.Word"
begin

text \<open>
  Deterministic bucketing: the Python SDK's \<open>sdk/python/apdl/flags/hash.py\<close> and the Config
  service's copy at the head of \<open>services/config/app/flags/evaluator.py\<close>. The loops run on
  Python integers with an explicit mask; \<open>fnv1a32\<close> is the reference 32-bit FNV-1a on machine
  words they have to agree with. A bucket is a binary64 value.
\<close>

unbundle bit_operations_syntax

section \<open>The SDK's hash\<close>

definition UINT32_MAX :: int where
  "UINT32_MAX = 0xFFFFFFFF"

definition FNV_OFFSET_BASIS :: int where
  "FNV_OFFSET_BASIS = 2166136261"

definition FNV_PRIME :: int where
  "FNV_PRIME = 16777619"

fun fnv_loop :: "int \<Rightarrow> int list \<Rightarrow> int" where
  "fnv_loop h [] = h"
| "fnv_loop h (byte # bs) = fnv_loop (((h XOR byte) * FNV_PRIME) AND UINT32_MAX) bs"

definition hash_input :: "string \<Rightarrow> string \<Rightarrow> string \<Rightarrow> string" where
  "hash_input flag_key salt unit_id = flag_key @ '':'' @ salt @ '':'' @ unit_id"

definition hash_bucket :: "string \<Rightarrow> string \<Rightarrow> string \<Rightarrow> int" where
  "hash_bucket flag_key salt unit_id =
     fnv_loop FNV_OFFSET_BASIS (utf8 (hash_input flag_key salt unit_id))"

text \<open>The division of two integers is correctly rounded, and so is the product.\<close>

definition percentage_bucket :: "string \<Rightarrow> string \<Rightarrow> string \<Rightarrow> rat" where
  "percentage_bucket flag_key salt unit_id =
     fl (fl (of_int (hash_bucket flag_key salt unit_id) / of_int UINT32_MAX) * 100)"

definition is_in_rollout :: "string \<Rightarrow> string \<Rightarrow> string \<Rightarrow> rat \<Rightarrow> bool" where
  "is_in_rollout flag_key salt unit_id percentage =
     (if 100 \<le> percentage then True
      else if percentage \<le> 0 then False
      else percentage_bucket flag_key salt unit_id < percentage)"

section \<open>The Config service's hash\<close>

fun cfg_hash_loop :: "int \<Rightarrow> int list \<Rightarrow> int" where
  "cfg_hash_loop h [] = h"
| "cfg_hash_loop h (char # data) =
     (let h = h XOR char in cfg_hash_loop ((h * 16777619) AND 0xFFFFFFFF) data)"

definition cfg_hash_bucket :: "string \<Rightarrow> string \<Rightarrow> string \<Rightarrow> int" where
  "cfg_hash_bucket flag_key salt unit_id =
     (let data = flag_key @ '':'' @ salt @ '':'' @ unit_id
      in cfg_hash_loop 2166136261 (utf8 data))"

definition cfg_percentage_bucket :: "string \<Rightarrow> string \<Rightarrow> string \<Rightarrow> rat" where
  "cfg_percentage_bucket flag_key salt unit_id =
     fl (fl (of_int (cfg_hash_bucket flag_key salt unit_id) / 0xFFFFFFFF) * 100)"

definition cfg_is_in_rollout :: "string \<Rightarrow> string \<Rightarrow> string \<Rightarrow> rat \<Rightarrow> bool" where
  "cfg_is_in_rollout flag_key salt unit_id percentage =
     (if 100 \<le> percentage then True
      else if percentage \<le> 0 then False
      else cfg_percentage_bucket flag_key salt unit_id < percentage)"

section \<open>Reference definition on machine words\<close>

definition fnv1a32 :: "8 word list \<Rightarrow> 32 word" where
  "fnv1a32 bs = foldl (\<lambda>h b. (h XOR ucast b) * 16777619) 2166136261 bs"

definition bucket_of_hash :: "int \<Rightarrow> rat" where
  "bucket_of_hash h = fl (fl (of_int h / 4294967295) * 100)"

section \<open>Agreement with the reference\<close>

lemma mask32: "x AND UINT32_MAX = x mod 2 ^ 32"
proof -
  have "UINT32_MAX = mask 32" by (simp add: UINT32_MAX_def mask_eq_exp_minus_1)
  then show ?thesis by (metis take_bit_eq_mask take_bit_eq_mod)
qed

lemma fnv_step_word:
  assumes "0 \<le> b" "b < 256"
  shows "((uint (h :: 32 word) XOR b) * FNV_PRIME) AND UINT32_MAX
       = uint ((h XOR ucast (word_of_int b :: 8 word)) * 16777619)"
proof -
  have b: "uint (ucast (word_of_int b :: 8 word) :: 32 word) = b"
    using assms by (simp add: unsigned_ucast_eq uint_word_of_int_eq take_bit_eq_mod)
  have "uint ((h XOR ucast (word_of_int b :: 8 word)) * (16777619 :: 32 word))
      = (uint (h XOR ucast (word_of_int b :: 8 word)) * 16777619) mod 2 ^ 32"
    by (simp add: uint_word_ariths)
  then show ?thesis
    by (simp only: mask32 FNV_PRIME_def unsigned_xor_eq b)
qed

lemma fnv_loop_word:
  assumes "\<forall>b \<in> set bs. 0 \<le> b \<and> b < 256"
  shows "fnv_loop (uint (h :: 32 word)) bs
       = uint (foldl (\<lambda>h b. (h XOR ucast (b :: 8 word)) * 16777619) h (map word_of_int bs))"
  using assms
proof (induction bs arbitrary: h)
  case (Cons b bs)
  then show ?case by (simp only: fnv_loop.simps list.map foldl.simps) (simp add: fnv_step_word)
qed simp

lemma hash_bucket_fnv1a32:
  "hash_bucket k s u = uint (fnv1a32 (map word_of_int (utf8 (hash_input k s u))))"
proof -
  have "FNV_OFFSET_BASIS = uint (2166136261 :: 32 word)" by (simp add: FNV_OFFSET_BASIS_def)
  then show ?thesis
    using fnv_loop_word [of "utf8 (hash_input k s u)" 2166136261] utf8_range
    by (simp only: hash_bucket_def fnv1a32_def) blast
qed

lemma hash_bucket_range: "0 \<le> hash_bucket k s u" "hash_bucket k s u \<le> 4294967295"
proof -
  have "uint w \<le> 4294967295" for w :: "32 word"
    using uint_lt2p [of w] by simp
  then show "0 \<le> hash_bucket k s u" "hash_bucket k s u \<le> 4294967295"
    by (simp_all add: hash_bucket_fnv1a32)
qed

lemma cfg_hash_loop_eq: "cfg_hash_loop h bs = fnv_loop h bs"
  by (induction bs arbitrary: h) (simp_all add: Let_def FNV_PRIME_def UINT32_MAX_def)

lemma cfg_hash_bucket_eq: "cfg_hash_bucket k s u = hash_bucket k s u"
  by (simp add: cfg_hash_bucket_def hash_bucket_def hash_input_def FNV_OFFSET_BASIS_def
      cfg_hash_loop_eq Let_def)

lemma cfg_percentage_bucket_eq: "cfg_percentage_bucket k s u = percentage_bucket k s u"
  by (simp add: cfg_percentage_bucket_def percentage_bucket_def cfg_hash_bucket_eq
      UINT32_MAX_def)

lemma percentage_bucket_of_hash: "percentage_bucket k s u = bucket_of_hash (hash_bucket k s u)"
  by (simp add: percentage_bucket_def bucket_of_hash_def UINT32_MAX_def)

section \<open>Range of a bucket\<close>

lemma bucket_of_hash_mono: "a \<le> b \<Longrightarrow> bucket_of_hash a \<le> bucket_of_hash b"
  unfolding bucket_of_hash_def
  by (intro fl_mono mult_right_mono divide_right_mono) simp_all

lemma fl_100 [simp]: "fl 100 = 100"
  using fl_of_int [of 100] by simp

lemma bucket_of_hash_max: "bucket_of_hash 4294967295 = 100"
  by (simp add: bucket_of_hash_def)

lemma bucket_of_hash_0: "bucket_of_hash 0 = 0"
  by (simp add: bucket_of_hash_def)

lemma bucket_of_hash_below: "bucket_of_hash 4294967294 < 100"
  by code_simp

lemma bucket_of_hash_range:
  assumes "0 \<le> h" "h \<le> 4294967295"
  shows "0 \<le> bucket_of_hash h" "bucket_of_hash h \<le> 100"
    "bucket_of_hash h < 100 \<longleftrightarrow> h \<noteq> 4294967295"
proof -
  show "0 \<le> bucket_of_hash h" "bucket_of_hash h \<le> 100"
    using bucket_of_hash_mono [OF assms(1)] bucket_of_hash_mono [OF assms(2)]
    by (simp_all add: bucket_of_hash_0 bucket_of_hash_max)
  show "bucket_of_hash h < 100 \<longleftrightarrow> h \<noteq> 4294967295"
  proof (cases "h = 4294967295")
    case False
    with assms have "bucket_of_hash h \<le> bucket_of_hash 4294967294"
      by (intro bucket_of_hash_mono) simp
    with False show ?thesis using bucket_of_hash_below by simp
  qed (simp add: bucket_of_hash_max)
qed

section \<open>Properties\<close>

text \<open>
  C31. The masked-integer loop of the SDK and the Config service's copy of it are both the
  standard 32-bit FNV-1a hash, on machine words, of the UTF-8 bytes of
  \<open>flag_key:salt:unit_id\<close>.
\<close>

theorem hash_bucket_is_fnv1a32:
  "hash_bucket k s u = uint (fnv1a32 (map word_of_int (utf8 (k @ '':'' @ s @ '':'' @ u))))
   \<and> cfg_hash_bucket k s u = hash_bucket k s u"
  using hash_bucket_fnv1a32 [of k s u] by (simp add: hash_input_def cfg_hash_bucket_eq)

text \<open>
  A bucket lies between 0 and 100, is monotone in the hash, and is below 100 except for
  the largest hash value, whose bucket is exactly 100.
\<close>

theorem percentage_bucket_range:
  "0 \<le> percentage_bucket k s u \<and> percentage_bucket k s u \<le> 100
   \<and> (percentage_bucket k s u = 100 \<longleftrightarrow> hash_bucket k s u = UINT32_MAX)
   \<and> (hash_bucket k s u \<le> hash_bucket k' s' u' \<longrightarrow>
        percentage_bucket k s u \<le> percentage_bucket k' s' u')"
  using bucket_of_hash_range [of "hash_bucket k s u"] hash_bucket_range [of k s u]
  by (auto simp: percentage_bucket_of_hash UINT32_MAX_def bucket_of_hash_max
      intro: bucket_of_hash_mono)

theorem percentage_bucket_range_witness:
  "percentage_bucket ''f'' ''s:rollout'' ''u1'' \<le> percentage_bucket ''f'' ''s:rollout'' ''086cnuf''"
proof -
  have "hash_bucket ''f'' ''s:rollout'' ''u1'' \<le> hash_bucket ''f'' ''s:rollout'' ''086cnuf''"
    by code_simp
  then show ?thesis
    using percentage_bucket_range [of "''f''" "''s:rollout''" "''u1''" "''f''" "''s:rollout''"
        "''086cnuf''"] by simp
qed

text \<open>
  The two implementations admit the same units to a rollout, and raising the percentage
  never removes a unit.
\<close>

theorem is_in_rollout_parity_mono:
  "cfg_is_in_rollout k s u p = is_in_rollout k s u p
   \<and> (p \<le> p' \<longrightarrow> is_in_rollout k s u p \<longrightarrow> is_in_rollout k s u p')"
  by (auto simp: cfg_is_in_rollout_def is_in_rollout_def cfg_percentage_bucket_eq)

theorem is_in_rollout_parity_mono_witness:
  "is_in_rollout ''f'' ''s'' ''u1'' 75"
proof -
  have "is_in_rollout ''f'' ''s'' ''u1'' 60" by code_simp
  then show ?thesis
    using is_in_rollout_parity_mono [of "''f''" "''s''" "''u1''" 60 75] by simp
qed

end
