(* ===== verification/Contracts.thy ===== *)
theory Contracts
  imports Float64
begin

text \<open>
  The targeting-value contract (\<open>sdk/python/apdl/flags/targeting_contract.py\<close>, of which
  \<open>services/config/app/flags/targeting_contract.py\<close> is a copy that differs in comments only)
  and the weighted-variant contract (\<open>variant_contract.py\<close>, likewise shared). Values are
  \<open>pyval\<close>; \<open>float(s)\<close> of a numeral string is the correctly rounded value of the decimal.
\<close>

section \<open>Targeting contract\<close>

abbreviation (input) MAX_RULES :: nat where "MAX_RULES \<equiv> 50"
abbreviation (input) MAX_CONDITIONS_PER_RULE :: nat where "MAX_CONDITIONS_PER_RULE \<equiv> 20"
abbreviation (input) MAX_IDENTIFIER_LENGTH :: nat where "MAX_IDENTIFIER_LENGTH \<equiv> 128"
abbreviation (input) MAX_STRING_LENGTH :: nat where "MAX_STRING_LENGTH \<equiv> 256"
abbreviation (input) MAX_MEMBERSHIP_VALUES :: nat where "MAX_MEMBERSHIP_VALUES \<equiv> 100"

definition EQUALITY_OPERATORS :: "string list" where
  "EQUALITY_OPERATORS = [''equals'', ''not_equals'']"
definition STRING_OPERATORS :: "string list" where
  "STRING_OPERATORS = [''contains'', ''not_contains'', ''starts_with'', ''ends_with'']"
definition NUMERIC_OPERATORS :: "string list" where
  "NUMERIC_OPERATORS = [''gt'', ''gte'', ''lt'', ''lte'']"
definition MEMBERSHIP_OPERATORS :: "string list" where
  "MEMBERSHIP_OPERATORS = [''in'', ''not_in'']"
definition PRESENCE_OPERATORS :: "string list" where
  "PRESENCE_OPERATORS = [''exists'', ''not_exists'']"
definition SUPPORTED_OPERATORS :: "string list" where
  "SUPPORTED_OPERATORS = EQUALITY_OPERATORS @ STRING_OPERATORS @ NUMERIC_OPERATORS
     @ MEMBERSHIP_OPERATORS @ PRESENCE_OPERATORS"

lemmas operator_sets = EQUALITY_OPERATORS_def STRING_OPERATORS_def NUMERIC_OPERATORS_def
  MEMBERSHIP_OPERATORS_def PRESENCE_OPERATORS_def SUPPORTED_OPERATORS_def

fun is_identifier :: "pyval \<Rightarrow> bool" where
  "is_identifier (PStr s) = (0 < length s \<and> length s \<le> MAX_IDENTIFIER_LENGTH)"
| "is_identifier _ = False"

fun is_bounded_string :: "pyval \<Rightarrow> bool" where
  "is_bounded_string (PStr s) = (length s \<le> MAX_STRING_LENGTH)"
| "is_bounded_string _ = False"

text \<open>\<open>float(value)\<close> of an integer or float value; \<open>None\<close> is \<open>OverflowError\<close>.\<close>

fun as_float :: "pyval \<Rightarrow> pyfloat option" where
  "as_float (PInt i) = float_of_int i"
| "as_float (PFloat x) = Some x"
| "as_float _ = None"

fun is_json_number :: "pyval \<Rightarrow> bool" where
  "is_json_number v = (case as_float v of Some x \<Rightarrow> is_finite x | None \<Rightarrow> False)"

fun is_bool :: "pyval \<Rightarrow> bool" where
  "is_bool (PBool _) = True"
| "is_bool _ = False"

definition is_scalar :: "pyval \<Rightarrow> bool" where
  "is_scalar v = (is_bounded_string v \<or> is_bool v \<or> is_json_number v)"

text \<open>The \<open>None\<close> cases of the last line are unreachable: both sides are JSON numbers there.\<close>

definition scalar_equal :: "pyval \<Rightarrow> pyval \<Rightarrow> bool" where
  "scalar_equal left right =
     (if \<not> is_scalar left \<or> \<not> is_scalar right then False
      else if is_bool left \<or> is_bool right then is_bool left \<and> is_bool right \<and> left = right
      else if is_str left \<or> is_str right then is_str left \<and> is_str right \<and> left = right
      else (case (as_float left, as_float right) of
              (Some a, Some b) \<Rightarrow> flt_eq a b | _ \<Rightarrow> False))"

text \<open>
  The numeral grammar \<open>-?(0|[1-9][0-9]*)(\.[0-9]+)?([eE][+-]?[0-9]+)?\<close>, matched against the
  whole string, with the value it denotes.
\<close>

definition is_digit :: "char \<Rightarrow> bool" where
  "is_digit c = (48 \<le> (of_char c :: nat) \<and> (of_char c :: nat) \<le> 57)"

definition digits_val :: "string \<Rightarrow> int" where
  "digits_val ds = foldl (\<lambda>n c. 10 * n + (of_char c - 48)) 0 ds"

definition int_part_ok :: "string \<Rightarrow> bool" where
  "int_part_ok ds = (case ds of [] \<Rightarrow> False | d # r \<Rightarrow> d = CHR ''0'' \<longrightarrow> r = [])"

definition scan_fraction :: "string \<Rightarrow> (string \<times> string) option" where
  "scan_fraction s = (case s of
     c # r \<Rightarrow> if c = CHR ''.'' then
                (if takeWhile is_digit r = [] then None
                 else Some (takeWhile is_digit r, dropWhile is_digit r))
              else Some ([], s)
   | [] \<Rightarrow> Some ([], []))"

definition scan_exponent :: "string \<Rightarrow> int option" where
  "scan_exponent s = (case s of
     [] \<Rightarrow> Some 0
   | c # r \<Rightarrow>
       if c = CHR ''e'' \<or> c = CHR ''E'' then
         (let neg = (case r of d # _ \<Rightarrow> d = CHR ''-'' | [] \<Rightarrow> False);
              ds = (case r of d # t \<Rightarrow> if d = CHR ''-'' \<or> d = CHR ''+'' then t else r | [] \<Rightarrow> r)
          in if ds \<noteq> [] \<and> list_all is_digit ds
             then Some (if neg then - digits_val ds else digits_val ds) else None)
       else None)"

definition pow10 :: "int \<Rightarrow> rat" where
  "pow10 e = (if 0 \<le> e then 10 ^ nat e else 1 / 10 ^ nat (- e))"

definition parse_numeral :: "string \<Rightarrow> rat option" where
  "parse_numeral s =
     (let neg = (case s of c # _ \<Rightarrow> c = CHR ''-'' | [] \<Rightarrow> False);
          s1 = (if neg then tl s else s);
          ip = takeWhile is_digit s1
      in if \<not> int_part_ok ip then None
         else case scan_fraction (dropWhile is_digit s1) of
                None \<Rightarrow> None
              | Some (fs, s3) \<Rightarrow>
                  (case scan_exponent s3 of
                     None \<Rightarrow> None
                   | Some e \<Rightarrow>
                       let m = of_int (digits_val (ip @ fs)) * pow10 (e - int (length fs))
                       in Some (if neg then - m else m)))"

definition parse_numeric :: "pyval \<Rightarrow> pyfloat option" where
  "parse_numeric v =
     (if is_json_number v then as_float v
      else (case v of
              PStr s \<Rightarrow>
                if is_bounded_string v then
                  (case parse_numeral s of
                     None \<Rightarrow> None
                   | Some r \<Rightarrow> if is_finite (to_float r) then Some (to_float r) else None)
                else None
            | _ \<Rightarrow> None))"

fun is_membership_list :: "pyval \<Rightarrow> bool" where
  "is_membership_list (PList vs) =
     (0 < length vs \<and> length vs \<le> MAX_MEMBERSHIP_VALUES \<and> list_all is_scalar vs)"
| "is_membership_list _ = False"

definition is_condition_value_valid :: "string \<Rightarrow> pyval \<Rightarrow> bool" where
  "is_condition_value_valid operator value =
     (if operator \<in> set EQUALITY_OPERATORS then is_scalar value
      else if operator \<in> set STRING_OPERATORS then is_bounded_string value
      else if operator \<in> set NUMERIC_OPERATORS then parse_numeric value \<noteq> None
      else if operator \<in> set MEMBERSHIP_OPERATORS then is_membership_list value
      else False)"

section \<open>Weighted-variant contract\<close>

abbreviation (input) MAX_VARIANTS :: nat where "MAX_VARIANTS \<equiv> 10"
abbreviation (input) MAX_VARIANT_WEIGHT :: int where "MAX_VARIANT_WEIGHT \<equiv> 9007199254740991"
abbreviation (input) MAX_TOTAL_VARIANT_WEIGHT :: int where "MAX_TOTAL_VARIANT_WEIGHT \<equiv> 9007199254740991"

datatype variant_error =
    NoVariants
  | TooManyVariants
  | BadWeight
  | TotalTooLarge
  | NoPositiveWeight

fun weight_total :: "int \<Rightarrow> pyval list \<Rightarrow> (variant_error, int) result" where
  "weight_total tot [] = Inr tot"
| "weight_total tot (PInt w # ws) =
     (if w < 0 \<or> MAX_VARIANT_WEIGHT < w then Inl BadWeight
      else if MAX_TOTAL_VARIANT_WEIGHT < tot + w then Inl TotalTooLarge
      else weight_total (tot + w) ws)"
| "weight_total tot (_ # ws) = Inl BadWeight"

definition validate_variant_weight_contract :: "pyval list \<Rightarrow> (variant_error, unit) result" where
  "validate_variant_weight_contract weights =
     (if weights = [] then Inl NoVariants
      else if MAX_VARIANTS < length weights then Inl TooManyVariants
      else case weight_total 0 weights of
             Inl e \<Rightarrow> Inl e
           | Inr tot \<Rightarrow> if tot \<le> 0 then Inl NoPositiveWeight else Inr ())"

text \<open>The contract as a condition on the list, used by the statements.\<close>

definition weight_ok :: "pyval \<Rightarrow> bool" where
  "weight_ok v = (case v of PInt w \<Rightarrow> 0 \<le> w \<and> w \<le> MAX_VARIANT_WEIGHT | _ \<Rightarrow> False)"

fun weight_val :: "pyval \<Rightarrow> int" where
  "weight_val (PInt w) = w"
| "weight_val _ = 0"

section \<open>Lemmas: scalars\<close>

lemma scalar_equal_sym: "scalar_equal a b = scalar_equal b a"
proof -
  have eq: "flt_eq x y = flt_eq y x" for x y by (cases x; cases y) auto
  show ?thesis
    by (auto simp: scalar_equal_def eq split: option.splits)
qed

lemma scalar_equal_refl: "is_scalar a \<Longrightarrow> scalar_equal a a"
  by (auto simp: scalar_equal_def is_scalar_def split: option.splits elim: is_finite.elims)
    (cases a; auto)+

lemma parse_numeric_finite:
  assumes "parse_numeric v = Some x"
  obtains r where "x = Fin r"
proof -
  from assms have "is_finite x"
    by (auto simp: parse_numeric_def split: if_splits option.splits pyval.splits)
  with that show ?thesis by (cases x) auto
qed

lemma is_identifier_iff:
  "is_identifier v \<longleftrightarrow> (\<exists>s. v = PStr s \<and> s \<noteq> [] \<and> length s \<le> MAX_IDENTIFIER_LENGTH)"
  by (cases v) auto

lemma is_bounded_string_iff:
  "is_bounded_string v \<longleftrightarrow> (\<exists>s. v = PStr s \<and> length s \<le> MAX_STRING_LENGTH)"
  by (cases v) auto

section \<open>Lemmas: weights\<close>

lemma weight_ok_PInt [simp]: "weight_ok (PInt w) \<longleftrightarrow> 0 \<le> w \<and> w \<le> MAX_VARIANT_WEIGHT"
  by (simp add: weight_ok_def)

lemma weight_sum_nonneg: "list_all weight_ok ws \<Longrightarrow> 0 \<le> sum_list (map weight_val ws)"
  by (induction ws) (auto simp: weight_ok_def split: pyval.splits)

lemma weight_total_Inr_iff:
  assumes "0 \<le> tot" "tot \<le> MAX_TOTAL_VARIANT_WEIGHT"
  shows "weight_total tot ws = Inr t \<longleftrightarrow>
    list_all weight_ok ws \<and> t = tot + sum_list (map weight_val ws)
    \<and> t \<le> MAX_TOTAL_VARIANT_WEIGHT"
  using assms
proof (induction tot ws rule: weight_total.induct)
  case (2 tot w ws)
  show ?case
  proof (cases "0 \<le> w \<and> w \<le> MAX_VARIANT_WEIGHT \<and> tot + w \<le> MAX_TOTAL_VARIANT_WEIGHT")
    case True
    with 2 show ?thesis by auto
  next
    case False
    then show ?thesis
      using weight_sum_nonneg [of ws] by auto
  qed
qed (auto simp: weight_ok_def)

lemma validate_variant_weight_contract_iff:
  "validate_variant_weight_contract ws = Inr () \<longleftrightarrow>
     0 < length ws \<and> length ws \<le> MAX_VARIANTS \<and> list_all weight_ok ws
     \<and> 0 < sum_list (map weight_val ws)
     \<and> sum_list (map weight_val ws) \<le> MAX_TOTAL_VARIANT_WEIGHT"
  (is "_ \<longleftrightarrow> ?R")
proof
  assume "validate_variant_weight_contract ws = Inr ()"
  then obtain t where "weight_total 0 ws = Inr t" "0 < t" "ws \<noteq> []" "length ws \<le> MAX_VARIANTS"
    by (auto simp: validate_variant_weight_contract_def split: if_splits sum.splits)
  then show ?R by (auto simp: weight_total_Inr_iff)
next
  assume ?R
  then have "weight_total 0 ws = Inr (sum_list (map weight_val ws))"
    by (simp add: weight_total_Inr_iff)
  with \<open>?R\<close> show "validate_variant_weight_contract ws = Inr ()"
    by (auto simp: validate_variant_weight_contract_def)
qed

end
