(* ===== verification/FlagModels.thy ===== *)
theory FlagModels
  imports Contracts "HOL-Library.Monad_Syntax"
begin

text \<open>
  The SDK's flag models (\<open>sdk/python/apdl/flags/models.py\<close>) and the parser of the Config
  payload (\<open>sdk/python/apdl/flags/parse.py\<close>). A pydantic model is a \<open>record\<close>, its
  \<open>model_validate\<close> a function to \<open>option\<close> (\<open>None\<close> is \<open>ValidationError\<close>) that checks
  the declared field bounds, \<open>extra="forbid"\<close> and the validators written in the source.
  Pydantic's scalar coercions are not code of the repository: they are the parameter
  \<open>pydantic\<close>, and \<open>pydantic_ok\<close> states what is documented of them on values that already
  have the declared type.
\<close>

section \<open>Models\<close>

record pydantic =
  lax_float :: "pyval \<Rightarrow> pyfloat option"
  strict_float :: "pyval \<Rightarrow> pyfloat option"
  lax_bool :: "pyval \<Rightarrow> bool option"
  lax_int :: "pyval \<Rightarrow> int option"

definition pydantic_ok :: "pydantic \<Rightarrow> bool" where
  "pydantic_ok py \<longleftrightarrow>
     (\<forall>r. lax_float py (PFloat (Fin r)) = Some (Fin r))
     \<and> (\<forall>r. strict_float py (PFloat (Fin r)) = Some (Fin r))
     \<and> (\<forall>b. lax_bool py (PBool b) = Some b)
     \<and> (\<forall>i. lax_int py (PInt i) = Some i)"

datatype condition_operator =
    EQUALS | NOT_EQUALS | GT | GTE | LT | LTE | CONTAINS | NOT_CONTAINS
  | STARTS_WITH | ENDS_WITH | IN_OP | NOT_IN | EXISTS | NOT_EXISTS

fun op_value :: "condition_operator \<Rightarrow> string" where
  "op_value EQUALS = ''equals''"
| "op_value NOT_EQUALS = ''not_equals''"
| "op_value GT = ''gt''"
| "op_value GTE = ''gte''"
| "op_value LT = ''lt''"
| "op_value LTE = ''lte''"
| "op_value CONTAINS = ''contains''"
| "op_value NOT_CONTAINS = ''not_contains''"
| "op_value STARTS_WITH = ''starts_with''"
| "op_value ENDS_WITH = ''ends_with''"
| "op_value IN_OP = ''in''"
| "op_value NOT_IN = ''not_in''"
| "op_value EXISTS = ''exists''"
| "op_value NOT_EXISTS = ''not_exists''"

definition all_operators :: "condition_operator list" where
  "all_operators = [EQUALS, NOT_EQUALS, GT, GTE, LT, LTE, CONTAINS, NOT_CONTAINS,
     STARTS_WITH, ENDS_WITH, IN_OP, NOT_IN, EXISTS, NOT_EXISTS]"

definition op_of_value :: "string \<Rightarrow> condition_operator option" where
  "op_of_value s = List.find (\<lambda>p. op_value p = s) all_operators"

definition is_presence :: "condition_operator \<Rightarrow> bool" where
  "is_presence p = (p = EXISTS \<or> p = NOT_EXISTS)"

record rollout_config =
  ro_percentage :: rat
  ro_bucket_by :: string

record gate_condition =
  gc_attribute :: string
  gc_operator :: condition_operator
  gc_value :: pyval

record gate_rule =
  gr_id :: string
  gr_name :: string
  gr_conditions :: "gate_condition list"
  gr_rollout :: rollout_config

record variant_config =
  vc_key :: string
  vc_weight :: int

record fallthrough_config =
  ft_rollout :: rollout_config

record gate_config =
  g_key :: string
  g_enabled :: bool
  g_default_variant :: string
  g_variants :: "variant_config list"
  g_salt :: string
  g_rules :: "gate_rule list"
  g_fallthrough :: fallthrough_config
  g_version :: int

datatype gate_config_source = Memory | InitialFetch | Sse | LocalStorage | Server

datatype gate_reason =
    NotFound | InvalidConfig | Disabled | ErrorReason | RuleMatch | RuleRollout
  | Fallthrough | FallthroughRollout

record eval_context =
  c_user_id :: "string option"
  c_anonymous_id :: "string option"
  c_attributes :: dict

record gate_evaluation_result =
  r_key :: string
  r_variant :: "string option"
  r_reason :: gate_reason
  r_rule_id :: "string option"
  r_rollout_bucket :: "rat option"
  r_variant_bucket :: "rat option"
  r_rollout_percentage :: "rat option"
  r_bucket_by :: "string option"
  r_config_version :: "int option"
  r_source :: "gate_config_source option"

section \<open>Validation of the models\<close>

definition str_field :: "nat \<Rightarrow> nat \<Rightarrow> pyval \<Rightarrow> string option" where
  "str_field lo hi v = (case v of
     PStr s \<Rightarrow> if lo \<le> length s \<and> length s \<le> hi then Some s else None
   | _ \<Rightarrow> None)"

definition list_field :: "nat \<Rightarrow> nat \<Rightarrow> (pyval \<Rightarrow> 'a option) \<Rightarrow> pyval \<Rightarrow> 'a list option" where
  "list_field lo hi p v = (case v of
     PList vs \<Rightarrow> if lo \<le> length vs \<and> length vs \<le> hi then those (map p vs) else None
   | _ \<Rightarrow> None)"

definition dict_fields :: "string list \<Rightarrow> pyval \<Rightarrow> dict option" where
  "dict_fields ks v = (case v of
     PDict d \<Rightarrow> if keys_within d ks then Some d else None
   | _ \<Rightarrow> None)"

definition percentage_field :: "(pyval \<Rightarrow> pyfloat option) \<Rightarrow> pyval \<Rightarrow> rat option" where
  "percentage_field coerce v = (case coerce v of
     Some (Fin r) \<Rightarrow> if 0 \<le> r \<and> r \<le> 100 then Some r else None
   | _ \<Rightarrow> None)"

definition int_field :: "int \<Rightarrow> int option \<Rightarrow> pyval \<Rightarrow> int option" where
  "int_field lo hi v = (case v of
     PInt i \<Rightarrow> if lo \<le> i \<and> (case hi of None \<Rightarrow> True | Some h \<Rightarrow> i \<le> h) then Some i else None
   | _ \<Rightarrow> None)"

definition parse_rollout :: "pydantic \<Rightarrow> pyval \<Rightarrow> rollout_config option" where
  "parse_rollout py v = do {
     d \<leftarrow> dict_fields [''percentage'', ''bucket_by''] v;
     p \<leftarrow> map_of d ''percentage'' \<bind> percentage_field (lax_float py);
     b \<leftarrow> map_of d ''bucket_by'' \<bind> str_field 1 MAX_IDENTIFIER_LENGTH;
     Some \<lparr>ro_percentage = p, ro_bucket_by = b\<rparr> }"

text \<open>The two validators of a condition: the raw value's presence, then the operator's value.\<close>

definition check_value_presence :: "dict \<Rightarrow> bool" where
  "check_value_presence d =
     (if dget d ''operator'' = PStr ''exists'' \<or> dget d ''operator'' = PStr ''not_exists''
      then \<not> has_key d ''value''
      else has_key d ''value'' \<and> dget d ''value'' \<noteq> PNone)"

definition check_operator_value :: "gate_condition \<Rightarrow> bool" where
  "check_operator_value c =
     (is_presence (gc_operator c)
      \<or> is_condition_value_valid (op_value (gc_operator c)) (gc_value c))"

definition parse_condition :: "pyval \<Rightarrow> gate_condition option" where
  "parse_condition v = do {
     d \<leftarrow> dict_fields [''attribute'', ''operator'', ''value''] v;
     _ \<leftarrow> (if check_value_presence d then Some () else None);
     a \<leftarrow> map_of d ''attribute'' \<bind> str_field 1 MAX_IDENTIFIER_LENGTH;
     p \<leftarrow> (case map_of d ''operator'' of Some (PStr s) \<Rightarrow> op_of_value s | _ \<Rightarrow> None);
     let c = \<lparr>gc_attribute = a, gc_operator = p, gc_value = dget d ''value''\<rparr>;
     if check_operator_value c then Some c else None }"

definition parse_rule :: "pydantic \<Rightarrow> pyval \<Rightarrow> gate_rule option" where
  "parse_rule py v = do {
     d \<leftarrow> dict_fields [''id'', ''name'', ''conditions'', ''rollout''] v;
     i \<leftarrow> map_of d ''id'' \<bind> str_field 1 MAX_IDENTIFIER_LENGTH;
     n \<leftarrow> str_field 0 MAX_STRING_LENGTH (dget_default d ''name'' (PStr ''''));
     cs \<leftarrow> map_of d ''conditions'' \<bind> list_field 0 MAX_CONDITIONS_PER_RULE parse_condition;
     r \<leftarrow> map_of d ''rollout'' \<bind> parse_rollout py;
     Some \<lparr>gr_id = i, gr_name = n, gr_conditions = cs, gr_rollout = r\<rparr> }"

definition parse_variant :: "pyval \<Rightarrow> variant_config option" where
  "parse_variant v = do {
     d \<leftarrow> dict_fields [''key'', ''weight''] v;
     k \<leftarrow> map_of d ''key'' \<bind> str_field 1 MAX_IDENTIFIER_LENGTH;
     w \<leftarrow> map_of d ''weight'' \<bind> int_field 0 (Some MAX_VARIANT_WEIGHT);
     Some \<lparr>vc_key = k, vc_weight = w\<rparr> }"

definition parse_fallthrough :: "pydantic \<Rightarrow> pyval \<Rightarrow> fallthrough_config option" where
  "parse_fallthrough py v = do {
     d \<leftarrow> dict_fields [''rollout''] v;
     r \<leftarrow> map_of d ''rollout'' \<bind> parse_rollout py;
     Some \<lparr>ft_rollout = r\<rparr> }"

datatype variants_error = WeightContract variant_error | DuplicateKeys | UnknownDefault

fun unique_keys :: "string list \<Rightarrow> variant_config list \<Rightarrow> string list option" where
  "unique_keys ks [] = Some ks"
| "unique_keys ks (v # vs) =
     (if vc_key v \<in> set ks then None else unique_keys (vc_key v # ks) vs)"

definition validate_variants ::
    "variant_config list \<Rightarrow> string \<Rightarrow> (variants_error, unit) result" where
  "validate_variants variants default_variant =
     (case validate_variant_weight_contract (map (PInt \<circ> vc_weight) variants) of
        Inl e \<Rightarrow> Inl (WeightContract e)
      | Inr _ \<Rightarrow>
          (case unique_keys [] variants of
             None \<Rightarrow> Inl DuplicateKeys
           | Some ks \<Rightarrow> if default_variant \<in> set ks then Inr () else Inl UnknownDefault))"

definition gate_config_keys :: "string list" where
  "gate_config_keys = [''key'', ''enabled'', ''default_variant'', ''variants'', ''salt'',
     ''rules'', ''fallthrough'', ''version'']"

definition parse_gate_config :: "pydantic \<Rightarrow> pyval \<Rightarrow> gate_config option" where
  "parse_gate_config py v = do {
     d \<leftarrow> dict_fields gate_config_keys v;
     k \<leftarrow> map_of d ''key'' \<bind> str_field 1 MAX_IDENTIFIER_LENGTH;
     e \<leftarrow> map_of d ''enabled'' \<bind> lax_bool py;
     dv \<leftarrow> map_of d ''default_variant'' \<bind> str_field 1 MAX_IDENTIFIER_LENGTH;
     vs \<leftarrow> map_of d ''variants'' \<bind> list_field 1 MAX_VARIANTS parse_variant;
     s \<leftarrow> map_of d ''salt'' \<bind> str_field 0 MAX_STRING_LENGTH;
     rs \<leftarrow> map_of d ''rules'' \<bind> list_field 0 MAX_RULES (parse_rule py);
     ft \<leftarrow> map_of d ''fallthrough'' \<bind> parse_fallthrough py;
     ver \<leftarrow> map_of d ''version'' \<bind> int_field 1 None;
     if validate_variants vs dv = Inr ()
     then Some \<lparr>g_key = k, g_enabled = e, g_default_variant = dv, g_variants = vs, g_salt = s,
                g_rules = rs, g_fallthrough = ft, g_version = ver\<rparr>
     else None }"

text \<open>The context's own validator: bounded identities, identifier keys, bounded strings.\<close>

definition validate_eval_context :: "eval_context \<Rightarrow> bool" where
  "validate_eval_context ctx =
     ((case c_user_id ctx of None \<Rightarrow> True | Some s \<Rightarrow> length s \<le> MAX_IDENTIFIER_LENGTH)
      \<and> (case c_anonymous_id ctx of None \<Rightarrow> True | Some s \<Rightarrow> length s \<le> MAX_IDENTIFIER_LENGTH)
      \<and> list_all (\<lambda>(k, v). is_identifier (PStr k)
                   \<and> (case v of PStr s \<Rightarrow> length s \<le> MAX_STRING_LENGTH | _ \<Rightarrow> True))
          (c_attributes ctx))"

section \<open>The collection envelope\<close>

record flag_config_parse_result =
  pr_project_id :: string
  pr_flags :: "gate_config list"
  pr_invalid_keys :: "string list"

text \<open>\<open>v == n\<close> for a Python integer \<open>n\<close>: booleans and floats compare by value.\<close>

fun py_eq_int :: "pyval \<Rightarrow> int \<Rightarrow> bool" where
  "py_eq_int (PInt i) n = (i = n)"
| "py_eq_int (PBool b) n = ((if b then 1 else 0) = n)"
| "py_eq_int (PFloat (Fin r)) n = (r = of_int n)"
| "py_eq_int _ n = False"

definition extract_candidates :: "pyval \<Rightarrow> (string \<times> pyval list) option" where
  "extract_candidates data = (case data of
     PDict d \<Rightarrow>
       if \<not> keys_within d [''schema_version'', ''project_id'', ''flags''] then None
       else if \<not> py_eq_int (dget d ''schema_version'') 2 then None
       else (case dget d ''project_id'' of
               PStr p \<Rightarrow>
                 if p = [] then None
                 else (case dget d ''flags'' of PList fs \<Rightarrow> Some (p, fs) | _ \<Rightarrow> None)
             | _ \<Rightarrow> None)
   | _ \<Rightarrow> None)"

fun parse_candidates ::
    "pydantic \<Rightarrow> flag_config_parse_result \<Rightarrow> pyval list \<Rightarrow> flag_config_parse_result option" where
  "parse_candidates py res [] = Some res"
| "parse_candidates py res (c # cs) =
     (case parse_gate_config py c of
        Some g \<Rightarrow> parse_candidates py (res\<lparr>pr_flags := pr_flags res @ [g]\<rparr>) cs
      | None \<Rightarrow>
          (case c of
             PDict d \<Rightarrow>
               (case dget d ''key'' of
                  PStr k \<Rightarrow>
                    if k = [] then None
                    else parse_candidates py
                           (res\<lparr>pr_invalid_keys := pr_invalid_keys res @ [k]\<rparr>) cs
                | _ \<Rightarrow> None)
           | _ \<Rightarrow> None))"

definition parse_flag_config_result :: "pydantic \<Rightarrow> pyval \<Rightarrow> flag_config_parse_result option" where
  "parse_flag_config_result py data =
     (case extract_candidates data of
        None \<Rightarrow> None
      | Some (p, cs) \<Rightarrow>
          parse_candidates py \<lparr>pr_project_id = p, pr_flags = [], pr_invalid_keys = []\<rparr> cs)"

definition parse_flag_configs :: "pydantic \<Rightarrow> pyval \<Rightarrow> gate_config list option" where
  "parse_flag_configs py data =
     (case parse_flag_config_result py data of
        None \<Rightarrow> None
      | Some res \<Rightarrow> if pr_invalid_keys res \<noteq> [] then None else Some (pr_flags res))"

section \<open>Well-formed configurations\<close>

text \<open>What the declared bounds and validators guarantee of a parsed configuration.\<close>

definition rollout_ok :: "rollout_config \<Rightarrow> bool" where
  "rollout_ok r \<longleftrightarrow> 0 \<le> ro_percentage r \<and> ro_percentage r \<le> 100
     \<and> is_identifier (PStr (ro_bucket_by r))"

definition condition_ok :: "gate_condition \<Rightarrow> bool" where
  "condition_ok c \<longleftrightarrow> is_identifier (PStr (gc_attribute c)) \<and> check_operator_value c
     \<and> (is_presence (gc_operator c) \<longrightarrow> gc_value c = PNone)"

definition rule_ok :: "gate_rule \<Rightarrow> bool" where
  "rule_ok r \<longleftrightarrow> is_identifier (PStr (gr_id r)) \<and> is_bounded_string (PStr (gr_name r))
     \<and> length (gr_conditions r) \<le> MAX_CONDITIONS_PER_RULE
     \<and> list_all condition_ok (gr_conditions r) \<and> rollout_ok (gr_rollout r)"

definition variants_ok :: "variant_config list \<Rightarrow> string \<Rightarrow> bool" where
  "variants_ok vs dv \<longleftrightarrow>
     0 < length vs \<and> length vs \<le> MAX_VARIANTS
     \<and> list_all (\<lambda>v. is_identifier (PStr (vc_key v)) \<and> 0 \<le> vc_weight v) vs
     \<and> distinct (map vc_key vs) \<and> dv \<in> vc_key ` set vs
     \<and> 0 < sum_list (map vc_weight vs)
     \<and> sum_list (map vc_weight vs) \<le> MAX_TOTAL_VARIANT_WEIGHT"

definition gate_config_ok :: "gate_config \<Rightarrow> bool" where
  "gate_config_ok g \<longleftrightarrow>
     is_identifier (PStr (g_key g)) \<and> is_identifier (PStr (g_default_variant g))
     \<and> variants_ok (g_variants g) (g_default_variant g)
     \<and> is_bounded_string (PStr (g_salt g))
     \<and> length (g_rules g) \<le> MAX_RULES \<and> list_all rule_ok (g_rules g)
     \<and> rollout_ok (ft_rollout (g_fallthrough g)) \<and> 1 \<le> g_version g"

lemmas ok_defs = rollout_ok_def condition_ok_def rule_ok_def variants_ok_def gate_config_ok_def

text \<open>
  Sample inputs: coercions that accept exactly the declared types (numbers for a float), and a
  payload with one valid and one invalid candidate.
\<close>

definition plain_pydantic :: pydantic where
  "plain_pydantic = \<lparr>lax_float = as_float, strict_float = as_float,
     lax_bool = (\<lambda>v. case v of PBool b \<Rightarrow> Some b | _ \<Rightarrow> None),
     lax_int = (\<lambda>v. case v of PInt i \<Rightarrow> Some i | _ \<Rightarrow> None)\<rparr>"

definition sample_flag_payload :: pyval where
  "sample_flag_payload = PDict
     [(''key'', PStr ''f''), (''enabled'', PBool True), (''default_variant'', PStr ''off''),
      (''variants'', PList [PDict [(''key'', PStr ''off''), (''weight'', PInt 1)],
                            PDict [(''key'', PStr ''on''), (''weight'', PInt 1)]]),
      (''salt'', PStr ''s''),
      (''rules'', PList [PDict
         [(''id'', PStr ''r1''),
          (''conditions'', PList [PDict [(''attribute'', PStr ''plan''), (''operator'', PStr ''equals''),
                                         (''value'', PStr ''pro'')]]),
          (''rollout'', PDict [(''percentage'', PFloat (Fin 50)), (''bucket_by'', PStr ''user_id'')])]]),
      (''fallthrough'', PDict [(''rollout'',
         PDict [(''percentage'', PFloat (Fin 10)), (''bucket_by'', PStr ''user_id'')])]),
      (''version'', PInt 3)]"

definition sample_payload :: pyval where
  "sample_payload = PDict
     [(''schema_version'', PInt 2), (''project_id'', PStr ''demo''),
      (''flags'', PList [sample_flag_payload, PDict [(''key'', PStr ''broken'')]])]"

section \<open>Lemmas: fields\<close>

lemma op_of_value_op_value [simp]: "op_of_value (op_value p) = Some p"
  by (cases p) (simp_all add: op_of_value_def all_operators_def)

lemma op_of_value_Some: "op_of_value s = Some p \<Longrightarrow> s = op_value p"
  by (auto simp: op_of_value_def find_Some_iff)

lemma str_field_Some_iff:
  "str_field lo hi v = Some s \<longleftrightarrow> v = PStr s \<and> lo \<le> length s \<and> length s \<le> hi"
  by (auto simp: str_field_def split: pyval.splits)

lemma str_field_identifier:
  "str_field (Suc 0) MAX_IDENTIFIER_LENGTH v = Some s \<longleftrightarrow> v = PStr s \<and> is_identifier v"
  by (auto simp: str_field_Some_iff Suc_le_eq)

lemma int_field_Some_iff:
  "int_field lo hi v = Some i \<longleftrightarrow> v = PInt i \<and> lo \<le> i \<and> (\<forall>h. hi = Some h \<longrightarrow> i \<le> h)"
  by (auto simp: int_field_def split: pyval.splits option.splits)

lemma dict_fields_Some_iff: "dict_fields ks v = Some d \<longleftrightarrow> v = PDict d \<and> keys_within d ks"
  by (auto simp: dict_fields_def split: pyval.splits)

lemma percentage_field_Some:
  "percentage_field f v = Some r \<Longrightarrow> f v = Some (Fin r) \<and> 0 \<le> r \<and> r \<le> 100"
  by (auto simp: percentage_field_def split: option.splits pyfloat.splits if_splits)

lemma list_field_Some:
  assumes "list_field lo hi p v = Some ys"
  obtains vs where "v = PList vs" "length ys = length vs" "lo \<le> length ys" "length ys \<le> hi"
    "\<forall>y \<in> set ys. \<exists>x \<in> set vs. p x = Some y"
  using assms those_map_SomeD [of p _ ys]
  by (auto simp: list_field_def split: pyval.splits if_splits)

lemmas field_simps_py = bind_eq_Some_conv dict_fields_Some_iff str_field_identifier
  str_field_Some_iff int_field_Some_iff

section \<open>Lemmas: the validators\<close>

lemma unique_keys_Some_iff:
  "unique_keys ks vs = Some r \<longleftrightarrow>
     distinct (map vc_key vs) \<and> set ks \<inter> vc_key ` set vs = {} \<and> r = rev (map vc_key vs) @ ks"
  by (induction ks vs rule: unique_keys.induct) auto

lemma weights_ok_iff:
  "list_all weight_ok (map (PInt \<circ> vc_weight) vs) \<longleftrightarrow>
     list_all (\<lambda>v. 0 \<le> vc_weight v \<and> vc_weight v \<le> MAX_VARIANT_WEIGHT) vs"
  by (simp add: list_all_iff)

lemma weight_vals [simp]: "weight_val \<circ> (PInt \<circ> vc_weight) = vc_weight"
  by (simp add: fun_eq_iff)

lemma validate_variants_Inr_iff:
  "validate_variants vs dv = Inr () \<longleftrightarrow>
     validate_variant_weight_contract (map (PInt \<circ> vc_weight) vs) = Inr ()
     \<and> distinct (map vc_key vs) \<and> dv \<in> vc_key ` set vs"
proof (cases "unique_keys [] vs")
  case None
  then have "\<not> distinct (map vc_key vs)"
    using unique_keys_Some_iff [of "[]" vs] by auto
  then show ?thesis using None by (auto simp: validate_variants_def split: sum.splits)
next
  case (Some r)
  then have "distinct (map vc_key vs)" "set r = vc_key ` set vs"
    using unique_keys_Some_iff [of "[]" vs] by auto
  then show ?thesis using Some by (auto simp: validate_variants_def split: sum.splits)
qed

lemma parse_rollout_ok: "parse_rollout py v = Some r \<Longrightarrow> rollout_ok r"
  by (auto simp: parse_rollout_def rollout_ok_def field_simps_py dest!: percentage_field_Some)

lemma parse_condition_ok: "parse_condition v = Some c \<Longrightarrow> condition_ok c"
  by (auto simp: parse_condition_def condition_ok_def field_simps_py Let_def
      check_value_presence_def is_presence_def has_key_def
      split: if_splits option.splits pyval.splits dest!: op_of_value_Some)

lemma parse_rule_ok: "parse_rule py v = Some r \<Longrightarrow> rule_ok r"
  by (fastforce simp: parse_rule_def rule_ok_def field_simps_py list_all_iff
      elim!: list_field_Some dest: parse_condition_ok parse_rollout_ok)

lemma parse_variant_ok:
  "parse_variant v = Some c \<Longrightarrow> is_identifier (PStr (vc_key c)) \<and> 0 \<le> vc_weight c"
  by (auto simp: parse_variant_def field_simps_py)

lemma parse_fallthrough_ok: "parse_fallthrough py v = Some f \<Longrightarrow> rollout_ok (ft_rollout f)"
  by (auto simp: parse_fallthrough_def field_simps_py dest: parse_rollout_ok)

lemma validate_variants_ok:
  assumes "validate_variants vs dv = Inr ()"
    and "\<forall>v \<in> set vs. is_identifier (PStr (vc_key v)) \<and> 0 \<le> vc_weight v"
  shows "variants_ok vs dv"
  using assms
  by (simp add: variants_ok_def validate_variants_Inr_iff validate_variant_weight_contract_iff
      list_all_iff)

lemma parse_gate_config_ok:
  assumes "parse_gate_config py v = Some g"
  shows "gate_config_ok g"
  using assms
  by (fastforce simp: parse_gate_config_def gate_config_ok_def field_simps_py list_all_iff
      split: if_splits elim!: list_field_Some intro!: validate_variants_ok
      dest: parse_rule_ok parse_variant_ok parse_fallthrough_ok)

section \<open>Lemmas: the collection\<close>

lemma parse_candidates_Some:
  assumes "parse_candidates py r cs = Some res"
  shows "pr_project_id res = pr_project_id r
    \<and> pr_flags res = pr_flags r @ List.map_filter (parse_gate_config py) cs
    \<and> length (pr_invalid_keys res)
        = length (pr_invalid_keys r) + length (filter (\<lambda>c. parse_gate_config py c = None) cs)
    \<and> (list_all (\<lambda>k. k \<noteq> []) (pr_invalid_keys r) \<longrightarrow> list_all (\<lambda>k. k \<noteq> []) (pr_invalid_keys res))"
  using assms
proof (induction cs arbitrary: r)
  case (Cons c cs)
  then show ?case
    by (cases "parse_gate_config py c")
      (fastforce simp: map_filter_simps split: pyval.splits if_splits)+
qed (simp add: map_filter_simps)

lemma map_filter_ok:
  "list_all gate_config_ok (List.map_filter (parse_gate_config py) cs)"
  by (auto simp: map_filter_def list_all_iff dest: parse_gate_config_ok)

section \<open>Properties\<close>

text \<open>
  A payload the SDK accepts yields, in order, exactly the candidates that are valid
  configurations, each within every declared bound, and one non-empty invalid key for every
  other candidate, so nothing is dropped silently.
\<close>

theorem parse_flag_config_result_sound:
  assumes "parse_flag_config_result py data = Some res"
  shows "\<exists>p cs. extract_candidates data = Some (p, cs) \<and> pr_project_id res = p \<and> p \<noteq> ''''
    \<and> pr_flags res = List.map_filter (parse_gate_config py) cs
    \<and> list_all gate_config_ok (pr_flags res)
    \<and> list_all (\<lambda>k. k \<noteq> '''') (pr_invalid_keys res)
    \<and> length (pr_flags res) + length (pr_invalid_keys res) = length cs"
proof -
  from assms obtain p cs where c: "extract_candidates data = Some (p, cs)"
    "parse_candidates py \<lparr>pr_project_id = p, pr_flags = [], pr_invalid_keys = []\<rparr> cs = Some res"
    by (auto simp: parse_flag_config_result_def split: option.splits)
  have p: "p \<noteq> ''''"
    using c(1) by (auto simp: extract_candidates_def split: pyval.splits if_splits)
  have len: "length (List.map_filter f xs) + length (filter (\<lambda>c. f c = None) xs) = length xs"
    for f :: "pyval \<Rightarrow> gate_config option" and xs
    by (induction xs) (auto simp: map_filter_simps split: option.splits)
  show ?thesis
    using c p parse_candidates_Some [OF c(2)] map_filter_ok [of py cs]
      len [of "parse_gate_config py" cs] by auto
qed

theorem parse_flag_config_result_sound_witness:
  "\<exists>res. parse_flag_config_result plain_pydantic sample_payload = Some res
     \<and> pr_invalid_keys res = [''broken''] \<and> length (pr_flags res) = 1"
proof -
  have "map_option pr_invalid_keys (parse_flag_config_result plain_pydantic sample_payload)
      = Some [''broken'']" by code_simp
  then obtain res where r: "parse_flag_config_result plain_pydantic sample_payload = Some res"
    "pr_invalid_keys res = [''broken'']" by auto
  have "map_option (length \<circ> snd) (extract_candidates sample_payload) = Some 2" by code_simp
  with r show ?thesis using parse_flag_config_result_sound [OF r(1)] by auto
qed

text \<open>
  C33. Parsing a single configuration succeeds only on one that satisfies every bound and
  cross-field rule of the models: identifier lengths, at most 50 rules of 20 conditions with
  values of the operator's kind, percentages between 0 and 100, distinct variant keys that
  include the default, and a positive total weight that a binary64 holds exactly.
\<close>

theorem parse_gate_config_valid:
  assumes "parse_gate_config py v = Some g"
  shows "gate_config_ok g \<and> fl (of_int (sum_list (map vc_weight (g_variants g))))
           = of_int (sum_list (map vc_weight (g_variants g)))"
proof -
  have g: "gate_config_ok g" using assms by (rule parse_gate_config_ok)
  then have "0 < sum_list (map vc_weight (g_variants g))"
    "sum_list (map vc_weight (g_variants g)) \<le> MAX_TOTAL_VARIANT_WEIGHT"
    by (simp_all add: gate_config_ok_def variants_ok_def)
  then show ?thesis using g by (auto intro!: fl_of_int)
qed

theorem parse_gate_config_valid_witness:
  "\<exists>g. parse_gate_config plain_pydantic sample_flag_payload = Some g \<and> gate_config_ok g"
proof -
  have "parse_gate_config plain_pydantic sample_flag_payload \<noteq> None" by code_simp
  then show ?thesis
    using parse_gate_config_valid [of plain_pydantic sample_flag_payload] by auto
qed

end
