(* ===== verification/FlagCache.thy ===== *)
theory FlagCache
  imports FlagModels
begin

text \<open>
  The SDK's in-memory flag store, \<open>sdk/python/apdl/flags/cache.py\<close>. The three dictionaries
  are insertion-ordered association lists; a listener is a value of any type compared by
  equality, and an operation that notifies returns the calls it makes, in order (exceptions of
  a listener are swallowed by the source, so they do not change the calls that follow). Every
  method runs under one re-entrant lock, so a method is one atomic step.
\<close>

record 'l flag_cache =
  fc_flags :: "(string \<times> gate_config) list"
  fc_sources :: "(string \<times> gate_config_source) list"
  fc_invalid_sources :: "(string \<times> gate_config_source) list"
  fc_version :: int
  fc_listeners :: "'l list"

type_synonym 'l notifications = "('l \<times> gate_config list) list"

definition fc_init :: "'l flag_cache" where
  "fc_init = \<lparr>fc_flags = [], fc_sources = [], fc_invalid_sources = [], fc_version = 0,
     fc_listeners = []\<rparr>"

definition fc_notify :: "'l flag_cache \<Rightarrow> gate_config list \<Rightarrow> 'l notifications" where
  "fc_notify c flags = map (\<lambda>l. (l, flags)) (fc_listeners c)"

definition fc_set ::
    "'l flag_cache \<Rightarrow> gate_config list \<Rightarrow> gate_config_source \<Rightarrow> string list option
     \<Rightarrow> 'l flag_cache \<times> 'l notifications" where
  "fc_set c flags source invalid_keys =
     (let c' = c\<lparr>fc_flags := dict_of (map (\<lambda>f. (g_key f, f)) flags),
                 fc_sources := dict_of (map (\<lambda>f. (g_key f, source)) flags),
                 fc_invalid_sources :=
                   dict_of (map (\<lambda>k. (k, source)) (case invalid_keys of None \<Rightarrow> [] | Some ks \<Rightarrow> ks)),
                 fc_version := fc_version c + 1\<rparr>
      in (c', fc_notify c' (map snd (fc_flags c'))))"

fun mark_invalid_keys ::
    "'l flag_cache \<Rightarrow> string list \<Rightarrow> gate_config_source \<Rightarrow> 'l flag_cache" where
  "mark_invalid_keys c [] source = c"
| "mark_invalid_keys c (k # ks) source =
     mark_invalid_keys
       (c\<lparr>fc_flags := dpop (fc_flags c) k,
          fc_sources := dpop (fc_sources c) k,
          fc_invalid_sources := dset (fc_invalid_sources c) k source\<rparr>) ks source"

definition fc_mark_invalid ::
    "'l flag_cache \<Rightarrow> string list \<Rightarrow> gate_config_source \<Rightarrow> 'l flag_cache \<times> 'l notifications" where
  "fc_mark_invalid c keys source =
     (let c1 = mark_invalid_keys c keys source;
          c' = c1\<lparr>fc_version := fc_version c1 + 1\<rparr>
      in (c', fc_notify c' (map snd (fc_flags c'))))"

definition fc_get :: "'l flag_cache \<Rightarrow> string \<Rightarrow> gate_config option" where
  "fc_get c k = map_of (fc_flags c) k"

definition fc_get_all :: "'l flag_cache \<Rightarrow> gate_config list" where
  "fc_get_all c = map snd (fc_flags c)"

definition fc_get_source :: "'l flag_cache \<Rightarrow> string \<Rightarrow> gate_config_source option" where
  "fc_get_source c k = map_of (fc_sources c) k"

definition fc_is_invalid :: "'l flag_cache \<Rightarrow> string \<Rightarrow> bool" where
  "fc_is_invalid c k = has_key (fc_invalid_sources c) k"

definition fc_get_invalid_source :: "'l flag_cache \<Rightarrow> string \<Rightarrow> gate_config_source option" where
  "fc_get_invalid_source c k = map_of (fc_invalid_sources c) k"

definition fc_get_version :: "'l flag_cache \<Rightarrow> int" where
  "fc_get_version c = fc_version c"

definition fc_on_change :: "'l flag_cache \<Rightarrow> 'l \<Rightarrow> 'l flag_cache" where
  "fc_on_change c l = c\<lparr>fc_listeners := fc_listeners c @ [l]\<rparr>"

definition fc_unsubscribe :: "'l flag_cache \<Rightarrow> 'l \<Rightarrow> 'l flag_cache" where
  "fc_unsubscribe c l =
     (if l \<in> set (fc_listeners c) then c\<lparr>fc_listeners := remove1 l (fc_listeners c)\<rparr> else c)"

text \<open>
  The cache's invariant: flags are stored under their own key, each is a validated
  configuration, and exactly the stored flags have a source.
\<close>

definition cache_ok :: "'l flag_cache \<Rightarrow> bool" where
  "cache_ok c \<longleftrightarrow>
     distinct (map fst (fc_flags c))
     \<and> list_all (\<lambda>(k, g). g_key g = k \<and> gate_config_ok g) (fc_flags c)
     \<and> fst ` set (fc_sources c) = fst ` set (fc_flags c)"

datatype 'l cache_op =
    OpSet "gate_config list" gate_config_source "string list option"
  | OpMarkInvalid "string list" gate_config_source
  | OpOnChange 'l
  | OpUnsubscribe 'l

fun fc_step :: "'l flag_cache \<Rightarrow> 'l cache_op \<Rightarrow> 'l flag_cache" where
  "fc_step c (OpSet fs src ik) = fst (fc_set c fs src ik)"
| "fc_step c (OpMarkInvalid ks src) = fst (fc_mark_invalid c ks src)"
| "fc_step c (OpOnChange l) = fc_on_change c l"
| "fc_step c (OpUnsubscribe l) = fc_unsubscribe c l"

definition fc_run :: "'l flag_cache \<Rightarrow> 'l cache_op list \<Rightarrow> 'l flag_cache" where
  "fc_run c ops = foldl fc_step c ops"

text \<open>Every flag handed to \<open>set\<close> went through \<open>GateConfig.model_validate\<close>.\<close>

fun op_validated :: "'l cache_op \<Rightarrow> bool" where
  "op_validated (OpSet fs _ _) = list_all gate_config_ok fs"
| "op_validated _ = True"

section \<open>Lemmas\<close>

lemma list_all_dict_of:
  assumes "list_all P e"
  shows "list_all P (dict_of e)"
proof -
  have dset: "list_all P d \<Longrightarrow> P (k, v) \<Longrightarrow> list_all P (dset d k v)" for d k v
    by (induction d k v rule: dset.induct) auto
  have "list_all P d \<Longrightarrow> list_all P e \<Longrightarrow> list_all P (dmerge d e)" for d
    unfolding dmerge_def by (induction e arbitrary: d) (simp_all add: dset)
  with assms show ?thesis by (simp add: dict_of_def)
qed

lemma dom_dict_of [simp]: "fst ` set (dict_of e) = fst ` set e"
proof -
  have "fst ` set (dmerge d e) = fst ` set d \<union> fst ` set e" for d
    unfolding dmerge_def by (induction e arbitrary: d) auto
  then show ?thesis by (simp add: dict_of_def)
qed

lemma dom_dpop [simp]: "fst ` set (dpop d k) = fst ` set d - {k}"
  by (auto simp: dpop_def)

lemma list_all_dpop: "list_all P d \<Longrightarrow> list_all P (dpop d k)"
  by (simp add: dpop_def list_all_iff)

lemma cache_ok_init [simp]: "cache_ok fc_init"
  by (simp add: cache_ok_def fc_init_def)

lemma cache_ok_frame:
  "fc_flags c' = fc_flags c \<Longrightarrow> fc_sources c' = fc_sources c \<Longrightarrow> cache_ok c \<Longrightarrow> cache_ok c'"
  by (simp add: cache_ok_def)

lemma cache_ok_set [inv_intros]:
  assumes "list_all gate_config_ok fs"
  shows "cache_ok (fst (fc_set c fs src ik))"
proof -
  have "list_all (\<lambda>(k, g). g_key g = k \<and> gate_config_ok g) (dict_of (map (\<lambda>f. (g_key f, f)) fs))"
    using assms by (intro list_all_dict_of) (simp add: list_all_iff)
  then show ?thesis by (simp add: cache_ok_def fc_set_def Let_def image_image)
qed

lemma cache_ok_pop:
  "cache_ok c \<Longrightarrow>
   cache_ok (c\<lparr>fc_flags := dpop (fc_flags c) k, fc_sources := dpop (fc_sources c) k,
               fc_invalid_sources := d\<rparr>)"
  by (simp add: cache_ok_def list_all_dpop)

lemma mark_invalid_keys_ok:
  "cache_ok c \<Longrightarrow> cache_ok (mark_invalid_keys c ks src)"
  by (induction ks arbitrary: c) (simp_all add: cache_ok_pop)

lemma cache_ok_mark_invalid [inv_intros]:
  assumes "cache_ok c"
  shows "cache_ok (fst (fc_mark_invalid c ks src))"
  using mark_invalid_keys_ok [OF assms, of ks src]
  by (rule cache_ok_frame [rotated 2]) (simp_all add: fc_mark_invalid_def Let_def)

lemma cache_ok_listeners [inv_intros]:
  "cache_ok c \<Longrightarrow> cache_ok (fc_on_change c l)"
  "cache_ok c \<Longrightarrow> cache_ok (fc_unsubscribe c l)"
  by (simp_all add: fc_on_change_def fc_unsubscribe_def cache_ok_def)

lemma cache_ok_step: "cache_ok c \<Longrightarrow> op_validated x \<Longrightarrow> cache_ok (fc_step c x)"
  by (cases x) (auto intro: inv_intros)

lemma cache_ok_run:
  "cache_ok c \<Longrightarrow> list_all op_validated ops \<Longrightarrow> cache_ok (fc_run c ops)"
  unfolding fc_run_def by (induction ops arbitrary: c) (auto intro: cache_ok_step)

lemma mark_invalid_keys_flags:
  "map_of (fc_flags (mark_invalid_keys c ks src)) k =
     (if k \<in> set ks then None else map_of (fc_flags c) k)"
  by (induction ks arbitrary: c) auto

lemma mark_invalid_keys_invalid:
  "map_of (fc_invalid_sources (mark_invalid_keys c ks src)) k =
     (if k \<in> set ks then Some src else map_of (fc_invalid_sources c) k)"
  by (induction ks arbitrary: c) auto

lemma mark_invalid_keys_sources:
  "map_of (fc_sources (mark_invalid_keys c ks src)) k =
     (if k \<in> set ks then None else map_of (fc_sources c) k)"
  by (induction ks arbitrary: c) auto

section \<open>The interface the evaluator uses\<close>

text \<open>
  What the evaluator may rely on when it looks a flag up: a found flag is the one stored
  under the requested key, validated, with a source, and a key is invalid exactly when it has
  an invalid source.
\<close>

locale flag_store =
  fixes get :: "'s \<Rightarrow> string \<Rightarrow> gate_config option"
    and get_source :: "'s \<Rightarrow> string \<Rightarrow> gate_config_source option"
    and is_invalid :: "'s \<Rightarrow> string \<Rightarrow> bool"
    and get_invalid_source :: "'s \<Rightarrow> string \<Rightarrow> gate_config_source option"
    and invar :: "'s \<Rightarrow> bool"
  assumes get_key: "invar s \<Longrightarrow> get s k = Some g \<Longrightarrow> g_key g = k"
    and get_valid: "invar s \<Longrightarrow> get s k = Some g \<Longrightarrow> gate_config_ok g"
    and get_has_source: "invar s \<Longrightarrow> get s k = Some g \<Longrightarrow> get_source s k \<noteq> None"
    and invalid_iff: "is_invalid s k \<longleftrightarrow> get_invalid_source s k \<noteq> None"

interpretation cache: flag_store fc_get fc_get_source fc_is_invalid fc_get_invalid_source cache_ok
proof unfold_locales
  fix c :: "'l flag_cache" and k g
  assume c: "cache_ok c" "fc_get c k = Some g"
  then have kg: "(k, g) \<in> set (fc_flags c)" by (simp add: fc_get_def map_of_SomeD)
  with c show "g_key g = k" "gate_config_ok g"
    by (auto simp: cache_ok_def list_all_iff)
  from kg have "k \<in> fst ` set (fc_flags c)" by force
  with c show "fc_get_source c k \<noteq> None"
    by (simp add: cache_ok_def fc_get_source_def map_of_eq_None_iff)
next
  fix c :: "'l flag_cache" and k
  show "fc_is_invalid c k \<longleftrightarrow> fc_get_invalid_source c k \<noteq> None"
    by (simp add: fc_is_invalid_def has_key_def fc_get_invalid_source_def)
qed

end
