(* ===== verification/SdkEvaluator.thy ===== *)
theory SdkEvaluator
  imports Hashing FlagCache
begin

text \<open>
  The SDK's local evaluator, \<open>sdk/python/apdl/flags/evaluator.py\<close>. The cache the evaluator
  holds is used through its four read methods, so the evaluation is defined over those
  methods (\<open>evaluate_in\<close>) and \<open>sdk_evaluate\<close> is the instance at a \<open>flag_cache\<close>; the
  general facts are proved in the locale \<open>flag_store\<close>.
\<close>

section \<open>Weighted assignment\<close>

fun assign_loop :: "rat \<Rightarrow> int \<Rightarrow> string option \<Rightarrow> variant_config list \<Rightarrow> string option" where
  "assign_loop target cumulative last_positive [] = last_positive"
| "assign_loop target cumulative last_positive (v # vs) =
     (if vc_weight v \<le> 0 then assign_loop target cumulative last_positive vs
      else let cumulative' = cumulative + vc_weight v
           in if target < of_int cumulative' then Some (vc_key v)
              else assign_loop target cumulative' (Some (vc_key v)) vs)"

definition assignment_target :: "rat \<Rightarrow> int \<Rightarrow> rat" where
  "assignment_target variant_bucket total_weight =
     fl (fl (variant_bucket / 100) * fl (of_int total_weight))"

definition assign_weighted_variant :: "variant_config list \<Rightarrow> rat \<Rightarrow> string option" where
  "assign_weighted_variant variants variant_bucket =
     (case validate_variant_weight_contract (map (PInt \<circ> vc_weight) variants) of
        Inl _ \<Rightarrow> None
      | Inr _ \<Rightarrow>
          let total_weight = sum_list (map vc_weight variants)
          in assign_loop (assignment_target variant_bucket total_weight) 0 None variants)"

section \<open>Matching\<close>

definition resolve_attribute :: "string \<Rightarrow> eval_context \<Rightarrow> bool \<times> pyval" where
  "resolve_attribute attribute ctx =
     (if attribute = ''user_id''
      then (case c_user_id ctx of None \<Rightarrow> (False, PNone) | Some s \<Rightarrow> (True, PStr s))
      else if attribute = ''anonymous_id''
      then (case c_anonymous_id ctx of None \<Rightarrow> (False, PNone) | Some s \<Rightarrow> (True, PStr s))
      else let value = dget (c_attributes ctx) attribute
           in if value \<noteq> PNone then (True, value) else (False, PNone))"

definition compare_numeric :: "condition_operator \<Rightarrow> pyval \<Rightarrow> pyval \<Rightarrow> bool" where
  "compare_numeric p actual expected =
     (case (parse_numeric actual, parse_numeric expected) of
        (Some a, Some b) \<Rightarrow>
          if p = GT then flt_less b a
          else if p = GTE then flt_leq b a
          else if p = LT then flt_less a b
          else flt_leq a b
      | _ \<Rightarrow> False)"

text \<open>\<open>expected in actual\<close> and its kin, on two strings (both are strings where it is used).\<close>

fun str_test :: "(string \<Rightarrow> string \<Rightarrow> bool) \<Rightarrow> pyval \<Rightarrow> pyval \<Rightarrow> bool" where
  "str_test f (PStr a) (PStr e) = f a e"
| "str_test f _ _ = False"

fun any_equal :: "pyval \<Rightarrow> pyval \<Rightarrow> bool" where
  "any_equal actual (PList items) = list_ex (scalar_equal actual) items"
| "any_equal actual _ = False"

definition matches_condition :: "gate_condition \<Rightarrow> eval_context \<Rightarrow> bool" where
  "matches_condition condition ctx =
     (case resolve_attribute (gc_attribute condition) ctx of (exists, actual) \<Rightarrow>
       let p = gc_operator condition; expected = gc_value condition in
       if p = EXISTS then exists \<and> actual \<noteq> PNone
       else if p = NOT_EXISTS then \<not> exists \<or> actual = PNone
       else if \<not> exists then False
       else if \<not> is_condition_value_valid (op_value p) expected then False
       else if p = EQUALS then scalar_equal actual expected
       else if p = NOT_EQUALS then is_scalar actual \<and> \<not> scalar_equal actual expected
       else if p = CONTAINS then is_bounded_string actual \<and> str_test contains_str actual expected
       else if p = NOT_CONTAINS
         then is_bounded_string actual \<and> \<not> str_test contains_str actual expected
       else if p = STARTS_WITH then is_bounded_string actual \<and> str_test starts_with actual expected
       else if p = ENDS_WITH then is_bounded_string actual \<and> str_test ends_with actual expected
       else if p = IN_OP
         then is_scalar actual \<and> is_membership_list expected \<and> any_equal actual expected
       else if p = NOT_IN
         then is_scalar actual \<and> is_membership_list expected \<and> \<not> any_equal actual expected
       else compare_numeric p actual expected)"

definition matches_rule :: "gate_condition list \<Rightarrow> eval_context \<Rightarrow> bool" where
  "matches_rule conditions ctx = list_all (\<lambda>c. matches_condition c ctx) conditions"

section \<open>Rollout and assignment\<close>

definition unit_id :: "eval_context \<Rightarrow> string \<Rightarrow> string" where
  "unit_id ctx bucket_by =
     (if \<not> is_identifier (PStr bucket_by) then ''''
      else case resolve_attribute bucket_by ctx of (exists, value) \<Rightarrow>
        if exists \<and> is_identifier value then (case value of PStr s \<Rightarrow> s | _ \<Rightarrow> '''') else '''')"

definition apply_rollout ::
    "gate_config \<Rightarrow> rollout_config \<Rightarrow> eval_context \<Rightarrow> bool \<times> rat option \<times> rat \<times> string" where
  "apply_rollout flag rollout ctx =
     (let u = unit_id ctx (ro_bucket_by rollout)
      in if u = '''' then (False, None, ro_percentage rollout, ro_bucket_by rollout)
         else let bucket = percentage_bucket (g_key flag) (g_salt flag @ '':rollout'') u
              in (bucket < ro_percentage rollout, Some bucket, ro_percentage rollout,
                  ro_bucket_by rollout))"

definition assign_variant :: "gate_config \<Rightarrow> eval_context \<Rightarrow> string \<Rightarrow> string \<times> rat option" where
  "assign_variant flag ctx bucket_by =
     (let u = unit_id ctx bucket_by
      in if u = '''' then (g_default_variant flag, None)
         else let vb = percentage_bucket (g_key flag) (g_salt flag @ '':variant'') u
              in ((case assign_weighted_variant (g_variants flag) vb of
                     None \<Rightarrow> g_default_variant flag
                   | Some v \<Rightarrow> if v = '''' then g_default_variant flag else v), Some vb))"

section \<open>Evaluation\<close>

definition base_result :: "gate_config \<Rightarrow> gate_config_source option \<Rightarrow> gate_evaluation_result" where
  "base_result flag source =
     \<lparr>r_key = g_key flag, r_variant = Some (g_default_variant flag), r_reason = Disabled,
      r_rule_id = None, r_rollout_bucket = None, r_variant_bucket = None,
      r_rollout_percentage = None, r_bucket_by = None,
      r_config_version = Some (g_version flag), r_source = source\<rparr>"

text \<open>
  The outcome of a matched rollout, for a rule (\<open>rule_id = Some _\<close>) or the fallthrough: the
  three \<open>return\<close>s of the source in each place, with the reasons of that place.
\<close>

definition rollout_result ::
    "gate_config \<Rightarrow> gate_config_source option \<Rightarrow> eval_context \<Rightarrow> rollout_config \<Rightarrow> string option
     \<Rightarrow> gate_reason \<Rightarrow> gate_reason \<Rightarrow> gate_evaluation_result" where
  "rollout_result flag source ctx rollout rule_id on_pass on_fail =
     (case apply_rollout flag rollout ctx of (passed, bucket, percentage, bucket_by) \<Rightarrow>
        if bucket = None
        then (base_result flag source)\<lparr>r_reason := ErrorReason, r_rule_id := rule_id,
               r_rollout_percentage := Some percentage, r_bucket_by := Some bucket_by\<rparr>
        else if passed
        then (case assign_variant flag ctx bucket_by of (variant, variant_bucket) \<Rightarrow>
               (base_result flag source)\<lparr>r_variant := Some variant, r_reason := on_pass,
                 r_rule_id := rule_id, r_rollout_bucket := bucket,
                 r_variant_bucket := variant_bucket, r_rollout_percentage := Some percentage,
                 r_bucket_by := Some bucket_by\<rparr>)
        else (base_result flag source)\<lparr>r_reason := on_fail, r_rule_id := rule_id,
               r_rollout_bucket := bucket, r_rollout_percentage := Some percentage,
               r_bucket_by := Some bucket_by\<rparr>)"

fun evaluate_rules ::
    "gate_config \<Rightarrow> gate_config_source option \<Rightarrow> eval_context \<Rightarrow> gate_rule list
     \<Rightarrow> gate_evaluation_result" where
  "evaluate_rules flag source ctx [] =
     rollout_result flag source ctx (ft_rollout (g_fallthrough flag)) None
       Fallthrough FallthroughRollout"
| "evaluate_rules flag source ctx (rule # rules) =
     (if \<not> matches_rule (gr_conditions rule) ctx then evaluate_rules flag source ctx rules
      else rollout_result flag source ctx (gr_rollout rule) (Some (gr_id rule))
             RuleMatch RuleRollout)"

definition evaluate_flag ::
    "gate_config \<Rightarrow> gate_config_source option \<Rightarrow> eval_context \<Rightarrow> gate_evaluation_result" where
  "evaluate_flag flag source ctx =
     (if \<not> g_enabled flag then base_result flag source
      else evaluate_rules flag source ctx (g_rules flag))"

definition missing_result ::
    "string \<Rightarrow> gate_reason \<Rightarrow> gate_config_source option \<Rightarrow> gate_evaluation_result" where
  "missing_result key reason source =
     \<lparr>r_key = key, r_variant = None, r_reason = reason, r_rule_id = None,
      r_rollout_bucket = None, r_variant_bucket = None, r_rollout_percentage = None,
      r_bucket_by = None, r_config_version = None, r_source = source\<rparr>"

definition evaluate_in ::
    "(string \<Rightarrow> gate_config option) \<Rightarrow> (string \<Rightarrow> gate_config_source option) \<Rightarrow> (string \<Rightarrow> bool)
     \<Rightarrow> (string \<Rightarrow> gate_config_source option) \<Rightarrow> string \<Rightarrow> eval_context
     \<Rightarrow> gate_evaluation_result" where
  "evaluate_in get get_source is_invalid get_invalid_source key ctx =
     (case get key of
        None \<Rightarrow>
          if is_invalid key
          then missing_result key InvalidConfig (get_invalid_source key)
          else missing_result key NotFound None
      | Some flag \<Rightarrow> evaluate_flag flag (get_source (g_key flag)) ctx)"

definition sdk_evaluate :: "'l flag_cache \<Rightarrow> string \<Rightarrow> eval_context \<Rightarrow> gate_evaluation_result" where
  "sdk_evaluate c key ctx =
     evaluate_in (fc_get c) (fc_get_source c) (fc_is_invalid c) (fc_get_invalid_source c) key ctx"

section \<open>Vocabulary of the statements\<close>

text \<open>
  The specification of the weighted choice: the positive variants partition the half-open
  interval from 0 to the total weight in list order, and a target at or past the end goes to
  the last positive variant.
\<close>

fun weight_before :: "variant_config list \<Rightarrow> string \<Rightarrow> int" where
  "weight_before [] k = 0"
| "weight_before (v # vs) k = (if vc_key v = k then 0 else vc_weight v + weight_before vs k)"

definition positive_variants :: "variant_config list \<Rightarrow> variant_config list" where
  "positive_variants vs = filter (\<lambda>v. 0 < vc_weight v) vs"

text \<open>
  \<open>ramped g g'\<close>: \<open>g'\<close> is \<open>g\<close> with some rollout percentages raised (and possibly a new
  version), everything that assignment depends on unchanged.
\<close>

definition rollout_raised :: "rollout_config \<Rightarrow> rollout_config \<Rightarrow> bool" where
  "rollout_raised r r' \<longleftrightarrow>
     ro_bucket_by r' = ro_bucket_by r \<and> ro_percentage r \<le> ro_percentage r'"

definition rule_raised :: "gate_rule \<Rightarrow> gate_rule \<Rightarrow> bool" where
  "rule_raised r r' \<longleftrightarrow>
     gr_id r' = gr_id r \<and> gr_conditions r' = gr_conditions r
     \<and> rollout_raised (gr_rollout r) (gr_rollout r')"

definition ramped :: "gate_config \<Rightarrow> gate_config \<Rightarrow> bool" where
  "ramped g g' \<longleftrightarrow>
     g_key g' = g_key g \<and> g_salt g' = g_salt g \<and> g_enabled g' = g_enabled g
     \<and> g_variants g' = g_variants g \<and> g_default_variant g' = g_default_variant g
     \<and> list_all2 rule_raised (g_rules g) (g_rules g')
     \<and> rollout_raised (ft_rollout (g_fallthrough g)) (ft_rollout (g_fallthrough g'))"

text \<open>A sample flag and its ramp, for concrete evaluations.\<close>

definition demo_flag :: gate_config where
  "demo_flag = \<lparr>g_key = ''f'', g_enabled = True, g_default_variant = ''off'',
     g_variants = [\<lparr>vc_key = ''off'', vc_weight = 0\<rparr>, \<lparr>vc_key = ''on'', vc_weight = 1\<rparr>],
     g_salt = ''s'', g_rules = [],
     g_fallthrough = \<lparr>ft_rollout = \<lparr>ro_percentage = 60, ro_bucket_by = ''user_id''\<rparr>\<rparr>,
     g_version = 1\<rparr>"

definition demo_ctx :: "string \<Rightarrow> eval_context" where
  "demo_ctx u = \<lparr>c_user_id = Some u, c_anonymous_id = None, c_attributes = []\<rparr>"

definition demo_ramped :: gate_config where
  "demo_ramped = demo_flag\<lparr>g_version := 2,
     g_fallthrough := \<lparr>ft_rollout = \<lparr>ro_percentage = 100, ro_bucket_by = ''user_id''\<rparr>\<rparr>\<rparr>"

section \<open>Lemmas: weighted assignment\<close>

lemma assign_loop_range:
  "assign_loop t c l vs = Some k \<Longrightarrow> Some k = l \<or> (\<exists>v \<in> set vs. vc_key v = k \<and> 0 < vc_weight v)"
  by (induction t c l vs rule: assign_loop.induct) (auto simp: Let_def split: if_splits)

lemma assign_loop_defined:
  "l \<noteq> None \<or> (\<exists>v \<in> set vs. 0 < vc_weight v) \<Longrightarrow> assign_loop t c l vs \<noteq> None"
  by (induction t c l vs rule: assign_loop.induct) (auto simp: Let_def)

lemma sum_pos_ex:
  "0 < sum_list (map vc_weight vs) \<Longrightarrow> \<exists>v \<in> set vs. 0 < vc_weight v"
proof (rule ccontr)
  assume pos: "0 < sum_list (map vc_weight vs)" and none: "\<not> (\<exists>v \<in> set vs. 0 < vc_weight v)"
  have "sum_list (map vc_weight vs) \<le> 0"
    using none by (intro sum_list_nonpos) auto
  with pos show False by simp
qed

lemma weights_total_pos:
  "validate_variant_weight_contract (map (PInt \<circ> vc_weight) vs) = Inr ()
   \<Longrightarrow> 0 < sum_list (map vc_weight vs)"
  by (simp add: validate_variant_weight_contract_iff)

lemma assign_weighted_variant_Some:
  assumes "validate_variant_weight_contract (map (PInt \<circ> vc_weight) vs) = Inr ()"
  obtains v where "v \<in> set vs" "0 < vc_weight v" "assign_weighted_variant vs b = Some (vc_key v)"
proof -
  let ?r = "assign_loop (assignment_target b (sum_list (map vc_weight vs))) 0 None vs"
  have "?r \<noteq> None"
    using sum_pos_ex [OF weights_total_pos [OF assms]] by (intro assign_loop_defined) simp
  then obtain k where k: "?r = Some k" by blast
  with assign_loop_range [OF k] that show ?thesis
    using assms by (auto simp: assign_weighted_variant_def)
qed

lemma variants_ok_contract:
  assumes "variants_ok vs dv"
  shows "validate_variant_weight_contract (map (PInt \<circ> vc_weight) vs) = Inr ()"
proof -
  have le: "vc_weight v \<le> MAX_VARIANT_WEIGHT" if "v \<in> set vs" for v
  proof -
    have "vc_weight v \<le> sum_list (map vc_weight vs)"
      using that assms by (intro member_le_sum_list) (auto simp: variants_ok_def list_all_iff)
    then show ?thesis using assms by (simp add: variants_ok_def)
  qed
  with assms show ?thesis
    by (auto simp: variants_ok_def validate_variant_weight_contract_iff list_all_iff)
qed

lemma assign_variant_in:
  assumes "gate_config_ok g"
  shows "fst (assign_variant g ctx b) \<in> vc_key ` set (g_variants g)"
proof -
  have vs: "variants_ok (g_variants g) (g_default_variant g)"
    using assms by (simp add: gate_config_ok_def)
  have dv: "g_default_variant g \<in> vc_key ` set (g_variants g)"
    using vs by (simp add: variants_ok_def)
  obtain v where "v \<in> set (g_variants g)"
    "assign_weighted_variant (g_variants g)
       (percentage_bucket (g_key g) (g_salt g @ '':variant'') (unit_id ctx b)) = Some (vc_key v)"
    using assign_weighted_variant_Some [OF variants_ok_contract [OF vs]] by metis
  with dv show ?thesis by (auto simp: assign_variant_def Let_def)
qed

section \<open>Lemmas: results\<close>

lemma base_result_simps [simp]:
  "r_key (base_result g s) = g_key g" "r_variant (base_result g s) = Some (g_default_variant g)"
  "r_reason (base_result g s) = Disabled" "r_source (base_result g s) = s"
  "r_config_version (base_result g s) = Some (g_version g)" "r_rule_id (base_result g s) = None"
  "r_rollout_bucket (base_result g s) = None" "r_variant_bucket (base_result g s) = None"
  "r_rollout_percentage (base_result g s) = None" "r_bucket_by (base_result g s) = None"
  by (simp_all add: base_result_def)

lemma rollout_result_common:
  "r_key (rollout_result g s ctx ro i p f) = g_key g"
  "r_source (rollout_result g s ctx ro i p f) = s"
  "r_config_version (rollout_result g s ctx ro i p f) = Some (g_version g)"
  "r_rule_id (rollout_result g s ctx ro i p f) = i"
  "\<exists>v. r_variant (rollout_result g s ctx ro i p f) = Some v"
  by (simp_all add: rollout_result_def split: prod.splits)

lemma rollout_result_variant:
  assumes "gate_config_ok g"
  shows "the (r_variant (rollout_result g s ctx ro i p f)) \<in> vc_key ` set (g_variants g)"
proof -
  have "g_default_variant g \<in> vc_key ` set (g_variants g)"
    using assms by (simp add: gate_config_ok_def variants_ok_def)
  then show ?thesis
    using assign_variant_in [OF assms]
    by (auto simp: rollout_result_def split: prod.splits) (metis fst_conv)+
qed

lemma evaluate_rules_common:
  "r_key (evaluate_rules g s ctx rs) = g_key g"
  "r_source (evaluate_rules g s ctx rs) = s"
  "r_config_version (evaluate_rules g s ctx rs) = Some (g_version g)"
  "\<exists>v. r_variant (evaluate_rules g s ctx rs) = Some v"
  by (induction rs) (simp_all add: rollout_result_common)

lemma evaluate_rules_variant:
  "gate_config_ok g \<Longrightarrow> the (r_variant (evaluate_rules g s ctx rs)) \<in> vc_key ` set (g_variants g)"
  by (induction rs) (simp_all add: rollout_result_variant)

lemma evaluate_flag_variant:
  assumes "gate_config_ok g"
  shows "the (r_variant (evaluate_flag g s ctx)) \<in> vc_key ` set (g_variants g)"
  using assms evaluate_rules_variant [OF assms]
  by (auto simp: evaluate_flag_def gate_config_ok_def variants_ok_def)

lemma rollout_result_reason:
  "r_reason (rollout_result g s ctx ro i p f) \<in> {ErrorReason, p, f}"
  by (simp add: rollout_result_def split: prod.splits)

lemma evaluate_flag_reason:
  "r_reason (evaluate_flag g s ctx) \<noteq> NotFound \<and> r_reason (evaluate_flag g s ctx) \<noteq> InvalidConfig"
proof -
  have "r_reason (evaluate_rules g s ctx rs) \<noteq> NotFound
      \<and> r_reason (evaluate_rules g s ctx rs) \<noteq> InvalidConfig" for rs
  proof (induction rs)
    case Nil
    show ?case
      using rollout_result_reason [of g s ctx "ft_rollout (g_fallthrough g)" None Fallthrough
          FallthroughRollout] by auto
  next
    case (Cons r rs)
    then show ?case
      using rollout_result_reason [of g s ctx "gr_rollout r" "Some (gr_id r)" RuleMatch RuleRollout]
      by auto
  qed
  then show ?thesis by (simp add: evaluate_flag_def)
qed

lemma evaluate_flag_common:
  "r_key (evaluate_flag g s ctx) = g_key g"
  "r_source (evaluate_flag g s ctx) = s"
  "r_config_version (evaluate_flag g s ctx) = Some (g_version g)"
  "\<exists>v. r_variant (evaluate_flag g s ctx) = Some v"
  by (simp_all add: evaluate_flag_def evaluate_rules_common)

section \<open>Evaluation over any store that keeps the interface\<close>

context flag_store
begin

lemma evaluate_key:
  "invar s \<Longrightarrow>
   r_key (evaluate_in (get s) (get_source s) (is_invalid s) (get_invalid_source s) k ctx) = k"
  by (auto simp: evaluate_in_def missing_result_def evaluate_flag_common get_key
      split: option.splits)

lemma evaluate_variant:
  assumes "invar s" "get s k = Some g"
  shows "\<exists>v \<in> set (g_variants g).
    r_variant (evaluate_in (get s) (get_source s) (is_invalid s) (get_invalid_source s) k ctx)
      = Some (vc_key v)"
  using evaluate_flag_variant [OF get_valid [OF assms], of "get_source s (g_key g)" ctx]
    evaluate_flag_common(4) [of g "get_source s (g_key g)" ctx] assms(2)
  by (auto simp: evaluate_in_def)

lemma evaluate_variant_None_iff:
  "r_variant (evaluate_in (get s) (get_source s) (is_invalid s) (get_invalid_source s) k ctx) = None
   \<longleftrightarrow> r_reason (evaluate_in (get s) (get_source s) (is_invalid s) (get_invalid_source s) k ctx)
         \<in> {NotFound, InvalidConfig}"
proof (cases "get s k")
  case (Some g)
  then show ?thesis
    using evaluate_flag_common(4) [of g "get_source s (g_key g)" ctx]
      evaluate_flag_reason [of g "get_source s (g_key g)" ctx]
    by (auto simp: evaluate_in_def)
qed (simp add: evaluate_in_def missing_result_def)

lemma evaluate_source:
  "invar s \<Longrightarrow>
   r_source (evaluate_in (get s) (get_source s) (is_invalid s) (get_invalid_source s) k ctx) = None
   \<longleftrightarrow> get s k = None \<and> \<not> is_invalid s k"
  using invalid_iff [of s k]
  by (auto simp: evaluate_in_def missing_result_def evaluate_flag_common get_key
      dest: get_has_source split: option.splits)

end

section \<open>Lemmas: the intervals of the weighted choice\<close>

lemma weight_before_nonneg:
  "list_all (\<lambda>v. 0 \<le> vc_weight v) vs \<Longrightarrow> 0 \<le> weight_before vs k"
  by (induction vs) auto

lemma positive_variants_simps [simp]:
  "positive_variants [] = []"
  "positive_variants (v # vs) =
     (if 0 < vc_weight v then v # positive_variants vs else positive_variants vs)"
  by (simp_all add: positive_variants_def)

lemma positive_variants_empty_iff: "positive_variants vs = [] \<longleftrightarrow> (\<forall>v \<in> set vs. \<not> 0 < vc_weight v)"
  by (simp add: positive_variants_def filter_empty_conv)

lemma assign_loop_from_list:
  "positive_variants vs \<noteq> [] \<Longrightarrow> assign_loop t c l vs = Some k \<Longrightarrow> k \<in> vc_key ` set vs"
proof (induction t c l vs rule: assign_loop.induct)
  case (2 t c l v vs)
  then show ?case
    using assign_loop_range [of t "c + vc_weight v" "Some (vc_key v)" vs k]
    by (auto simp: Let_def split: if_splits)
qed simp

lemma assign_loop_no_positive: "positive_variants vs = [] \<Longrightarrow> assign_loop t c l vs = l"
  by (induction t c l vs rule: assign_loop.induct) (auto split: if_splits)

lemma assign_loop_interval:
  assumes "distinct (map vc_key vs)" "list_all (\<lambda>v. 0 \<le> vc_weight v) vs"
    and "of_int c \<le> t" "v \<in> set vs" "l \<notin> Some ` vc_key ` set vs"
  shows "assign_loop t c l vs = Some (vc_key v) \<longleftrightarrow>
    0 < vc_weight v \<and> of_int (c + weight_before vs (vc_key v)) \<le> t
    \<and> (t < of_int (c + weight_before vs (vc_key v) + vc_weight v)
       \<or> v = last (positive_variants vs))"
  using assms
proof (induction vs arbitrary: c l)
  case (Cons u us)
  note d = Cons.prems
  have fresh: "vc_key u \<notin> vc_key ` set us" using d(1) by auto
  have other: "vc_key u \<noteq> vc_key v \<longleftrightarrow> v \<in> set us" "v \<noteq> u \<longleftrightarrow> v \<in> set us"
    using d(1,4) by (auto simp: image_iff)
  have wb: "0 \<le> weight_before us (vc_key v)"
    using d(2) by (intro weight_before_nonneg) simp
  show ?case
  proof (cases "0 < vc_weight u")
    case False
    then have u0: "vc_weight u = 0" using d(2) by simp
    show ?thesis
    proof (cases "v = u")
      case True
      have "assign_loop t c l us \<noteq> Some (vc_key u)"
        using assign_loop_range [of t c l us "vc_key u"] d(5) fresh by (auto simp: image_iff) metis
      with True u0 show ?thesis by simp
    next
      case False
      then have v: "v \<in> set us" using other by simp
      then show ?thesis
        using Cons.IH [of c l] d u0 other by simp
    qed
  next
    case True
    note pos = this
    let ?c = "c + vc_weight u"
    show ?thesis
    proof (cases "t < of_int ?c")
      case True
      have "\<not> of_int (c + (vc_weight u + weight_before us (vc_key v))) \<le> t"
        using True wb by (simp add: not_le)
      with True pos d(3) other show ?thesis by (cases "v = u") (auto simp: Let_def)
    next
      case False
      then have step: "assign_loop t c l (u # us) = assign_loop t ?c (Some (vc_key u)) us"
        using pos by (simp add: Let_def)
      show ?thesis
      proof (cases "v = u")
        case True
        have "assign_loop t ?c (Some (vc_key u)) us = Some (vc_key u)
            \<longleftrightarrow> positive_variants us = []"
          using assign_loop_from_list [of us] assign_loop_no_positive fresh by blast
        moreover have "u = last (u # positive_variants us) \<longleftrightarrow> positive_variants us = []"
          using fresh last_in_set [of "positive_variants us"]
          by (auto simp: positive_variants_def)
        ultimately show ?thesis using True step pos False d(3) by simp
      next
        case False
        then have v: "v \<in> set us" using other by simp
        have "assign_loop t ?c (Some (vc_key u)) us = Some (vc_key v) \<longleftrightarrow>
            0 < vc_weight v \<and> of_int (?c + weight_before us (vc_key v)) \<le> t
            \<and> (t < of_int (?c + weight_before us (vc_key v) + vc_weight v)
               \<or> v = last (positive_variants us))"
          using Cons.IH [of ?c "Some (vc_key u)"] d \<open>\<not> t < of_int ?c\<close> v fresh by force
        moreover have "0 < vc_weight v \<Longrightarrow> positive_variants us \<noteq> []"
          using v by (auto simp: positive_variants_empty_iff)
        ultimately show ?thesis
          using step pos other v by (auto simp: algebra_simps)
      qed
    qed
  qed
qed simp

lemma assignment_target_nonneg: "0 \<le> b \<Longrightarrow> 0 \<le> w \<Longrightarrow> 0 \<le> assignment_target b w"
  unfolding assignment_target_def by (intro fl_nonneg mult_nonneg_nonneg) simp_all

section \<open>Ramping\<close>

lemma ramped_assign: "ramped g g' \<Longrightarrow> assign_variant g' ctx b = assign_variant g ctx b"
  unfolding ramped_def assign_variant_def by (elim conjE) (simp only: Let_def)

lemma ramped_rollout_result:
  assumes "ramped g g'" "rollout_raised ro ro'" "p \<noteq> f" "p \<noteq> ErrorReason"
    and "r_reason (rollout_result g s ctx ro i p f) = p"
  shows "r_reason (rollout_result g' s' ctx ro' i p f) = p
    \<and> r_variant (rollout_result g' s' ctx ro' i p f) = r_variant (rollout_result g s ctx ro i p f)"
proof -
  have k: "g_key g' = g_key g" "g_salt g' = g_salt g" "ro_bucket_by ro' = ro_bucket_by ro"
    "ro_percentage ro \<le> ro_percentage ro'"
    using assms(1,2) by (simp_all add: ramped_def rollout_raised_def)
  have a: "assign_variant g' ctx b = assign_variant g ctx b" for b
    using ramped_assign [OF assms(1)] .
  show ?thesis
    using assms(3-5) k a
    by (auto simp: rollout_result_def apply_rollout_def Let_def split: prod.splits if_splits)
qed

lemma ramped_rules:
  assumes "ramped g g'" "list_all2 rule_raised rs rs'"
    and "r_reason (evaluate_rules g s ctx rs) \<in> {RuleMatch, Fallthrough}"
  shows "r_reason (evaluate_rules g' s' ctx rs') = r_reason (evaluate_rules g s ctx rs)
    \<and> r_variant (evaluate_rules g' s' ctx rs') = r_variant (evaluate_rules g s ctx rs)"
  using assms(2,3)
proof (induction rs rs' rule: list_all2_induct)
  case Nil
  have ft: "rollout_raised (ft_rollout (g_fallthrough g)) (ft_rollout (g_fallthrough g'))"
    using assms(1) by (simp add: ramped_def)
  have "r_reason (evaluate_rules g s ctx []) = Fallthrough"
    using Nil rollout_result_reason [of g s ctx "ft_rollout (g_fallthrough g)" None Fallthrough
        FallthroughRollout] by auto
  then show ?case
    using ramped_rollout_result [OF assms(1) ft, of Fallthrough FallthroughRollout s ctx None s']
    by simp
next
  case (Cons r rs r' rs')
  have r: "gr_conditions r' = gr_conditions r" "gr_id r' = gr_id r"
    "rollout_raised (gr_rollout r) (gr_rollout r')"
    using Cons(1) by (simp_all add: rule_raised_def)
  show ?case
  proof (cases "matches_rule (gr_conditions r) ctx")
    case True
    have "r_reason (evaluate_rules g s ctx (r # rs)) = RuleMatch"
      using Cons.prems True rollout_result_reason [of g s ctx "gr_rollout r" "Some (gr_id r)"
          RuleMatch RuleRollout] by auto
    then show ?thesis
      using True r ramped_rollout_result [OF assms(1) r(3), of RuleMatch RuleRollout s ctx
          "Some (gr_id r)" s'] by simp
  qed (use Cons r in simp)
qed

section \<open>Properties\<close>

text \<open>
  Weighted assignment: the variants with a positive weight partition the interval from 0
  to the total weight in list order, each owning a half-open interval of its own weight, and
  the last positive variant also owns everything from the total on; a variant of weight 0 is
  never assigned.
\<close>

theorem assign_weighted_variant_interval:
  assumes "variants_ok vs dv" "0 \<le> b" "v \<in> set vs"
  defines "t \<equiv> assignment_target b (sum_list (map vc_weight vs))"
    and "lo \<equiv> weight_before vs (vc_key v)"
  shows "assign_weighted_variant vs b = Some (vc_key v) \<longleftrightarrow>
    0 < vc_weight v \<and> of_int lo \<le> t
    \<and> (t < of_int (lo + vc_weight v) \<or> v = last (positive_variants vs))"
proof -
  have t: "of_int 0 \<le> t"
    using assms(1,2) by (auto simp: t_def variants_ok_def intro!: assignment_target_nonneg)
  have "distinct (map vc_key vs)" "list_all (\<lambda>v. 0 \<le> vc_weight v) vs"
    using assms(1) by (auto simp: variants_ok_def list_all_iff)
  then show ?thesis
    using assign_loop_interval [of vs 0 t v None] t assms(3) variants_ok_contract [OF assms(1)]
    by (simp add: assign_weighted_variant_def t_def lo_def)
qed

theorem assign_weighted_variant_interval_witness:
  "assign_weighted_variant
     [\<lparr>vc_key = ''a'', vc_weight = 1\<rparr>, \<lparr>vc_key = ''z'', vc_weight = 0\<rparr>,
      \<lparr>vc_key = ''b'', vc_weight = 3\<rparr>] 25 = Some ''b''"
proof -
  let ?vs = "[\<lparr>vc_key = ''a'', vc_weight = 1\<rparr>, \<lparr>vc_key = ''z'', vc_weight = 0\<rparr>,
      \<lparr>vc_key = ''b'', vc_weight = 3\<rparr>]"
  have ok: "variants_ok ?vs ''a''" by (simp add: variants_ok_def)
  have t: "assignment_target 25 4 = 1" by code_simp
  show ?thesis
    using assign_weighted_variant_interval [OF ok, of 25 "\<lparr>vc_key = ''b'', vc_weight = 3\<rparr>"] t
    by simp
qed

text \<open>
  C27. Ramping is sticky: a unit that a rule or the fallthrough has assigned a variant keeps
  that variant, for the same reason, when rollout percentages are raised.
\<close>

theorem ramp_keeps_variant:
  assumes "ramped g g'" "r_reason (evaluate_flag g s ctx) \<in> {RuleMatch, Fallthrough}"
  shows "r_variant (evaluate_flag g' s' ctx) = r_variant (evaluate_flag g s ctx)
    \<and> r_reason (evaluate_flag g' s' ctx) = r_reason (evaluate_flag g s ctx)"
  using assms ramped_rules [OF assms(1), of "g_rules g" "g_rules g'" s ctx s']
  by (auto simp: evaluate_flag_def ramped_def split: if_splits)

theorem ramp_keeps_variant_witness:
  "r_variant (evaluate_flag demo_ramped None (demo_ctx ''u1'')) = Some ''on''"
proof -
  have r: "ramped demo_flag demo_ramped"
    by (simp add: ramped_def rollout_raised_def demo_ramped_def demo_flag_def)
  have e: "r_reason (evaluate_flag demo_flag None (demo_ctx ''u1'')) = Fallthrough"
    "r_variant (evaluate_flag demo_flag None (demo_ctx ''u1'')) = Some ''on''"
    by code_simp+
  show ?thesis using ramp_keeps_variant [OF r, of None "demo_ctx ''u1''" None] e by simp
qed

text \<open>
  C29. What an application can rely on from a local evaluation, after any sequence of cache
  operations that stores only validated configurations: the result carries the requested key;
  it has no variant exactly when the flag is unknown or its configuration was invalid;
  a variant it has is one the flag declares; and the source is missing exactly for an unknown
  flag.
\<close>

theorem sdk_evaluate_total:
  fixes k :: string and ctx :: eval_context
  assumes "list_all op_validated ops"
  defines "c \<equiv> fc_run fc_init ops"
    and "r \<equiv> sdk_evaluate (fc_run fc_init ops) k ctx"
  shows "r_key r = k
    \<and> (r_variant r = None \<longleftrightarrow> r_reason r \<in> {NotFound, InvalidConfig})
    \<and> (\<forall>g. fc_get c k = Some g \<longrightarrow> (\<exists>v \<in> set (g_variants g). r_variant r = Some (vc_key v)))
    \<and> (r_source r = None \<longleftrightarrow> r_reason r = NotFound)"
proof -
  have c: "cache_ok c" unfolding c_def using assms(1) by (intro cache_ok_run) simp
  have r: "r = evaluate_in (fc_get c) (fc_get_source c) (fc_is_invalid c)
      (fc_get_invalid_source c) k ctx"
    by (simp add: r_def c_def sdk_evaluate_def)
  have nf: "r_reason r = NotFound \<longleftrightarrow> fc_get c k = None \<and> \<not> fc_is_invalid c k"
    using evaluate_flag_reason
    by (auto simp: r evaluate_in_def missing_result_def split: option.splits)
  show ?thesis
    using cache.evaluate_key [OF c] cache.evaluate_variant_None_iff [of c k ctx]
      cache.evaluate_variant [OF c] cache.evaluate_source [OF c] nf
    unfolding r by blast
qed

theorem sdk_evaluate_total_witness:
  "r_variant (sdk_evaluate (fc_run (fc_init :: unit flag_cache)
     [OpSet [demo_flag] InitialFetch None]) ''f'' (demo_ctx ''u1'')) \<noteq> None"
proof -
  let ?ops = "[OpSet [demo_flag] InitialFetch None] :: unit cache_op list"
  have ok: "list_all op_validated ?ops"
    by (simp add: demo_flag_def gate_config_ok_def variants_ok_def rollout_ok_def)
  have "fc_get (fc_run fc_init ?ops) ''f'' = Some demo_flag"
    by (simp add: fc_run_def fc_set_def fc_get_def dict_of_def dmerge_def demo_flag_def Let_def)
  then show ?thesis
    using sdk_evaluate_total [OF ok, of "''f''" "demo_ctx ''u1''"] by auto
qed

text \<open>
  Marking keys invalid: each of the keys evaluates to an invalid configuration with
  the source that reported it, and the evaluation of every other key is what it was.
\<close>

theorem sdk_mark_invalid:
  assumes "cache_ok c"
  shows "sdk_evaluate (fst (fc_mark_invalid c ks src)) k ctx =
     (if k \<in> set ks then missing_result k InvalidConfig (Some src) else sdk_evaluate c k ctx)"
  using cache.get_key [OF assms, of k]
  by (auto simp: sdk_evaluate_def evaluate_in_def fc_mark_invalid_def Let_def fc_get_def
      fc_is_invalid_def has_key_def fc_get_invalid_source_def fc_get_source_def
      mark_invalid_keys_flags mark_invalid_keys_invalid mark_invalid_keys_sources
      split: option.splits)

theorem sdk_mark_invalid_witness:
  "r_reason (sdk_evaluate (fst (fc_mark_invalid (fc_init :: unit flag_cache) [''f''] Sse)) ''f''
     (demo_ctx ''u1'')) = InvalidConfig"
  using sdk_mark_invalid [of "fc_init :: unit flag_cache" "[''f'']" Sse "''f''" "demo_ctx ''u1''"]
  by (simp add: missing_result_def)

text \<open>
  C38. A rollout of 100 percent reaches every identified unit but those whose hash is the
  largest 32-bit value: their bucket is exactly 100, which is not below the percentage,
  although \<open>is_in_rollout\<close> admits everyone at 100.
\<close>

theorem full_rollout_reach:
  assumes "unit_id ctx (ro_bucket_by ro) \<noteq> ''''" "ro_percentage ro = 100"
  shows "(fst (apply_rollout g ro ctx) \<longleftrightarrow>
      hash_bucket (g_key g) (g_salt g @ '':rollout'') (unit_id ctx (ro_bucket_by ro)) \<noteq> UINT32_MAX)
    \<and> is_in_rollout (g_key g) (g_salt g @ '':rollout'') (unit_id ctx (ro_bucket_by ro)) 100"
  using assms hash_bucket_range bucket_of_hash_range
  by (simp add: apply_rollout_def Let_def percentage_bucket_of_hash is_in_rollout_def
      UINT32_MAX_def)

theorem full_rollout_reach_witness:
  "\<not> fst (apply_rollout demo_ramped (ft_rollout (g_fallthrough demo_ramped)) (demo_ctx ''086cnuf''))"
proof -
  let ?ro = "ft_rollout (g_fallthrough demo_ramped)"
  have u: "unit_id (demo_ctx ''086cnuf'') (ro_bucket_by ?ro) = ''086cnuf''" by code_simp
  have p: "ro_percentage ?ro = 100" by (simp add: demo_ramped_def)
  have h: "hash_bucket ''f'' ''s:rollout'' ''086cnuf'' = UINT32_MAX" by code_simp
  show ?thesis
    using full_rollout_reach [of "demo_ctx ''086cnuf''" ?ro demo_ramped] u p h
    by (simp add: demo_ramped_def demo_flag_def)
qed

end
