(* ===== verification/ConfigModels.thy ===== *)
theory ConfigModels
  imports FlagModels
begin

text \<open>
  The Config service's flag models (\<open>services/config/app/models/schemas.py\<close>, the part the
  evaluator and the client payload use) and the serializers of
  \<open>services/config/app/utils.py\<close>. The models have the fields of the SDK's, so they share
  its records; their parsers are separate, because the service's fields have other defaults
  and coercions. A serializer that raises (\<open>KeyError\<close> on a missing column or
  \<open>ValidationError\<close>) is \<open>None\<close>. \<open>model_dump\<close> is the dictionary of the fields in declaration order.
\<close>

section \<open>Models\<close>

definition srv_validate_value :: "dict \<Rightarrow> condition_operator \<Rightarrow> bool" where
  "srv_validate_value d p =
     (if op_value p \<in> set PRESENCE_OPERATORS then \<not> has_key d ''value''
      else has_key d ''value'' \<and> is_condition_value_valid (op_value p) (dget d ''value''))"

definition srv_parse_condition :: "pyval \<Rightarrow> gate_condition option" where
  "srv_parse_condition v = do {
     d \<leftarrow> dict_fields [''attribute'', ''operator'', ''value''] v;
     a \<leftarrow> map_of d ''attribute'' \<bind> str_field 1 MAX_IDENTIFIER_LENGTH;
     p \<leftarrow> (case map_of d ''operator'' of Some (PStr s) \<Rightarrow> op_of_value s | _ \<Rightarrow> None);
     if srv_validate_value d p
     then Some \<lparr>gc_attribute = a, gc_operator = p, gc_value = dget d ''value''\<rparr>
     else None }"

definition srv_parse_rollout :: "pydantic \<Rightarrow> pyval \<Rightarrow> rollout_config option" where
  "srv_parse_rollout py v = do {
     d \<leftarrow> dict_fields [''percentage'', ''bucket_by''] v;
     p \<leftarrow> map_of d ''percentage'' \<bind> percentage_field (strict_float py);
     b \<leftarrow> map_of d ''bucket_by'' \<bind> str_field 1 MAX_IDENTIFIER_LENGTH;
     Some \<lparr>ro_percentage = p, ro_bucket_by = b\<rparr> }"

definition srv_parse_variant :: "pyval \<Rightarrow> variant_config option" where
  "srv_parse_variant v = do {
     d \<leftarrow> dict_fields [''key'', ''weight''] v;
     k \<leftarrow> map_of d ''key'' \<bind> str_field 1 MAX_IDENTIFIER_LENGTH;
     w \<leftarrow> map_of d ''weight'' \<bind> int_field 0 (Some MAX_VARIANT_WEIGHT);
     Some \<lparr>vc_key = k, vc_weight = w\<rparr> }"

definition srv_parse_rule :: "pydantic \<Rightarrow> pyval \<Rightarrow> gate_rule option" where
  "srv_parse_rule py v = do {
     d \<leftarrow> dict_fields [''id'', ''name'', ''conditions'', ''rollout''] v;
     i \<leftarrow> map_of d ''id'' \<bind> str_field 1 MAX_IDENTIFIER_LENGTH;
     n \<leftarrow> str_field 0 MAX_STRING_LENGTH (dget_default d ''name'' (PStr ''''));
     cs \<leftarrow> list_field 0 MAX_CONDITIONS_PER_RULE srv_parse_condition
             (dget_default d ''conditions'' (PList []));
     r \<leftarrow> map_of d ''rollout'' \<bind> srv_parse_rollout py;
     Some \<lparr>gr_id = i, gr_name = n, gr_conditions = cs, gr_rollout = r\<rparr> }"

definition srv_parse_fallthrough :: "pydantic \<Rightarrow> pyval \<Rightarrow> fallthrough_config option" where
  "srv_parse_fallthrough py v = do {
     d \<leftarrow> dict_fields [''rollout''] v;
     r \<leftarrow> map_of d ''rollout'' \<bind> srv_parse_rollout py;
     Some \<lparr>ft_rollout = r\<rparr> }"

definition validate_variant_weights ::
    "variant_config list \<Rightarrow> (variants_error, unit) result" where
  "validate_variant_weights variants =
     (case validate_variant_weight_contract (map (PInt \<circ> vc_weight) variants) of
        Inl e \<Rightarrow> Inl (WeightContract e)
      | Inr _ \<Rightarrow> (case unique_keys [] variants of None \<Rightarrow> Inl DuplicateKeys | Some _ \<Rightarrow> Inr ()))"

definition srv_validate_variants ::
    "variant_config list \<Rightarrow> string \<Rightarrow> (variants_error, unit) result" where
  "srv_validate_variants variants default_variant =
     (case validate_variant_weights variants of
        Inl e \<Rightarrow> Inl e
      | Inr _ \<Rightarrow>
          if default_variant \<in> set (map vc_key variants) then Inr () else Inl UnknownDefault)"

definition srv_parse_client_flag :: "pydantic \<Rightarrow> pyval \<Rightarrow> gate_config option" where
  "srv_parse_client_flag py v = do {
     d \<leftarrow> dict_fields gate_config_keys v;
     dv \<leftarrow> map_of d ''default_variant'' \<bind> str_field 1 MAX_IDENTIFIER_LENGTH;
     vs \<leftarrow> map_of d ''variants'' \<bind> list_field 1 MAX_VARIANTS srv_parse_variant;
     k \<leftarrow> map_of d ''key'' \<bind> str_field 1 MAX_IDENTIFIER_LENGTH;
     e \<leftarrow> map_of d ''enabled'' \<bind> lax_bool py;
     s \<leftarrow> map_of d ''salt'' \<bind> str_field 0 MAX_STRING_LENGTH;
     rs \<leftarrow> map_of d ''rules'' \<bind> list_field 0 MAX_RULES (srv_parse_rule py);
     ft \<leftarrow> map_of d ''fallthrough'' \<bind> srv_parse_fallthrough py;
     ver \<leftarrow> map_of d ''version'' \<bind> lax_int py;
     if 1 \<le> ver \<and> srv_validate_variants vs dv = Inr ()
     then Some \<lparr>g_key = k, g_enabled = e, g_default_variant = dv, g_variants = vs, g_salt = s,
                g_rules = rs, g_fallthrough = ft, g_version = ver\<rparr>
     else None }"

section \<open>Serialization\<close>

definition dump_condition :: "gate_condition \<Rightarrow> pyval" where
  "dump_condition c = PDict [(''attribute'', PStr (gc_attribute c)),
     (''operator'', PStr (op_value (gc_operator c))), (''value'', gc_value c)]"

definition dump_rollout :: "rollout_config \<Rightarrow> pyval" where
  "dump_rollout r = PDict [(''percentage'', PFloat (Fin (ro_percentage r))),
     (''bucket_by'', PStr (ro_bucket_by r))]"

definition dump_rule :: "gate_rule \<Rightarrow> pyval" where
  "dump_rule r = PDict [(''id'', PStr (gr_id r)), (''name'', PStr (gr_name r)),
     (''conditions'', PList (map dump_condition (gr_conditions r))),
     (''rollout'', dump_rollout (gr_rollout r))]"

definition dump_variant :: "variant_config \<Rightarrow> pyval" where
  "dump_variant v = PDict [(''key'', PStr (vc_key v)), (''weight'', PInt (vc_weight v))]"

definition dump_fallthrough :: "fallthrough_config \<Rightarrow> pyval" where
  "dump_fallthrough f = PDict [(''rollout'', dump_rollout (ft_rollout f))]"

definition dump_client_flag :: "gate_config \<Rightarrow> pyval" where
  "dump_client_flag g = PDict [(''default_variant'', PStr (g_default_variant g)),
     (''variants'', PList (map dump_variant (g_variants g))),
     (''key'', PStr (g_key g)), (''enabled'', PBool (g_enabled g)), (''salt'', PStr (g_salt g)),
     (''rules'', PList (map dump_rule (g_rules g))),
     (''fallthrough'', dump_fallthrough (g_fallthrough g)), (''version'', PInt (g_version g))]"

text \<open>The loops of \<open>_omit_presence_values\<close>; what is not a dictionary never occurs in a dump.\<close>

fun omit_condition :: "pyval \<Rightarrow> pyval" where
  "omit_condition (PDict c) =
     PDict (if dget c ''operator'' \<in> {PStr ''exists'', PStr ''not_exists''}
            then dpop c ''value'' else c)"
| "omit_condition v = v"

fun map_list :: "(pyval \<Rightarrow> pyval) \<Rightarrow> pyval \<Rightarrow> pyval" where
  "map_list f (PList vs) = PList (map f vs)"
| "map_list f v = v"

fun omit_in :: "string \<Rightarrow> (pyval \<Rightarrow> pyval) \<Rightarrow> pyval \<Rightarrow> pyval" where
  "omit_in k f (PDict d) =
     (case map_of d k of None \<Rightarrow> PDict d | Some v \<Rightarrow> PDict (dset d k (map_list f v)))"
| "omit_in k f v = v"

definition omit_presence_values :: "pyval \<Rightarrow> pyval" where
  "omit_presence_values payload = omit_in ''rules'' (omit_in ''conditions'' omit_condition) payload"

definition client_payload :: "dict \<Rightarrow> pyval option" where
  "client_payload f = do {
     k \<leftarrow> map_of f ''key'';
     e \<leftarrow> map_of f ''enabled'';
     dv \<leftarrow> map_of f ''default_variant'';
     vs \<leftarrow> map_of f ''variants'';
     ft \<leftarrow> map_of f ''fallthrough'';
     Some (PDict [(''key'', k), (''enabled'', e), (''default_variant'', dv), (''variants'', vs),
       (''salt'', dget_default f ''salt'' (PStr '''')),
       (''rules'', dget_default f ''rules'' (PList [])),
       (''fallthrough'', ft), (''version'', dget_default f ''version'' (PInt 1))]) }"

definition serialize_client_flag :: "pydantic \<Rightarrow> dict \<Rightarrow> pyval option" where
  "serialize_client_flag py f = do {
     payload \<leftarrow> client_payload f;
     g \<leftarrow> srv_parse_client_flag py payload;
     Some (omit_presence_values (dump_client_flag g)) }"

definition serialize_flag_collection :: "pydantic \<Rightarrow> string \<Rightarrow> dict list \<Rightarrow> pyval option" where
  "serialize_flag_collection py project_id flags = do {
     fs \<leftarrow> those (map (serialize_client_flag py) flags);
     Some (PDict [(''schema_version'', PInt 2), (''project_id'', PStr project_id),
       (''flags'', PList fs)]) }"

text \<open>A stored row, for concrete evaluations.\<close>

definition sample_row :: dict where
  "sample_row =
     [(''key'', PStr ''f''), (''project_id'', PStr ''demo''), (''state'', PStr ''active''),
      (''enabled'', PBool True), (''default_variant'', PStr ''off''),
      (''variants'', PList [PDict [(''key'', PStr ''off''), (''weight'', PInt 0)],
                            PDict [(''key'', PStr ''on''), (''weight'', PInt 1)]]),
      (''salt'', PStr ''s''),
      (''rules'', PList [PDict
         [(''id'', PStr ''r1''), (''name'', PStr ''''),
          (''conditions'', PList [PDict [(''attribute'', PStr ''beta''), (''operator'', PStr ''exists'')]]),
          (''rollout'', PDict [(''percentage'', PFloat (Fin 50)), (''bucket_by'', PStr ''user_id'')])]]),
      (''fallthrough'', PDict [(''rollout'',
         PDict [(''percentage'', PFloat (Fin 60)), (''bucket_by'', PStr ''user_id'')])]),
      (''version'', PInt 3)]"

section \<open>Lemmas: the round trip of each model\<close>

lemma srv_validate_variants_eq: "srv_validate_variants vs dv = validate_variants vs dv"
proof (cases "unique_keys [] vs")
  case (Some r)
  then have "set r = vc_key ` set vs"
    using unique_keys_Some_iff [of "[]" vs r] by auto
  with Some show ?thesis
    by (auto simp: srv_validate_variants_def validate_variant_weights_def validate_variants_def
        split: sum.splits)
qed (auto simp: srv_validate_variants_def validate_variant_weights_def validate_variants_def
    split: sum.splits)

lemma presence_value: "op_value p \<in> set PRESENCE_OPERATORS \<longleftrightarrow> is_presence p"
  by (cases p) (simp_all add: operator_sets is_presence_def)

lemma invalid_None [simp]: "\<not> is_condition_value_valid p PNone"
  by (simp add: is_condition_value_valid_def is_scalar_def parse_numeric_def)

lemma omit_dump_condition:
  "omit_condition (dump_condition c) =
     (if is_presence (gc_operator c)
      then PDict [(''attribute'', PStr (gc_attribute c)),
             (''operator'', PStr (op_value (gc_operator c)))]
      else dump_condition c)"
  by (cases "gc_operator c") (simp_all add: dump_condition_def is_presence_def dpop_def)

lemma str_case_Some_iff:
  "(case x of Some (PStr s) \<Rightarrow> f s | _ \<Rightarrow> None) = Some p \<longleftrightarrow> (\<exists>s. x = Some (PStr s) \<and> f s = Some p)"
  by (auto split: option.splits pyval.splits)

lemma srv_parse_condition_fields:
  assumes "srv_parse_condition v = Some c"
  obtains d where "v = PDict d" "dget d ''attribute'' = PStr (gc_attribute c)"
    "dget d ''operator'' = PStr (op_value (gc_operator c))" "gc_value c = dget d ''value''"
    "is_identifier (PStr (gc_attribute c))" "srv_validate_value d (gc_operator c)"
proof -
  obtain d a s p where d: "v = PDict d" "map_of d ''attribute'' = Some (PStr a)"
    "map_of d ''operator'' = Some (PStr s)" "op_of_value s = Some p" "is_identifier (PStr a)"
    "srv_validate_value d p" "c = \<lparr>gc_attribute = a, gc_operator = p, gc_value = dget d ''value''\<rparr>"
    using assms
    by (auto simp: srv_parse_condition_def field_simps_py str_case_Some_iff Suc_le_eq
        split: if_split_asm)
  show ?thesis
    by (rule that [of d]) (use d op_of_value_Some [OF d(4)] in simp_all)
qed

lemma parse_omit_condition:
  assumes "srv_parse_condition v = Some c"
  shows "parse_condition (omit_condition (dump_condition c)) = Some c"
proof -
  obtain d where d: "v = PDict d" "gc_value c = dget d ''value''"
    "is_identifier (PStr (gc_attribute c))" "srv_validate_value d (gc_operator c)"
    using srv_parse_condition_fields [OF assms] by metis
  have op: "op_value (gc_operator c) = ''exists'' \<or> op_value (gc_operator c) = ''not_exists''
      \<longleftrightarrow> is_presence (gc_operator c)"
    by (cases "gc_operator c") (simp_all add: is_presence_def)
  show ?thesis
  proof (cases "is_presence (gc_operator c)")
    case True
    then have "gc_value c = PNone"
      using d by (simp add: srv_validate_value_def presence_value has_key_def)
    with True d(3) op show ?thesis
      by (auto simp: omit_dump_condition parse_condition_def field_simps_py check_value_presence_def
          has_key_def check_operator_value_def dget_def dget_default_def keys_within_def Let_def Suc_le_eq)
  next
    case False
    then have "is_condition_value_valid (op_value (gc_operator c)) (gc_value c)"
      using d by (simp add: srv_validate_value_def presence_value)
    moreover from this have "gc_value c \<noteq> PNone" by auto
    ultimately show ?thesis using False d(3) op
      by (auto simp: omit_dump_condition parse_condition_def field_simps_py check_value_presence_def
          has_key_def check_operator_value_def dget_def dget_default_def keys_within_def Let_def Suc_le_eq
          dump_condition_def)
  qed
qed

lemma list_field_map:
  "(\<And>x. x \<in> set xs \<Longrightarrow> p (f x) = Some x) \<Longrightarrow> lo \<le> length xs \<Longrightarrow> length xs \<le> hi
   \<Longrightarrow> list_field lo hi p (PList (map f xs)) = Some xs"
  using those_map_SomeI [of xs "p \<circ> f" "\<lambda>x. x"] by (simp add: list_field_def)

lemma srv_parse_rollout_ok: "srv_parse_rollout py v = Some r \<Longrightarrow> rollout_ok r"
  by (auto simp: srv_parse_rollout_def rollout_ok_def field_simps_py dest!: percentage_field_Some)

lemma parse_dump_rollout:
  "pydantic_ok py \<Longrightarrow> rollout_ok r \<Longrightarrow> parse_rollout py (dump_rollout r) = Some r"
  by (auto simp: parse_rollout_def dump_rollout_def field_simps_py rollout_ok_def pydantic_ok_def
      percentage_field_def keys_within_def Suc_le_eq)

lemma srv_parse_rule_fields:
  assumes "srv_parse_rule py v = Some r"
  shows "is_identifier (PStr (gr_id r))" "length (gr_name r) \<le> MAX_STRING_LENGTH"
    "length (gr_conditions r) \<le> MAX_CONDITIONS_PER_RULE"
    "\<forall>c \<in> set (gr_conditions r). \<exists>x. srv_parse_condition x = Some c"
    "rollout_ok (gr_rollout r)"
  using assms
  by (auto simp: srv_parse_rule_def field_simps_py Suc_le_eq elim!: list_field_Some
      intro: srv_parse_rollout_ok)

lemma omit_dump_rule:
  "omit_in ''conditions'' omit_condition (dump_rule r) =
     PDict [(''id'', PStr (gr_id r)), (''name'', PStr (gr_name r)),
       (''conditions'', PList (map (omit_condition \<circ> dump_condition) (gr_conditions r))),
       (''rollout'', dump_rollout (gr_rollout r))]"
  by (simp add: dump_rule_def)

lemma parse_omit_rule:
  assumes "pydantic_ok py" "srv_parse_rule py v = Some r"
  shows "parse_rule py (omit_in ''conditions'' omit_condition (dump_rule r)) = Some r"
proof -
  note r = srv_parse_rule_fields [OF assms(2)]
  have "list_field 0 MAX_CONDITIONS_PER_RULE parse_condition
      (PList (map (omit_condition \<circ> dump_condition) (gr_conditions r))) = Some (gr_conditions r)"
    using r(3,4) by (intro list_field_map) (auto intro: parse_omit_condition)
  with r assms(1) show ?thesis
    unfolding omit_dump_rule
    by (auto simp: parse_rule_def field_simps_py keys_within_def parse_dump_rollout Suc_le_eq)
qed

lemma srv_parse_variant_ok:
  "srv_parse_variant x = Some v \<Longrightarrow>
   is_identifier (PStr (vc_key v)) \<and> 0 \<le> vc_weight v \<and> vc_weight v \<le> MAX_VARIANT_WEIGHT"
  by (auto simp: srv_parse_variant_def field_simps_py Suc_le_eq)

lemma parse_dump_variant:
  "is_identifier (PStr (vc_key v)) \<Longrightarrow> 0 \<le> vc_weight v \<Longrightarrow> vc_weight v \<le> MAX_VARIANT_WEIGHT
   \<Longrightarrow> parse_variant (dump_variant v) = Some v"
  by (auto simp: parse_variant_def dump_variant_def field_simps_py keys_within_def Suc_le_eq)

lemma parse_dump_fallthrough:
  assumes "pydantic_ok py" "srv_parse_fallthrough py v = Some f"
  shows "parse_fallthrough py (dump_fallthrough f) = Some f"
  using assms
  by (auto simp: srv_parse_fallthrough_def parse_fallthrough_def dump_fallthrough_def field_simps_py
      keys_within_def intro!: parse_dump_rollout dest: srv_parse_rollout_ok)

lemma srv_parse_client_flag_fields:
  assumes "srv_parse_client_flag py v = Some g"
  obtains d where "v = PDict d"
    "map_of d ''key'' = Some (PStr (g_key g))" "is_identifier (PStr (g_key g))"
    "map_of d ''enabled'' \<bind> lax_bool py = Some (g_enabled g)"
    "map_of d ''default_variant'' = Some (PStr (g_default_variant g))"
    "is_identifier (PStr (g_default_variant g))"
    "map_of d ''variants'' \<bind> list_field 1 MAX_VARIANTS srv_parse_variant = Some (g_variants g)"
    "map_of d ''salt'' = Some (PStr (g_salt g))" "length (g_salt g) \<le> MAX_STRING_LENGTH"
    "map_of d ''rules'' \<bind> list_field 0 MAX_RULES (srv_parse_rule py) = Some (g_rules g)"
    "map_of d ''fallthrough'' \<bind> srv_parse_fallthrough py = Some (g_fallthrough g)"
    "map_of d ''version'' \<bind> lax_int py = Some (g_version g)" "1 \<le> g_version g"
    "validate_variants (g_variants g) (g_default_variant g) = Inr ()"
  using assms unfolding srv_parse_client_flag_def srv_validate_variants_eq
  by (auto simp: bind_eq_Some_conv dict_fields_Some_iff str_field_identifier str_field_Some_iff
      One_nat_def Suc_le_eq split: if_split_asm)

lemma omit_dump_client_flag:
  "omit_presence_values (dump_client_flag g) = PDict
    [(''default_variant'', PStr (g_default_variant g)),
     (''variants'', PList (map dump_variant (g_variants g))),
     (''key'', PStr (g_key g)), (''enabled'', PBool (g_enabled g)), (''salt'', PStr (g_salt g)),
     (''rules'', PList (map (omit_in ''conditions'' omit_condition \<circ> dump_rule) (g_rules g))),
     (''fallthrough'', dump_fallthrough (g_fallthrough g)), (''version'', PInt (g_version g))]"
  by (simp add: omit_presence_values_def dump_client_flag_def)

lemma parse_omit_client_flag:
  assumes py: "pydantic_ok py" and g: "srv_parse_client_flag py v = Some g"
  shows "parse_gate_config py (omit_presence_values (dump_client_flag g)) = Some g"
proof -
  obtain d where d: "is_identifier (PStr (g_key g))" "is_identifier (PStr (g_default_variant g))"
    "map_of d ''variants'' \<bind> list_field 1 MAX_VARIANTS srv_parse_variant = Some (g_variants g)"
    "length (g_salt g) \<le> MAX_STRING_LENGTH"
    "map_of d ''rules'' \<bind> list_field 0 MAX_RULES (srv_parse_rule py) = Some (g_rules g)"
    "map_of d ''fallthrough'' \<bind> srv_parse_fallthrough py = Some (g_fallthrough g)"
    "1 \<le> g_version g" "validate_variants (g_variants g) (g_default_variant g) = Inr ()"
    using srv_parse_client_flag_fields [OF g] by metis
  have vs: "list_field 1 MAX_VARIANTS parse_variant (PList (map dump_variant (g_variants g)))
      = Some (g_variants g)"
    using d(3)
    by (intro list_field_map)
      (auto simp: bind_eq_Some_conv elim!: list_field_Some intro!: parse_dump_variant
        dest: srv_parse_variant_ok)
  have rs: "list_field 0 MAX_RULES (parse_rule py)
      (PList (map (omit_in ''conditions'' omit_condition \<circ> dump_rule) (g_rules g)))
      = Some (g_rules g)"
    using d(5) py
    by (intro list_field_map)
      (auto simp: bind_eq_Some_conv elim!: list_field_Some intro: parse_omit_rule)
  have ft: "parse_fallthrough py (dump_fallthrough (g_fallthrough g)) = Some (g_fallthrough g)"
    using d(6) py by (auto simp: bind_eq_Some_conv intro: parse_dump_fallthrough)
  have "lax_bool py (PBool (g_enabled g)) = Some (g_enabled g)"
    using py by (simp add: pydantic_ok_def)
  with vs rs ft d show ?thesis
    unfolding omit_dump_client_flag parse_gate_config_def
    by (simp add: dict_fields_def keys_within_def gate_config_keys_def str_field_def int_field_def
        Suc_le_eq)
qed

section \<open>Properties\<close>

text \<open>
  C28. What the Config service serves is what the SDK reads: the payload the service builds
  from its stored rows is accepted by the SDK's parser with no invalid key, and each flag the
  SDK obtains is the configuration the service validated.
\<close>

theorem served_collection_round_trip:
  assumes "pydantic_ok py" "project_id \<noteq> ''''"
    and "serialize_flag_collection py project_id rows = Some payload"
  shows "\<exists>gs. map (\<lambda>row. client_payload row \<bind> srv_parse_client_flag py) rows = map Some gs
    \<and> parse_flag_config_result py payload
        = Some \<lparr>pr_project_id = project_id, pr_flags = gs, pr_invalid_keys = []\<rparr>"
proof -
  obtain fs where fs: "those (map (serialize_client_flag py) rows) = Some fs"
    "payload = PDict [(''schema_version'', PInt 2), (''project_id'', PStr project_id),
       (''flags'', PList fs)]"
    using assms(3) by (auto simp: serialize_flag_collection_def bind_eq_Some_conv)
  have "\<exists>gs. map (\<lambda>row. client_payload row \<bind> srv_parse_client_flag py) rows = map Some gs
      \<and> map (parse_gate_config py) fs = map Some gs"
    using fs(1)
  proof (induction rows arbitrary: fs)
    case (Cons row rows)
    then obtain f fs' where f: "serialize_client_flag py row = Some f" "fs = f # fs'"
      "those (map (serialize_client_flag py) rows) = Some fs'"
      by (auto split: option.splits)
    obtain g where g: "client_payload row \<bind> srv_parse_client_flag py = Some g"
      "parse_gate_config py f = Some g"
      using f(1) parse_omit_client_flag [OF assms(1)]
      by (auto simp: serialize_client_flag_def bind_eq_Some_conv)
    obtain gs where "map (\<lambda>row. client_payload row \<bind> srv_parse_client_flag py) rows = map Some gs"
      "map (parse_gate_config py) fs' = map Some gs"
      using Cons.IH [OF f(3)] by blast
    with f g show ?case by (intro exI [of _ "g # gs"]) simp
  qed simp
  then obtain gs where gs: "map (\<lambda>row. client_payload row \<bind> srv_parse_client_flag py) rows = map Some gs"
    "map (parse_gate_config py) fs = map Some gs" by blast
  have "parse_candidates py r fs = Some (r\<lparr>pr_flags := pr_flags r @ gs\<rparr>)" for r
    using gs(2) by (induction fs arbitrary: gs r) (auto simp: Cons_eq_map_conv)
  then have "parse_flag_config_result py payload
      = Some \<lparr>pr_project_id = project_id, pr_flags = gs, pr_invalid_keys = []\<rparr>"
    using assms(2) fs(2)
    by (simp add: parse_flag_config_result_def extract_candidates_def keys_within_def)
  with gs show ?thesis by blast
qed

theorem served_collection_round_trip_witness:
  "\<exists>payload g. serialize_flag_collection plain_pydantic ''demo'' [sample_row] = Some payload
     \<and> parse_flag_config_result plain_pydantic payload
         = Some \<lparr>pr_project_id = ''demo'', pr_flags = [g], pr_invalid_keys = []\<rparr>"
proof -
  have py: "pydantic_ok plain_pydantic"
    by (simp add: pydantic_ok_def plain_pydantic_def)
  have "serialize_flag_collection plain_pydantic ''demo'' [sample_row] \<noteq> None" by code_simp
  then obtain payload where p: "serialize_flag_collection plain_pydantic ''demo'' [sample_row] = Some payload"
    by blast
  show ?thesis
    using served_collection_round_trip [OF py _ p] p by (auto simp: Cons_eq_map_conv)
qed

end
