(* ===== verification/ConfigEvaluator.thy ===== *)
theory ConfigEvaluator
  imports SdkEvaluator ConfigModels
begin

text \<open>
  The Config service's evaluator, \<open>services/config/app/flags/evaluator.py\<close>. It works on the
  stored row and the request context as dictionaries, so the model does too; a subscript with
  a missing key would raise, which \<open>cfg_evaluate\<close> shows as \<open>None\<close>. The parameter \<open>fmt\<close> is
  the formatting of a non-string value by an f-string. The theorems compare it with the SDK's
  evaluator on the flag the service serves for the same row.
\<close>

section \<open>Conditions and rules\<close>

definition cfg_resolve_attribute :: "string \<Rightarrow> dict \<Rightarrow> bool \<times> pyval" where
  "cfg_resolve_attribute attribute ctx =
     (if attribute = ''user_id'' then (dget ctx ''user_id'' \<noteq> PNone, dget ctx ''user_id'')
      else if attribute = ''anonymous_id''
      then (dget ctx ''anonymous_id'' \<noteq> PNone, dget ctx ''anonymous_id'')
      else case dget_default ctx ''attributes'' (PDict []) of
             PDict attributes \<Rightarrow>
               (if dget attributes attribute \<noteq> PNone then (True, dget attributes attribute)
                else (False, PNone))
           | _ \<Rightarrow> (False, PNone))"

definition cfg_compare_numeric :: "string \<Rightarrow> pyval \<Rightarrow> pyval \<Rightarrow> bool" where
  "cfg_compare_numeric operator actual expected =
     (case (parse_numeric actual, parse_numeric expected) of
        (Some a, Some b) \<Rightarrow>
          if operator = ''gt'' then flt_less b a
          else if operator = ''gte'' then flt_leq b a
          else if operator = ''lt'' then flt_less a b
          else flt_leq a b
      | _ \<Rightarrow> False)"

definition cfg_compare :: "string \<Rightarrow> pyval \<Rightarrow> pyval \<Rightarrow> bool" where
  "cfg_compare operator actual expected =
     (if operator = ''equals'' then scalar_equal actual expected
      else if operator = ''not_equals'' then is_scalar actual \<and> \<not> scalar_equal actual expected
      else if operator = ''contains''
        then is_bounded_string actual \<and> str_test contains_str actual expected
      else if operator = ''not_contains''
        then is_bounded_string actual \<and> \<not> str_test contains_str actual expected
      else if operator = ''starts_with''
        then is_bounded_string actual \<and> str_test starts_with actual expected
      else if operator = ''ends_with''
        then is_bounded_string actual \<and> str_test ends_with actual expected
      else if operator = ''in''
        then is_scalar actual \<and> is_membership_list expected \<and> any_equal actual expected
      else if operator = ''not_in''
        then is_scalar actual \<and> is_membership_list expected \<and> \<not> any_equal actual expected
      else if operator \<in> set NUMERIC_OPERATORS then cfg_compare_numeric operator actual expected
      else False)"

fun cfg_matches_condition :: "pyval \<Rightarrow> dict \<Rightarrow> bool" where
  "cfg_matches_condition (PDict condition) ctx =
     (case (dget condition ''attribute'', dget condition ''operator'') of
        (PStr attribute, PStr operator) \<Rightarrow>
          if \<not> is_identifier (PStr attribute) \<or> operator \<notin> set SUPPORTED_OPERATORS then False
          else if operator \<in> set PRESENCE_OPERATORS \<and> has_key condition ''value'' then False
          else if operator \<notin> set PRESENCE_OPERATORS
            \<and> (\<not> has_key condition ''value''
               \<or> \<not> is_condition_value_valid operator (dget condition ''value'')) then False
          else (case cfg_resolve_attribute attribute ctx of (exists, actual) \<Rightarrow>
                  if operator = ''exists'' then exists \<and> actual \<noteq> PNone
                  else if operator = ''not_exists'' then \<not> exists \<or> actual = PNone
                  else if \<not> exists then False
                  else cfg_compare operator actual (dget condition ''value''))
      | _ \<Rightarrow> False)"
| "cfg_matches_condition _ ctx = False"

definition cfg_matches_rule :: "dict \<Rightarrow> dict \<Rightarrow> bool" where
  "cfg_matches_rule rule ctx =
     (case dget_default rule ''conditions'' (PList []) of
        PList conditions \<Rightarrow>
          length conditions \<le> MAX_CONDITIONS_PER_RULE
          \<and> list_all (\<lambda>c. cfg_matches_condition c ctx) conditions
      | _ \<Rightarrow> False)"

definition cfg_unit_id :: "dict \<Rightarrow> string \<Rightarrow> string" where
  "cfg_unit_id ctx bucket_by =
     (if \<not> is_identifier (PStr bucket_by) then ''''
      else case cfg_resolve_attribute bucket_by ctx of (exists, value) \<Rightarrow>
        if exists \<and> is_identifier value then (case value of PStr s \<Rightarrow> s | _ \<Rightarrow> '''') else '''')"

fun rule_within_limits :: "pyval \<Rightarrow> bool" where
  "rule_within_limits (PDict rule) =
     (is_identifier (dget rule ''id'')
      \<and> (case dget rule ''conditions'' of
           PList conditions \<Rightarrow> length conditions \<le> MAX_CONDITIONS_PER_RULE | _ \<Rightarrow> False))"
| "rule_within_limits _ = False"

fun rules_within_limits :: "pyval \<Rightarrow> bool" where
  "rules_within_limits (PList rules) =
     (length rules \<le> MAX_RULES \<and> list_all rule_within_limits rules)"
| "rules_within_limits _ = False"

section \<open>The canonical flag\<close>

fun canonical_rule :: "pydantic \<Rightarrow> pyval \<Rightarrow> pyval option" where
  "canonical_rule py (PDict rule) =
     (case srv_parse_rollout py (dget rule ''rollout'') of
        None \<Rightarrow> None
      | Some r \<Rightarrow> Some (PDict (dset rule ''rollout'' (dump_rollout r))))"
| "canonical_rule py v = Some v"

definition variant_weight :: "pyval \<Rightarrow> pyval" where
  "variant_weight v = (case v of PDict d \<Rightarrow> dget d ''weight'' | _ \<Rightarrow> PNone)"

definition canonical_rules :: "pydantic \<Rightarrow> dict \<Rightarrow> dict option" where
  "canonical_rules py flag =
     (case dget flag ''rules'' of
        PList rules \<Rightarrow>
          (case those (map (canonical_rule py) rules) of
             None \<Rightarrow> None
           | Some rs \<Rightarrow> Some (dset flag ''rules'' (PList rs)))
      | _ \<Rightarrow> Some flag)"

definition canonical_evaluation_flag :: "pydantic \<Rightarrow> dict \<Rightarrow> dict option" where
  "canonical_evaluation_flag py flag = do {
     canonical \<leftarrow> canonical_rules py flag;
     ft \<leftarrow> srv_parse_fallthrough py (dget flag ''fallthrough'');
     (case dget flag ''variants'' of
        PList variants \<Rightarrow>
          (case validate_variant_weight_contract (map variant_weight variants) of
             Inl _ \<Rightarrow> None
           | Inr _ \<Rightarrow> Some (dset canonical ''fallthrough'' (dump_fallthrough ft)))
      | _ \<Rightarrow> None) }"

section \<open>Rollout and assignment\<close>

text \<open>An f-string: a string is itself, any other value is formatted by the interpreter.\<close>

fun py_format :: "(pyval \<Rightarrow> string) \<Rightarrow> pyval \<Rightarrow> string" where
  "py_format fmt (PStr s) = s"
| "py_format fmt v = fmt v"

definition cfg_apply_rollout ::
    "(pyval \<Rightarrow> string) \<Rightarrow> dict \<Rightarrow> pyval \<Rightarrow> dict \<Rightarrow> (bool \<times> rat option \<times> rat \<times> string) option" where
  "cfg_apply_rollout fmt flag rollout ctx =
     (case rollout of
        PDict d \<Rightarrow>
          (case (map_of d ''percentage'', map_of d ''bucket_by'') of
             (Some (PFloat (Fin percentage)), Some (PStr bucket_by)) \<Rightarrow>
               let u = cfg_unit_id ctx bucket_by
               in if u = '''' then Some (False, None, percentage, bucket_by)
                  else let bucket = cfg_percentage_bucket
                             (py_format fmt (dget_default flag ''key'' (PStr '''')))
                             (py_format fmt (dget_default flag ''salt'' (PStr '''')) @ '':rollout'') u
                       in Some (bucket < percentage, Some bucket, percentage, bucket_by)
           | _ \<Rightarrow> None)
      | _ \<Rightarrow> None)"

fun cfg_assign_loop :: "rat \<Rightarrow> int \<Rightarrow> string option \<Rightarrow> pyval list \<Rightarrow> string option" where
  "cfg_assign_loop target cumulative last_positive [] = last_positive"
| "cfg_assign_loop target cumulative last_positive (PDict v # vs) =
     (case (dget v ''key'', dget v ''weight'') of
        (PStr key, PInt weight) \<Rightarrow>
          if weight \<le> 0 then cfg_assign_loop target cumulative last_positive vs
          else let cumulative' = cumulative + weight
               in if target < of_int cumulative' then Some key
                  else cfg_assign_loop target cumulative' (Some key) vs
      | _ \<Rightarrow> cfg_assign_loop target cumulative last_positive vs)"
| "cfg_assign_loop target cumulative last_positive (_ # vs) =
     cfg_assign_loop target cumulative last_positive vs"

definition cfg_assign_weighted_variant :: "pyval list \<Rightarrow> rat \<Rightarrow> string option" where
  "cfg_assign_weighted_variant variants variant_bucket =
     (if \<not> list_all is_dict variants then None
      else let weights = map variant_weight variants
           in case validate_variant_weight_contract weights of
                Inl _ \<Rightarrow> None
              | Inr _ \<Rightarrow>
                  let total_weight = sum_list (map weight_val weights)
                  in cfg_assign_loop (fl (fl (variant_bucket / 100) * fl (of_int total_weight)))
                       0 None variants)"

definition cfg_assign_variant ::
    "(pyval \<Rightarrow> string) \<Rightarrow> dict \<Rightarrow> dict \<Rightarrow> string \<Rightarrow> pyval \<times> rat option" where
  "cfg_assign_variant fmt flag ctx bucket_by =
     (let default_variant = dget_default flag ''default_variant'' (PStr ''control'');
          u = cfg_unit_id ctx bucket_by
      in if u = '''' then (default_variant, None)
         else let vb = cfg_percentage_bucket
                    (py_format fmt (dget_default flag ''key'' (PStr '''')))
                    (py_format fmt (dget_default flag ''salt'' (PStr '''')) @ '':variant'') u;
                  variants = (case dget_default flag ''variants'' (PList []) of
                                PList vs \<Rightarrow> vs | _ \<Rightarrow> [])
              in ((case cfg_assign_weighted_variant variants vb of
                     None \<Rightarrow> default_variant
                   | Some v \<Rightarrow> if v = '''' then default_variant else PStr v), Some vb))"

section \<open>Evaluation\<close>

record eval_result =
  er_key :: string
  er_variant :: pyval
  er_reason :: string
  er_rule_id :: pyval
  er_rollout_bucket :: "rat option"
  er_variant_bucket :: "rat option"
  er_rollout_percentage :: "rat option"
  er_bucket_by :: "string option"
  er_config_version :: "int option"

definition cfg_base_result :: "dict \<Rightarrow> eval_result" where
  "cfg_base_result flag =
     \<lparr>er_key = (case dget flag ''key'' of PStr k \<Rightarrow> k | _ \<Rightarrow> ''''),
      er_variant = PNone, er_reason = '''', er_rule_id = PNone, er_rollout_bucket = None,
      er_variant_bucket = None, er_rollout_percentage = None, er_bucket_by = None,
      er_config_version =
        (case dget flag ''version'' of PInt v \<Rightarrow> if 1 \<le> v then Some v else None | _ \<Rightarrow> None)\<rparr>"

definition cfg_rollout_result ::
    "(pyval \<Rightarrow> string) \<Rightarrow> dict \<Rightarrow> dict \<Rightarrow> eval_result \<Rightarrow> pyval \<Rightarrow> string \<Rightarrow> string
     \<Rightarrow> eval_result option" where
  "cfg_rollout_result fmt flag ctx res rollout on_pass on_fail =
     (case cfg_apply_rollout fmt flag rollout ctx of
        None \<Rightarrow> None
      | Some (passed, bucket, percentage, bucket_by) \<Rightarrow>
          let res = res\<lparr>er_rollout_bucket := bucket, er_rollout_percentage := Some percentage,
                        er_bucket_by := Some bucket_by\<rparr>
          in if bucket = None then Some (res\<lparr>er_reason := ''error''\<rparr>)
             else if passed
             then (case cfg_assign_variant fmt flag ctx bucket_by of (variant, vb) \<Rightarrow>
                     Some (res\<lparr>er_variant := variant, er_variant_bucket := vb, er_reason := on_pass\<rparr>))
             else Some (res\<lparr>er_reason := on_fail\<rparr>))"

fun cfg_evaluate_rules ::
    "(pyval \<Rightarrow> string) \<Rightarrow> dict \<Rightarrow> dict \<Rightarrow> eval_result \<Rightarrow> pyval list \<Rightarrow> eval_result option" where
  "cfg_evaluate_rules fmt flag ctx res [] =
     (case dget_default flag ''fallthrough'' (PDict []) of
        PDict ft \<Rightarrow>
          cfg_rollout_result fmt flag ctx res (dget_default ft ''rollout'' (PDict []))
            ''fallthrough'' ''fallthrough_rollout''
      | _ \<Rightarrow> None)"
| "cfg_evaluate_rules fmt flag ctx res (PDict rule # rules) =
     (if \<not> cfg_matches_rule rule ctx then cfg_evaluate_rules fmt flag ctx res rules
      else cfg_rollout_result fmt flag ctx
             (res\<lparr>er_rule_id := dget_default rule ''id'' (PStr '''')\<rparr>)
             (dget_default rule ''rollout'' (PDict [])) ''rule_match'' ''rule_rollout'')"
| "cfg_evaluate_rules fmt flag ctx res (_ # rules) = cfg_evaluate_rules fmt flag ctx res rules"

definition cfg_evaluate ::
    "(pyval \<Rightarrow> string) \<Rightarrow> pydantic \<Rightarrow> dict \<Rightarrow> dict \<Rightarrow> eval_result option" where
  "cfg_evaluate fmt py flag ctx =
     (let res = cfg_base_result flag
      in case canonical_evaluation_flag py flag of
           None \<Rightarrow> Some (res\<lparr>er_reason := ''invalid_config''\<rparr>)
         | Some flag \<Rightarrow>
             let res = res\<lparr>er_variant := dget_default flag ''default_variant'' (PStr ''control'')\<rparr>
             in if dget_default flag ''state'' (PStr ''active'') \<noteq> PStr ''active''
                then Some (res\<lparr>er_reason := ''disabled''\<rparr>)
                else if \<not> truthy (dget_default flag ''enabled'' (PBool False))
                then Some (res\<lparr>er_reason := ''disabled''\<rparr>)
                else if \<not> rules_within_limits (dget_default flag ''rules'' (PList []))
                then Some (res\<lparr>er_reason := ''error''\<rparr>)
                else (case dget_default flag ''rules'' (PList []) of
                        PList rules \<Rightarrow> cfg_evaluate_rules fmt flag ctx res rules
                      | _ \<Rightarrow> None))"

definition cfg_evaluate_all ::
    "(pyval \<Rightarrow> string) \<Rightarrow> pydantic \<Rightarrow> dict list \<Rightarrow> dict \<Rightarrow> eval_result list option" where
  "cfg_evaluate_all fmt py flags ctx = those (map (\<lambda>flag. cfg_evaluate fmt py flag ctx) flags)"

section \<open>Correspondence with the SDK's types\<close>

text \<open>
  The evaluator's context is \<open>EvalContext.model_dump(exclude_unset=True)\<close>, in which an identity
  that was not supplied is absent; and the literal of a reason.
\<close>

definition opt_str :: "string option \<Rightarrow> pyval" where
  "opt_str x = (case x of None \<Rightarrow> PNone | Some s \<Rightarrow> PStr s)"

definition ctx_dump :: "eval_context \<Rightarrow> dict" where
  "ctx_dump ctx =
     (case c_user_id ctx of None \<Rightarrow> [] | Some u \<Rightarrow> [(''user_id'', PStr u)])
     @ (case c_anonymous_id ctx of None \<Rightarrow> [] | Some a \<Rightarrow> [(''anonymous_id'', PStr a)])
     @ [(''attributes'', PDict (c_attributes ctx))]"







section \<open>Lemmas: matching\<close>

lemma opt_str_eq_PNone [simp]: "opt_str x = PNone \<longleftrightarrow> x = None"
  by (simp add: opt_str_def split: option.splits)

lemma opt_str_simps [simp]: "opt_str None = PNone" "opt_str (Some s) = PStr s"
  by (simp_all add: opt_str_def)

lemma ctx_dump_gets [simp]:
  "dget (ctx_dump ctx) ''user_id'' = opt_str (c_user_id ctx)"
  "dget (ctx_dump ctx) ''anonymous_id'' = opt_str (c_anonymous_id ctx)"
  "dget_default (ctx_dump ctx) ''attributes'' v = PDict (c_attributes ctx)"
  by (simp_all add: ctx_dump_def dget_def dget_default_def split: option.splits)




lemma op_value_supported [simp]: "op_value p \<in> set SUPPORTED_OPERATORS"
  by (cases p) (simp_all add: operator_sets)

lemma op_value_presence [simp]:
  "op_value p = ''exists'' \<longleftrightarrow> p = EXISTS" "op_value p = ''not_exists'' \<longleftrightarrow> p = NOT_EXISTS"
  by (cases p; simp)+




section \<open>Lemmas: rollout and assignment\<close>









section \<open>Lemmas: the canonical flag\<close>





section \<open>Lemmas: no exception\<close>





section \<open>Properties\<close>




end
