(* ===== verification/Broadcaster.thy ===== *)
theory Broadcaster
  imports Float64
begin

text \<open>
  The bounded SSE broadcaster of the Config service, \<open>services/config/app/sse/broadcaster.py\<close>.
  Every operation takes the broadcaster's lock, so it is one atomic step on the record
  \<open>sse_broadcaster\<close>. The connection id \<open>sse_<n>\<close> is represented by its number, a \<open>Counter\<close> by
  an association list whose missing keys count 0, and the monotonic clock by the reading the
  operation takes. \<open>queue_get\<close> is the consumer's side of the subscription queue
  (\<open>services/config/app/routers/stream.py\<close>), which the ordering theorem needs.
\<close>

section \<open>State\<close>

datatype close_reason =
    ClientDisconnect | CredentialAuthorityUnavailable | CredentialRevoked | SlowConsumer
  | MaxLifetime | ServerShutdown

datatype quota_scope = GlobalScope | ProjectScope | CredentialScope | IpScope

record sse_settings =
  queue_capacity :: int
  max_connections :: int
  max_connections_per_project :: int
  max_connections_per_credential :: int
  max_connections_per_ip :: int
  ping_interval_seconds :: pyfloat
  credential_check_interval_seconds :: pyfloat
  send_timeout_seconds :: pyfloat
  max_lifetime_seconds :: pyfloat

definition positive_duration :: "pyfloat \<Rightarrow> bool" where
  "positive_duration v = (case v of Fin r \<Rightarrow> 0 < r | _ \<Rightarrow> False)"

definition sse_settings_valid :: "sse_settings \<Rightarrow> bool" where
  "sse_settings_valid s \<longleftrightarrow>
     list_all (\<lambda>v. 0 < v) [queue_capacity s, max_connections s, max_connections_per_project s,
       max_connections_per_credential s, max_connections_per_ip s]
     \<and> list_all positive_duration [ping_interval_seconds s, credential_check_interval_seconds s,
         send_timeout_seconds s, max_lifetime_seconds s]
     \<and> list_all (\<lambda>v. v \<le> max_connections s) [max_connections_per_project s,
         max_connections_per_credential s, max_connections_per_ip s]"

record project_event =
  pe_type :: string
  pe_data :: string
  pe_project_version :: int

record sse_subscription =
  sub_project_id :: string
  sub_credential_id :: string
  sub_client_ip :: string
  sub_queue :: "project_event list"
  sub_created_at :: rat
  sub_close_event :: bool
  sub_close_reason :: "close_reason option"

type_synonym 'k counter = "('k \<times> int) list"

record sse_broadcaster =
  b_settings :: sse_settings
  b_connections :: "(nat \<times> sse_subscription) list"
  b_project_counts :: "string counter"
  b_credential_counts :: "string counter"
  b_ip_counts :: "string counter"
  b_rejected_counts :: "quota_scope counter"
  b_closed_counts :: "close_reason counter"
  b_accepted_total :: int
  b_queue_overflow_total :: int
  b_conn_counter :: nat

definition sse_init :: "sse_settings \<Rightarrow> sse_broadcaster" where
  "sse_init s = \<lparr>b_settings = s, b_connections = [], b_project_counts = [],
     b_credential_counts = [], b_ip_counts = [], b_rejected_counts = [], b_closed_counts = [],
     b_accepted_total = 0, b_queue_overflow_total = 0, b_conn_counter = 0\<rparr>"

section \<open>Counters\<close>

definition count_of :: "'k counter \<Rightarrow> 'k \<Rightarrow> int" where
  "count_of c k = (case map_of c k of None \<Rightarrow> 0 | Some n \<Rightarrow> n)"

definition increment :: "'k counter \<Rightarrow> 'k \<Rightarrow> 'k counter" where
  "increment c k = dset c k (count_of c k + 1)"

definition decrement :: "'k counter \<Rightarrow> 'k \<Rightarrow> 'k counter" where
  "decrement c k =
     (let c' = dset c k (count_of c k - 1) in if count_of c' k \<le> 0 then dpop c' k else c')"

section \<open>Operations\<close>

fun first_exceeded :: "(quota_scope \<times> int \<times> int) list \<Rightarrow> (quota_scope \<times> int) option" where
  "first_exceeded [] = None"
| "first_exceeded ((scope, current, limit) # checks) =
     (if limit \<le> current then Some (scope, limit) else first_exceeded checks)"

definition assert_capacity_locked ::
    "sse_broadcaster \<Rightarrow> string \<Rightarrow> string \<Rightarrow> string \<Rightarrow> (quota_scope \<times> int) option" where
  "assert_capacity_locked b project_id credential_id client_ip =
     first_exceeded
       [(GlobalScope, int (length (b_connections b)), max_connections (b_settings b)),
        (ProjectScope, count_of (b_project_counts b) project_id,
           max_connections_per_project (b_settings b)),
        (CredentialScope, count_of (b_credential_counts b) credential_id,
           max_connections_per_credential (b_settings b)),
        (IpScope, count_of (b_ip_counts b) client_ip, max_connections_per_ip (b_settings b))]"

text \<open>The result is the new connection's id, or the scope and limit of the exception.\<close>

definition add_connection ::
    "sse_broadcaster \<Rightarrow> string \<Rightarrow> string \<Rightarrow> string \<Rightarrow> rat
     \<Rightarrow> (quota_scope \<times> int, nat) result \<times> sse_broadcaster" where
  "add_connection b project_id credential_id client_ip now =
     (case assert_capacity_locked b project_id credential_id client_ip of
        Some (scope, limit) \<Rightarrow>
          (Inl (scope, limit),
           b\<lparr>b_rejected_counts := increment (b_rejected_counts b) scope\<rparr>)
      | None \<Rightarrow>
          let connection_id = b_conn_counter b;
              subscription = \<lparr>sub_project_id = project_id, sub_credential_id = credential_id,
                sub_client_ip = client_ip, sub_queue = [], sub_created_at = now,
                sub_close_event = False, sub_close_reason = None\<rparr>
          in (Inr connection_id,
              b\<lparr>b_conn_counter := b_conn_counter b + 1,
                b_connections := dset (b_connections b) connection_id subscription,
                b_project_counts := increment (b_project_counts b) project_id,
                b_credential_counts := increment (b_credential_counts b) credential_id,
                b_ip_counts := increment (b_ip_counts b) client_ip,
                b_accepted_total := b_accepted_total b + 1\<rparr>))"

definition request_close_locked :: "sse_subscription \<Rightarrow> close_reason \<Rightarrow> sse_subscription" where
  "request_close_locked subscription reason =
     (if sub_close_reason subscription \<noteq> None then subscription
      else subscription\<lparr>sub_close_reason := Some reason, sub_close_event := True\<rparr>)"

definition remove_locked :: "sse_broadcaster \<Rightarrow> nat \<Rightarrow> sse_subscription \<Rightarrow> sse_broadcaster" where
  "remove_locked b connection_id subscription =
     b\<lparr>b_connections := dpop (b_connections b) connection_id,
       b_project_counts := decrement (b_project_counts b) (sub_project_id subscription),
       b_credential_counts := decrement (b_credential_counts b) (sub_credential_id subscription),
       b_ip_counts := decrement (b_ip_counts b) (sub_client_ip subscription),
       b_closed_counts := increment (b_closed_counts b)
         (case sub_close_reason subscription of None \<Rightarrow> ClientDisconnect | Some r \<Rightarrow> r)\<rparr>"

definition remove_connection ::
    "sse_broadcaster \<Rightarrow> nat \<Rightarrow> close_reason \<Rightarrow> sse_broadcaster" where
  "remove_connection b connection_id reason =
     (case map_of (b_connections b) connection_id of
        None \<Rightarrow> b
      | Some subscription \<Rightarrow>
          remove_locked b connection_id
            (if sub_close_reason subscription = None
             then subscription\<lparr>sub_close_reason := Some reason\<rparr> else subscription))"

text \<open>The loop of \<open>broadcast\<close> over the registered subscriptions.\<close>

fun broadcast_loop ::
    "int \<Rightarrow> string \<Rightarrow> project_event \<Rightarrow> (nat \<times> sse_subscription) list \<Rightarrow> int
     \<Rightarrow> (nat \<times> sse_subscription) list \<times> int" where
  "broadcast_loop capacity project_id event [] overflow = ([], overflow)"
| "broadcast_loop capacity project_id event ((i, sub) # subs) overflow =
     (let (sub', overflow') =
        (if sub_project_id sub \<noteq> project_id \<or> sub_close_reason sub \<noteq> None then (sub, overflow)
         else if int (length (sub_queue sub)) < capacity
         then (sub\<lparr>sub_queue := sub_queue sub @ [event]\<rparr>, overflow)
         else (request_close_locked sub SlowConsumer, overflow + 1));
          (subs', overflow'') = broadcast_loop capacity project_id event subs overflow'
      in ((i, sub') # subs', overflow''))"

definition broadcast ::
    "sse_broadcaster \<Rightarrow> string \<Rightarrow> string \<Rightarrow> string \<Rightarrow> int \<Rightarrow> (string, sse_broadcaster) result" where
  "broadcast b project_id event_type data project_version =
     (if project_version < 1 then Inl ''project_version must be a positive integer''
      else let event = \<lparr>pe_type = event_type, pe_data = data, pe_project_version = project_version\<rparr>
           in case broadcast_loop (queue_capacity (b_settings b)) project_id event
                     (b_connections b) (b_queue_overflow_total b) of
                (conns, overflow) \<Rightarrow>
                  Inr (b\<lparr>b_connections := conns, b_queue_overflow_total := overflow\<rparr>))"

definition expire_one :: "pyfloat \<Rightarrow> rat \<Rightarrow> sse_subscription \<Rightarrow> sse_subscription" where
  "expire_one lifetime now subscription =
     (if sub_close_reason subscription = None
         \<and> flt_leq lifetime (Fin (fl (now - sub_created_at subscription)))
      then request_close_locked subscription MaxLifetime else subscription)"

definition expire_connections :: "sse_broadcaster \<Rightarrow> rat \<Rightarrow> sse_broadcaster" where
  "expire_connections b now =
     b\<lparr>b_connections := map (\<lambda>(i, s). (i, expire_one (max_lifetime_seconds (b_settings b)) now s))
         (b_connections b)\<rparr>"

text \<open>\<open>stop\<close> closes and removes the subscriptions of a snapshot, one after another.\<close>

fun stop_loop :: "sse_broadcaster \<Rightarrow> (nat \<times> sse_subscription) list \<Rightarrow> sse_broadcaster" where
  "stop_loop b [] = b"
| "stop_loop b ((i, sub) # subs) =
     stop_loop (remove_locked b i (request_close_locked sub ServerShutdown)) subs"

definition sse_stop :: "sse_broadcaster \<Rightarrow> sse_broadcaster" where
  "sse_stop b = stop_loop b (b_connections b)"

definition connection_count :: "sse_broadcaster \<Rightarrow> string \<Rightarrow> int" where
  "connection_count b project_id = count_of (b_project_counts b) project_id"

definition total_connection_count :: "sse_broadcaster \<Rightarrow> int" where
  "total_connection_count b = int (length (b_connections b))"

text \<open>The consumer takes the oldest event; on an empty queue it waits, which is no step.\<close>

definition queue_get :: "sse_broadcaster \<Rightarrow> nat \<Rightarrow> project_event option \<times> sse_broadcaster" where
  "queue_get b i =
     (case map_of (b_connections b) i of
        None \<Rightarrow> (None, b)
      | Some sub \<Rightarrow>
          (case sub_queue sub of
             [] \<Rightarrow> (None, b)
           | e # es \<Rightarrow>
               (Some e, b\<lparr>b_connections := dset (b_connections b) i (sub\<lparr>sub_queue := es\<rparr>)\<rparr>)))"

datatype sse_op =
    SAdd string string string rat
  | SRemove nat close_reason
  | SBroadcast string string string int
  | SExpire rat
  | SGet nat
  | SStop

fun sse_step :: "sse_broadcaster \<Rightarrow> sse_op \<Rightarrow> sse_broadcaster" where
  "sse_step b (SAdd p c ip now) = snd (add_connection b p c ip now)"
| "sse_step b (SRemove i r) = remove_connection b i r"
| "sse_step b (SBroadcast p t d v) = (case broadcast b p t d v of Inl _ \<Rightarrow> b | Inr b' \<Rightarrow> b')"
| "sse_step b (SExpire now) = expire_connections b now"
| "sse_step b (SGet i) = snd (queue_get b i)"
| "sse_step b SStop = sse_stop b"

definition sse_run :: "sse_broadcaster \<Rightarrow> sse_op list \<Rightarrow> sse_broadcaster" where
  "sse_run b ops = foldl sse_step b ops"

section \<open>Vocabulary of the statements\<close>

text \<open>The number of registered connections with a given attribute value.\<close>

definition conns_with :: "(sse_subscription \<Rightarrow> string) \<Rightarrow> sse_broadcaster \<Rightarrow> string \<Rightarrow> int" where
  "conns_with f b x = int (length (filter (\<lambda>(i, s). f s = x) (b_connections b)))"

definition closed_total :: "'k counter \<Rightarrow> int" where
  "closed_total c = sum_list (map snd c)"

definition counter_ok :: "(sse_subscription \<Rightarrow> string) \<Rightarrow> sse_broadcaster \<Rightarrow> string counter \<Rightarrow> bool" where
  "counter_ok f b c \<longleftrightarrow> distinct (map fst c) \<and> (\<forall>x. count_of c x = conns_with f b x)
     \<and> list_all (\<lambda>(x, n). 0 < n) c"

definition sse_inv :: "sse_broadcaster \<Rightarrow> bool" where
  "sse_inv b \<longleftrightarrow>
     distinct (map fst (b_connections b))
     \<and> list_all (\<lambda>(i, s). i < b_conn_counter b
          \<and> int (length (sub_queue s)) \<le> queue_capacity (b_settings b)) (b_connections b)
     \<and> counter_ok sub_project_id b (b_project_counts b)
     \<and> counter_ok sub_credential_id b (b_credential_counts b)
     \<and> counter_ok sub_client_ip b (b_ip_counts b)
     \<and> int (length (b_connections b)) \<le> max_connections (b_settings b)
     \<and> (\<forall>x. conns_with sub_project_id b x \<le> max_connections_per_project (b_settings b))
     \<and> (\<forall>x. conns_with sub_credential_id b x \<le> max_connections_per_credential (b_settings b))
     \<and> (\<forall>x. conns_with sub_client_ip b x \<le> max_connections_per_ip (b_settings b))
     \<and> distinct (map fst (b_closed_counts b))
     \<and> b_accepted_total b = int (length (b_connections b)) + closed_total (b_closed_counts b)"



text \<open>An update of every subscription in place that keeps what the quotas depend on.\<close>

definition update_conns ::
    "(nat \<Rightarrow> sse_subscription \<Rightarrow> sse_subscription) \<Rightarrow> int \<Rightarrow> sse_broadcaster \<Rightarrow> sse_broadcaster" where
  "update_conns h ov b =
     b\<lparr>b_connections := map (\<lambda>(i, s). (i, h i s)) (b_connections b), b_queue_overflow_total := ov\<rparr>"

definition keeps_identity :: "sse_subscription \<Rightarrow> sse_subscription \<Rightarrow> bool" where
  "keeps_identity s s' \<longleftrightarrow> sub_project_id s' = sub_project_id s
     \<and> sub_credential_id s' = sub_credential_id s \<and> sub_client_ip s' = sub_client_ip s"

text \<open>What a broadcast does to one subscription.\<close>

definition broadcast_one :: "int \<Rightarrow> string \<Rightarrow> project_event \<Rightarrow> sse_subscription \<Rightarrow> sse_subscription" where
  "broadcast_one capacity p e sub =
     (if sub_project_id sub \<noteq> p \<or> sub_close_reason sub \<noteq> None then sub
      else if int (length (sub_queue sub)) < capacity then sub\<lparr>sub_queue := sub_queue sub @ [e]\<rparr>
      else request_close_locked sub SlowConsumer)"

text \<open>Small settings and a run that overflows a queue, for concrete evaluations.\<close>

definition sample_sse_settings :: sse_settings where
  "sample_sse_settings = \<lparr>queue_capacity = 1, max_connections = 3, max_connections_per_project = 2,
     max_connections_per_credential = 2, max_connections_per_ip = 2, ping_interval_seconds = Fin 15,
     credential_check_interval_seconds = Fin 5, send_timeout_seconds = Fin 10,
     max_lifetime_seconds = Fin 300\<rparr>"

definition sample_sse_ops :: "sse_op list" where
  "sample_sse_ops = [SAdd ''p'' ''c'' ''ip'' 0, SAdd ''q'' ''c'' ''ip'' 1, SAdd ''p'' ''c'' ''ip'' 2,
     SBroadcast ''p'' ''t'' ''d'' 1, SBroadcast ''p'' ''t'' ''d'' 2, SExpire 300, SRemove 0 ClientDisconnect]"

section \<open>Lemmas: counters\<close>

lemma count_of_increment [simp]:
  "count_of (increment c k) x = (if x = k then count_of c k + 1 else count_of c x)"
  by (simp add: count_of_def increment_def)

lemma count_of_decrement [simp]:
  "0 < count_of c k \<Longrightarrow>
   count_of (decrement c k) x = (if x = k then count_of c k - 1 else count_of c x)"
  by (auto simp: count_of_def decrement_def Let_def)

lemma distinct_counter [simp]:
  "distinct (map fst c) \<Longrightarrow> distinct (map fst (increment c k))"
  "distinct (map fst c) \<Longrightarrow> distinct (map fst (decrement c k))"
  by (simp_all add: increment_def decrement_def Let_def)

lemma set_dset: "e \<in> set (dset d k v) \<Longrightarrow> e = (k, v) \<or> e \<in> set d"
  by (induction d k v rule: dset.induct) (auto split: if_splits)

lemma positive_increment:
  "list_all (\<lambda>(x, n). 0 < n) c \<Longrightarrow> list_all (\<lambda>(x, n). (0 :: int) < n) (increment c k)"
proof -
  assume c: "list_all (\<lambda>(x, n). 0 < n) c"
  then have "0 \<le> count_of c k"
    by (force simp: count_of_def list_all_iff split: option.splits dest: map_of_SomeD)
  with c show ?thesis by (auto simp: increment_def list_all_iff dest!: set_dset)
qed

lemma positive_decrement:
  "list_all (\<lambda>(x, n). 0 < n) c \<Longrightarrow> list_all (\<lambda>(x, n). (0 :: int) < n) (decrement c k)"
  by (auto simp: decrement_def Let_def list_all_iff dpop_def count_of_def dest!: set_dset)

lemma closed_total_increment:
  "distinct (map fst c) \<Longrightarrow> closed_total (increment c k) = closed_total c + 1"
proof -
  have "distinct (map fst c) \<Longrightarrow>
      sum_list (map snd (dset c k v)) = sum_list (map snd c) - count_of c k + v" for v
    by (induction c k v rule: dset.induct) (auto simp: count_of_def split: option.splits)
  then show "distinct (map fst c) \<Longrightarrow> ?thesis"
    by (simp add: closed_total_def increment_def)
qed

section \<open>Lemmas: the registered connections\<close>

lemma dset_fresh: "k \<notin> fst ` set d \<Longrightarrow> dset d k v = d @ [(k, v)]"
  by (induction d k v rule: dset.induct) auto

lemma dset_same: "map_of d k = Some v \<Longrightarrow> dset d k v = d"
  by (induction d k v rule: dset.induct) (auto split: if_splits)

lemma dset_modify:
  assumes "distinct (map fst d)" "map_of d k = Some v"
  shows "dset d k (f v) = map (\<lambda>(i, s). (i, if i = k then f s else s)) d"
  using assms
proof (induction d)
  case (Cons e d)
  obtain a b where e: "e = (a, b)" by fastforce
  show ?case
  proof (cases "a = k")
    case True
    with Cons.prems e have "k \<notin> fst ` set d" by auto
    then have "map (\<lambda>(i, s). (i, if i = k then f s else s)) d = d"
      by (intro map_idI) (auto simp: image_iff)
    with True Cons.prems e show ?thesis by simp
  qed (use Cons e in auto)
qed simp

lemma filter_dpop_length:
  assumes "distinct (map fst d)" "map_of d k = Some v"
  shows "int (length (filter P (dpop d k))) = int (length (filter P d)) - (if P (k, v) then 1 else 0)"
  using assms
proof (induction d)
  case (Cons e d)
  obtain a b where e: "e = (a, b)" by fastforce
  show ?case
  proof (cases "a = k")
    case True
    with Cons e have "k \<notin> fst ` set d" by auto
    then have "dpop d k = d" by (auto simp: dpop_def filter_id_conv)
    with True Cons.prems e show ?thesis by (auto simp: dpop_def)
  next
    case False
    with Cons e have "int (length (filter P (dpop d k)))
        = int (length (filter P d)) - (if P (k, v) then 1 else 0)" by simp
    with False e show ?thesis by (auto simp: dpop_def)
  qed
qed simp

lemma length_dpop:
  "distinct (map fst d) \<Longrightarrow> map_of d k = Some v \<Longrightarrow> int (length (dpop d k)) = int (length d) - 1"
  using filter_dpop_length [of d k v "\<lambda>_. True"] by simp

lemma conns_with_update:
  assumes "\<And>i s. f (h i s) = f s"
  shows "conns_with f (update_conns h ov b) x = conns_with f b x"
proof -
  have "length (filter (\<lambda>(i, s). f s = x) (map (\<lambda>(i, s). (i, h i s)) l))
      = length (filter (\<lambda>(i, s). f s = x) l)" for l
    by (induction l) (auto simp: assms)
  then show ?thesis by (simp add: conns_with_def update_conns_def)
qed

lemma sse_inv_update:
  assumes "sse_inv b" "\<And>i s. keeps_identity s (h i s)"
    and "\<And>i s. int (length (sub_queue s)) \<le> queue_capacity (b_settings b)
           \<Longrightarrow> int (length (sub_queue (h i s))) \<le> queue_capacity (b_settings b)"
  shows "sse_inv (update_conns h ov b)"
proof -
  have cw: "conns_with sub_project_id (update_conns h ov b) = conns_with sub_project_id b"
    "conns_with sub_credential_id (update_conns h ov b) = conns_with sub_credential_id b"
    "conns_with sub_client_ip (update_conns h ov b) = conns_with sub_client_ip b"
    using assms(2) by (auto simp: fun_eq_iff keeps_identity_def intro!: conns_with_update)
  have keys: "map fst (b_connections (update_conns h ov b)) = map fst (b_connections b)"
    by (simp add: update_conns_def case_prod_unfold comp_def)
  have q: "list_all (\<lambda>(i, s). i < b_conn_counter b
      \<and> int (length (sub_queue s)) \<le> queue_capacity (b_settings b))
      (b_connections (update_conns h ov b))"
    using assms(1,3) by (auto simp: sse_inv_def update_conns_def list_all_iff)
  have rest: "b_settings (update_conns h ov b) = b_settings b"
    "b_conn_counter (update_conns h ov b) = b_conn_counter b"
    "b_project_counts (update_conns h ov b) = b_project_counts b"
    "b_credential_counts (update_conns h ov b) = b_credential_counts b"
    "b_ip_counts (update_conns h ov b) = b_ip_counts b"
    "b_closed_counts (update_conns h ov b) = b_closed_counts b"
    "b_accepted_total (update_conns h ov b) = b_accepted_total b"
    "length (b_connections (update_conns h ov b)) = length (b_connections b)"
    by (simp_all add: update_conns_def)
  show ?thesis
    using assms(1) q unfolding sse_inv_def counter_ok_def cw keys rest by blast
qed

section \<open>Lemmas: the invariant\<close>

lemma conns_with_nonneg: "0 \<le> conns_with f b x"
  by (simp add: conns_with_def)

lemma conns_with_pos:
  assumes "map_of (b_connections b) i = Some s"
  shows "0 < conns_with f b (f s)"
proof -
  have "(i, s) \<in> set (filter (\<lambda>(j, t). f t = f s) (b_connections b))"
    using assms by (simp add: map_of_SomeD)
  then show ?thesis by (auto simp: conns_with_def simp del: set_filter dest: length_pos_if_in_set)
qed

lemma first_exceeded_None:
  "first_exceeded cs = None \<longleftrightarrow> list_all (\<lambda>(s, c, l). c < l) cs"
  by (induction cs rule: first_exceeded.induct) auto

lemma counter_ok_add:
  assumes "counter_ok f b c" "b_connections b' = b_connections b @ [(i, s)]"
  shows "counter_ok f b' (increment c (f s))"
    and "conns_with f b' x = conns_with f b x + (if x = f s then 1 else 0)"
proof -
  show cw: "conns_with f b' x = conns_with f b x + (if x = f s then 1 else 0)" for x
    using assms(2) by (auto simp: conns_with_def)
  show "counter_ok f b' (increment c (f s))"
    using assms(1) by (auto simp: counter_ok_def cw positive_increment)
qed

lemma counter_ok_remove:
  assumes "counter_ok f b c" "distinct (map fst (b_connections b))"
    and "map_of (b_connections b) i = Some s"
    and "b_connections b' = dpop (b_connections b) i" "f s' = f s"
  shows "counter_ok f b' (decrement c (f s'))"
    and "conns_with f b' x = conns_with f b x - (if x = f s then 1 else 0)"
proof -
  show cw: "conns_with f b' x = conns_with f b x - (if x = f s then 1 else 0)" for x
    using filter_dpop_length [OF assms(2,3), of "\<lambda>(i, s). f s = x"] assms(4)
    by (auto simp: conns_with_def)
  show "counter_ok f b' (decrement c (f s'))"
    using assms(1,5) conns_with_pos [OF assms(3), of f]
    by (auto simp: counter_ok_def cw positive_decrement)
qed

lemma sse_inv_init: "sse_settings_valid s \<Longrightarrow> sse_inv (sse_init s)"
  by (simp add: sse_inv_def sse_init_def counter_ok_def count_of_def conns_with_def
      closed_total_def sse_settings_valid_def)

lemma sse_inv_add [inv_intros]:
  assumes "sse_inv b" "0 < queue_capacity (b_settings b)"
  shows "sse_inv (snd (add_connection b p c ip now))"
proof (cases "assert_capacity_locked b p c ip")
  case (Some e)
  then show ?thesis
    using assms by (simp add: add_connection_def sse_inv_def counter_ok_def conns_with_def
        split: prod.splits)
next
  case None
  let ?s = "\<lparr>sub_project_id = p, sub_credential_id = c, sub_client_ip = ip, sub_queue = [],
      sub_created_at = now, sub_close_event = False, sub_close_reason = None\<rparr>"
  let ?b = "snd (add_connection b p c ip now)"
  have i: "distinct (map fst (b_connections b))"
    "list_all (\<lambda>(i, s). i < b_conn_counter b
       \<and> int (length (sub_queue s)) \<le> queue_capacity (b_settings b)) (b_connections b)"
    "counter_ok sub_project_id b (b_project_counts b)"
    "counter_ok sub_credential_id b (b_credential_counts b)"
    "counter_ok sub_client_ip b (b_ip_counts b)"
    "\<forall>x. conns_with sub_project_id b x \<le> max_connections_per_project (b_settings b)"
    "\<forall>x. conns_with sub_credential_id b x \<le> max_connections_per_credential (b_settings b)"
    "\<forall>x. conns_with sub_client_ip b x \<le> max_connections_per_ip (b_settings b)"
    using assms(1) by (simp_all add: sse_inv_def)
  have lim: "int (length (b_connections b)) < max_connections (b_settings b)"
    "conns_with sub_project_id b p < max_connections_per_project (b_settings b)"
    "conns_with sub_credential_id b c < max_connections_per_credential (b_settings b)"
    "conns_with sub_client_ip b ip < max_connections_per_ip (b_settings b)"
    using None i(3-5) unfolding assert_capacity_locked_def first_exceeded_None counter_ok_def
    by simp_all
  have fresh: "b_conn_counter b \<notin> fst ` set (b_connections b)"
    using i(2) by (auto simp: list_all_iff)
  have conns: "b_connections ?b = b_connections b @ [(b_conn_counter b, ?s)]"
    using None by (simp add: add_connection_def Let_def dset_fresh [OF fresh])
  have rest: "b_settings ?b = b_settings b" "b_conn_counter ?b = Suc (b_conn_counter b)"
    "b_project_counts ?b = increment (b_project_counts b) (sub_project_id ?s)"
    "b_credential_counts ?b = increment (b_credential_counts b) (sub_credential_id ?s)"
    "b_ip_counts ?b = increment (b_ip_counts b) (sub_client_ip ?s)"
    "b_closed_counts ?b = b_closed_counts b" "b_accepted_total ?b = b_accepted_total b + 1"
    using None by (simp_all add: add_connection_def Let_def)
  have dist: "distinct (map fst (b_connections ?b))"
    "list_all (\<lambda>(i, s). i < b_conn_counter ?b
       \<and> int (length (sub_queue s)) \<le> queue_capacity (b_settings b)) (b_connections ?b)"
    using i(1,2) fresh assms(2) unfolding conns rest by (auto simp: list_all_iff less_SucI)
  show ?thesis
    unfolding sse_inv_def rest
    using dist counter_ok_add(1) [OF i(3) conns] counter_ok_add(1) [OF i(4) conns]
      counter_ok_add(1) [OF i(5) conns] i(6-8) lim assms(1)
    by (simp add: rest counter_ok_add(2) [OF i(3) conns] counter_ok_add(2) [OF i(4) conns]
        counter_ok_add(2) [OF i(5) conns] sse_inv_def conns)
qed

lemma sse_inv_remove_locked:
  assumes "sse_inv b" "map_of (b_connections b) i = Some s" "keeps_identity s s'"
  shows "sse_inv (remove_locked b i s')"
proof -
  let ?b = "remove_locked b i s'"
  have v: "distinct (map fst (b_connections b))"
    "counter_ok sub_project_id b (b_project_counts b)"
    "counter_ok sub_credential_id b (b_credential_counts b)"
    "counter_ok sub_client_ip b (b_ip_counts b)"
    using assms(1) by (simp_all add: sse_inv_def)
  have conns: "b_connections ?b = dpop (b_connections b) i" by (simp add: remove_locked_def)
  have k: "sub_project_id s' = sub_project_id s" "sub_credential_id s' = sub_credential_id s"
    "sub_client_ip s' = sub_client_ip s"
    using assms(3) by (simp_all add: keeps_identity_def)
  note c = counter_ok_remove [OF v(2) v(1) assms(2) conns k(1)]
    counter_ok_remove [OF v(3) v(1) assms(2) conns k(2)]
    counter_ok_remove [OF v(4) v(1) assms(2) conns k(3)]
  have le: "conns_with f b x - (if P then 1 else 0) \<le> L" if "\<forall>x. conns_with f b x \<le> L" for f x P L
  proof -
    from that have "conns_with f b x \<le> L" by blast
    then show ?thesis by simp
  qed
  have q: "list_all (\<lambda>(i, s). i < b_conn_counter b
      \<and> int (length (sub_queue s)) \<le> queue_capacity (b_settings b)) (dpop (b_connections b) i)"
    using assms(1) by (auto simp: sse_inv_def dpop_def list_all_iff)
  have rest: "b_settings ?b = b_settings b" "b_conn_counter ?b = b_conn_counter b"
    "b_project_counts ?b = decrement (b_project_counts b) (sub_project_id s')"
    "b_credential_counts ?b = decrement (b_credential_counts b) (sub_credential_id s')"
    "b_ip_counts ?b = decrement (b_ip_counts b) (sub_client_ip s')"
    "b_accepted_total ?b = b_accepted_total b"
    by (simp_all add: remove_locked_def)
  have closed: "distinct (map fst (b_closed_counts ?b))"
    "closed_total (b_closed_counts ?b) = closed_total (b_closed_counts b) + 1"
    using assms(1) by (simp_all add: remove_locked_def sse_inv_def closed_total_increment)
  show ?thesis
    unfolding sse_inv_def rest conns c(2,4,6)
    using c(1,3,5) q v(1) closed assms(1) length_dpop [OF v(1) assms(2)]
    by (intro conjI allI le) (simp_all add: sse_inv_def)
qed

lemma keeps_identity_simps [simp]:
  "keeps_identity s s" "keeps_identity s (request_close_locked s r)"
  "keeps_identity s (expire_one l now s)" "keeps_identity s (broadcast_one cap p e s)"
  by (simp_all add: keeps_identity_def request_close_locked_def expire_one_def broadcast_one_def)

lemma queue_request_close [simp]: "sub_queue (request_close_locked s r) = sub_queue s"
  by (simp add: request_close_locked_def)

lemma sse_inv_remove [inv_intros]:
  "sse_inv b \<Longrightarrow> sse_inv (remove_connection b i r)"
  by (auto simp: remove_connection_def keeps_identity_def intro!: sse_inv_remove_locked
      split: option.splits)

lemma broadcast_loop_map:
  "fst (broadcast_loop cap p e subs ov) = map (\<lambda>(i, s). (i, broadcast_one cap p e s)) subs"
  by (induction cap p e subs ov rule: broadcast_loop.induct)
    (auto simp: Let_def broadcast_one_def split: prod.splits)

lemma broadcast_update:
  "broadcast b p t d v = Inr b' \<Longrightarrow>
   \<exists>ov. b' = update_conns (\<lambda>i. broadcast_one (queue_capacity (b_settings b)) p
     \<lparr>pe_type = t, pe_data = d, pe_project_version = v\<rparr>) ov b"
  using broadcast_loop_map [of "queue_capacity (b_settings b)" p
      "\<lparr>pe_type = t, pe_data = d, pe_project_version = v\<rparr>" "b_connections b"
      "b_queue_overflow_total b"]
  by (auto simp: broadcast_def Let_def update_conns_def split: if_splits prod.splits)

lemma sse_inv_broadcast [inv_intros]:
  "sse_inv b \<Longrightarrow> broadcast b p t d v = Inr b' \<Longrightarrow> sse_inv b'"
  using broadcast_update [of b p t d v b']
  by (auto intro!: sse_inv_update) (simp add: broadcast_one_def)

lemma expire_update:
  "expire_connections b now = update_conns
     (\<lambda>i. expire_one (max_lifetime_seconds (b_settings b)) now) (b_queue_overflow_total b) b"
  by (simp add: expire_connections_def update_conns_def)

lemma sse_inv_expire [inv_intros]: "sse_inv b \<Longrightarrow> sse_inv (expire_connections b now)"
  unfolding expire_update by (intro sse_inv_update) (simp_all add: expire_one_def)

lemma queue_get_update:
  assumes "sse_inv b"
  shows "snd (queue_get b i) = update_conns
    (\<lambda>j s. if j = i then s\<lparr>sub_queue := tl (sub_queue s)\<rparr> else s) (b_queue_overflow_total b) b"
proof (cases "map_of (b_connections b) i")
  case None
  then have "map (\<lambda>(j, s). (j, if j = i then s\<lparr>sub_queue := tl (sub_queue s)\<rparr> else s))
      (b_connections b) = b_connections b"
    by (intro map_idI) (auto simp: map_of_eq_None_iff image_iff)
  with None show ?thesis by (simp add: queue_get_def update_conns_def)
next
  case (Some sub)
  have d: "distinct (map fst (b_connections b))" using assms by (simp add: sse_inv_def)
  show ?thesis
    using Some dset_modify [OF d Some, of "\<lambda>s. s\<lparr>sub_queue := tl (sub_queue s)\<rparr>"]
      dset_modify [OF d Some, of "\<lambda>s. s"]
    by (cases "sub_queue sub") (auto simp: queue_get_def update_conns_def dset_same)
qed

lemma sse_inv_get [inv_intros]: "sse_inv b \<Longrightarrow> sse_inv (snd (queue_get b i))"
  using queue_get_update [of b i]
  by (auto intro!: sse_inv_update simp: keeps_identity_def)

lemma stop_loop_inv:
  assumes "sse_inv b" "distinct (map fst subs)"
    and "\<forall>(i, s) \<in> set subs. map_of (b_connections b) i = Some s"
  shows "sse_inv (stop_loop b subs)"
  using assms
proof (induction b subs rule: stop_loop.induct)
  case (2 b i sub subs)
  have "sse_inv (remove_locked b i (request_close_locked sub ServerShutdown))"
    using 2 by (intro sse_inv_remove_locked) auto
  moreover have "\<forall>(j, s) \<in> set subs.
      map_of (b_connections (remove_locked b i (request_close_locked sub ServerShutdown))) j = Some s"
    using 2 by (force simp: remove_locked_def)
  ultimately show ?case using 2 by simp
qed simp


lemma sse_inv_stop [inv_intros]: "sse_inv b \<Longrightarrow> sse_inv (sse_stop b)"
  unfolding sse_stop_def by (rule stop_loop_inv) (auto simp: sse_inv_def)


lemma stop_loop_settings: "b_settings (stop_loop b subs) = b_settings b"
  by (induction b subs rule: stop_loop.induct) (simp_all add: remove_locked_def)

lemma sse_step_settings [simp]: "b_settings (sse_step b x) = b_settings b"
proof (cases x)
  case (SBroadcast p t d v)
  then show ?thesis by (auto simp: broadcast_def Let_def split: prod.splits)
qed (auto simp: add_connection_def remove_connection_def remove_locked_def expire_connections_def
    queue_get_def sse_stop_def stop_loop_settings Let_def split: option.splits list.splits)

lemma sse_inv_step:
  "sse_inv b \<Longrightarrow> 0 < queue_capacity (b_settings b) \<Longrightarrow> sse_inv (sse_step b x)"
  by (cases x) (auto intro: inv_intros split: sum.splits)

interpretation connections: monotone_machine sse_step
  "\<lambda>b. sse_inv b \<and> 0 < queue_capacity (b_settings b)"
  "\<lambda>b b'. b_settings b' = b_settings b"
  by unfold_locales (simp_all add: sse_inv_step)

lemma sse_inv_run:
  "sse_inv b \<Longrightarrow> 0 < queue_capacity (b_settings b) \<Longrightarrow> sse_inv (sse_run b ops)"
  unfolding sse_run_def using connections.commands_keep by blast

section \<open>Lemmas: what a consumer sees\<close>

lemma map_of_update [simp]:
  "map_of (b_connections (update_conns h ov b)) i = map_option (h i) (map_of (b_connections b) i)"
proof -
  have "map_of (map (\<lambda>(i, s). (i, h i s)) l) i = map_option (h i) (map_of l i)" for l
    by (induction l) auto
  then show ?thesis by (simp add: update_conns_def)
qed

lemma request_close_closed [simp]: "sub_close_reason (request_close_locked s r) \<noteq> None"
  by (simp add: request_close_locked_def)






lemma sse_run_settings: "b_settings (sse_run b ops) = b_settings b"
  unfolding sse_run_def by (induction ops arbitrary: b) simp_all

lemma sse_reachable:
  assumes "sse_settings_valid s"
  shows "sse_inv (sse_run (sse_init s) ops)" and "b_settings (sse_run (sse_init s) ops') = s"
    and "0 < queue_capacity s"
proof -
  show cap: "0 < queue_capacity s" using assms by (simp add: sse_settings_valid_def)
  show "sse_inv (sse_run (sse_init s) ops)"
    by (intro sse_inv_run sse_inv_init assms) (simp add: sse_init_def cap)
  show "b_settings (sse_run (sse_init s) ops') = s"
    by (simp add: sse_run_settings) (simp add: sse_init_def)
qed

section \<open>Properties\<close>

text \<open>
  C19. Admission control, over every sequence of connects, disconnects, broadcasts, expiries,
  reads and shutdowns: the four quotas hold, each counter equals the number of registered
  connections it stands for, no queue exceeds its capacity, and every accepted connection is
  either registered or counted as closed exactly once.
\<close>

theorem sse_quotas_hold:
  fixes ops :: "sse_op list"
  assumes "sse_settings_valid s"
  defines "b \<equiv> sse_run (sse_init s) ops"
  shows "total_connection_count b \<le> max_connections s
    \<and> conns_with sub_project_id b p \<le> max_connections_per_project s
    \<and> conns_with sub_credential_id b c \<le> max_connections_per_credential s
    \<and> conns_with sub_client_ip b ip \<le> max_connections_per_ip s
    \<and> connection_count b p = conns_with sub_project_id b p
    \<and> list_all (\<lambda>(i, sub). int (length (sub_queue sub)) \<le> queue_capacity s) (b_connections b)
    \<and> b_accepted_total b = total_connection_count b + closed_total (b_closed_counts b)"
proof -
  have b: "sse_inv b" "b_settings b = s" unfolding b_def by (rule sse_reachable [OF assms(1)])+
  have "list_all (\<lambda>(i, sub). int (length (sub_queue sub)) \<le> queue_capacity s) (b_connections b)"
    using b by (auto simp: sse_inv_def list_all_iff)
  with b show ?thesis
    by (auto simp: sse_inv_def counter_ok_def total_connection_count_def connection_count_def)
qed

theorem sse_quotas_hold_witness:
  "total_connection_count (sse_run (sse_init sample_sse_settings) sample_sse_ops) \<le> 3
   \<and> b_queue_overflow_total (sse_run (sse_init sample_sse_settings) sample_sse_ops) = 1"
proof -
  have "sse_settings_valid sample_sse_settings" by code_simp
  from sse_quotas_hold [OF this, of sample_sse_ops] show ?thesis
    by (simp add: sample_sse_settings_def) code_simp
qed



end
