(* ===== verification/RedisCache.thy ===== *)
theory RedisCache
  imports FlagModels
begin

text \<open>
  The version-aware flag cache of the Config service,
  \<open>services/config/app/store/redis_cache.py\<close>, with its three Lua scripts. Redis runs a script
  atomically, so an operation is one step on the project's three keys (\<open>rc_data\<close>,
  \<open>rc_version\<close>, \<open>rc_watermark\<close>); the two keys with a lifetime may expire at any moment, which
  \<open>ExpireData\<close> and \<open>ExpireVersion\<close> show. JSON text is represented by the document it
  denotes (\<open>NotJson\<close> is text that does not parse), a version by its decimal text.
\<close>

section \<open>Decimal text\<close>

text \<open>\<open>int(text)\<close> on a decimal numeral, the only texts this cache stores as versions.\<close>

definition int_of_text :: "string \<Rightarrow> int option" where
  "int_of_text s = (if s \<noteq> [] \<and> list_all is_digit s then Some (digits_val s) else None)"

fun lua_str_less :: "string \<Rightarrow> string \<Rightarrow> bool" where
  "lua_str_less _ [] = False"
| "lua_str_less [] (_ # _) = True"
| "lua_str_less (a # s) (b # t) =
     ((of_char a :: nat) < of_char b \<or> (a = b \<and> lua_str_less s t))"

definition strip_zeros :: "string \<Rightarrow> string" where
  "strip_zeros s =
     (let t = dropWhile (\<lambda>c. c = CHR ''0'') s in if t = [] then ''0'' else t)"

definition decimal_less :: "string \<Rightarrow> string \<Rightarrow> bool" where
  "decimal_less left right =
     (let l = strip_zeros left; r = strip_zeros right
      in if length l \<noteq> length r then length l < length r else lua_str_less l r)"

section \<open>The cache\<close>

datatype json_text = JsonOf pyval | NotJson

record flag_keys =
  rc_data :: "json_text option"
  rc_version :: "string option"
  rc_watermark :: "string option"

record flag_cache_entry =
  ce_project_version :: int
  ce_config :: dict

definition rc_empty :: flag_keys where
  "rc_empty = \<lparr>rc_data = None, rc_version = None, rc_watermark = None\<rparr>"

definition watermark_text :: "flag_keys \<Rightarrow> string" where
  "watermark_text k = (case rc_watermark k of None \<Rightarrow> ''0'' | Some w \<Rightarrow> w)"

definition drop_entry :: "flag_keys \<Rightarrow> flag_keys" where
  "drop_entry k = k\<lparr>rc_data := None, rc_version := None\<rparr>"

definition get_flags_lua :: "flag_keys \<Rightarrow> (json_text \<times> string) option \<times> flag_keys" where
  "get_flags_lua k =
     (case (rc_data k, rc_version k) of
        (Some data, Some cached_version) \<Rightarrow>
          if decimal_less cached_version (watermark_text k) then (None, drop_entry k)
          else (Some (data, cached_version), k)
      | _ \<Rightarrow> (None, k))"

definition set_flags_lua :: "flag_keys \<Rightarrow> string \<Rightarrow> json_text \<Rightarrow> int \<times> flag_keys" where
  "set_flags_lua k candidate entry =
     (let watermark = watermark_text k
      in if decimal_less candidate watermark then (0, k)
         else let k1 = k\<lparr>rc_data := Some entry, rc_version := Some candidate\<rparr>;
                  k2 = (if decimal_less watermark candidate
                        then k1\<lparr>rc_watermark := Some candidate\<rparr> else k1)
              in (1, k2))"

definition invalidate_flags_lua :: "flag_keys \<Rightarrow> string \<Rightarrow> int \<times> flag_keys" where
  "invalidate_flags_lua k incoming =
     (let k1 = (if decimal_less (watermark_text k) incoming
                then k\<lparr>rc_watermark := Some incoming\<rparr> else k)
      in case rc_version k1 of
           Some cached_version \<Rightarrow>
             if \<not> decimal_less incoming cached_version then (1, drop_entry k1) else (0, k1)
         | None \<Rightarrow> (0, k1))"

text \<open>\<open>entry["project_version"] != project_version\<close> of \<open>get_flags\<close>, with the two type tests.\<close>

definition valid_entry :: "pyval \<Rightarrow> int \<Rightarrow> dict option" where
  "valid_entry entry v = (case entry of
     PDict d \<Rightarrow>
       if fst ` set d = {''project_version'', ''config''}
          \<and> \<not> is_bool (dget d ''project_version'') \<and> py_eq_int (dget d ''project_version'') v
          \<and> 0 \<le> v
       then (case dget d ''config'' of PDict c \<Rightarrow> Some c | _ \<Rightarrow> None)
       else None
   | _ \<Rightarrow> None)"

definition rc_get_flags :: "flag_keys \<Rightarrow> flag_cache_entry option \<times> flag_keys" where
  "rc_get_flags k =
     (case get_flags_lua k of
        (None, k') \<Rightarrow> (None, k')
      | (Some (data, version_text), k') \<Rightarrow>
          (case (data, int_of_text version_text) of
             (JsonOf entry, Some v) \<Rightarrow>
               (case valid_entry entry v of
                  None \<Rightarrow> (None, drop_entry k')
                | Some c \<Rightarrow> (Some \<lparr>ce_project_version = v, ce_config = c\<rparr>, k'))
           | _ \<Rightarrow> (None, drop_entry k')))"

datatype cache_error = BadVersion | BadTtl | NotObject

text \<open>The project version is a Python integer; its text is the decimal of a non-negative one.\<close>

definition rc_set_flags ::
    "flag_keys \<Rightarrow> int \<Rightarrow> pyval \<Rightarrow> int \<Rightarrow> (cache_error, bool \<times> flag_keys) result" where
  "rc_set_flags k project_version data ttl =
     (if project_version < 0 then Inl BadVersion
      else if ttl \<le> 0 then Inl BadTtl
      else case data of
             PDict config \<Rightarrow>
               let cache_entry = JsonOf (PDict [(''project_version'', PInt project_version),
                     (''config'', PDict config)])
               in (case set_flags_lua k (dec (nat project_version)) cache_entry of
                     (r, k') \<Rightarrow> Inr (r = 1, k'))
           | _ \<Rightarrow> Inl NotObject)"

definition rc_invalidate_flags :: "flag_keys \<Rightarrow> int \<Rightarrow> (cache_error, flag_keys) result" where
  "rc_invalidate_flags k project_version =
     (if project_version < 0 then Inl BadVersion
      else Inr (snd (invalidate_flags_lua k (dec (nat project_version)))))"

section \<open>The polling endpoint\<close>

text \<open>
  \<open>GET /v1/flags\<close> (\<open>services/config/app/routers/flags.py\<close>) after authorization: the two
  snapshots are what PostgreSQL answers, each a version and the serialized payload, and \<open>k'\<close>
  of the second attempt is the cache then. The endpoint returns the payload and whether it was
  a hit.
\<close>

definition get_flags_endpoint ::
    "flag_keys \<Rightarrow> int \<times> dict \<Rightarrow> (flag_keys \<Rightarrow> flag_keys) \<Rightarrow> int \<times> dict
     \<Rightarrow> (cache_error, (dict \<times> bool) \<times> flag_keys) result" where
  "get_flags_endpoint k snapshot1 interference snapshot2 =
     (case rc_get_flags k of
        (Some cached, k1) \<Rightarrow> Inr ((ce_config cached, True), k1)
      | (None, k1) \<Rightarrow>
          (case rc_set_flags (interference k1) (fst snapshot1) (PDict (snd snapshot1)) 60 of
             Inl e \<Rightarrow> Inl e
           | Inr (True, k2) \<Rightarrow> Inr ((snd snapshot1, False), k2)
           | Inr (False, k2) \<Rightarrow>
               (case rc_set_flags k2 (fst snapshot2) (PDict (snd snapshot2)) 60 of
                  Inl e \<Rightarrow> Inl e
                | Inr (_, k3) \<Rightarrow> Inr ((snd snapshot2, False), k3))))"

section \<open>Runs\<close>

datatype rc_op =
    RGet
  | RSet int pyval int
  | RInvalidate int
  | ExpireData
  | ExpireVersion

fun rc_step :: "flag_keys \<Rightarrow> rc_op \<Rightarrow> flag_keys" where
  "rc_step k RGet = snd (rc_get_flags k)"
| "rc_step k (RSet v d ttl) = (case rc_set_flags k v d ttl of Inl _ \<Rightarrow> k | Inr (_, k') \<Rightarrow> k')"
| "rc_step k (RInvalidate v) = (case rc_invalidate_flags k v of Inl _ \<Rightarrow> k | Inr k' \<Rightarrow> k')"
| "rc_step k ExpireData = k\<lparr>rc_data := None\<rparr>"
| "rc_step k ExpireVersion = k\<lparr>rc_version := None\<rparr>"

definition rc_run :: "flag_keys \<Rightarrow> rc_op list \<Rightarrow> flag_keys" where
  "rc_run k ops = foldl rc_step k ops"

text \<open>
  The invariant: both versions are decimal texts, and an entry whose two keys are present is a
  well-formed record of that version.
\<close>

definition rc_watermark_val :: "flag_keys \<Rightarrow> int" where
  "rc_watermark_val k = digits_val (watermark_text k)"

definition numeral_text :: "string \<Rightarrow> bool" where
  "numeral_text s \<longleftrightarrow> s \<noteq> [] \<and> list_all is_digit s"

definition entry_of :: "int \<Rightarrow> dict \<Rightarrow> json_text" where
  "entry_of v c = JsonOf (PDict [(''project_version'', PInt v), (''config'', PDict c)])"

definition rc_inv :: "flag_keys \<Rightarrow> bool" where
  "rc_inv k \<longleftrightarrow> numeral_text (watermark_text k)
     \<and> (\<forall>s. rc_version k = Some s \<longrightarrow> numeral_text s
          \<and> (\<forall>d. rc_data k = Some d \<longrightarrow> (\<exists>c. d = entry_of (digits_val s) c)))"

definition digit_val :: "char \<Rightarrow> int" where
  "digit_val c = int (of_char c) - 48"

section \<open>Lemmas: decimal comparison\<close>

lemma digits_val_Cons: "digits_val (c # s) = digit_val c * 10 ^ length s + digits_val s"
proof -
  have gen: "foldl (\<lambda>n c. 10 * n + (of_char c - 48)) a s
      = a * 10 ^ length s + foldl (\<lambda>n c. 10 * n + (of_char c - 48)) (0 :: int) s" for a
  proof (induction s rule: rev_induct)
    case (snoc x xs)
    then show ?case by (simp add: algebra_simps)
  qed simp
  show ?thesis
    using gen [of "digit_val c"] by (simp add: digits_val_def digit_val_def of_nat_of_char)
qed

lemma digits_val_Nil [simp]: "digits_val [] = 0"
  by (simp add: digits_val_def)

lemma digit_val_range: "is_digit c \<Longrightarrow> 0 \<le> digit_val c \<and> digit_val c \<le> 9"
proof -
  assume "is_digit c"
  then have "48 \<le> (of_char c :: nat)" "(of_char c :: nat) \<le> 57" by (auto simp: is_digit_def)
  then show ?thesis unfolding digit_val_def by linarith
qed

lemma digits_val_range:
  "list_all is_digit s \<Longrightarrow> 0 \<le> digits_val s \<and> digits_val s < 10 ^ length s"
proof (induction s)
  case (Cons c s)
  then have "0 \<le> digit_val c" "digit_val c \<le> 9" "0 \<le> digits_val s" "digits_val s < 10 ^ length s"
    using digit_val_range by auto
  moreover from this have "digit_val c * 10 ^ length s \<le> 9 * 10 ^ length s"
    by (intro mult_right_mono) simp_all
  ultimately have "digit_val c * 10 ^ length s + digits_val s < 10 * 10 ^ length s"
    "0 \<le> digit_val c * 10 ^ length s + digits_val s" by linarith (simp add: \<open>0 \<le> digit_val c\<close> \<open>0 \<le> digits_val s\<close>)
  then show ?case by (simp add: digits_val_Cons)
qed simp

lemma lua_str_less_val:
  assumes "length s = length t" "list_all is_digit s" "list_all is_digit t"
  shows "lua_str_less s t \<longleftrightarrow> digits_val s < digits_val t"
  using assms
proof (induction s t rule: list_induct2)
  case (Cons a s b t)
  have r: "0 \<le> digits_val s" "digits_val s < 10 ^ length s" "0 \<le> digits_val t"
    "digits_val t < 10 ^ length s"
    using Cons digits_val_range [of s] digits_val_range [of t] by auto
  have ab: "(of_char a :: nat) < of_char b \<longleftrightarrow> digit_val a < digit_val b"
    "a = b \<longleftrightarrow> digit_val a = digit_val b"
    unfolding digit_val_def by (linarith, metis add_diff_cancel_right' char_of_char diff_add_cancel nat_int)
  have step: "x * P + u < y * P + v" if "x < y" "u < P" "0 \<le> v" "0 < P" for x y u v P :: int
  proof -
    have "(x + 1) * P \<le> y * P" using that by (intro mult_right_mono) auto
    then show ?thesis using that by (simp add: algebra_simps)
  qed
  show ?case
  proof (cases "digit_val a = digit_val b")
    case True
    then show ?thesis using Cons ab by (simp add: digits_val_Cons)
  next
    case False
    then show ?thesis
      using Cons ab r step [of "digit_val a" "digit_val b" "digits_val s" "10 ^ length s" "digits_val t"]
        step [of "digit_val b" "digit_val a" "digits_val t" "10 ^ length s" "digits_val s"]
      by (auto simp: digits_val_Cons not_less)
  qed
qed simp

lemma digit_val_0: "digit_val CHR ''0'' = 0"
  by (simp add: digit_val_def)

lemma strip_zeros_val [simp]: "digits_val (strip_zeros s) = digits_val s"
proof -
  have dw: "digits_val (dropWhile (\<lambda>c. c = CHR ''0'') s) = digits_val s"
    by (induction s) (simp_all add: digits_val_Cons digit_val_0)
  have "digits_val ''0'' = 0" by (simp add: digits_val_Cons digit_val_0)
  then show ?thesis
    using dw by (cases "dropWhile (\<lambda>c. c = CHR ''0'') s = []") (auto simp: strip_zeros_def Let_def)
qed

lemma strip_zeros_digits: "list_all is_digit s \<Longrightarrow> list_all is_digit (strip_zeros s)"
  by (auto simp: strip_zeros_def Let_def list_all_iff is_digit_def dest: set_dropWhileD)

lemma strip_zeros_cases:
  "strip_zeros s = ''0'' \<or> (\<exists>c t. strip_zeros s = c # t \<and> c \<noteq> CHR ''0'')"
  by (cases "dropWhile (\<lambda>c. c = CHR ''0'') s")
    (auto simp: strip_zeros_def Let_def dropWhile_eq_Cons_conv)

lemma longer_is_larger:
  assumes "list_all is_digit s" "list_all is_digit t" "length (strip_zeros s) < length (strip_zeros t)"
  shows "digits_val s < digits_val t"
proof -
  have "strip_zeros t \<noteq> ''0''" using assms(3) strip_zeros_cases [of s] by auto
  then obtain c u where u: "strip_zeros t = c # u" "c \<noteq> CHR ''0''"
    using strip_zeros_cases [of t] by blast
  have d: "is_digit c" "list_all is_digit u" using strip_zeros_digits [OF assms(2)] u by auto
  have "digit_val c \<noteq> 0"
    using u(2) unfolding digit_val_def by (metis (no_types) char_of_char digit_val_0 digit_val_def
        eq_iff_diff_eq_0 of_nat_eq_iff)
  then have "1 \<le> digit_val c" using digit_val_range [OF d(1)] by simp
  then have "10 ^ length u \<le> digits_val t"
    using digits_val_range [OF d(2)] mult_right_mono [of 1 "digit_val c" "10 ^ length u"]
      strip_zeros_val [of t] unfolding u(1) digits_val_Cons by linarith
  moreover have "digits_val s < 10 ^ length (strip_zeros s)"
    using digits_val_range [OF strip_zeros_digits [OF assms(1)]] by simp
  moreover have "(10 :: int) ^ length (strip_zeros s) \<le> 10 ^ length u"
    using assms(3) u(1) by (intro power_increasing) auto
  ultimately show ?thesis by linarith
qed

lemma decimal_less_iff:
  assumes "list_all is_digit s" "list_all is_digit t"
  shows "decimal_less s t \<longleftrightarrow> digits_val s < digits_val t"
proof (cases "length (strip_zeros s) = length (strip_zeros t)")
  case True
  then show ?thesis
    using lua_str_less_val [OF True] assms by (simp add: decimal_less_def Let_def strip_zeros_digits)
next
  case False
  then show ?thesis
    using longer_is_larger [OF assms] longer_is_larger [OF assms(2,1)]
    by (simp add: decimal_less_def Let_def) linarith
qed

lemma dec_char: "n < 10 \<Longrightarrow> is_digit (char_of (48 + n)) \<and> digit_val (char_of (48 + n)) = int n"
  by (simp add: is_digit_def digit_val_def)

lemma digits_val_snoc: "digits_val (s @ [c]) = 10 * digits_val s + digit_val c"
  by (simp add: digits_val_def digit_val_def of_nat_of_char)

lemma dec_numeral: "numeral_text (dec n)"
proof (induction n rule: dec.induct)
  case (1 n)
  then show ?case
    using dec_char [of n] dec_char [of "n mod 10"]
    by (cases "n < 10") (simp_all add: numeral_text_def dec.simps [of n])
qed

lemma digits_val_dec [simp]: "digits_val (dec n) = int n"
proof (induction n rule: dec.induct)
  case (1 n)
  show ?case
  proof (cases "n < 10")
    case True
    then show ?thesis using dec_char [of n] by (simp add: digits_val_Cons dec.simps [of n])
  next
    case False
    then have "digits_val (dec n) = 10 * int (n div 10) + int (n mod 10)"
      using 1 dec_char [of "n mod 10"] by (simp add: digits_val_snoc dec.simps [of n])
    then show ?thesis by (metis mult_div_mod_eq of_nat_add of_nat_mult of_nat_numeral)
  qed
qed

section \<open>Lemmas: the cache\<close>

lemma rc_inv_digits:
  "rc_inv k \<Longrightarrow> list_all is_digit (watermark_text k)"
  "rc_inv k \<Longrightarrow> rc_version k = Some s \<Longrightarrow> list_all is_digit s"
  by (auto simp: rc_inv_def numeral_text_def)

lemma dec_digits [simp]: "list_all is_digit (dec n)"
  using dec_numeral [of n] by (simp add: numeral_text_def)

lemma valid_entry_of: "0 \<le> v \<Longrightarrow> valid_entry (PDict [(''project_version'', PInt v), (''config'', PDict c)]) v = Some c"
  by (simp add: valid_entry_def dget_def dget_default_def)

lemma rc_inv_empty [simp]: "rc_inv rc_empty"
  by (simp add: rc_inv_def rc_empty_def watermark_text_def numeral_text_def is_digit_def)

lemma rc_inv_drop: "rc_inv k \<Longrightarrow> rc_inv (drop_entry k)"
  by (simp add: rc_inv_def drop_entry_def watermark_text_def)

text \<open>A read of a well-formed cache: the entry if it is not below the watermark.\<close>

lemma rc_get_flags_spec:
  assumes "rc_inv k"
  shows "rc_get_flags k =
    (case (rc_data k, rc_version k) of
       (Some d, Some s) \<Rightarrow>
         if digits_val s < rc_watermark_val k then (None, drop_entry k)
         else (case d of JsonOf (PDict e) \<Rightarrow>
                 (case dget e ''config'' of PDict c \<Rightarrow>
                    (Some \<lparr>ce_project_version = digits_val s, ce_config = c\<rparr>, k)
                  | _ \<Rightarrow> (None, k))
               | _ \<Rightarrow> (None, k))
     | _ \<Rightarrow> (None, k))"
proof (cases "rc_data k")
  case (Some d)
  show ?thesis
  proof (cases "rc_version k")
    case (Some s)
    obtain c where c: "d = entry_of (digits_val s) c" "numeral_text s"
      using assms \<open>rc_data k = Some d\<close> Some by (auto simp: rc_inv_def)
    have "0 \<le> digits_val s" using digits_val_range [of s] c(2) by (simp add: numeral_text_def)
    moreover have "int_of_text s = Some (digits_val s)"
      using c(2) by (simp add: int_of_text_def numeral_text_def)
    moreover have "decimal_less s (watermark_text k) \<longleftrightarrow> digits_val s < rc_watermark_val k"
      using rc_inv_digits [OF assms] Some by (simp add: decimal_less_iff rc_watermark_val_def)
    ultimately show ?thesis
      using Some \<open>rc_data k = Some d\<close> c
      by (simp add: rc_get_flags_def get_flags_lua_def entry_of_def valid_entry_of dget_def
          dget_default_def)
  qed (use Some in \<open>simp add: rc_get_flags_def get_flags_lua_def\<close>)
qed (simp add: rc_get_flags_def get_flags_lua_def)

lemma rc_get_flags_state: "snd (rc_get_flags k) = k \<or> snd (rc_get_flags k) = drop_entry k"
  by (auto simp: rc_get_flags_def get_flags_lua_def drop_entry_def
      split: option.splits json_text.splits)

lemma set_flags_lua_spec:
  assumes "rc_inv k"
  shows "set_flags_lua k (dec n) e =
    (if int n < rc_watermark_val k then (0, k)
     else (1, k\<lparr>rc_data := Some e, rc_version := Some (dec n),
                rc_watermark := (if rc_watermark_val k < int n then Some (dec n)
                                 else rc_watermark k)\<rparr>))"
  using rc_inv_digits(1) [OF assms]
  by (simp add: set_flags_lua_def Let_def decimal_less_iff rc_watermark_val_def)

lemma invalidate_flags_lua_spec:
  assumes "rc_inv k"
  shows "snd (invalidate_flags_lua k (dec n)) =
    (let k1 = k\<lparr>rc_watermark := (if rc_watermark_val k < int n then Some (dec n)
                                else rc_watermark k)\<rparr>
     in case rc_version k of
          Some s \<Rightarrow> if digits_val s \<le> int n then drop_entry k1 else k1
        | None \<Rightarrow> k1)"
proof -
  have "\<And>s. rc_version k = Some s \<Longrightarrow> decimal_less (dec n) s \<longleftrightarrow> int n < digits_val s"
    using rc_inv_digits(2) [OF assms] by (simp add: decimal_less_iff)
  then show ?thesis
    using rc_inv_digits(1) [OF assms]
    by (auto simp: invalidate_flags_lua_def Let_def decimal_less_iff rc_watermark_val_def
        split: option.splits)
qed

lemma rc_inv_step: "rc_inv k \<Longrightarrow> rc_inv (rc_step k x)"
proof (cases x)
  case RGet
  then show "rc_inv k \<Longrightarrow> ?thesis"
    using rc_get_flags_state [of k] by (auto intro: rc_inv_drop)
next
  case (RSet v d ttl)
  assume k: "rc_inv k"
  show ?thesis
    using k RSet dec_numeral [of "nat v"]
    by (auto simp: rc_set_flags_def Let_def set_flags_lua_spec [OF k] rc_inv_def watermark_text_def
        entry_of_def split: pyval.splits)
next
  case (RInvalidate v)
  assume k: "rc_inv k"
  show ?thesis
    using k RInvalidate dec_numeral [of "nat v"]
    by (auto simp: rc_invalidate_flags_def Let_def invalidate_flags_lua_spec [OF k] rc_inv_def
        watermark_text_def drop_entry_def split: option.splits)
qed (auto simp: rc_inv_def watermark_text_def)

lemma rc_watermark_step:
  assumes "rc_inv k"
  shows "rc_watermark_val k \<le> rc_watermark_val (rc_step k x)"
proof (cases x)
  case RGet
  then show ?thesis
    using rc_get_flags_state [of k]
    by (auto simp: rc_watermark_val_def watermark_text_def drop_entry_def)
next
  case (RSet v d ttl)
  then show ?thesis
    by (auto simp: rc_set_flags_def Let_def set_flags_lua_spec [OF assms] split: pyval.splits)
      (auto simp: rc_watermark_val_def watermark_text_def)
next
  case (RInvalidate v)
  then show ?thesis
    by (auto simp: rc_invalidate_flags_def Let_def invalidate_flags_lua_spec [OF assms]
        drop_entry_def split: option.splits)
      (auto simp: rc_watermark_val_def watermark_text_def)
qed (auto simp: rc_watermark_val_def watermark_text_def)

interpretation keys: monotone_machine rc_step rc_inv "\<lambda>k k'. rc_watermark_val k \<le> rc_watermark_val k'"
  by unfold_locales (auto intro: rc_inv_step rc_watermark_step)

lemma rc_run_inv: "rc_inv k \<Longrightarrow> rc_inv (rc_run k ops)"
  unfolding rc_run_def by (rule keys.commands_keep)

lemma rc_watermark_run: "rc_inv k \<Longrightarrow> rc_watermark_val k \<le> rc_watermark_val (rc_run k ops)"
  unfolding rc_run_def by (rule keys.commands_forward)

text \<open>Where a stored entry comes from, and the bound an invalidation establishes.\<close>

lemma rc_run_snoc: "rc_run k (ops @ [x]) = rc_step (rc_run k ops) x"
  by (simp add: rc_run_def)

lemma rc_run_append: "rc_run k (xs @ ys) = rc_run (rc_run k xs) ys"
  by (simp add: rc_run_def)

lemma entry_of_inj [simp]: "entry_of v c = entry_of v' c' \<longleftrightarrow> v = v' \<and> c = c'"
  by (simp add: entry_of_def)

lemma rc_step_data:
  assumes "rc_inv k" "rc_data (rc_step k x) = Some (entry_of v c)"
  shows "rc_data k = Some (entry_of v c) \<or> (\<exists>ttl. x = RSet v (PDict c) ttl)"
proof (cases x)
  case RGet
  then show ?thesis
    using assms(2) rc_get_flags_state [of k] by (auto simp: drop_entry_def)
next
  case (RSet w d ttl)
  then show ?thesis
    using assms(2)
    by (auto simp: rc_set_flags_def Let_def set_flags_lua_spec [OF assms(1)] entry_of_def
        split: pyval.splits if_splits)
next
  case (RInvalidate w)
  then show ?thesis
    using assms(2)
    by (auto simp: rc_invalidate_flags_def Let_def invalidate_flags_lua_spec [OF assms(1)]
        drop_entry_def split: option.splits if_splits)
qed (use assms in auto)

lemma rc_run_data:
  "rc_data (rc_run rc_empty ops) = Some (entry_of v c) \<Longrightarrow>
   \<exists>ttl. RSet v (PDict c) ttl \<in> set ops"
proof (induction ops rule: rev_induct)
  case Nil
  then show ?case by (simp add: rc_run_def rc_empty_def)
next
  case (snoc x ops)
  then show ?case
    using rc_step_data [of "rc_run rc_empty ops" x v c] rc_run_inv [of rc_empty ops]
    by (auto simp: rc_run_snoc)
qed

lemma rc_get_flags_Some:
  assumes "rc_inv k" "fst (rc_get_flags k) = Some e"
  shows "rc_watermark_val k \<le> ce_project_version e
    \<and> rc_data k = Some (entry_of (ce_project_version e) (ce_config e))"
proof -
  obtain d s where ds: "rc_data k = Some d" "rc_version k = Some s"
    using assms(2) by (auto simp: rc_get_flags_spec [OF assms(1)] split: option.splits)
  then obtain c where c: "d = entry_of (digits_val s) c" using assms(1) by (auto simp: rc_inv_def)
  with assms(2) ds show ?thesis
    by (auto simp: rc_get_flags_spec [OF assms(1)] entry_of_def dget_def dget_default_def
        split: if_splits)
qed

lemma rc_invalidate_bound:
  assumes "rc_inv k" "0 \<le> v"
  shows "v \<le> rc_watermark_val (rc_step k (RInvalidate v))"
  using assms(2)
  by (auto simp: rc_invalidate_flags_def Let_def invalidate_flags_lua_spec [OF assms(1)]
      drop_entry_def split: option.splits)
    (auto simp: rc_watermark_val_def watermark_text_def split: option.splits)

section \<open>Properties\<close>

text \<open>
  The Lua comparison of decimal texts, by stripped length and then by bytes, is the
  numeric order of the versions, at any magnitude.
\<close>

theorem decimal_less_correct:
  "decimal_less (dec m) (dec n) \<longleftrightarrow> m < n"
  by (simp add: decimal_less_iff)

text \<open>
  C17. Cache coherence: once a version has been invalidated, no later read returns an older
  snapshot, whatever reads, writes, invalidations and expiries happened before and since, and
  whatever is returned was written under exactly that version.
\<close>

theorem redis_cache_coherent:
  assumes "0 \<le> v" "ops = before @ [RInvalidate v] @ after"
    and "fst (rc_get_flags (rc_run rc_empty ops)) = Some e"
  shows "v \<le> ce_project_version e
    \<and> (\<exists>ttl. RSet (ce_project_version e) (PDict (ce_config e)) ttl \<in> set ops)"
proof -
  let ?k = "rc_run rc_empty before"
  have k: "rc_inv ?k" "rc_inv (rc_step ?k (RInvalidate v))"
    by (intro rc_inv_step rc_run_inv rc_inv_empty)+
  have run: "rc_run rc_empty ops = rc_run (rc_step ?k (RInvalidate v)) after"
    by (simp only: assms(2) rc_run_def foldl_append foldl.simps)
  have e: "rc_watermark_val (rc_run rc_empty ops) \<le> ce_project_version e"
    "rc_data (rc_run rc_empty ops) = Some (entry_of (ce_project_version e) (ce_config e))"
    using rc_get_flags_Some [OF rc_run_inv [OF rc_inv_empty] assms(3)] by simp_all
  have "v \<le> rc_watermark_val (rc_run rc_empty ops)"
    using rc_invalidate_bound [OF k(1) assms(1)] rc_watermark_run [OF k(2), of after] run by simp
  with e rc_run_data [OF e(2)] show ?thesis by simp
qed

theorem redis_cache_coherent_witness:
  "fst (rc_get_flags (rc_run rc_empty [RSet 9 (PDict []) 60, RInvalidate 10, RSet 9 (PDict []) 60]))
     = None
   \<and> (\<exists>e. fst (rc_get_flags (rc_run rc_empty
        ([RSet 9 (PDict []) 60] @ [RInvalidate 10] @ [RSet 11 (PDict []) 60]))) = Some e
      \<and> 10 \<le> ce_project_version e)"
proof -
  let ?ops = "[RSet 9 (PDict []) 60] @ [RInvalidate 10] @ [RSet 11 (PDict []) 60]"
  have "fst (rc_get_flags (rc_run rc_empty ?ops)) = Some \<lparr>ce_project_version = 11, ce_config = []\<rparr>"
    by code_simp
  moreover from redis_cache_coherent [OF _ refl this] have "10 \<le> (11 :: int)" by simp
  moreover have "fst (rc_get_flags (rc_run rc_empty
      [RSet 9 (PDict []) 60, RInvalidate 10, RSet 9 (PDict []) 60])) = None"
    by code_simp
  ultimately show ?thesis by simp
qed

text \<open>
  A snapshot is stored exactly when it is not older than the watermark, in which case
  the next read returns it; otherwise the cache is left as it was.
\<close>

theorem redis_set_then_get:
  fixes ops :: "rc_op list"
  assumes "0 \<le> v" "0 < ttl"
  defines "k \<equiv> rc_run rc_empty ops"
  shows "\<exists>k'. rc_set_flags k v (PDict c) ttl = Inr (rc_watermark_val k \<le> v, k')
    \<and> (if rc_watermark_val k \<le> v
       then fst (rc_get_flags k') = Some \<lparr>ce_project_version = v, ce_config = c\<rparr>
       else k' = k)"
proof -
  have k: "rc_inv k" unfolding k_def by (simp add: rc_run_inv)
  have k': "rc_inv (rc_step k (RSet v (PDict c) ttl))" using k by (rule rc_inv_step)
  show ?thesis
  proof (cases "rc_watermark_val k \<le> v")
    case True
    let ?k = "k\<lparr>rc_data := Some (entry_of v c), rc_version := Some (dec (nat v)),
        rc_watermark := (if rc_watermark_val k < v then Some (dec (nat v)) else rc_watermark k)\<rparr>"
    have set: "rc_set_flags k v (PDict c) ttl = Inr (True, ?k)"
      using assms(1,2) True
      by (simp add: rc_set_flags_def Let_def set_flags_lua_spec [OF k] entry_of_def)
    have "rc_watermark_val ?k \<le> v"
      using True assms(1) by (simp add: rc_watermark_val_def watermark_text_def)
    moreover have "rc_inv ?k" using k' set by simp
    ultimately have "fst (rc_get_flags ?k) = Some \<lparr>ce_project_version = v, ce_config = c\<rparr>"
      using assms(1) by (simp add: rc_get_flags_spec entry_of_def dget_def dget_default_def)
    with set True show ?thesis by simp
  next
    case False
    then show ?thesis
      using assms(1,2) by (simp add: rc_set_flags_def Let_def set_flags_lua_spec [OF k])
  qed
qed

theorem redis_set_then_get_witness:
  "\<exists>k'. rc_set_flags (rc_run rc_empty [RInvalidate 10]) 12 (PDict []) 60 = Inr (True, k')
     \<and> fst (rc_get_flags k') = Some \<lparr>ce_project_version = 12, ce_config = []\<rparr>"
proof -
  have w: "rc_watermark_val (rc_run rc_empty [RInvalidate 10]) \<le> 12" by code_simp
  show ?thesis
    using redis_set_then_get [of 12 60 "[RInvalidate 10]" "[]"] w by auto
qed

end
