(* ===== verification/Transport.thy ===== *)
theory Transport
  imports Float64
begin

text \<open>
  The SDK's HTTP transport, \<open>sdk/python/apdl/transport.py\<close>. The HTTP client and the clock are
  the environment: for each attempt it says what the request gave, whether retries had been
  cancelled when the code looked, and whether a wait ran to its end (\<open>_wait_for_retry\<close>). The
  \<open>Retry-After\<close> header is the value \<open>float\<close> reads from it, \<open>None\<close> when the header is missing
  or is not a number. The model returns the outcome with the requests and waits it made.
\<close>

datatype transport_outcome = ACCEPTED | RETRYABLE | PAYLOAD_REJECTED | PERMANENT_REJECTION

datatype attempt_result =
    EncodingError
  | HttpError
  | Response int "pyfloat option"

record attempt_env =
  ae_result :: attempt_result
  ae_cancelled :: bool
  ae_wait :: "pyfloat \<Rightarrow> bool"

definition is_success :: "int \<Rightarrow> bool" where
  "is_success status = (200 \<le> status \<and> status < 300)"

definition RETRYABLE_CLIENT_STATUSES :: "int list" where
  "RETRYABLE_CLIENT_STATUSES = [408, 425, 429]"

definition PAYLOAD_REJECTION_STATUSES :: "int list" where
  "PAYLOAD_REJECTION_STATUSES = [400, 413, 422]"

definition retry_delay :: "pyfloat \<Rightarrow> pyfloat" where
  "retry_delay seconds = (if flt_less (Fin 60) seconds then Fin 60 else seconds)"

text \<open>\<open>_honor_retry_after\<close>: the delay it waits, if it waits at all.\<close>

definition honor_retry_after :: "pyfloat option \<Rightarrow> nat \<Rightarrow> nat \<Rightarrow> pyfloat option" where
  "honor_retry_after raw attempt attempts =
     (case raw of
        None \<Rightarrow> None
      | Some seconds \<Rightarrow>
          if flt_leq seconds (Fin 0) \<or> attempts \<le> attempt then None
          else Some (retry_delay seconds))"

text \<open>
  The tail of an iteration: wait for the attempt's backoff and go on, unless the attempts are
  used up or the wait was cut short.
\<close>

fun post_loop ::
    "rat list \<Rightarrow> (nat \<Rightarrow> attempt_env) \<Rightarrow> nat list \<Rightarrow> transport_outcome \<times> nat \<times> pyfloat list" where
  "post_loop backoff env [] = (RETRYABLE, 0, [])"
| "post_loop backoff env (attempt # rest) =
     (let e = env attempt;
          attempts = length backoff;
          next = (\<lambda>ws. case post_loop backoff env rest of (r, n, vs) \<Rightarrow> (r, Suc n, ws @ vs));
          backoff_wait = (\<lambda>ws.
            if attempt < attempts
            then (let d = Fin (backoff ! attempt)
                  in if ae_wait e d then next (ws @ [d]) else (RETRYABLE, 1, ws @ [d]))
            else next ws)
      in case ae_result e of
           EncodingError \<Rightarrow> (PERMANENT_REJECTION, 1, [])
         | HttpError \<Rightarrow> backoff_wait []
         | Response status raw \<Rightarrow>
             if is_success status then (ACCEPTED, 1, [])
             else if status \<in> set PAYLOAD_REJECTION_STATUSES then (PAYLOAD_REJECTED, 1, [])
             else if status \<notin> set RETRYABLE_CLIENT_STATUSES \<and> \<not> (500 \<le> status \<and> status < 600)
             then (PERMANENT_REJECTION, 1, [])
             else if ae_cancelled e then (RETRYABLE, 1, [])
             else (case (if status = 429 then honor_retry_after raw attempt attempts else None) of
                     None \<Rightarrow> backoff_wait []
                   | Some d \<Rightarrow> if ae_wait e d then next [d] else backoff_wait [d]))"

definition post_json ::
    "rat list \<Rightarrow> (nat \<Rightarrow> attempt_env) \<Rightarrow> transport_outcome \<times> nat \<times> pyfloat list" where
  "post_json backoff env = post_loop backoff env [0..<length backoff + 1]"

definition DEFAULT_RETRY_BACKOFF :: "rat list" where
  "DEFAULT_RETRY_BACKOFF = [1, 2, 4, 8, 16]"

section \<open>Vocabulary of the statements\<close>

text \<open>What a request that ends the attempts gave, by outcome.\<close>

definition retryable_status :: "int \<Rightarrow> bool" where
  "retryable_status s \<longleftrightarrow> s \<in> set RETRYABLE_CLIENT_STATUSES \<or> (500 \<le> s \<and> s < 600)"

fun outcome_matches :: "transport_outcome \<Rightarrow> attempt_result \<Rightarrow> bool" where
  "outcome_matches ACCEPTED (Response s r) = is_success s"
| "outcome_matches PAYLOAD_REJECTED (Response s r) =
     (s \<in> set PAYLOAD_REJECTION_STATUSES \<and> \<not> is_success s)"
| "outcome_matches PERMANENT_REJECTION EncodingError = True"
| "outcome_matches PERMANENT_REJECTION (Response s r) =
     (\<not> is_success s \<and> s \<notin> set PAYLOAD_REJECTION_STATUSES \<and> \<not> retryable_status s)"
| "outcome_matches RETRYABLE HttpError = True"
| "outcome_matches RETRYABLE (Response s r) =
     (\<not> is_success s \<and> s \<notin> set PAYLOAD_REJECTION_STATUSES \<and> retryable_status s)"
| "outcome_matches _ _ = False"

definition bounded_wait :: "rat list \<Rightarrow> pyfloat \<Rightarrow> bool" where
  "bounded_wait backoff d \<longleftrightarrow> (\<exists>b \<in> set backoff. d = Fin b) \<or> \<not> flt_less (Fin 60) d"

definition sample_env :: "nat \<Rightarrow> attempt_env" where
  "sample_env n = \<lparr>ae_result = (if n = 0 then Response 429 (Some (Fin 90))
                               else if n = 1 then HttpError else Response 202 None),
     ae_cancelled = False, ae_wait = (\<lambda>_. True)\<rparr>"

section \<open>Lemmas\<close>

lemma post_loop_bound:
  assumes "post_loop backoff env atts = (r, n, ws)"
  shows "n \<le> length atts \<and> list_all (bounded_wait backoff) ws"
  using assms
proof (induction atts arbitrary: r n ws)
  case (Cons a atts)
  obtain r' n' ws' where rec: "post_loop backoff env atts = (r', n', ws')"
    by (metis prod_cases3)
  have IH: "n' \<le> length atts" "list_all (bounded_wait backoff) ws'" using Cons.IH [OF rec] by auto
  have h: "honor_retry_after raw a m = Some d \<Longrightarrow> bounded_wait backoff d" for raw m d
    by (auto simp: honor_retry_after_def bounded_wait_def retry_delay_def split: option.splits if_splits)
  have b: "a < length backoff \<Longrightarrow> bounded_wait backoff (Fin (backoff ! a))"
    by (auto simp: bounded_wait_def)
  show ?case
    using Cons.prems rec IH b
    by (auto simp: Let_def split: attempt_result.splits if_splits option.splits dest: h)
qed simp

text \<open>The outcome is decided by the last request the loop made.\<close>

lemma post_loop_outcome:
  assumes "post_loop backoff env atts = (r, n, ws)" "atts \<noteq> []"
  shows "0 < n \<and> outcome_matches r (ae_result (env (atts ! (n - 1))))"
  using assms
proof (induction atts arbitrary: r n ws)
  case (Cons a atts)
  obtain r' n' ws' where rec: "post_loop backoff env atts = (r', n', ws')"
    by (metis prod_cases3)
  have IH: "atts \<noteq> [] \<Longrightarrow> 0 < n' \<and> outcome_matches r' (ae_result (env (atts ! (n' - 1))))"
    using Cons.IH [OF rec] by blast
  have nil: "atts = [] \<Longrightarrow> r' = RETRYABLE \<and> n' = 0" using rec by simp
  have res: "outcome_matches RETRYABLE (ae_result (env a)) \<Longrightarrow> r = r' \<Longrightarrow> n = Suc n' \<Longrightarrow> ?case"
    using IH nil by (cases "atts = []") (auto simp: nth_Cons split: nat.splits)
  show ?case
    using Cons.prems(1) rec res
    by (auto simp: Let_def retryable_status_def split: attempt_result.splits if_splits option.splits)
qed simp

section \<open>Properties\<close>

text \<open>
  The transport makes at least one request and at most one more than the backoff
  schedule is long, classifies the final result by the last request made (2xx accepted;
  400, 413, 422 payload rejection; other final statuses and encoding errors permanent;
  network errors, 408, 425, 429 and 5xx retryable), and every wait is a scheduled backoff or
  a \<open>Retry-After\<close> delay that is not above a minute.
\<close>

theorem post_json_classifies:
  assumes "post_json backoff env = (r, n, ws)"
  shows "1 \<le> n \<and> n \<le> length backoff + 1 \<and> outcome_matches r (ae_result (env (n - 1)))
    \<and> list_all (bounded_wait backoff) ws"
proof -
  have loop: "post_loop backoff env [0..<length backoff + 1] = (r, n, ws)"
    using assms by (simp add: post_json_def)
  have "n \<le> length backoff + 1" "list_all (bounded_wait backoff) ws"
    using post_loop_bound [OF loop] by simp_all
  moreover have "0 < n \<and> outcome_matches r (ae_result (env ([0..<length backoff + 1] ! (n - 1))))"
    using post_loop_outcome [OF loop] by simp
  moreover from calculation have "[0..<length backoff + 1] ! (n - 1) = n - 1"
    using nth_upt [of 0 "n - 1" "length backoff + 1"] by auto
  ultimately show ?thesis by simp
qed

theorem post_json_classifies_witness:
  "post_json DEFAULT_RETRY_BACKOFF sample_env = (ACCEPTED, 3, [Fin 60, Fin 2])
   \<and> outcome_matches ACCEPTED (ae_result (sample_env 2))"
proof -
  have e: "post_json DEFAULT_RETRY_BACKOFF sample_env = (ACCEPTED, 3, [Fin 60, Fin 2])"
    by code_simp
  from post_json_classifies [OF e] e show ?thesis by simp
qed

end
