(* ===== verification/EventQueue.thy ===== *)
theory EventQueue
  imports Transport Prelude
begin

text \<open>
  The SDK's batching event queue, \<open>sdk/python/apdl/queue.py\<close>. An event is a value of any type;
  \<open>json_size\<close> is the size of the JSON encoding of a request and \<open>canon\<close> the canonicalization
  that may raise, both parameters. The code takes its locks around single deque operations,
  and other threads enqueue while a batch is in flight: a drain therefore carries the events
  that arrive during each delivery. What a request gives and what the stop flag reads as are
  streams of the environment, so the statements hold for every schedule of outcomes,
  arrivals and shutdown.
\<close>

section \<open>State\<close>

record queue_config =
  cf_batch_size :: nat
  cf_max_queue_size :: nat

record 'e delivery_report =
  dr_accepted :: nat
  dr_permanently_rejected :: nat
  dr_undelivered_events :: "'e list"

record 'e batch_delivery =
  bd_accepted :: nat
  bd_permanently_rejected :: nat
  bd_retryable_events :: "'e list"

record 'e event_queue =
  q_events :: "'e list"
  q_accepting :: bool
  q_stopping :: bool
  q_closed :: bool
  q_last_drain_report :: "'e delivery_report"
  q_shutdown_report :: "'e delivery_report option"

definition eq_init :: "'e event_queue" where
  "eq_init = \<lparr>q_events = [], q_accepting = True, q_stopping = False, q_closed = False,
     q_last_drain_report = \<lparr>dr_accepted = 0, dr_permanently_rejected = 0, dr_undelivered_events = []\<rparr>,
     q_shutdown_report = None\<rparr>"

definition MAX_REQUEST_SERIALIZED_BYTES :: int where
  "MAX_REQUEST_SERIALIZED_BYTES = 512 * 1024"

text \<open>The environment: outcomes of the requests to come, and readings of the stop flag.\<close>

record delivery_env =
  env_outcomes :: "transport_outcome list"
  env_stops :: "bool list"

definition next_outcome :: "delivery_env \<Rightarrow> transport_outcome \<times> delivery_env" where
  "next_outcome e = (case env_outcomes e of
     [] \<Rightarrow> (RETRYABLE, e) | r # rs \<Rightarrow> (r, e\<lparr>env_outcomes := rs\<rparr>))"

definition next_stop :: "delivery_env \<Rightarrow> bool \<times> delivery_env" where
  "next_stop e = (case env_stops e of
     [] \<Rightarrow> (False, e) | b # bs \<Rightarrow> (b, e\<lparr>env_stops := bs\<rparr>))"

section \<open>Intake\<close>

datatype enqueue_error = ShuttingDown | QueueFull | InvalidEvent

definition admission :: "queue_config \<Rightarrow> 'e event_queue \<Rightarrow> enqueue_error option" where
  "admission cfg q =
     (if \<not> q_accepting q then Some ShuttingDown
      else if cf_max_queue_size cfg \<le> length (q_events q) then Some QueueFull else None)"

text \<open>
  \<open>enqueue\<close> checks, canonicalizes outside the lock, and checks again: \<open>q1\<close> is the queue at
  the first check and \<open>q\<close> at the second. The flag is whether the flusher is woken.
\<close>

definition enqueue ::
    "queue_config \<Rightarrow> ('e \<Rightarrow> 'e option) \<Rightarrow> 'e event_queue \<Rightarrow> 'e event_queue \<Rightarrow> 'e
     \<Rightarrow> (enqueue_error, bool \<times> 'e event_queue) result" where
  "enqueue cfg canon q1 q event =
     (case admission cfg q1 of
        Some e \<Rightarrow> Inl e
      | None \<Rightarrow>
          (case canon event of
             None \<Rightarrow> Inl InvalidEvent
           | Some canonical \<Rightarrow>
               (case admission cfg q of
                  Some e \<Rightarrow> Inl e
                | None \<Rightarrow>
                    let q' = q\<lparr>q_events := q_events q @ [canonical]\<rparr>
                    in Inr (cf_batch_size cfg \<le> length (q_events q'), q'))))"

section \<open>Delivery\<close>

fun take_loop ::
    "('e list \<Rightarrow> int) \<Rightarrow> nat \<Rightarrow> 'e list \<Rightarrow> 'e list \<Rightarrow> 'e list \<times> 'e list" where
  "take_loop json_size 0 batch queue = (batch, queue)"
| "take_loop json_size (Suc n) batch [] = (batch, [])"
| "take_loop json_size (Suc n) batch (event # queue) =
     (if batch \<noteq> [] \<and> MAX_REQUEST_SERIALIZED_BYTES < json_size (batch @ [event])
      then (batch, event # queue)
      else take_loop json_size n (batch @ [event]) queue)"

definition take_batch ::
    "queue_config \<Rightarrow> ('e list \<Rightarrow> int) \<Rightarrow> 'e list \<Rightarrow> 'e list \<times> 'e list" where
  "take_batch cfg json_size queue = take_loop json_size (cf_batch_size cfg) [] queue"

text \<open>
  \<open>_deliver_batch\<close>. It is only called on non-empty batches; the case of at most one event
  includes the empty batch so that the recursion is total.
\<close>

function deliver_batch :: "delivery_env \<Rightarrow> 'e list \<Rightarrow> 'e batch_delivery \<times> delivery_env" where
  "deliver_batch env batch =
     (case next_outcome env of (outcome, env1) \<Rightarrow>
        if outcome = ACCEPTED
        then (\<lparr>bd_accepted = length batch, bd_permanently_rejected = 0, bd_retryable_events = []\<rparr>, env1)
        else if outcome = RETRYABLE
        then (\<lparr>bd_accepted = 0, bd_permanently_rejected = 0, bd_retryable_events = batch\<rparr>, env1)
        else if outcome = PERMANENT_REJECTION \<or> length batch \<le> 1
        then (\<lparr>bd_accepted = 0, bd_permanently_rejected = length batch, bd_retryable_events = []\<rparr>, env1)
        else case next_stop env1 of (stopping, env2) \<Rightarrow>
          if stopping
          then (\<lparr>bd_accepted = 0, bd_permanently_rejected = 0, bd_retryable_events = batch\<rparr>, env2)
          else let midpoint = length batch div 2
               in case deliver_batch env2 (take midpoint batch) of (left, env3) \<Rightarrow>
                 if bd_retryable_events left \<noteq> []
                 then (left\<lparr>bd_retryable_events := bd_retryable_events left @ drop midpoint batch\<rparr>, env3)
                 else case next_stop env3 of (stopping, env4) \<Rightarrow>
                   if stopping
                   then (left\<lparr>bd_retryable_events := drop midpoint batch\<rparr>, env4)
                   else case deliver_batch env4 (drop midpoint batch) of (right, env5) \<Rightarrow>
                     (\<lparr>bd_accepted = bd_accepted left + bd_accepted right,
                       bd_permanently_rejected =
                         bd_permanently_rejected left + bd_permanently_rejected right,
                       bd_retryable_events = bd_retryable_events right\<rparr>, env5))"
  by pat_completeness auto

termination
  by (relation "measure (length \<circ> snd)") auto

declare deliver_batch.simps [simp del]

definition requeue_front :: "'e list \<Rightarrow> 'e list \<Rightarrow> 'e list" where
  "requeue_front queue batch = batch @ queue"

definition report_of :: "'e list \<Rightarrow> nat \<Rightarrow> nat \<Rightarrow> 'e delivery_report" where
  "report_of queue accepted permanently_rejected =
     \<lparr>dr_accepted = accepted, dr_permanently_rejected = permanently_rejected,
      dr_undelivered_events = queue\<rparr>"

lemma take_loop_split:
  "take_loop sz n batch queue = (b, r) \<Longrightarrow> b @ r = batch @ queue \<and> length b \<le> length batch + n"
  by (induction sz n batch queue rule: take_loop.induct) (auto split: if_splits)

lemma take_batch_split:
  "take_batch cfg sz queue = (b, r) \<Longrightarrow> queue = b @ r \<and> length b \<le> cf_batch_size cfg"
  using take_loop_split [of sz "cf_batch_size cfg" "[]" queue b r] by (simp add: take_batch_def)

text \<open>
  \<open>_drain_locked\<close>: \<open>arrivals\<close> are the events other threads enqueue while each batch is in
  flight, one list per delivery; after the last list nothing more arrives. The result is the
  report and the events that arrived while it ran.
\<close>

function drain_locked ::
    "queue_config \<Rightarrow> ('e list \<Rightarrow> int) \<Rightarrow> delivery_env \<Rightarrow> 'e list list \<Rightarrow> nat \<Rightarrow> nat \<Rightarrow> 'e list
     \<Rightarrow> 'e delivery_report \<times> 'e list" where
  "drain_locked cfg json_size env arrivals accepted permanently_rejected queue =
     (case take_batch cfg json_size queue of (batch, rest) \<Rightarrow>
        if batch = [] then (report_of queue accepted permanently_rejected, [])
        else case deliver_batch env batch of (delivery, env') \<Rightarrow>
          let arrived = (case arrivals of [] \<Rightarrow> [] | a # _ \<Rightarrow> a);
              queue' = rest @ arrived;
              accepted' = accepted + bd_accepted delivery;
              rejected' = permanently_rejected + bd_permanently_rejected delivery
          in if bd_retryable_events delivery \<noteq> []
             then (report_of (requeue_front queue' (bd_retryable_events delivery)) accepted' rejected',
                   arrived)
             else case drain_locked cfg json_size env' (drop 1 arrivals) accepted' rejected' queue' of
                    (report, later) \<Rightarrow> (report, arrived @ later))"
  by pat_completeness auto

termination
  by (relation "measure (\<lambda>(cfg, sz, env, arrivals, a, r, queue).
        length queue + length (concat arrivals))")
    (auto dest!: take_batch_split [OF sym] simp: neq_Nil_conv split: list.splits)

declare drain_locked.simps [simp del]

section \<open>Flush and stop\<close>

definition flush ::
    "queue_config \<Rightarrow> ('e list \<Rightarrow> int) \<Rightarrow> delivery_env \<Rightarrow> 'e list list \<Rightarrow> 'e event_queue
     \<Rightarrow> 'e delivery_report \<times> 'e list \<times> 'e event_queue" where
  "flush cfg json_size env arrivals q =
     (if q_stopping q \<or> q_closed q then (report_of (q_events q) 0 0, [], q)
      else case drain_locked cfg json_size env arrivals 0 0 (q_events q) of (report, arrived) \<Rightarrow>
        (report, arrived,
         q\<lparr>q_events := dr_undelivered_events report, q_last_drain_report := report\<rparr>))"

text \<open>
  \<open>stop\<close>. Intake is fenced before the final drain, so nothing arrives during it.
  \<open>had_active_drain\<close> says that a flush of another thread was running; by the time the drain
  lock is free its report is the last one.
\<close>

definition stop ::
    "queue_config \<Rightarrow> ('e list \<Rightarrow> int) \<Rightarrow> delivery_env \<Rightarrow> bool \<Rightarrow> 'e event_queue
     \<Rightarrow> 'e delivery_report \<times> 'e event_queue" where
  "stop cfg json_size env had_active_drain q =
     (case (if q_closed q then q_shutdown_report q else None) of
        Some report \<Rightarrow> (report, q)
      | None \<Rightarrow>
          let q1 = q\<lparr>q_accepting := False, q_stopping := True\<rparr>;
              report = (if had_active_drain
                        then report_of (q_events q1) (dr_accepted (q_last_drain_report q1))
                               (dr_permanently_rejected (q_last_drain_report q1))
                        else fst (drain_locked cfg json_size env [] 0 0 (q_events q1)))
          in (report, q1\<lparr>q_events := dr_undelivered_events report, q_closed := True,
                         q_shutdown_report := Some report\<rparr>))"

definition pending :: "'e event_queue \<Rightarrow> nat" where
  "pending q = length (q_events q)"

definition snapshot :: "'e event_queue \<Rightarrow> 'e list" where
  "snapshot q = q_events q"

section \<open>Runs\<close>

text \<open>
  \<open>queue_reach cfg canon sz q intake n\<close>: the queue can be in state \<open>q\<close> after it has taken in the
  events of \<open>intake\<close>, in that order, and its drains have reported \<open>n\<close> events as accepted or
  permanently rejected. The report of a stop that found a drain running repeats the counts of
  that drain.
\<close>

definition resolved :: "'e delivery_report \<Rightarrow> nat" where
  "resolved r = dr_accepted r + dr_permanently_rejected r"

inductive queue_reach ::
    "queue_config \<Rightarrow> ('e \<Rightarrow> 'e option) \<Rightarrow> ('e list \<Rightarrow> int) \<Rightarrow> 'e event_queue \<Rightarrow> 'e list \<Rightarrow> nat \<Rightarrow> bool"
  for cfg canon sz where
  init: "queue_reach cfg canon sz eq_init [] 0"
| enq: "queue_reach cfg canon sz q intake n \<Longrightarrow> enqueue cfg canon q1 q e = Inr (wake, q') \<Longrightarrow>
    canon e = Some c \<Longrightarrow> queue_reach cfg canon sz q' (intake @ [c]) n"
| flushed: "queue_reach cfg canon sz q intake n \<Longrightarrow>
    flush cfg sz env arrivals q = (report, arrived, q') \<Longrightarrow>
    queue_reach cfg canon sz q' (intake @ arrived) (n + resolved report)"
| stopped: "queue_reach cfg canon sz q intake n \<Longrightarrow> \<not> q_closed q \<Longrightarrow>
    stop cfg sz env False q = (report, q') \<Longrightarrow>
    queue_reach cfg canon sz q' intake (n + resolved report)"
| stopped_active: "queue_reach cfg canon sz q intake n \<Longrightarrow> \<not> q_closed q \<Longrightarrow>
    stop cfg sz env True q = (report, q') \<Longrightarrow> queue_reach cfg canon sz q' intake n"
| stopped_again: "queue_reach cfg canon sz q intake n \<Longrightarrow> q_closed q \<Longrightarrow>
    stop cfg sz env b q = (report, q') \<Longrightarrow> queue_reach cfg canon sz q' intake n"

section \<open>Lemmas\<close>

text \<open>The events a delivery keeps for a retry are the tail of the batch.\<close>

lemma deliver_batch_tail:
  "deliver_batch env batch = (d, env') \<Longrightarrow>
   \<exists>done. batch = done @ bd_retryable_events d
     \<and> bd_accepted d + bd_permanently_rejected d = length done"
proof (induction env batch arbitrary: d env' rule: deliver_batch.induct)
  case (1 env batch)
  obtain outcome env1 where o: "next_outcome env = (outcome, env1)" by fastforce
  obtain st env2 where st: "next_stop env1 = (st, env2)" by fastforce
  let ?m = "length batch div 2"
  obtain l env3 where l: "deliver_batch env2 (take ?m batch) = (l, env3)" by fastforce
  obtain st' env4 where st': "next_stop env3 = (st', env4)" by fastforce
  obtain r env5 where r: "deliver_batch env4 (drop ?m batch) = (r, env5)" by fastforce
  show ?case
  proof (cases "outcome = ACCEPTED \<or> outcome = RETRYABLE \<or> outcome = PERMANENT_REJECTION
      \<or> length batch \<le> 1 \<or> st")
    case True
    then show ?thesis
      using "1.prems" by (subst (asm) deliver_batch.simps) (auto simp: o st split: if_splits)
  next
    case False
    note nf = this
    obtain dl where dl: "take ?m batch = dl @ bd_retryable_events l"
      "bd_accepted l + bd_permanently_rejected l = length dl"
      using "1.IH"(1) [OF o [symmetric] _ _ _ st [symmetric] _ refl l] nf by auto
    have d: "d = (if bd_retryable_events l \<noteq> []
          then l\<lparr>bd_retryable_events := bd_retryable_events l @ drop ?m batch\<rparr>
          else if st' then l\<lparr>bd_retryable_events := drop ?m batch\<rparr>
          else \<lparr>bd_accepted = bd_accepted l + bd_accepted r,
                bd_permanently_rejected = bd_permanently_rejected l + bd_permanently_rejected r,
                bd_retryable_events = bd_retryable_events r\<rparr>)"
      using "1.prems" nf
      by (subst (asm) deliver_batch.simps) (simp add: o st l st' r Let_def split: if_splits)
    show ?thesis
    proof (cases "bd_retryable_events l \<noteq> [] \<or> st'")
      case True
      have "batch = dl @ bd_retryable_events l @ drop ?m batch"
        using dl(1) append_take_drop_id [of ?m batch] by (metis append.assoc)
      with True d dl(2) show ?thesis by (auto intro!: exI [of _ dl])
    next
      case False
      obtain dr where dr: "drop ?m batch = dr @ bd_retryable_events r"
        "bd_accepted r + bd_permanently_rejected r = length dr"
        using "1.IH"(2) [OF o [symmetric] _ _ _ st [symmetric] _ refl l [symmetric] _
            st' [symmetric] _ r] nf False by auto
      have "batch = (dl @ dr) @ bd_retryable_events r"
        using dl(1) dr(1) False append_take_drop_id [of ?m batch] by simp
      with d False dl(2) dr(2) show ?thesis by (intro exI [of _ "dl @ dr"]) simp
    qed
  qed
qed

lemma drain_locked_split:
  "drain_locked cfg sz env arrivals a r queue = (report, arrived) \<Longrightarrow>
   \<exists>done. queue @ arrived = done @ dr_undelivered_events report
     \<and> resolved report = a + r + length done"
proof (induction cfg sz env arrivals a r queue arbitrary: report arrived rule: drain_locked.induct)
  case (1 cfg sz env arrivals a r queue)
  obtain batch rest where b: "take_batch cfg sz queue = (batch, rest)" by fastforce
  have q: "queue = batch @ rest" using take_batch_split [OF b] by simp
  show ?case
  proof (cases "batch = []")
    case True
    then have "report = report_of queue a r" "arrived = []"
      using "1.prems" by (subst (asm) drain_locked.simps, simp add: b)+
    then show ?thesis by (simp add: report_of_def resolved_def)
  next
    case False
    obtain d env' where d: "deliver_batch env batch = (d, env')" by fastforce
    obtain dd where dn: "batch = dd @ bd_retryable_events d"
      "bd_accepted d + bd_permanently_rejected d = length dd"
      using deliver_batch_tail [OF d] by blast
    let ?a = "case arrivals of [] \<Rightarrow> [] | a # _ \<Rightarrow> a"
    show ?thesis
    proof (cases "bd_retryable_events d = []")
      case False
      have "drain_locked cfg sz env arrivals a r queue
          = (report_of (requeue_front (rest @ ?a) (bd_retryable_events d))
               (a + bd_accepted d) (r + bd_permanently_rejected d), ?a)"
        using False \<open>batch \<noteq> []\<close> by (subst drain_locked.simps) (simp add: b d Let_def)
      from trans [OF "1.prems" [symmetric] this] have "report = report_of (requeue_front (rest @ ?a) (bd_retryable_events d))
          (a + bd_accepted d) (r + bd_permanently_rejected d)" "arrived = ?a"
        by simp_all
      with q dn show ?thesis
        by (intro exI [of _ dd]) (simp add: report_of_def requeue_front_def resolved_def)
    next
      case True
      obtain rep later where rec: "drain_locked cfg sz env' (drop 1 arrivals) (a + bd_accepted d)
          (r + bd_permanently_rejected d) (rest @ ?a) = (rep, later)" by fastforce
      obtain dn' where dn': "(rest @ ?a) @ later = dn' @ dr_undelivered_events rep"
        "resolved rep = a + bd_accepted d + (r + bd_permanently_rejected d) + length dn'"
        using "1.IH" [OF b [symmetric] \<open>batch \<noteq> []\<close> d [symmetric] refl refl refl refl _ rec] True
        by blast
      have "drain_locked cfg sz env arrivals a r queue = (rep, ?a @ later)"
        using True \<open>batch \<noteq> []\<close> by (subst drain_locked.simps) (simp add: b d Let_def rec [simplified])
      from trans [OF "1.prems" [symmetric] this] have "report = rep" "arrived = ?a @ later"
        by simp_all
      with q dn dn' True show ?thesis by (intro exI [of _ "dd @ dn'"]) simp
    qed
  qed
qed

lemma drain_locked_no_arrivals:
  "drain_locked cfg sz env arrivals a r queue = (report, arrived) \<Longrightarrow> arrivals = [] \<Longrightarrow> arrived = []"
proof (induction cfg sz env arrivals a r queue arbitrary: report arrived rule: drain_locked.induct)
  case (1 cfg sz env arrivals a r queue)
  obtain batch rest where b: "take_batch cfg sz queue = (batch, rest)" by fastforce
  obtain d env' where d: "deliver_batch env batch = (d, env')" by fastforce
  obtain rep later where rec: "drain_locked cfg sz env' [] (a + bd_accepted d)
      (r + bd_permanently_rejected d) rest = (rep, later)" by fastforce
  have "batch \<noteq> [] \<Longrightarrow> bd_retryable_events d = [] \<Longrightarrow> later = []"
    using "1.IH" [OF b [symmetric] _ d [symmetric] refl refl refl refl] rec "1.prems"(2) by simp
  with "1.prems" show ?case
    by (subst (asm) drain_locked.simps) (auto simp: b d Let_def rec split: if_splits)
qed

lemma queue_reach_closed:
  "queue_reach cfg canon sz q intake n \<Longrightarrow> q_closed q \<Longrightarrow>
   \<exists>report. q_shutdown_report q = Some report \<and> dr_undelivered_events report = q_events q
     \<and> \<not> q_accepting q \<and> q_stopping q"
proof (induction rule: queue_reach.induct)
  case (enq q intake n q1 e wake q' c)
  then show ?case by (auto simp: enqueue_def admission_def Let_def split: option.splits if_splits)
next
  case (flushed q intake n env arrivals report arrived q')
  then show ?case by (auto simp: flush_def split: if_splits prod.splits)
qed (auto simp: eq_init_def stop_def Let_def)

lemma queue_reach_split:
  "queue_reach cfg canon sz q intake n \<Longrightarrow> \<exists>done. intake = done @ q_events q \<and> length done = n"
proof (induction rule: queue_reach.induct)
  case init
  then show ?case by (simp add: eq_init_def)
next
  case (enq q intake n q1 e wake q' c)
  then have "q_events q' = q_events q @ [c]"
    by (auto simp: enqueue_def Let_def split: option.splits)
  with enq show ?case by auto
next
  case (flushed q intake n env arrivals report arrived q')
  show ?case
  proof (cases "q_stopping q \<or> q_closed q")
    case True
    with flushed show ?thesis by (auto simp: flush_def report_of_def resolved_def)
  next
    case False
    then have dr: "drain_locked cfg sz env arrivals 0 0 (q_events q) = (report, arrived)"
      "q_events q' = dr_undelivered_events report"
      using flushed.hyps(2) by (auto simp: flush_def split: prod.splits)
    from drain_locked_split [OF dr(1)] flushed.IH dr(2) show ?thesis by force
  qed
next
  case (stopped q intake n env report q')
  obtain rep arr where dr: "drain_locked cfg sz env [] 0 0 (q_events q) = (rep, arr)" by fastforce
  have "report = rep" "q_events q' = dr_undelivered_events rep"
    using stopped.hyps(2,3) by (auto simp: stop_def Let_def dr)
  with drain_locked_split [OF dr] drain_locked_no_arrivals [OF dr] stopped.IH show ?case by force
next
  case (stopped_active q intake n env report q')
  then show ?case by (auto simp: stop_def Let_def report_of_def)
next
  case (stopped_again q intake n env b report q')
  then have "q' = q"
    using queue_reach_closed [OF stopped_again.hyps(1,2)] by (auto simp: stop_def)
  with stopped_again.IH show ?case by simp
qed

lemma take_loop_nonempty: "take_loop sz n batch queue = (b, r) \<Longrightarrow> batch \<noteq> [] \<Longrightarrow> b \<noteq> []"
  by (induction sz n batch queue rule: take_loop.induct) (auto split: if_splits)

lemma take_loop_size:
  assumes "take_loop sz n batch queue = (b, r)"
    and "length batch \<le> 1 \<or> sz batch \<le> MAX_REQUEST_SERIALIZED_BYTES"
  shows "length b \<le> 1 \<or> sz b \<le> MAX_REQUEST_SERIALIZED_BYTES"
  using assms
  by (induction sz n batch queue rule: take_loop.induct) (auto split: if_splits)

section \<open>Properties\<close>

text \<open>
  C11. No event is lost, duplicated or reordered: in every reachable state of the queue,
  under any interleaving of intake, drains with concurrent intake, bisection, retries and
  shutdown, the events taken in so far are exactly those the drains have reported accepted or
  permanently rejected, followed by those still queued, in intake order.
\<close>

theorem queue_no_loss:
  assumes "queue_reach cfg canon sz q intake n"
  shows "n \<le> length intake \<and> snapshot q = drop n intake \<and> n + pending q = length intake"
proof -
  obtain d where "intake = d @ q_events q" "length d = n" using queue_reach_split [OF assms] by blast
  then show ?thesis by (auto simp: snapshot_def pending_def)
qed

theorem queue_no_loss_witness:
  "\<exists>q. queue_reach \<lparr>cf_batch_size = 2, cf_max_queue_size = 3\<rparr> Some (int \<circ> length) q [7 :: nat, 8, 9] 1
     \<and> snapshot q = [8, 9]"
proof -
  let ?cfg = "\<lparr>cf_batch_size = 2, cf_max_queue_size = 3\<rparr>"
  let ?env = "\<lparr>env_outcomes = [PAYLOAD_REJECTED, ACCEPTED, RETRYABLE], env_stops = []\<rparr>"
  let ?q = "eq_init\<lparr>q_events := [7 :: nat, 8]\<rparr>"
  let ?q' = "?q\<lparr>q_events := [8, 9],
    q_last_drain_report := \<lparr>dr_accepted = 1, dr_permanently_rejected = 0, dr_undelivered_events = [8, 9]\<rparr>\<rparr>"
  have r: "queue_reach ?cfg Some (int \<circ> length) ?q [7, 8] 0"
    using queue_reach.enq [OF queue_reach.enq [OF queue_reach.init, of ?cfg Some eq_init 7 False
          "eq_init\<lparr>q_events := [7]\<rparr>" 7], of "eq_init\<lparr>q_events := [7]\<rparr>" 8 True ?q 8]
    by (simp add: enqueue_def admission_def eq_init_def Let_def)
  have f: "flush ?cfg (int \<circ> length) ?env [[9]] ?q
      = (\<lparr>dr_accepted = 1, dr_permanently_rejected = 0, dr_undelivered_events = [8, 9]\<rparr>, [9], ?q')"
    by code_simp
  have "queue_reach ?cfg Some (int \<circ> length) ?q' ([7, 8] @ [9]) (0 + 1)"
    using queue_reach.flushed [OF r f] by (simp add: resolved_def)
  moreover from queue_no_loss [OF this] have "snapshot ?q' = [8, 9]" by simp
  ultimately show ?thesis by (intro exI [of _ ?q']) simp
qed

text \<open>
  A shut-down queue accounts for everything: its report lists exactly the events still
  held, further stops return the same report, and no enqueue succeeds any more.
\<close>

theorem queue_shutdown_final:
  assumes "queue_reach cfg canon sz q intake n" "q_closed q"
  shows "stop cfg sz env b q = (the (q_shutdown_report q), q)
    \<and> dr_undelivered_events (the (q_shutdown_report q)) = drop n intake
    \<and> enqueue cfg canon q1 q e \<in> {Inl ShuttingDown, Inl QueueFull, Inl InvalidEvent}
    \<and> fst (flush cfg sz env arrivals q) = report_of (drop n intake) 0 0"
proof -
  obtain r where r: "q_shutdown_report q = Some r" "dr_undelivered_events r = q_events q"
    "\<not> q_accepting q"
    using queue_reach_closed [OF assms] by blast
  have s: "q_events q = drop n intake"
    using queue_reach_split [OF assms(1)] by auto
  show ?thesis
    using assms(2) r s
    by (auto simp: stop_def flush_def enqueue_def admission_def split: option.splits if_splits)
qed

theorem queue_shutdown_final_witness:
  "let cfg = \<lparr>cf_batch_size = 1, cf_max_queue_size = 3\<rparr>;
       q = snd (stop cfg (int \<circ> length) \<lparr>env_outcomes = [], env_stops = []\<rparr> False (eq_init :: nat event_queue))
   in enqueue cfg Some q q 5 \<in> {Inl ShuttingDown, Inl QueueFull, Inl InvalidEvent}"
proof -
  let ?cfg = "\<lparr>cf_batch_size = 1, cf_max_queue_size = 3\<rparr>"
  let ?env = "\<lparr>env_outcomes = [], env_stops = []\<rparr>"
  obtain rep q where s: "stop ?cfg (int \<circ> length) ?env False (eq_init :: nat event_queue) = (rep, q)"
    by fastforce
  have r: "queue_reach ?cfg Some (int \<circ> length) q [] (0 + resolved rep)"
    by (rule queue_reach.stopped [OF queue_reach.init _ s]) (simp add: eq_init_def)
  have c: "q_closed q" using s by (auto simp: stop_def Let_def eq_init_def)
  show ?thesis
    using queue_shutdown_final [OF r c] s by (simp add: Let_def)
qed

text \<open>
  A batch is a prefix of the queue of at most the configured number of events, within
  the request size unless it is a single event, and empty only when the queue is (for a
  positive batch size); a delivery that has to be retried keeps a suffix of its batch, so that
  putting it back in front restores the order.
\<close>

theorem batch_bounds:
  assumes "take_batch cfg sz queue = (batch, rest)" "deliver_batch env batch = (d, env')"
  shows "queue = batch @ rest \<and> length batch \<le> cf_batch_size cfg
    \<and> (length batch \<le> 1 \<or> sz batch \<le> MAX_REQUEST_SERIALIZED_BYTES)
    \<and> (batch = [] \<longleftrightarrow> queue = [] \<or> cf_batch_size cfg = 0)
    \<and> batch = take (bd_accepted d + bd_permanently_rejected d) batch @ bd_retryable_events d"
proof -
  have s: "queue = batch @ rest" "length batch \<le> cf_batch_size cfg"
    using take_batch_split [OF assms(1)] by simp_all
  have e: "batch = [] \<longleftrightarrow> queue = [] \<or> cf_batch_size cfg = 0"
  proof (cases "cf_batch_size cfg")
    case (Suc m)
    have "b \<noteq> []" if "take_loop sz k [x] xs = (b, r)" for k x xs b r
      using take_loop_nonempty [OF that] by simp
    then show ?thesis
      using assms(1) Suc by (cases queue) (auto simp: take_batch_def)
  qed (use assms(1) in \<open>simp add: take_batch_def\<close>)
  obtain dd where "batch = dd @ bd_retryable_events d"
    "bd_accepted d + bd_permanently_rejected d = length dd"
    using deliver_batch_tail [OF assms(2)] by blast
  then have "batch = take (bd_accepted d + bd_permanently_rejected d) batch @ bd_retryable_events d"
    by (metis append_eq_conv_conj)
  with s e take_loop_size [of sz "cf_batch_size cfg" "[]" queue batch rest] assms(1)
  show ?thesis by (simp add: take_batch_def)
qed

theorem batch_bounds_witness:
  "fst (take_batch \<lparr>cf_batch_size = 2, cf_max_queue_size = 9\<rparr> (int \<circ> length) [1, 2, 3 :: nat]) = [1, 2]
   \<and> length [1, 2 :: nat] \<le> 2"
proof -
  let ?cfg = "\<lparr>cf_batch_size = 2, cf_max_queue_size = 9\<rparr>"
  have t: "take_batch ?cfg (int \<circ> length) [1, 2, 3 :: nat] = ([1, 2], [3])" by code_simp
  obtain d e where "deliver_batch \<lparr>env_outcomes = [], env_stops = []\<rparr> [1, 2 :: nat] = (d, e)"
    by fastforce
  from batch_bounds [OF t this] t show ?thesis by simp
qed

end
