(* ===== verification/GatewayLimiter.thy ===== *)
theory GatewayLimiter
  imports Float64 "HOL-Library.Product_Lexorder" "HOL-Library.List_Lexorder" "HOL-Library.Char_ord"
    "HOL-Library.Multiset"
begin

text \<open>
  The gateway's fixed-window limiter, \<open>services/gateway/app/rate_limit.py\<close>. The lock makes a
  call one atomic step; the clock reading is an argument. The binary heap of expirations is
  the sorted list of its entries (\<open>heappop\<close> takes the least entry, \<open>heappush\<close> inserts), the
  sums and differences of times are rounded to binary64, and the \<open>IndexError\<close> of reading the
  first entry of an empty heap is \<open>None\<close>.
\<close>

section \<open>State and operations\<close>

record client_window =
  cw_expires_at :: rat
  cw_request_count :: int

record rate_limiter =
  rl_request_limit :: int
  rl_window_seconds :: int
  rl_max_clients :: int
  rl_windows :: "(string \<times> client_window) list"
  rl_expirations :: "(rat \<times> string) list"

definition rl_init :: "int \<Rightarrow> int \<Rightarrow> int \<Rightarrow> rate_limiter option" where
  "rl_init request_limit window_seconds max_clients =
     (if list_ex (\<lambda>v. v \<le> 0) [request_limit, window_seconds, max_clients] then None
      else Some \<lparr>rl_request_limit = request_limit, rl_window_seconds = window_seconds,
                 rl_max_clients = max_clients, rl_windows = [], rl_expirations = []\<rparr>)"

fun prune_loop ::
    "rat \<Rightarrow> (rat \<times> string) list \<Rightarrow> (string \<times> client_window) list
     \<Rightarrow> (rat \<times> string) list \<times> (string \<times> client_window) list" where
  "prune_loop now [] windows = ([], windows)"
| "prune_loop now ((expires_at, client_id) # expirations) windows =
     (if expires_at \<le> now
      then prune_loop now expirations
             (case map_of windows client_id of
                Some current \<Rightarrow> if cw_expires_at current = expires_at then dpop windows client_id
                                else windows
              | None \<Rightarrow> windows)
      else ((expires_at, client_id) # expirations, windows))"

definition prune_expired :: "rate_limiter \<Rightarrow> rat \<Rightarrow> rate_limiter" where
  "prune_expired s now =
     (case prune_loop now (rl_expirations s) (rl_windows s) of
        (es, ws) \<Rightarrow> s\<lparr>rl_expirations := es, rl_windows := ws\<rparr>)"

definition retry_seconds :: "rat \<Rightarrow> rat \<Rightarrow> int" where
  "retry_seconds expires_at now = max 1 \<lceil>fl (expires_at - now)\<rceil>"

definition retry_after :: "rate_limiter \<Rightarrow> string \<Rightarrow> rat \<Rightarrow> (int \<times> rate_limiter) option" where
  "retry_after s0 client_id now =
     (let s = prune_expired s0 now
      in case map_of (rl_windows s) client_id of
           None \<Rightarrow>
             if rl_max_clients s \<le> int (length (rl_windows s))
             then (case rl_expirations s of
                     [] \<Rightarrow> None
                   | (e, _) # _ \<Rightarrow> Some (retry_seconds e now, s))
             else let current = \<lparr>cw_expires_at = fl (now + of_int (rl_window_seconds s)),
                                cw_request_count = 1\<rparr>
                  in Some (0, s\<lparr>rl_windows := dset (rl_windows s) client_id current,
                                rl_expirations := insort (cw_expires_at current, client_id)
                                                    (rl_expirations s)\<rparr>)
         | Some current \<Rightarrow>
             if cw_request_count current < rl_request_limit s
             then Some (0, s\<lparr>rl_windows := dset (rl_windows s) client_id
                              (current\<lparr>cw_request_count := cw_request_count current + 1\<rparr>)\<rparr>)
             else Some (retry_seconds (cw_expires_at current) now, s))"

definition tracked_client_count :: "rate_limiter \<Rightarrow> rat \<Rightarrow> int \<times> rate_limiter" where
  "tracked_client_count s now =
     (let s' = prune_expired s now in (int (length (rl_windows s')), s'))"

text \<open>A sequence of requests \<open>(client, time)\<close> with the answers they get.\<close>

fun rl_run :: "rate_limiter \<Rightarrow> (string \<times> rat) list \<Rightarrow> (int list \<times> rate_limiter) option" where
  "rl_run s [] = Some ([], s)"
| "rl_run s ((c, now) # reqs) =
     (case retry_after s c now of
        None \<Rightarrow> None
      | Some (r, s') \<Rightarrow> map_option (\<lambda>(rs, t). (r # rs, t)) (rl_run s' reqs))"

section \<open>Vocabulary of the statements\<close>

definition window_entries :: "(string \<times> client_window) list \<Rightarrow> (rat \<times> string) list" where
  "window_entries ws = map (\<lambda>(c, w). (cw_expires_at w, c)) ws"

definition rl_inv :: "rate_limiter \<Rightarrow> bool" where
  "rl_inv s \<longleftrightarrow>
     0 < rl_request_limit s \<and> 0 < rl_max_clients s
     \<and> distinct (map fst (rl_windows s)) \<and> sorted (rl_expirations s)
     \<and> mset (rl_expirations s) = mset (window_entries (rl_windows s))
     \<and> int (length (rl_windows s)) \<le> rl_max_clients s
     \<and> list_all (\<lambda>(c, w). 1 \<le> cw_request_count w \<and> cw_request_count w \<le> rl_request_limit s)
         (rl_windows s)"

text \<open>How many of a client's requests were allowed (answered 0).\<close>

definition allowed_count :: "string \<Rightarrow> (string \<times> rat) list \<Rightarrow> int list \<Rightarrow> int" where
  "allowed_count c reqs rs =
     int (length (filter (\<lambda>((d, t), r). d = c \<and> r = 0) (zip reqs rs)))"

section \<open>Lemmas: pruning\<close>

lemma dpop_absent: "k \<notin> fst ` set d \<Longrightarrow> dpop d k = d"
  by (auto simp: dpop_def filter_id_conv)

lemma window_entries_dpop:
  "distinct (map fst ws) \<Longrightarrow> map_of ws c = Some w \<Longrightarrow>
   mset (window_entries ws) = add_mset (cw_expires_at w, c) (mset (window_entries (dpop ws c)))"
proof (induction ws)
  case (Cons x ws)
  obtain d v where x: "x = (d, v)" by fastforce
  show ?case
  proof (cases "d = c")
    case True
    with Cons.prems x have "c \<notin> fst ` set ws" by auto
    then have "dpop (x # ws) c = ws" using True x by (simp add: dpop_def dpop_absent [unfolded dpop_def])
    with True Cons.prems x show ?thesis by (simp add: window_entries_def)
  next
    case False
    then have "dpop (x # ws) c = x # dpop ws c" using x by (simp add: dpop_def)
    with False Cons x show ?thesis by (simp add: window_entries_def)
  qed
qed simp

lemma window_entry_unique:
  assumes "distinct (map fst ws)" "(e, c) \<in> set (window_entries ws)"
  obtains w where "map_of ws c = Some w" "cw_expires_at w = e"
proof -
  from assms(2) obtain w where "(c, w) \<in> set ws" "cw_expires_at w = e"
    by (auto simp: window_entries_def)
  with assms(1) that show ?thesis by auto
qed

text \<open>Pruning drops exactly the windows that have expired.\<close>

lemma prune_loop_spec:
  assumes "sorted es" "distinct (map fst ws)" "mset es = mset (window_entries ws)"
    and "prune_loop now es ws = (es', ws')"
  shows "sorted es' \<and> distinct (map fst ws') \<and> mset es' = mset (window_entries ws')
    \<and> ws' = filter (\<lambda>(c, w). now < cw_expires_at w) ws"
  using assms
proof (induction now es ws rule: prune_loop.induct)
  case (1 now ws)
  then show ?case by (simp add: window_entries_def)
next
  case (2 now e c es ws)
  have "(e, c) \<in> set (window_entries ws)"
    using 2(4) by (metis list.set_intros(1) set_mset_mset)
  then obtain w where w: "map_of ws c = Some w" "cw_expires_at w = e"
    by (rule window_entry_unique [OF 2(3)])
  show ?case
  proof (cases "e \<le> now")
    case True
    have "mset es = mset (window_entries (dpop ws c))"
      using 2(4) window_entries_dpop [OF 2(3) w(1)] w(2) by simp
    then have IH: "sorted es' \<and> distinct (map fst ws') \<and> mset es' = mset (window_entries ws')
        \<and> ws' = filter (\<lambda>(c, w). now < cw_expires_at w) (dpop ws c)"
      using 2 True w by auto
    have "filter (\<lambda>(c, w). now < cw_expires_at w) (dpop ws c)
        = filter (\<lambda>(c, w). now < cw_expires_at w) ws"
      using w True 2(3) unfolding dpop_def filter_filter
      by (intro filter_cong) (auto dest: eq_key_imp_eq_value)
    with IH show ?thesis by metis
  next
    case False
    have "now < cw_expires_at v" if "(d, v) \<in> set ws" for d v
    proof -
      have "(cw_expires_at v, d) \<in> set (window_entries ws)"
        using that by (force simp: window_entries_def)
      then have "(cw_expires_at v, d) \<in> set ((e, c) # es)" using 2(4) by (metis set_mset_mset)
      then have "(e, c) \<le> (cw_expires_at v, d)" using 2(2) by auto
      then have "e \<le> cw_expires_at v" by (auto simp: less_eq_prod_def)
      with False show ?thesis by simp
    qed
    then have "filter (\<lambda>(c, w). now < cw_expires_at w) ws = ws"
      by (auto simp: filter_id_conv)
    with False 2 show ?thesis by auto
  qed
qed

lemma prune_expired_windows:
  assumes "rl_inv s"
  shows "rl_windows (prune_expired s now)
      = filter (\<lambda>(c, w). now < cw_expires_at w) (rl_windows s)"
    and "rl_inv (prune_expired s now)"
    and "rl_request_limit (prune_expired s now) = rl_request_limit s"
    and "rl_max_clients (prune_expired s now) = rl_max_clients s"
    and "rl_window_seconds (prune_expired s now) = rl_window_seconds s"
proof -
  obtain es ws where p: "prune_loop now (rl_expirations s) (rl_windows s) = (es, ws)" by fastforce
  have sp: "sorted es \<and> distinct (map fst ws) \<and> mset es = mset (window_entries ws)
      \<and> ws = filter (\<lambda>(c, w). now < cw_expires_at w) (rl_windows s)"
    by (rule prune_loop_spec [OF _ _ _ p]) (use assms in \<open>simp_all add: rl_inv_def\<close>)
  have "int (length ws) \<le> int (length (rl_windows s))" using sp by simp
  then have "int (length ws) \<le> rl_max_clients s" using assms by (simp add: rl_inv_def)
  with sp assms p show "rl_inv (prune_expired s now)"
    by (auto simp: rl_inv_def prune_expired_def list_all_iff)
  show "rl_windows (prune_expired s now)
      = filter (\<lambda>(c, w). now < cw_expires_at w) (rl_windows s)"
    using p sp by (simp add: prune_expired_def)
qed (simp_all add: prune_expired_def split: prod.splits)

lemma window_entries_dset:
  "distinct (map fst ws) \<Longrightarrow> map_of ws c = Some w \<Longrightarrow> cw_expires_at w' = cw_expires_at w \<Longrightarrow>
   window_entries (dset ws c w') = window_entries ws"
  by (induction ws c w' rule: dset.induct) (auto simp: window_entries_def split: if_splits)

lemma window_entries_fresh:
  "map_of ws c = None \<Longrightarrow> window_entries (dset ws c w) = window_entries ws @ [(cw_expires_at w, c)]"
  by (induction ws c w rule: dset.induct) (auto simp: window_entries_def split: if_splits)

lemma length_dset: "length (dset d k v) = (if map_of d k = None then Suc (length d) else length d)"
  by (induction d k v rule: dset.induct) auto

lemma list_all_dset:
  "list_all P d \<Longrightarrow> P (k, v) \<Longrightarrow> list_all P (dset d k v)"
  by (induction d k v rule: dset.induct) auto

lemma retry_seconds_pos: "1 \<le> retry_seconds e now"
  by (simp add: retry_seconds_def)

lemma retry_after_inv:
  assumes "rl_inv s0"
  obtains r s' where "retry_after s0 c now = Some (r, s')" "rl_inv s'" "0 \<le> r"
    "rl_request_limit s' = rl_request_limit s0" "rl_max_clients s' = rl_max_clients s0"
proof -
  let ?s = "prune_expired s0 now"
  note p = prune_expired_windows [OF assms, of now]
  have i: "0 < rl_max_clients ?s" "mset (rl_expirations ?s) = mset (window_entries (rl_windows ?s))"
    "distinct (map fst (rl_windows ?s))" "sorted (rl_expirations ?s)"
    using p(2) by (simp_all add: rl_inv_def)
  show ?thesis
  proof (cases "map_of (rl_windows ?s) c")
    case None
    show ?thesis
    proof (cases "rl_max_clients ?s \<le> int (length (rl_windows ?s))")
      case True
      with i(1) have "rl_windows ?s \<noteq> []" by auto
      then have "rl_expirations ?s \<noteq> []" using i(2) by (auto simp: window_entries_def)
      then obtain e d es where "rl_expirations ?s = (e, d) # es" by (metis list.exhaust surj_pair)
      with None True that p retry_seconds_pos [of e now] show ?thesis
        by (simp add: retry_after_def Let_def)
    next
      case False
      let ?w = "\<lparr>cw_expires_at = fl (now + of_int (rl_window_seconds ?s)), cw_request_count = 1\<rparr>"
      let ?t = "?s\<lparr>rl_windows := dset (rl_windows ?s) c ?w,
          rl_expirations := insort (cw_expires_at ?w, c) (rl_expirations ?s)\<rparr>"
      have "rl_inv ?t"
        using False None p(2)
        by (auto simp: rl_inv_def window_entries_fresh length_dset sorted_insort
            intro!: list_all_dset)
      with None False that [of 0 ?t] p show ?thesis by (simp add: retry_after_def Let_def)
    qed
  next
    case (Some w)
    then have wr: "1 \<le> cw_request_count w" "cw_request_count w \<le> rl_request_limit ?s"
      using p(2) by (auto simp: rl_inv_def list_all_iff dest: map_of_SomeD)
    show ?thesis
    proof (cases "cw_request_count w < rl_request_limit ?s")
      case True
      let ?w = "w\<lparr>cw_request_count := cw_request_count w + 1\<rparr>"
      let ?t = "?s\<lparr>rl_windows := dset (rl_windows ?s) c ?w\<rparr>"
      have "rl_inv ?t"
        using True Some p(2) wr
        by (auto simp: rl_inv_def window_entries_dset length_dset intro!: list_all_dset)
      with Some True that [of 0 ?t] p show ?thesis by (simp add: retry_after_def Let_def)
    next
      case False
      with Some that p retry_seconds_pos [of "cw_expires_at w" now] show ?thesis
        by (simp add: retry_after_def Let_def)
    qed
  qed
qed

lemma rl_init_inv: "rl_init l w m = Some s \<Longrightarrow> rl_inv s"
  by (auto simp: rl_init_def rl_inv_def window_entries_def split: if_splits)

lemma rl_run_inv:
  "rl_inv s \<Longrightarrow> \<exists>rs t. rl_run s reqs = Some (rs, t) \<and> rl_inv t
     \<and> rl_max_clients t = rl_max_clients s \<and> rl_request_limit t = rl_request_limit s"
proof (induction reqs arbitrary: s)
  case (Cons x reqs)
  obtain c now where x: "x = (c, now)" by fastforce
  obtain r s' where s': "retry_after s c now = Some (r, s')" "rl_inv s'"
    "rl_request_limit s' = rl_request_limit s" "rl_max_clients s' = rl_max_clients s"
    using retry_after_inv [OF Cons.prems] by metis
  from Cons.IH [OF s'(2)] obtain rs t where "rl_run s' reqs = Some (rs, t)" "rl_inv t"
    "rl_max_clients t = rl_max_clients s'" "rl_request_limit t = rl_request_limit s'" by blast
  with x s' show ?case by simp
qed simp

section \<open>Lemmas: the budget of a window\<close>

lemma retry_after_budget:
  assumes "rl_inv s" "map_of (rl_windows s) c = Some w" "now < cw_expires_at w"
    and "retry_after s d now = Some (r, s')"
  shows "\<exists>w'. map_of (rl_windows s') c = Some w' \<and> cw_expires_at w' = cw_expires_at w
    \<and> cw_request_count w' = cw_request_count w + (if d = c \<and> r = 0 then 1 else 0)"
proof -
  let ?s = "prune_expired s now"
  note p = prune_expired_windows [OF assms(1), of now]
  have dist: "distinct (map fst (rl_windows s))" using assms(1) by (simp add: rl_inv_def)
  have keep: "map_of (rl_windows ?s) c = Some w"
    using assms(2,3) dist p(1) by (auto simp: distinct_map_filter intro!: map_of_is_SomeI
        dest: map_of_SomeD)
  have pos: "retry_seconds e now \<noteq> 0" for e using retry_seconds_pos [of e now] by simp
  show ?thesis
    using assms(4) keep pos
    by (cases "map_of (rl_windows ?s) d")
      (auto simp: retry_after_def Let_def split: if_splits list.splits)
qed

lemma rl_run_budget:
  assumes "rl_inv s" "map_of (rl_windows s) c = Some w"
    and "\<forall>(d, t) \<in> set reqs. t < cw_expires_at w" "rl_run s reqs = Some (rs, s')"
  shows "cw_request_count w + allowed_count c reqs rs \<le> rl_request_limit s"
  using assms
proof (induction reqs arbitrary: s w rs)
  case Nil
  then show ?case by (auto simp: allowed_count_def rl_inv_def list_all_iff dest: map_of_SomeD)
next
  case (Cons x reqs)
  obtain d now where x: "x = (d, now)" by fastforce
  obtain r s1 where s1: "retry_after s d now = Some (r, s1)" "rl_inv s1"
    "rl_request_limit s1 = rl_request_limit s"
    using retry_after_inv [OF Cons.prems(1)] by metis
  obtain rs' where rs': "rl_run s1 reqs = Some (rs', s')" "rs = r # rs'"
    using Cons.prems(4) x s1 by auto
  obtain w' where w': "map_of (rl_windows s1) c = Some w'" "cw_expires_at w' = cw_expires_at w"
    "cw_request_count w' = cw_request_count w + (if d = c \<and> r = 0 then 1 else 0)"
    using retry_after_budget [OF Cons.prems(1,2) _ s1(1)] Cons.prems(3) x by auto
  have "cw_request_count w' + allowed_count c reqs rs' \<le> rl_request_limit s1"
    using Cons.IH [OF s1(2) w'(1) _ rs'(1)] Cons.prems(3) w'(2) by simp
  with w'(3) s1(3) rs'(2) x show ?case by (auto simp: allowed_count_def)
qed

section \<open>Properties\<close>

text \<open>
  The limiter tracks at most the configured number of clients, in its table and in its
  heap, whatever clients call it and when, and it never fails: in particular the heap it
  reads when it is full is never empty.
\<close>

theorem limiter_bounded:
  assumes "rl_init limit window max_clients = Some s"
  shows "\<exists>rs t. rl_run s reqs = Some (rs, t) \<and> int (length (rl_windows t)) \<le> max_clients
    \<and> length (rl_expirations t) = length (rl_windows t)"
proof -
  have m: "rl_max_clients s = max_clients" using assms by (auto simp: rl_init_def split: if_splits)
  obtain rs t where t: "rl_run s reqs = Some (rs, t)" "rl_inv t" "rl_max_clients t = rl_max_clients s"
    using rl_run_inv [OF rl_init_inv [OF assms]] by blast
  have "length (rl_expirations t) = length (window_entries (rl_windows t))"
    using t(2) by (metis rl_inv_def size_mset)
  with t m show ?thesis by (auto simp: rl_inv_def window_entries_def)
qed

theorem limiter_bounded_witness:
  "\<exists>s rs t. rl_init 2 60 1 = Some s
     \<and> rl_run s [(''a'', 0), (''b'', 1), (''a'', 2), (''a'', 3), (''b'', 60)] = Some (rs, t)
     \<and> int (length (rl_windows t)) \<le> 1"
proof -
  obtain s where s: "rl_init 2 60 1 = Some s" by (simp add: rl_init_def)
  from limiter_bounded [OF this] s show ?thesis by blast
qed

text \<open>
  C30. The rate bound: while a client's window is open, the requests it is allowed together
  with those the window has already counted are at most the limit.
\<close>

theorem limiter_budget:
  assumes "rl_init limit window max_clients = Some s0" "rl_run s0 earlier = Some (rs0, s)"
    and "map_of (rl_windows s) c = Some w" "\<forall>(d, t) \<in> set reqs. t < cw_expires_at w"
    and "rl_run s reqs = Some (rs, s')"
  shows "cw_request_count w + allowed_count c reqs rs \<le> limit"
proof -
  have l: "rl_request_limit s0 = limit" using assms(1) by (auto simp: rl_init_def split: if_splits)
  have "rl_inv s" "rl_request_limit s = rl_request_limit s0"
    using rl_run_inv [OF rl_init_inv [OF assms(1)], of earlier] assms(2) by auto
  with rl_run_budget [OF _ assms(3-5)] l show ?thesis by simp
qed

theorem limiter_budget_witness:
  "1 + allowed_count ''a'' [(''a'', 1), (''a'', 2)] [0, 58] \<le> (2 :: int)"
proof -
  let ?u = "\<lparr>rl_request_limit = 2, rl_window_seconds = 60, rl_max_clients = 5, rl_windows = [],
      rl_expirations = []\<rparr>"
  let ?w = "\<lparr>cw_expires_at = 60, cw_request_count = 1\<rparr>"
  let ?s = "?u\<lparr>rl_windows := [(''a'', ?w)], rl_expirations := [(60, ''a'')]\<rparr>"
  let ?t = "?s\<lparr>rl_windows := [(''a'', \<lparr>cw_expires_at = 60, cw_request_count = 2\<rparr>)]\<rparr>"
  have i: "rl_init 2 60 5 = Some ?u" by code_simp
  have e: "rl_run ?u [(''a'', 0)] = Some ([0], ?s)" by code_simp
  have r: "rl_run ?s [(''a'', 1), (''a'', 2)] = Some ([0, 58], ?t)" by code_simp
  show ?thesis using limiter_budget [OF i e _ _ r, of "''a''" ?w] by simp
qed

end
