(* ===== verification/IngestionRateLimit.thy ===== *)
theory IngestionRateLimit
  imports Float64 "HOL-Library.List_Lexorder" "HOL-Library.Char_ord" "HOL-Library.Multiset"
begin

text \<open>
  The hierarchical token buckets of the Ingestion service,
  \<open>services/ingestion/app/middleware/rate_limit.py\<close>, with the Lua script Redis runs atomically.
  Lua numbers are binary64; a number written to Redis is formatted with 17 significant
  digits and so reads back as itself. The store is a map from keys to bucket states; a key
  that was never written or has expired is absent. SHA-256 is a parameter \<open>sha\<close>.
\<close>

section \<open>Limits\<close>

record bucket_limit =
  bl_capacity :: int
  bl_refill_per_second :: int

record bucket_debit =
  bd_key :: string
  bd_limit :: bucket_limit
  bd_cost :: int

definition limit_of :: "int \<Rightarrow> int \<Rightarrow> bucket_limit" where
  "limit_of c r = \<lparr>bl_capacity = c, bl_refill_per_second = r\<rparr>"

definition GLOBAL_REQUEST_LIMIT :: bucket_limit where "GLOBAL_REQUEST_LIMIT = limit_of 100000 10000"
definition PROJECT_REQUEST_LIMIT :: bucket_limit where "PROJECT_REQUEST_LIMIT = limit_of 1000 100"
definition CONFIDENTIAL_REQUEST_LIMIT :: bucket_limit where
  "CONFIDENTIAL_REQUEST_LIMIT = limit_of 1000 100"
definition BROWSER_REQUEST_LIMIT :: bucket_limit where "BROWSER_REQUEST_LIMIT = limit_of 200 20"
definition IP_REQUEST_LIMIT :: bucket_limit where "IP_REQUEST_LIMIT = limit_of 500 50"
definition GLOBAL_BYTE_LIMIT :: bucket_limit where "GLOBAL_BYTE_LIMIT = limit_of 100000 10000"
definition PROJECT_BYTE_LIMIT :: bucket_limit where "PROJECT_BYTE_LIMIT = limit_of 1000 100"
definition CONFIDENTIAL_BYTE_LIMIT :: bucket_limit where
  "CONFIDENTIAL_BYTE_LIMIT = limit_of 1000 100"
definition BROWSER_BYTE_LIMIT :: bucket_limit where "BROWSER_BYTE_LIMIT = limit_of 512 20"
definition IP_BYTE_LIMIT :: bucket_limit where "IP_BYTE_LIMIT = limit_of 1000 50"
definition GLOBAL_EVENT_LIMIT :: bucket_limit where "GLOBAL_EVENT_LIMIT = limit_of 100000 10000"
definition PROJECT_EVENT_LIMIT :: bucket_limit where "PROJECT_EVENT_LIMIT = limit_of 1000 100"
definition CONFIDENTIAL_EVENT_LIMIT :: bucket_limit where
  "CONFIDENTIAL_EVENT_LIMIT = limit_of 1000 100"
definition BROWSER_EVENT_LIMIT :: bucket_limit where "BROWSER_EVENT_LIMIT = limit_of 200 20"
definition IP_EVENT_LIMIT :: bucket_limit where "IP_EVENT_LIMIT = limit_of 500 50"
definition IDENTITY_EVENT_LIMIT :: bucket_limit where "IDENTITY_EVENT_LIMIT = limit_of 200 20"
definition PREAUTH_GLOBAL_REQUEST_LIMIT :: bucket_limit where
  "PREAUTH_GLOBAL_REQUEST_LIMIT = limit_of 2000 200"
definition PREAUTH_IP_REQUEST_LIMIT :: bucket_limit where
  "PREAUTH_IP_REQUEST_LIMIT = limit_of 100 10"

lemmas limit_defs = limit_of_def GLOBAL_REQUEST_LIMIT_def PROJECT_REQUEST_LIMIT_def
  CONFIDENTIAL_REQUEST_LIMIT_def BROWSER_REQUEST_LIMIT_def IP_REQUEST_LIMIT_def
  GLOBAL_BYTE_LIMIT_def PROJECT_BYTE_LIMIT_def CONFIDENTIAL_BYTE_LIMIT_def BROWSER_BYTE_LIMIT_def
  IP_BYTE_LIMIT_def GLOBAL_EVENT_LIMIT_def PROJECT_EVENT_LIMIT_def CONFIDENTIAL_EVENT_LIMIT_def
  BROWSER_EVENT_LIMIT_def IP_EVENT_LIMIT_def IDENTITY_EVENT_LIMIT_def
  PREAUTH_GLOBAL_REQUEST_LIMIT_def PREAUTH_IP_REQUEST_LIMIT_def

section \<open>The script\<close>

record bucket_state =
  bs_tokens :: rat
  bs_updated_at_ms :: int

type_synonym bucket_store = "string \<Rightarrow> bucket_state option"

text \<open>The refilled balance of one bucket: the body of the first loop.\<close>

definition refilled :: "bucket_store \<Rightarrow> int \<Rightarrow> bucket_debit \<Rightarrow> rat" where
  "refilled store now_ms d =
     (let capacity = of_int (bl_capacity (bd_limit d));
          tokens = (case store (bd_key d) of None \<Rightarrow> capacity | Some b \<Rightarrow> bs_tokens b);
          updated = (case store (bd_key d) of None \<Rightarrow> now_ms | Some b \<Rightarrow> bs_updated_at_ms b);
          elapsed = max (now_ms - updated) 0
      in min capacity
           (fl (tokens + fl (fl (of_int (elapsed * bl_refill_per_second (bd_limit d))) / 1000))))"

definition wait_seconds :: "bucket_debit \<Rightarrow> rat \<Rightarrow> int" where
  "wait_seconds d tokens =
     max \<lceil>fl (fl (of_int (bd_cost d) - tokens) / of_int (bl_refill_per_second (bd_limit d)))\<rceil> 1"

text \<open>The first loop: the rejection with the longest wait, if any bucket is short.\<close>

fun scan_buckets ::
    "bucket_store \<Rightarrow> int \<Rightarrow> bucket_debit list \<Rightarrow> int \<times> int \<times> int \<Rightarrow> int \<times> int \<times> int" where
  "scan_buckets store now_ms [] rejected = rejected"
| "scan_buckets store now_ms (d # ds) (limit, remaining, retry) =
     scan_buckets store now_ms ds
       (let tokens = refilled store now_ms d
        in if tokens < of_int (bd_cost d) \<and> retry < wait_seconds d tokens
           then (bl_capacity (bd_limit d), \<lfloor>tokens\<rfloor>, wait_seconds d tokens)
           else (limit, remaining, retry))"

text \<open>
  The second loop: every bucket is charged from the balance the first loop computed, and the
  smallest remaining balance is reported.
\<close>

fun charge_buckets ::
    "bucket_store \<Rightarrow> int \<Rightarrow> bucket_debit list \<Rightarrow> bucket_store \<Rightarrow> (int \<times> int) option
     \<Rightarrow> bucket_store \<times> (int \<times> int) option" where
  "charge_buckets store0 now_ms [] store minimum = (store, minimum)"
| "charge_buckets store0 now_ms (d # ds) store minimum =
     (let tokens = fl (refilled store0 now_ms d - of_int (bd_cost d));
          remaining = \<lfloor>tokens\<rfloor>
      in charge_buckets store0 now_ms ds
           (store(bd_key d \<mapsto> \<lparr>bs_tokens = tokens, bs_updated_at_ms = now_ms\<rparr>))
           (case minimum of
              None \<Rightarrow> Some (bl_capacity (bd_limit d), remaining)
            | Some (l, m) \<Rightarrow>
                if remaining < m then Some (bl_capacity (bd_limit d), remaining) else Some (l, m)))"

record script_reply =
  sr_allowed :: int
  sr_limit :: int
  sr_remaining :: int
  sr_retry_after :: int

definition token_bucket_script ::
    "bucket_store \<Rightarrow> int \<Rightarrow> bucket_debit list \<Rightarrow> script_reply \<times> bucket_store" where
  "token_bucket_script store now_ms ds =
     (case scan_buckets store now_ms ds (0, 0, 0) of (limit, remaining, retry) \<Rightarrow>
        if 0 < retry
        then (\<lparr>sr_allowed = 0, sr_limit = limit, sr_remaining = remaining, sr_retry_after = retry\<rparr>, store)
        else case charge_buckets store now_ms ds store None of (store', minimum) \<Rightarrow>
          (case minimum of
             None \<Rightarrow> (\<lparr>sr_allowed = 1, sr_limit = 0, sr_remaining = 0, sr_retry_after = 0\<rparr>, store')
           | Some (l, m) \<Rightarrow>
               (\<lparr>sr_allowed = 1, sr_limit = l, sr_remaining = m, sr_retry_after = 0\<rparr>, store')))"

section \<open>Admission\<close>

definition ttl_seconds :: "bucket_limit \<Rightarrow> int" where
  "ttl_seconds l =
     max (\<lceil>fl (of_int (bl_capacity l) / of_int (bl_refill_per_second l))\<rceil> * 2) 60"

datatype credential_kind = CONFIDENTIAL | BROWSER

record rl_principal =
  pr_credential_id :: string
  pr_project :: string
  pr_credential_kind :: credential_kind

definition hash_bucket_identifier :: "(string \<Rightarrow> string) \<Rightarrow> string \<Rightarrow> string \<Rightarrow> string" where
  "hash_bucket_identifier sha kind value = sha (kind @ [CHR 0x00] @ value)"

definition credential_limit ::
    "rl_principal \<Rightarrow> bucket_limit \<Rightarrow> bucket_limit \<Rightarrow> bucket_limit" where
  "credential_limit prin confidential browser =
     (if pr_credential_kind prin = CONFIDENTIAL then confidential else browser)"

definition common_buckets ::
    "(string \<Rightarrow> string) \<Rightarrow> string \<Rightarrow> rl_principal \<Rightarrow> string \<Rightarrow> int \<Rightarrow> bucket_limit \<Rightarrow> bucket_limit
     \<Rightarrow> bucket_limit \<Rightarrow> bucket_limit \<Rightarrow> bucket_limit \<Rightarrow> bucket_debit list" where
  "common_buckets sha stage prin ip cost global_limit project_limit confidential_limit
      browser_limit ip_limit =
     (let base = ''apdl:rate:'' @ stage
      in [\<lparr>bd_key = base @ '':global'', bd_limit = global_limit, bd_cost = cost\<rparr>,
          \<lparr>bd_key = base @ '':project:'' @ pr_project prin, bd_limit = project_limit,
            bd_cost = cost\<rparr>,
          \<lparr>bd_key = base @ '':credential:''
             @ hash_bucket_identifier sha ''credential'' (pr_credential_id prin),
            bd_limit = credential_limit prin confidential_limit browser_limit,
            bd_cost = cost\<rparr>,
          \<lparr>bd_key = base @ '':ip:'' @ hash_bucket_identifier sha ''ip'' ip, bd_limit = ip_limit,
            bd_cost = cost\<rparr>])"

text \<open>
  \<open>_identity_costs\<close>: one unit per event on the tenant's hashed identity; \<open>None\<close> is the
  \<open>KeyError\<close> of an event that has neither identity. \<open>fmt\<close> formats a non-string user id.
\<close>

fun identity_costs ::
    "(string \<Rightarrow> string) \<Rightarrow> (pyval \<Rightarrow> string) \<Rightarrow> string \<Rightarrow> dict list \<Rightarrow> (string \<times> int) list
     \<Rightarrow> (string \<times> int) list option" where
  "identity_costs sha fmt project_id [] costs = Some costs"
| "identity_costs sha fmt project_id (event # events) costs =
     (case (case map_of event ''anonymous_id'' of
              Some (PStr a) \<Rightarrow> Some (''anonymous_id'' @ [CHR 0x00] @ a)
            | _ \<Rightarrow> (case map_of event ''user_id'' of
                     None \<Rightarrow> None
                   | Some (PStr u) \<Rightarrow> Some (''user_id'' @ [CHR 0x00] @ u)
                   | Some v \<Rightarrow> Some (''user_id'' @ [CHR 0x00] @ fmt v))) of
        None \<Rightarrow> None
      | Some identity \<Rightarrow>
          let h = hash_bucket_identifier sha ''identity'' (project_id @ [CHR 0x00] @ identity)
          in identity_costs sha fmt project_id events
               (dset costs h (case map_of costs h of None \<Rightarrow> 1 | Some n \<Rightarrow> n + 1)))"

definition byte_cost :: "int \<Rightarrow> int" where
  "byte_cost serialized_bytes = max 1 \<lceil>fl (of_int serialized_bytes / 1024)\<rceil>"

datatype admission_response =
    Admitted
  | ServiceUnavailable
  | RateLimited int int int

text \<open>\<open>_admit\<close>: \<open>up\<close> is whether the evaluation of the script succeeded.\<close>

definition admit ::
    "bool \<Rightarrow> bucket_store \<Rightarrow> int \<Rightarrow> bucket_debit list \<Rightarrow> admission_response \<times> bucket_store" where
  "admit up store now_ms buckets =
     (if \<not> up then (ServiceUnavailable, store)
      else case token_bucket_script store now_ms buckets of (reply, store') \<Rightarrow>
        if sr_allowed reply = 1 then (Admitted, store')
        else (RateLimited (max (sr_retry_after reply) 1) (max (sr_limit reply) 0)
                (max (sr_remaining reply) 0), store'))"

definition pre_auth_buckets :: "(string \<Rightarrow> string) \<Rightarrow> string \<Rightarrow> bucket_debit list" where
  "pre_auth_buckets sha ip =
     [\<lparr>bd_key = ''apdl:rate:preauth:global'', bd_limit = PREAUTH_GLOBAL_REQUEST_LIMIT, bd_cost = 1\<rparr>,
      \<lparr>bd_key = ''apdl:rate:preauth:ip:'' @ hash_bucket_identifier sha ''ip'' ip,
        bd_limit = PREAUTH_IP_REQUEST_LIMIT, bd_cost = 1\<rparr>]"

definition request_buckets ::
    "(string \<Rightarrow> string) \<Rightarrow> rl_principal \<Rightarrow> string \<Rightarrow> bucket_debit list" where
  "request_buckets sha prin ip =
     common_buckets sha ''request'' prin ip 1 GLOBAL_REQUEST_LIMIT PROJECT_REQUEST_LIMIT
       CONFIDENTIAL_REQUEST_LIMIT BROWSER_REQUEST_LIMIT IP_REQUEST_LIMIT"

definition byte_buckets ::
    "(string \<Rightarrow> string) \<Rightarrow> rl_principal \<Rightarrow> string \<Rightarrow> int \<Rightarrow> bucket_debit list" where
  "byte_buckets sha prin ip serialized_bytes =
     common_buckets sha ''byte'' prin ip (byte_cost serialized_bytes) GLOBAL_BYTE_LIMIT
       PROJECT_BYTE_LIMIT CONFIDENTIAL_BYTE_LIMIT BROWSER_BYTE_LIMIT IP_BYTE_LIMIT"

text \<open>The identity buckets follow the common ones in the order of their hashes.\<close>

definition event_buckets ::
    "(string \<Rightarrow> string) \<Rightarrow> (pyval \<Rightarrow> string) \<Rightarrow> rl_principal \<Rightarrow> string \<Rightarrow> dict list \<Rightarrow> bucket_debit list option" where
  "event_buckets sha fmt prin ip events =
     (case identity_costs sha fmt (pr_project prin) events [] of
        None \<Rightarrow> None
      | Some costs \<Rightarrow>
          Some (common_buckets sha ''event'' prin ip (int (length events)) GLOBAL_EVENT_LIMIT
                  PROJECT_EVENT_LIMIT CONFIDENTIAL_EVENT_LIMIT BROWSER_EVENT_LIMIT IP_EVENT_LIMIT
                @ map (\<lambda>(h, cost). \<lparr>bd_key = ''apdl:rate:event:identity:'' @ h,
                                     bd_limit = IDENTITY_EVENT_LIMIT, bd_cost = cost\<rparr>)
                    (sort_key fst costs)))"

section \<open>Vocabulary of the statements\<close>

definition limit_ok :: "bucket_limit \<Rightarrow> bool" where
  "limit_ok l \<longleftrightarrow> 0 < bl_capacity l \<and> bl_capacity l < 10 ^ 12 \<and> 0 < bl_refill_per_second l"

text \<open>The balances lie between 0 and the capacity of the limit a key stands for.\<close>

definition store_ok :: "(string \<Rightarrow> bucket_limit) \<Rightarrow> bucket_store \<Rightarrow> bool" where
  "store_ok limits store \<longleftrightarrow>
     (\<forall>k b. store k = Some b \<longrightarrow> 0 \<le> bs_tokens b \<and> bs_tokens b \<le> of_int (bl_capacity (limits k)))"

definition debits_ok :: "(string \<Rightarrow> bucket_limit) \<Rightarrow> bucket_debit list \<Rightarrow> bool" where
  "debits_ok limits ds \<longleftrightarrow>
     list_all (\<lambda>d. bd_limit d = limits (bd_key d) \<and> limit_ok (bd_limit d) \<and> 0 \<le> bd_cost d) ds"

definition affordable :: "bucket_store \<Rightarrow> int \<Rightarrow> bucket_debit list \<Rightarrow> bool" where
  "affordable store now ds = list_all (\<lambda>d. of_int (bd_cost d) \<le> refilled store now d) ds"

definition charged :: "bucket_store \<Rightarrow> int \<Rightarrow> bucket_debit \<Rightarrow> bucket_state" where
  "charged store now d =
     \<lparr>bs_tokens = fl (refilled store now d - of_int (bd_cost d)), bs_updated_at_ms = now\<rparr>"

section \<open>Lemmas: balances\<close>

lemma fl_int_small: "\<bar>n\<bar> < 10 ^ 15 \<Longrightarrow> fl (of_int n) = of_int n"
  by (rule fl_of_int) simp

lemma fl_ge_int: "of_int n \<le> x \<Longrightarrow> \<bar>n\<bar> < 10 ^ 15 + 1 \<Longrightarrow> of_int n \<le> fl x"
  using fl_mono [of "of_int n" x] fl_of_int [of n] by simp

lemma refilled_le: "refilled store now d \<le> of_int (bl_capacity (bd_limit d))"
  by (simp add: refilled_def Let_def)

lemma refilled_nonneg:
  assumes "store_ok limits store" "limit_ok (bd_limit d)"
  shows "0 \<le> refilled store now d"
proof -
  have t: "0 \<le> (case store (bd_key d) of None \<Rightarrow> of_int (bl_capacity (bd_limit d)) | Some b \<Rightarrow> bs_tokens b)"
    using assms by (auto simp: store_ok_def limit_ok_def split: option.splits)
  have e: "0 \<le> fl (fl (of_int (max (now - u) 0 * bl_refill_per_second (bd_limit d))) / 1000)" for u
    using assms(2) by (intro fl_nonneg divide_nonneg_pos) (simp_all add: limit_ok_def)
  have "0 \<le> (of_int (bl_capacity (bd_limit d)) :: rat)" using assms(2) by (simp add: limit_ok_def)
  then show ?thesis
    unfolding refilled_def Let_def
    by (intro min.boundedI, assumption) (rule fl_nonneg, rule add_nonneg_nonneg, rule t, rule e)
qed

lemma charged_range:
  assumes "store_ok limits store" "limit_ok (bd_limit d)" "0 \<le> bd_cost d"
    and "of_int (bd_cost d) \<le> refilled store now d"
  shows "0 \<le> fl (refilled store now d - of_int (bd_cost d))"
    and "fl (refilled store now d - of_int (bd_cost d)) \<le> of_int (bl_capacity (bd_limit d))"
proof -
  show "0 \<le> fl (refilled store now d - of_int (bd_cost d))" using assms(4) by (intro fl_nonneg) simp
  have "refilled store now d - of_int (bd_cost d) \<le> of_int (bl_capacity (bd_limit d))"
    using refilled_le [of store now d] assms(3) by (simp add: order_trans)
  then show "fl (refilled store now d - of_int (bd_cost d)) \<le> of_int (bl_capacity (bd_limit d))"
    using assms(2) by (intro fl_idem_bounds fl_int_small) (simp_all add: limit_ok_def)
qed

section \<open>Lemmas: the script\<close>

lemma wait_seconds_pos: "1 \<le> wait_seconds d t"
  by (simp add: wait_seconds_def)

lemma scan_buckets_retry:
  assumes "scan_buckets store now ds (l, m, r) = (l', m', r')"
  shows "r \<le> r'"
    and "\<forall>d \<in> set ds. refilled store now d < of_int (bd_cost d) \<longrightarrow>
           wait_seconds d (refilled store now d) \<le> r'"
    and "r' = r \<or> (\<exists>d \<in> set ds. refilled store now d < of_int (bd_cost d)
           \<and> r' = wait_seconds d (refilled store now d))"
  using assms
  by (induction store now ds "(l, m, r)" arbitrary: l m r rule: scan_buckets.induct)
    (force simp: Let_def split: if_splits)+

lemma scan_buckets_zero:
  assumes "scan_buckets store now ds (0, 0, 0) = (l, m, r)"
  shows "0 < r \<longleftrightarrow> \<not> affordable store now ds"
proof
  assume "0 < r"
  then obtain d where "d \<in> set ds" "refilled store now d < of_int (bd_cost d)"
    using scan_buckets_retry(3) [OF assms] by auto
  then show "\<not> affordable store now ds" by (auto simp: affordable_def list_all_iff not_le)
next
  assume "\<not> affordable store now ds"
  then obtain d where "d \<in> set ds" "refilled store now d < of_int (bd_cost d)"
    by (auto simp: affordable_def list_all_iff not_le)
  then show "0 < r"
    using scan_buckets_retry(2) [OF assms] wait_seconds_pos [of d "refilled store now d"] by fastforce
qed

lemma charge_buckets_store:
  assumes "distinct (map bd_key ds)"
  shows "fst (charge_buckets store0 now ds store m) =
    (\<lambda>k. case find (\<lambda>d. bd_key d = k) ds of None \<Rightarrow> store k | Some d \<Rightarrow> Some (charged store0 now d))"
  using assms
proof (induction ds arbitrary: store m)
  case (Cons d ds)
  then have "find (\<lambda>x. bd_key x = bd_key d) ds = None"
    by (auto simp: find_None_iff image_iff)
  with Cons show ?case by (auto simp: Let_def charged_def fun_eq_iff split: option.splits)
qed simp

lemma admit_cases:
  assumes "distinct (map bd_key ds)"
  shows "affordable store now ds \<Longrightarrow> admit True store now ds =
      (Admitted, \<lambda>k. case find (\<lambda>d. bd_key d = k) ds of
         None \<Rightarrow> store k | Some d \<Rightarrow> Some (charged store now d))"
    and "\<not> affordable store now ds \<Longrightarrow> \<exists>retry l m. admit True store now ds = (RateLimited retry l m, store)
      \<and> (\<exists>d \<in> set ds. refilled store now d < of_int (bd_cost d)
           \<and> retry = wait_seconds d (refilled store now d))
      \<and> (\<forall>d \<in> set ds. refilled store now d < of_int (bd_cost d) \<longrightarrow>
           wait_seconds d (refilled store now d) \<le> retry)"
proof -
  obtain l m r where s: "scan_buckets store now ds (0, 0, 0) = (l, m, r)" by (metis prod_cases3)
  note z = scan_buckets_zero [OF s]
  obtain st mn where c: "charge_buckets store now ds store None = (st, mn)" by fastforce
  have st: "st = (\<lambda>k. case find (\<lambda>d. bd_key d = k) ds of
      None \<Rightarrow> store k | Some d \<Rightarrow> Some (charged store now d))"
    using charge_buckets_store [OF assms, of store now store None] c by simp
  show "affordable store now ds \<Longrightarrow> admit True store now ds =
      (Admitted, \<lambda>k. case find (\<lambda>d. bd_key d = k) ds of
         None \<Rightarrow> store k | Some d \<Rightarrow> Some (charged store now d))"
    using z by (simp add: admit_def token_bucket_script_def s c st split: option.splits prod.splits)
  assume n: "\<not> affordable store now ds"
  with z have r: "0 < r" by simp
  then have "admit True store now ds = (RateLimited r (max l 0) (max m 0), store)"
    by (simp add: admit_def token_bucket_script_def s)
  with scan_buckets_retry(2,3) [OF s] r
  show "\<exists>retry l m. admit True store now ds = (RateLimited retry l m, store)
      \<and> (\<exists>d \<in> set ds. refilled store now d < of_int (bd_cost d)
           \<and> retry = wait_seconds d (refilled store now d))
      \<and> (\<forall>d \<in> set ds. refilled store now d < of_int (bd_cost d) \<longrightarrow>
           wait_seconds d (refilled store now d) \<le> retry)"
    by auto
qed

lemma store_ok_admit:
  assumes "store_ok limits store" "debits_ok limits ds" "distinct (map bd_key ds)"
  shows "store_ok limits (snd (admit up store now ds))"
proof (cases "up \<and> affordable store now ds")
  case True
  have "0 \<le> bs_tokens (charged store now d) \<and>
      bs_tokens (charged store now d) \<le> of_int (bl_capacity (limits (bd_key d)))"
    if "d \<in> set ds" for d
    using that charged_range [OF assms(1), of d now] assms(2) True
    by (auto simp: charged_def debits_ok_def affordable_def list_all_iff)
  then show ?thesis
    using True assms(1) admit_cases(1) [OF assms(3), of store now]
    by (auto simp: store_ok_def find_Some_iff split: option.splits)
next
  case False
  then have "snd (admit up store now ds) = store"
    using admit_cases(2) [OF assms(3), of store now] by (cases up) (auto simp: admit_def)
  with assms(1) show ?thesis by simp
qed

lemma ttl_covers:
  assumes "limit_ok l"
  shows "bl_capacity l \<le> ttl_seconds l * bl_refill_per_second l"
proof -
  let ?c = "bl_capacity l" and ?r = "bl_refill_per_second l"
  let ?q = "of_int ?c / of_int ?r :: rat"
  have pos: "0 < ?c" "0 < ?r" "?c < 10 ^ 12" using assms by (simp_all add: limit_ok_def)
  have q: "\<lfloor>?q\<rfloor> = ?c div ?r" by (rule floor_divide_of_int_eq)
  have dm: "?c = (?c div ?r) * ?r + ?c mod ?r" "0 \<le> ?c mod ?r" "?c mod ?r < ?r" "0 \<le> ?c div ?r"
    using pos by (simp_all add: pos_imp_zdiv_nonneg_iff)
  have "?c div ?r \<le> (?c div ?r) * ?r" using mult_left_mono [of 1 ?r "?c div ?r"] pos dm(4) by simp
  then have "?c div ?r \<le> ?c" using dm(1,2) by linarith
  then have "\<bar>?c div ?r\<bar> < 10 ^ 15" using pos(3) dm(4) by simp
  then have "of_int (?c div ?r) \<le> fl ?q"
    using fl_mono [of "of_int (?c div ?r)" ?q] fl_int_small [of "?c div ?r"] q
    by (metis of_int_floor_le)
  then have "?c div ?r \<le> \<lceil>fl ?q\<rceil>" by linarith
  then have "?c div ?r + 1 \<le> ttl_seconds l" unfolding ttl_seconds_def by linarith
  then have "(?c div ?r + 1) * ?r \<le> ttl_seconds l * ?r" using pos by (intro mult_right_mono) simp_all
  moreover have "(?c div ?r + 1) * ?r = (?c div ?r) * ?r + ?r" by (simp add: distrib_right)
  ultimately show ?thesis using dm(1,3) by linarith
qed

lemma refilled_full:
  assumes "store_ok limits store" "limit_ok (bd_limit d)" "store (bd_key d) = Some b"
    and "bs_updated_at_ms b + 1000 * ttl_seconds (bd_limit d) \<le> now"
  shows "refilled store now d = of_int (bl_capacity (bd_limit d))"
proof -
  let ?c = "bl_capacity (bd_limit d)" and ?r = "bl_refill_per_second (bd_limit d)"
  let ?e = "max (now - bs_updated_at_ms b) 0"
  have pos: "0 < ?c" "?c < 10 ^ 12" "0 < ?r" using assms(2) by (simp_all add: limit_ok_def)
  have "1000 * ttl_seconds (bd_limit d) * ?r \<le> ?e * ?r"
    using assms(4) pos by (intro mult_right_mono) simp_all
  then have "1000 * ?c \<le> ?e * ?r" using ttl_covers [OF assms(2)] by linarith
  then have "of_int (1000 * ?c) \<le> (of_int (?e * ?r) :: rat)" by (simp only: of_int_le_iff)
  then have "of_int (1000 * ?c) \<le> fl (of_int (?e * ?r))"
    by (rule fl_ge_int) (use pos in simp)
  then have "of_int ?c \<le> fl (of_int (?e * ?r)) / 1000" by simp
  then have "of_int ?c \<le> fl (fl (of_int (?e * ?r)) / 1000)"
    by (rule fl_ge_int) (use pos in simp)
  then have "of_int ?c \<le> bs_tokens b + fl (fl (of_int (?e * ?r)) / 1000)"
    using assms(1,3) unfolding store_ok_def by (metis add_increasing)
  then have "of_int ?c \<le> fl (bs_tokens b + fl (fl (of_int (?e * ?r)) / 1000))"
    by (rule fl_ge_int) (use pos in simp)
  with assms(3) show ?thesis by (simp add: refilled_def Let_def)
qed

section \<open>Lemmas: keys and costs\<close>

lemma identity_costs_distinct:
  "identity_costs sha fmt p evs costs = Some c \<Longrightarrow> distinct (map fst costs) \<Longrightarrow> distinct (map fst c)"
  by (induction sha fmt p evs costs rule: identity_costs.induct)
    (auto simp: Let_def split: option.splits)

lemma identity_costs_total:
  "identity_costs sha fmt p evs costs = Some c \<Longrightarrow> distinct (map fst costs) \<Longrightarrow>
   sum_list (map snd c) = sum_list (map snd costs) + int (length evs)"
proof (induction sha fmt p evs costs rule: identity_costs.induct)
  case (2 sha fmt p ev evs costs)
  have s: "distinct (map fst d) \<Longrightarrow> sum_list (map snd (dset d h (case map_of d h of None \<Rightarrow> 1 | Some n \<Rightarrow> n + 1)))
      = sum_list (map snd d) + (1 :: int)" for d :: "(string \<times> int) list" and h
  proof -
    have "distinct (map fst d) \<Longrightarrow> sum_list (map snd (dset d h v))
        = sum_list (map snd d) - (case map_of d h of None \<Rightarrow> 0 | Some n \<Rightarrow> n) + (v :: int)" for v
      by (induction d h v rule: dset.induct) (auto split: option.splits)
    then show "distinct (map fst d) \<Longrightarrow> ?thesis" by (auto split: option.splits)
  qed
  from 2 show ?case by (auto simp: Let_def s split: option.splits)
qed simp

lemma fl_div_1024: "0 \<le> n \<Longrightarrow> n < 2 ^ 50 \<Longrightarrow> fl (of_int n / 1024) = of_int n / 1024"
proof (cases "n = 0")
  case False
  assume n: "0 \<le> n" "n < 2 ^ 50"
  let ?x = "of_int n / 1024 :: rat"
  have x: "0 < ?x" "?x < pow2 40" using n False by (simp_all add: pow2_def)
  have "pow2 (ilog2 ?x) < pow2 40" using ilog2_bracket(1) [OF x(1)] x(2) by linarith
  then have "ilog2 ?x < 40" by (rule pow2_less_imp)
  then have "ulp_exp ?x \<le> - 10" using x(1) by (simp add: ulp_exp_def)
  moreover have "?x = of_int n * pow2 (- 10)" by (simp add: pow2_def)
  ultimately show ?thesis using x(1) fl_exact [of ?x "- 10" n] by linarith
qed simp

lemma byte_cost_eq: "0 \<le> n \<Longrightarrow> n < 2 ^ 50 \<Longrightarrow> byte_cost n = max 1 ((n + 1023) div 1024)"
proof -
  assume n: "0 \<le> n" "n < 2 ^ 50"
  have "\<lceil>of_int n / (1024 :: rat)\<rceil> = (n + 1023) div 1024"
  proof -
    have d: "n + 1023 = 1024 * ((n + 1023) div 1024) + (n + 1023) mod 1024" by simp
    have m: "0 \<le> (n + 1023) mod 1024" "(n + 1023) mod 1024 < 1024" by simp_all
    have lo: "n \<le> 1024 * k" if "n + 1023 = 1024 * k + r" "r < 1024" for k r :: int
      using that by linarith
    have hi: "1024 * (k - 1) < n" if "n + 1023 = 1024 * k + r" "0 \<le> r" for k r :: int
      using that by (simp add: right_diff_distrib)
    have "of_int n / (1024 :: rat) \<le> of_int ((n + 1023) div 1024)"
    proof -
      have "n \<le> 1024 * ((n + 1023) div 1024)" by (rule lo [OF d m(2)])
      then have "(of_int n :: rat) \<le> of_int (1024 * ((n + 1023) div 1024))" by (simp only: of_int_le_iff)
      then show ?thesis by (simp add: divide_le_eq mult.commute)
    qed
    moreover have "of_int ((n + 1023) div 1024) - 1 < of_int n / (1024 :: rat)"
    proof -
      have "1024 * ((n + 1023) div 1024 - 1) < n" by (rule hi [OF d m(1)])
      then have "(of_int (1024 * ((n + 1023) div 1024 - 1)) :: rat) < of_int n"
        by (simp only: of_int_less_iff)
      then show ?thesis by (simp add: less_divide_eq algebra_simps)
    qed
    ultimately show ?thesis by (simp add: ceiling_unique)
  qed
  then show ?thesis unfolding byte_cost_def fl_div_1024 [OF n] by simp
qed

section \<open>Properties\<close>

text \<open>
  C20. Admission is all or nothing. When every bucket of the request can afford its cost,
  each is charged exactly that cost from its refilled balance and no other key changes;
  otherwise nothing is charged at all, and the retry time is the longest any short bucket
  needs.
\<close>

theorem admission_all_or_nothing:
  assumes "distinct (map bd_key ds)"
  shows "(affordable store now ds \<longrightarrow> admit True store now ds =
      (Admitted, \<lambda>k. case find (\<lambda>d. bd_key d = k) ds of
         None \<Rightarrow> store k | Some d \<Rightarrow> Some (charged store now d)))
    \<and> (\<not> affordable store now ds \<longrightarrow> (\<exists>retry l m. admit True store now ds = (RateLimited retry l m, store)
        \<and> 1 \<le> retry
        \<and> (\<exists>d \<in> set ds. refilled store now d < of_int (bd_cost d)
             \<and> retry = wait_seconds d (refilled store now d))
        \<and> (\<forall>d \<in> set ds. refilled store now d < of_int (bd_cost d) \<longrightarrow>
             wait_seconds d (refilled store now d) \<le> retry)))"
  using admit_cases [OF assms, of store now] wait_seconds_pos by blast

theorem admission_all_or_nothing_witness:
  "\<exists>retry l m. admit True Map.empty 0
     [\<lparr>bd_key = ''g'', bd_limit = limit_of 10 1, bd_cost = 1\<rparr>,
      \<lparr>bd_key = ''ip'', bd_limit = limit_of 5 1, bd_cost = 7\<rparr>]
     = (RateLimited retry l m, Map.empty) \<and> 1 \<le> retry"
proof -
  let ?ds = "[\<lparr>bd_key = ''g'', bd_limit = limit_of 10 1, bd_cost = 1\<rparr>,
      \<lparr>bd_key = ''ip'', bd_limit = limit_of 5 1, bd_cost = 7\<rparr>]"
  have d: "distinct (map bd_key ?ds)" by simp
  have "\<not> affordable Map.empty 0 ?ds"
    by (simp add: affordable_def refilled_def Let_def limit_of_def)
  then show ?thesis using admission_all_or_nothing [OF d, of Map.empty 0] by blast
qed

text \<open>
  Balances stay between zero and the capacity of their bucket, in binary64 arithmetic,
  over every sequence of admissions at any times, including clocks that go backwards.
\<close>

theorem balances_bounded:
  assumes "store_ok limits store"
    and "\<forall>(up, now, ds) \<in> set reqs. debits_ok limits ds \<and> distinct (map bd_key ds)"
  shows "store_ok limits (foldl (\<lambda>st (up, now, ds). snd (admit up st now ds)) store reqs)"
  using assms by (induction reqs arbitrary: store) (auto intro!: store_ok_admit)

theorem balances_bounded_witness:
  "store_ok (\<lambda>_. limit_of 10 1) (foldl (\<lambda>st (up, now, ds). snd (admit up st now ds)) Map.empty
     [(True, 5, [\<lparr>bd_key = ''g'', bd_limit = limit_of 10 1, bd_cost = 3\<rparr>]),
      (True, 4, [\<lparr>bd_key = ''g'', bd_limit = limit_of 10 1, bd_cost = 9\<rparr>])])"
  by (rule balances_bounded)
    (simp_all add: store_ok_def debits_ok_def limit_ok_def limit_of_def)

text \<open>
  Losing an idle bucket is harmless: by the time the key's lifetime has elapsed since
  the last charge, the bucket is full again, exactly like a bucket that was never written.
\<close>

theorem expiry_is_unobservable:
  assumes "store_ok limits store" "limit_ok (bd_limit d)" "store (bd_key d) = Some b"
    and "bs_updated_at_ms b + 1000 * ttl_seconds (bd_limit d) \<le> now"
  shows "refilled store now d = refilled (store(bd_key d := None)) now d"
proof -
  have "refilled (store(bd_key d := None)) now d = of_int (bl_capacity (bd_limit d))"
    using fl_int_small [of "bl_capacity (bd_limit d)"] assms(2)
    by (simp add: refilled_def Let_def limit_ok_def)
  with refilled_full [OF assms] show ?thesis by simp
qed

theorem expiry_is_unobservable_witness:
  "refilled [''g'' \<mapsto> \<lparr>bs_tokens = 0, bs_updated_at_ms = 0\<rparr>] 60000
     \<lparr>bd_key = ''g'', bd_limit = limit_of 10 1, bd_cost = 1\<rparr>
   = refilled Map.empty 60000 \<lparr>bd_key = ''g'', bd_limit = limit_of 10 1, bd_cost = 1\<rparr>"
proof -
  let ?st = "[''g'' \<mapsto> \<lparr>bs_tokens = 0, bs_updated_at_ms = 0\<rparr>]"
  let ?d = "\<lparr>bd_key = ''g'', bd_limit = limit_of 10 1, bd_cost = 1\<rparr>"
  have s: "store_ok (\<lambda>_. limit_of 10 1) ?st" by (simp add: store_ok_def limit_of_def)
  have l: "limit_ok (bd_limit ?d)" by (simp add: limit_ok_def limit_of_def)
  have t: "ttl_seconds (limit_of 10 1) = 60" by code_simp
  show ?thesis
    using expiry_is_unobservable [OF s l, of "\<lparr>bs_tokens = 0, bs_updated_at_ms = 0\<rparr>" 60000] t
    by simp
qed

text \<open>
  The three authenticated stages charge distinct buckets whatever the hash function, so
  that no bucket is charged twice by one request; an event batch charges its identities one
  unit per event in total; and the largest request body costs exactly the capacity of a
  browser credential's byte bucket.
\<close>

theorem stage_buckets:
  "distinct (map bd_key (request_buckets sha prin ip))
   \<and> distinct (map bd_key (byte_buckets sha prin ip n))
   \<and> (event_buckets sha fmt prin ip events = Some ds \<longrightarrow>
        distinct (map bd_key ds)
        \<and> sum_list (map bd_cost (drop 4 ds)) = int (length events))
   \<and> byte_cost (512 * 1024) = bl_capacity BROWSER_BYTE_LIMIT"
proof -
  have common: "distinct (map bd_key (common_buckets sha stage prin ip c l1 l2 l3 l4 l5))" for stage c l1 l2 l3 l4 l5
    by (simp add: common_buckets_def Let_def)
  have ev: "distinct (map bd_key ds) \<and> sum_list (map bd_cost (drop 4 ds)) = int (length events)"
    if eb: "event_buckets sha fmt prin ip events = Some ds"
  proof -
    obtain costs where c: "identity_costs sha fmt (pr_project prin) events [] = Some costs"
      "ds = common_buckets sha ''event'' prin ip (int (length events)) GLOBAL_EVENT_LIMIT
              PROJECT_EVENT_LIMIT CONFIDENTIAL_EVENT_LIMIT BROWSER_EVENT_LIMIT IP_EVENT_LIMIT
            @ map (\<lambda>(h, cost). \<lparr>bd_key = ''apdl:rate:event:identity:'' @ h,
                     bd_limit = IDENTITY_EVENT_LIMIT, bd_cost = cost\<rparr>) (sort_key fst costs)"
      using eb by (auto simp: event_buckets_def split: option.splits)
    have dist: "distinct (map fst (sort_key fst costs))"
      using identity_costs_distinct [OF c(1)]
      by (simp add: distinct_map) (metis distinct_map distinct_sort set_sort)?
    have "distinct (map (\<lambda>(h, cost). ''apdl:rate:event:identity:'' @ h) (sort_key fst costs))"
      using dist by (fastforce simp: distinct_map inj_on_def)
    moreover have "mset (map snd (sort_key fst costs)) = mset (map snd costs)" by simp
    then have "sum_list (map snd (sort_key fst costs)) = sum_list (map snd costs)"
      by (metis sum_mset_sum_list)
    ultimately show ?thesis
      using identity_costs_total [OF c(1)] common c(2)
      by (auto simp: common_buckets_def Let_def comp_def case_prod_unfold image_iff)
  qed
  have "byte_cost (512 * 1024) = bl_capacity BROWSER_BYTE_LIMIT"
    by (simp add: byte_cost_eq BROWSER_BYTE_LIMIT_def limit_of_def)
  with common ev show ?thesis by (simp add: request_buckets_def byte_buckets_def)
qed

theorem stage_buckets_witness:
  "\<exists>ds. event_buckets id (\<lambda>_. '''') \<lparr>pr_credential_id = ''c'', pr_project = ''p'',
      pr_credential_kind = BROWSER\<rparr> ''ip'' [[(''user_id'', PStr ''u'')], [(''user_id'', PStr ''u'')]] = Some ds
    \<and> sum_list (map bd_cost (drop 4 ds)) = 2"
proof -
  let ?p = "\<lparr>pr_credential_id = ''c'', pr_project = ''p'', pr_credential_kind = BROWSER\<rparr>"
  let ?evs = "[[(''user_id'', PStr ''u'')], [(''user_id'', PStr ''u'')]]"
  obtain ds where "event_buckets id (\<lambda>_. '''') ?p ''ip'' ?evs = Some ds"
    by (simp add: event_buckets_def)
  with stage_buckets [of id ?p "''ip''" 0 "\<lambda>_. ''''" ?evs ds] show ?thesis by simp
qed

end
