(* ===== verification/OutboxStore.thy ===== *)
theory OutboxStore
  imports RedisCache
begin

text \<open>
  The tables the Config mutations share with the outbox worker, and the writers of
  \<open>services/config/app/store/mutations.py\<close> that fill them: the project version counter, the
  \<open>config_outbox\<close> rows and the exposure receipts. A table is the list of its rows; a
  timestamp is a number of microseconds and \<open>now()\<close> an argument. The identifier a row gets is
  the value the sequence handed to its transaction, also an argument. A JSONB column holds the
  document itself, whose text PostgreSQL refuses when it has a NaN, an infinity or a null
  character (\<open>jsonb_ok\<close>); a failed statement aborts the transaction, which is the \<open>Inl\<close> result
  that carries no new state.
\<close>

section \<open>Python equality of documents\<close>

fun num_value :: "pyval \<Rightarrow> pyfloat option" where
  "num_value (PBool b) = Some (Fin (if b then 1 else 0))"
| "num_value (PInt i) = Some (Fin (of_int i))"
| "num_value (PFloat f) = Some f"
| "num_value _ = None"

text \<open>\<open>==\<close> on documents: numbers by value across types, dictionaries whatever their order.\<close>

fun py_eq :: "pyval \<Rightarrow> pyval \<Rightarrow> bool"
  and py_eq_list :: "pyval list \<Rightarrow> pyval list \<Rightarrow> bool"
  and py_eq_items :: "dict \<Rightarrow> dict \<Rightarrow> bool" where
  "py_eq PNone w = (w = PNone)"
| "py_eq (PStr s) w = (w = PStr s)"
| "py_eq (PList xs) w = (case w of PList ys \<Rightarrow> py_eq_list xs ys | _ \<Rightarrow> False)"
| "py_eq (PDict d) w = (case w of PDict e \<Rightarrow> length d = length e \<and> py_eq_items d e | _ \<Rightarrow> False)"
| "py_eq v w = (case (num_value v, num_value w) of
     (Some x, Some y) \<Rightarrow> x = y \<and> x \<noteq> NaN | _ \<Rightarrow> False)"
| "py_eq_list [] ys = (ys = [])"
| "py_eq_list (x # xs) ys = (case ys of [] \<Rightarrow> False | y # ys' \<Rightarrow> py_eq x y \<and> py_eq_list xs ys')"
| "py_eq_items [] e = True"
| "py_eq_items ((k, v) # d) e =
     ((case map_of e k of None \<Rightarrow> False | Some w \<Rightarrow> py_eq v w) \<and> py_eq_items d e)"

fun jsonb_ok :: "pyval \<Rightarrow> bool"
  and jsonb_list_ok :: "pyval list \<Rightarrow> bool"
  and jsonb_items_ok :: "dict \<Rightarrow> bool" where
  "jsonb_ok (PFloat f) = (case f of Fin _ \<Rightarrow> True | _ \<Rightarrow> False)"
| "jsonb_ok (PStr s) = list_all (\<lambda>c. (of_char c :: nat) \<noteq> 0) s"
| "jsonb_ok (PList xs) = jsonb_list_ok xs"
| "jsonb_ok (PDict d) = jsonb_items_ok d"
| "jsonb_ok _ = True"
| "jsonb_list_ok [] = True"
| "jsonb_list_ok (x # xs) = (jsonb_ok x \<and> jsonb_list_ok xs)"
| "jsonb_items_ok [] = True"
| "jsonb_items_ok ((k, v) # d) =
     (list_all (\<lambda>c. (of_char c :: nat) \<noteq> 0) k \<and> jsonb_ok v \<and> jsonb_items_ok d)"

section \<open>Tables\<close>

text \<open>A column read back is the text of the document, or a value the driver has decoded.\<close>

datatype raw_payload = RawText json_text | RawValue pyval

record outbox_row =
  ob_id :: int
  ob_project_id :: string
  ob_kind :: string
  ob_dedup_key :: string
  ob_payload :: raw_payload
  ob_attempts :: int
  ob_available_at :: int
  ob_claimed_at :: "int option"
  ob_processed_at :: "int option"
  ob_quarantined_at :: "int option"
  ob_failure_class :: "string option"
  ob_failure_code :: "string option"
  ob_last_error :: string
  ob_created_at :: int

record exposure_receipt =
  er_project_id :: string
  er_message_id :: string
  er_canonical_payload :: pyval
  er_last_seen_at :: int

record operator_entry =
  ol_project_id :: string
  ol_outbox_id :: int
  ol_action :: string
  ol_actor :: string
  ol_reason :: string
  ol_kind :: string
  ol_failure_class :: "string option"
  ol_failure_code :: "string option"
  ol_payload_sha256 :: string

record outbox_db =
  db_outbox :: "outbox_row list"
  db_receipts :: "exposure_receipt list"
  db_operator_log :: "operator_entry list"
  db_project_versions :: "(string \<times> int) list"

definition outbox_db_empty :: outbox_db where
  "outbox_db_empty = \<lparr>db_outbox = [], db_receipts = [], db_operator_log = [],
     db_project_versions = []\<rparr>"

text \<open>The expected command failures, and the exceptions of the database and the validators.\<close>

datatype mutation_error =
    NotFoundError string string
  | VersionConflictError string string int
  | ExperimentOwnedFlagError string string
  | IntegrityError string
  | ImmutableExperimentError string "string list"
  | ArchivedExperimentError string
  | UniqueViolation
  | InvalidJson
  | DataError
  | ValidationFailed

section \<open>Writers\<close>

definition CONFIG_KINDS :: "string list" where
  "CONFIG_KINDS = [''flag_change'', ''experiment_change'']"

definition new_outbox_row ::
    "int \<Rightarrow> int \<Rightarrow> string \<Rightarrow> string \<Rightarrow> string \<Rightarrow> pyval \<Rightarrow> outbox_row" where
  "new_outbox_row row_id now project_id kind dedup_key payload =
     \<lparr>ob_id = row_id, ob_project_id = project_id, ob_kind = kind, ob_dedup_key = dedup_key,
      ob_payload = RawText (JsonOf payload), ob_attempts = 0, ob_available_at = now,
      ob_claimed_at = None, ob_processed_at = None, ob_quarantined_at = None,
      ob_failure_class = None, ob_failure_code = None, ob_last_error = '''', ob_created_at = now\<rparr>"

definition insert_outbox ::
    "outbox_db \<Rightarrow> int \<Rightarrow> int \<Rightarrow> string \<Rightarrow> string \<Rightarrow> string \<Rightarrow> pyval
     \<Rightarrow> (mutation_error, outbox_db) result" where
  "insert_outbox db row_id now project_id kind dedup_key payload =
     (if \<not> jsonb_ok payload then Inl InvalidJson
      else if \<exists>r \<in> set (db_outbox db). ob_project_id r = project_id \<and> ob_kind r = kind
                \<and> ob_dedup_key r = dedup_key then Inl UniqueViolation
      else Inr (db\<lparr>db_outbox := db_outbox db
             @ [new_outbox_row row_id now project_id kind dedup_key payload]\<rparr>))"

definition project_version_of :: "outbox_db \<Rightarrow> string \<Rightarrow> int" where
  "project_version_of db project_id =
     (case map_of (db_project_versions db) project_id of None \<Rightarrow> 0 | Some v \<Rightarrow> v)"

definition next_project_version :: "outbox_db \<Rightarrow> string \<Rightarrow> int \<times> outbox_db" where
  "next_project_version db project_id =
     (let v = (case map_of (db_project_versions db) project_id of None \<Rightarrow> 1 | Some v \<Rightarrow> v + 1)
      in (v, db\<lparr>db_project_versions := dset (db_project_versions db) project_id v\<rparr>))"

definition canonical_exposure_payload :: "pyval \<Rightarrow> dict option" where
  "canonical_exposure_payload payload = (case payload of
     PDict canonical \<Rightarrow>
       (case dget canonical ''stream_key'' of
          PStr stream_key \<Rightarrow>
            if stream_key = [] then None
            else (case dget canonical ''event'' of
                    PDict event \<Rightarrow>
                      Some (dset canonical ''event''
                        (PDict (dpop (dpop event ''timestamp'') ''server_timestamp'')))
                  | _ \<Rightarrow> None)
        | _ \<Rightarrow> None)
   | _ \<Rightarrow> None)"

definition same_exposure_payload :: "pyval \<Rightarrow> dict \<Rightarrow> bool" where
  "same_exposure_payload existing requested =
     (case (canonical_exposure_payload existing, canonical_exposure_payload (PDict requested)) of
        (Some e, Some r) \<Rightarrow> py_eq (PDict e) (PDict r) | _ \<Rightarrow> False)"

definition find_receipt :: "outbox_db \<Rightarrow> string \<Rightarrow> string \<Rightarrow> exposure_receipt option" where
  "find_receipt db project_id message_id =
     find (\<lambda>r. er_project_id r = project_id \<and> er_message_id r = message_id) (db_receipts db)"

definition exposure_payload :: "string \<Rightarrow> dict \<Rightarrow> dict" where
  "exposure_payload stream_key event = [(''stream_key'', PStr stream_key), (''event'', PDict event)]"

definition event_message_id :: "dict \<Rightarrow> pyval" where
  "event_message_id canonical =
     (case dget canonical ''event'' of PDict e \<Rightarrow> dget e ''message_id'' | _ \<Rightarrow> PNone)"

definition enqueue_exposure ::
    "outbox_db \<Rightarrow> int \<Rightarrow> int \<Rightarrow> string \<Rightarrow> string \<Rightarrow> string \<Rightarrow> dict
     \<Rightarrow> (mutation_error, outbox_db) result" where
  "enqueue_exposure db row_id now project_id message_id stream_key event =
     (let payload = exposure_payload stream_key event
      in case canonical_exposure_payload (PDict payload) of
           None \<Rightarrow> Inl (IntegrityError ''Exposure payload is not canonical'')
         | Some canonical \<Rightarrow>
             if event_message_id canonical \<noteq> PStr message_id
             then Inl (IntegrityError ''Exposure event message_id does not match its receipt key'')
             else if \<not> jsonb_ok (PDict canonical) then Inl InvalidJson
             else (case find_receipt db project_id message_id of
                     None \<Rightarrow>
                       insert_outbox
                         (db\<lparr>db_receipts := db_receipts db @
                            [\<lparr>er_project_id = project_id, er_message_id = message_id,
                              er_canonical_payload = PDict canonical, er_last_seen_at = now\<rparr>]\<rparr>)
                         row_id now project_id ''exposure'' message_id (PDict payload)
                   | Some receipt \<Rightarrow>
                       if py_eq (er_canonical_payload receipt) (PDict canonical) then Inr db
                       else Inl (IntegrityError (''Exposure message_id '' @ [CHR 0x27] @ message_id
                         @ [CHR 0x27] @ '' is unique per exposure and was reused for a different ''
                         @ ''canonical payload''))))"

text \<open>A Python dictionary has each key once, at every depth.\<close>

fun wf_doc :: "pyval \<Rightarrow> bool"
  and wf_docs :: "pyval list \<Rightarrow> bool"
  and wf_items :: "dict \<Rightarrow> bool" where
  "wf_doc (PList xs) = wf_docs xs"
| "wf_doc (PDict d) = wf_items d"
| "wf_doc _ = True"
| "wf_docs [] = True"
| "wf_docs (x # xs) = (wf_doc x \<and> wf_docs xs)"
| "wf_items [] = True"
| "wf_items ((k, v) # d) = (k \<notin> fst ` set d \<and> wf_doc v \<and> wf_items d)"

section \<open>Lemmas\<close>

lemma py_eq_items_mono:
  "py_eq_items d e \<Longrightarrow> k \<notin> fst ` set d \<Longrightarrow> py_eq_items d ((k, v) # e)"
  by (induction d) (auto split: option.splits)

text \<open>Python equality is reflexive on the documents JSONB accepts: they have no NaN.\<close>

lemma py_eq_refl:
  "jsonb_ok v \<Longrightarrow> wf_doc v \<Longrightarrow> py_eq v v"
  "jsonb_list_ok xs \<Longrightarrow> wf_docs xs \<Longrightarrow> py_eq_list xs xs"
  "jsonb_items_ok d \<Longrightarrow> wf_items d \<Longrightarrow> py_eq_items d d"
  by (induction v and xs and d rule: jsonb_ok_jsonb_list_ok_jsonb_items_ok.induct)
    (auto intro: py_eq_items_mono split: pyfloat.splits)

lemma wf_items_iff: "wf_items d \<longleftrightarrow> distinct (map fst d) \<and> (\<forall>(k, v) \<in> set d. wf_doc v)"
  by (induction d) (auto, force)

lemma find_append: "find P (xs @ ys) = (case find P xs of None \<Rightarrow> find P ys | Some x \<Rightarrow> Some x)"
  by (induction xs) auto

lemma dpop_dset: "dpop (dset d k v) j = (if j = k then dpop d j else dset (dpop d j) k v)"
  by (induction d k v rule: dset.induct) (auto simp: dpop_def)

lemma dpop_dpop: "dpop (dpop d k) j = dpop (dpop d j) k"
  unfolding dpop_def filter_filter by (rule arg_cong [where f = "\<lambda>P. filter P d"]) auto

text \<open>The receipt's payload does not depend on the event's two timestamps.\<close>

definition restamp :: "dict \<Rightarrow> pyval \<Rightarrow> pyval \<Rightarrow> dict" where
  "restamp event t u = dset (dset event ''timestamp'' t) ''server_timestamp'' u"

lemma canonical_payload:
  "canonical_exposure_payload (PDict (exposure_payload k e)) =
     (if k = [] then None
      else Some (exposure_payload k (dpop (dpop e ''timestamp'') ''server_timestamp'')))"
  by (simp add: canonical_exposure_payload_def exposure_payload_def)

lemma canonical_restamp:
  "canonical_exposure_payload (PDict (exposure_payload k (restamp e t u)))
   = canonical_exposure_payload (PDict (exposure_payload k e))"
  by (simp add: canonical_payload restamp_def dpop_dset dpop_dpop [of _ "''timestamp''" "''server_timestamp''"])

lemma wf_canonical:
  assumes "wf_doc (PDict e)"
  shows "wf_doc (PDict (exposure_payload k (dpop (dpop e a) b)))"
  using assms by (auto simp: exposure_payload_def wf_items_iff dpop_def distinct_map_filter)

section \<open>Properties\<close>

text \<open>
  Recording an exposure is idempotent: a retry with the same message id and the same event,
  whatever its client and server timestamps, is accepted and changes nothing, so that the
  event has one outbox row.
\<close>

theorem enqueue_exposure_idempotent:
  assumes "enqueue_exposure db i now p m k event = Inr db'" "wf_doc (PDict event)"
  shows "enqueue_exposure db' j later p m k (restamp event t u) = Inr db'"
proof -
  let ?c = "exposure_payload k (dpop (dpop event ''timestamp'') ''server_timestamp'')"
  have c: "canonical_exposure_payload (PDict (exposure_payload k event)) = Some ?c"
    using assms(1) by (auto simp: enqueue_exposure_def Let_def canonical_payload split: if_splits)
  have m: "event_message_id ?c = PStr m" "jsonb_ok (PDict ?c)"
    using assms(1) c by (auto simp: enqueue_exposure_def Let_def split: if_splits)
  have "\<exists>r. find_receipt db' p m = Some r \<and> py_eq (er_canonical_payload r) (PDict ?c)"
  proof (cases "find_receipt db p m")
    case None
    then have "find_receipt db' p m = Some \<lparr>er_project_id = p, er_message_id = m,
        er_canonical_payload = PDict ?c, er_last_seen_at = now\<rparr>"
      using assms(1) c m
      by (auto simp: enqueue_exposure_def Let_def insert_outbox_def find_receipt_def find_append split: if_splits)
    then show ?thesis using py_eq_refl(1) [OF m(2) wf_canonical [OF assms(2)]] by simp
  next
    case (Some r)
    with assms(1) c m show ?thesis by (auto simp: enqueue_exposure_def Let_def split: if_splits)
  qed
  then show ?thesis using c m by (auto simp: enqueue_exposure_def Let_def canonical_restamp)
qed

theorem enqueue_exposure_idempotent_witness:
  "\<exists>db'. enqueue_exposure outbox_db_empty 1 0 ''p'' ''m'' ''s''
       [(''message_id'', PStr ''m''), (''timestamp'', PStr ''a'')] = Inr db'
     \<and> length (db_outbox db') = 1
     \<and> enqueue_exposure db' 2 9 ''p'' ''m'' ''s''
         (restamp [(''message_id'', PStr ''m''), (''timestamp'', PStr ''a'')] (PStr ''b'') (PStr ''c'')) = Inr db'"
proof -
  let ?e = "[(''message_id'', PStr ''m''), (''timestamp'', PStr ''a'')]"
  obtain db' where d: "enqueue_exposure outbox_db_empty 1 0 ''p'' ''m'' ''s'' ?e = Inr db'" "length (db_outbox db') = 1"
  proof -
    have "(case enqueue_exposure outbox_db_empty 1 0 ''p'' ''m'' ''s'' ?e of
        Inr db' \<Rightarrow> length (db_outbox db') = 1 | Inl _ \<Rightarrow> False)" by code_simp
    with that show thesis by (auto split: sum.splits)
  qed
  have "wf_doc (PDict ?e)" by simp
  from enqueue_exposure_idempotent [OF d(1) this] d show ?thesis by blast
qed

end
