(* ===== verification/Experiments.thy ===== *)
theory Experiments
  imports ConfigModels OutboxStore
begin

text \<open>
  Experiments of the Config service: their stored rows, the request validators of
  \<open>services/config/app/models/schemas.py\<close> (lifecycle window, statistical plan with its
  prospective sample size), the derivation of the backing flag
  (\<open>services/config/app/flags/experiment_flag.py\<close>) and the analysis contract
  (\<open>services/config/app/experiments/analysis.py\<close>). A timestamp is an aware datetime, as a
  number of microseconds. A JSON text column holds the document its text denotes, or \<open>NotJson\<close>.
  The normal quantile, the square root and the square (\<open>** 2\<close>, the C library's \<open>pow\<close>) are the
  functions \<open>inv_cdf\<close>, \<open>fsqrt\<close> and \<open>fsquare\<close> of a record; the other float operations round (\<open>fl\<close>). A validator
  that raises is \<open>None\<close> or \<open>False\<close>.
\<close>

section \<open>Rows\<close>

record experiment_row =
  ex_key :: string
  ex_project_id :: string
  ex_status :: string
  ex_description :: string
  ex_flag_key :: string
  ex_default_variant :: string
  ex_variants_json :: json_text
  ex_targeting_rules_json :: json_text
  ex_primary_metric_json :: json_text
  ex_statistical_plan :: pyval
  ex_traffic_percentage :: rat
  ex_bucket_by :: string
  ex_minimum_exposure_config_version :: "int option"
  ex_start_date :: "int option"
  ex_end_date :: "int option"
  ex_version :: int
  ex_creation_idempotency_key :: "string option"
  ex_creation_idempotency_request_sha256 :: "string option"
  ex_created_at :: int
  ex_updated_at :: int
  ex_archived_at :: "int option"
  ex_archived_by :: "string option"

section \<open>Statistical plans\<close>

definition EXPERIMENT_STATISTICAL_PROTOCOL :: string where
  "EXPERIMENT_STATISTICAL_PROTOCOL = ''fixed_horizon_fisher_newcombe_cc_plan_v1''"
definition MIN_STATISTICAL_VALUE :: rat where "MIN_STATISTICAL_VALUE = fl (1 / 1000000)"
definition MAX_NOMINAL_POWER :: rat where "MAX_NOMINAL_POWER = fl (9999 / 10000)"
definition MAX_REQUIRED_SAMPLE_SIZE_PER_ARM :: int where
  "MAX_REQUIRED_SAMPLE_SIZE_PER_ARM = 10000000"
definition MAX_EXPERIMENT_DURATION :: int where
  "MAX_EXPERIMENT_DURATION = 90 * 24 * 60 * 60 * 1000000"

record statistical_plan =
  sp_baseline_conversion_rate :: rat
  sp_minimum_detectable_effect :: rat
  sp_significance_level :: rat
  sp_nominal_power :: rat
  sp_required_sample_size_per_arm :: int
  sp_data_settlement_seconds :: int

datatype metric_direction = Increase | Decrease

record experiment_metric =
  em_event :: string
  em_direction :: metric_direction

definition float_field :: "pydantic \<Rightarrow> (rat \<Rightarrow> bool) \<Rightarrow> pyval \<Rightarrow> rat option" where
  "float_field py ok v = (case strict_float py v of
     Some (Fin r) \<Rightarrow> if ok r then Some r else None
   | _ \<Rightarrow> None)"

definition parse_statistical_plan :: "pydantic \<Rightarrow> pyval \<Rightarrow> statistical_plan option" where
  "parse_statistical_plan py v = do {
     d \<leftarrow> dict_fields [''protocol'', ''baseline_conversion_rate'', ''minimum_detectable_effect'',
            ''significance_level'', ''nominal_power'', ''required_sample_size_per_arm'',
            ''data_settlement_seconds''] v;
     p \<leftarrow> map_of d ''protocol'';
     b \<leftarrow> map_of d ''baseline_conversion_rate'' \<bind> float_field py (\<lambda>r. 0 \<le> r \<and> r \<le> 1);
     m \<leftarrow> map_of d ''minimum_detectable_effect''
            \<bind> float_field py (\<lambda>r. MIN_STATISTICAL_VALUE \<le> r \<and> r \<le> 1);
     a \<leftarrow> map_of d ''significance_level''
            \<bind> float_field py (\<lambda>r. MIN_STATISTICAL_VALUE \<le> r \<and> r \<le> 1 / 2);
     w \<leftarrow> map_of d ''nominal_power'' \<bind> float_field py (\<lambda>r. 1 / 2 < r \<and> r \<le> MAX_NOMINAL_POWER);
     n \<leftarrow> map_of d ''required_sample_size_per_arm''
            \<bind> int_field 2 (Some MAX_REQUIRED_SAMPLE_SIZE_PER_ARM);
     s \<leftarrow> map_of d ''data_settlement_seconds'' \<bind> int_field 1 (Some 86400);
     if p = PStr EXPERIMENT_STATISTICAL_PROTOCOL
     then Some \<lparr>sp_baseline_conversion_rate = b, sp_minimum_detectable_effect = m,
                sp_significance_level = a, sp_nominal_power = w,
                sp_required_sample_size_per_arm = n, sp_data_settlement_seconds = s\<rparr>
     else None }"

definition direction_of :: "pyval \<Rightarrow> metric_direction option" where
  "direction_of v = (if v = PStr ''increase'' then Some Increase
     else if v = PStr ''decrease'' then Some Decrease else None)"

definition parse_experiment_metric :: "pyval \<Rightarrow> experiment_metric option" where
  "parse_experiment_metric v = do {
     d \<leftarrow> dict_fields [''event'', ''type'', ''direction''] v;
     e \<leftarrow> (case map_of d ''event'' of Some (PStr s) \<Rightarrow> if s = [] then None else Some s | _ \<Rightarrow> None);
     dr \<leftarrow> direction_of (dget_default d ''direction'' (PStr ''increase''));
     if dget_default d ''type'' (PStr ''conversion'') = PStr ''conversion''
     then Some \<lparr>em_event = e, em_direction = dr\<rparr> else None }"

record float_library =
  inv_cdf :: "rat \<Rightarrow> rat"
  fsqrt :: "rat \<Rightarrow> rat"
  fsquare :: "rat \<Rightarrow> rat"

text \<open>
  The continuity-corrected target, in the order of the source's operations; \<open>None\<close> is an
  exception (\<open>ValueError\<close>, or a division by zero).
\<close>

definition treatment_rate_of :: "rat \<Rightarrow> rat \<Rightarrow> metric_direction \<Rightarrow> rat" where
  "treatment_rate_of baseline mde direction =
     fl (baseline + (case direction of Increase \<Rightarrow> mde | Decrease \<Rightarrow> - mde))"

definition asymptotic_sample ::
    "float_library \<Rightarrow> rat \<Rightarrow> rat \<Rightarrow> rat \<Rightarrow> rat \<Rightarrow> int \<Rightarrow> metric_direction \<Rightarrow> rat" where
  "asymptotic_sample lib baseline mde alpha nominal treatment_count direction =
     (let treatment_rate = treatment_rate_of baseline mde direction;
          per_comparison_alpha = fl (alpha / of_int treatment_count);
          pooled_rate = fl (fl (baseline + treatment_rate) / 2);
          z_alpha = inv_cdf lib (fl (1 - fl (per_comparison_alpha / 2)));
          z_beta = inv_cdf lib nominal;
          a = fl (z_alpha * fsqrt lib (fl (fl (2 * pooled_rate) * fl (1 - pooled_rate))));
          b = fl (z_beta * fsqrt lib (fl (fl (baseline * fl (1 - baseline))
                                        + fl (treatment_rate * fl (1 - treatment_rate)))));
          s = fl (a + b)
      in fl (fsquare lib s / fsquare lib mde))"

definition prospective_sample_size_per_arm ::
    "float_library \<Rightarrow> rat \<Rightarrow> rat \<Rightarrow> rat \<Rightarrow> rat \<Rightarrow> int \<Rightarrow> metric_direction \<Rightarrow> int option" where
  "prospective_sample_size_per_arm lib baseline mde alpha nominal treatment_count direction =
     (if treatment_count < 1 then None
      else if \<not> (0 \<le> treatment_rate_of baseline mde direction
                 \<and> treatment_rate_of baseline mde direction \<le> 1) then None
      else let n = asymptotic_sample lib baseline mde alpha nominal treatment_count direction
           in if fsquare lib mde = 0 \<or> fl (n * mde) = 0 then None
              else let c = fl (1 + fsqrt lib (fl (1 + fl (4 / fl (n * mde)))));
                       corrected = fl (fl (n / 4) * fsquare lib c)
                   in if of_int MAX_REQUIRED_SAMPLE_SIZE_PER_ARM < corrected then None
                      else Some (max 2 \<lceil>corrected\<rceil>))"

definition validate_statistical_plan ::
    "float_library \<Rightarrow> string \<Rightarrow> statistical_plan option \<Rightarrow> experiment_metric option \<Rightarrow> int \<Rightarrow> bool" where
  "validate_statistical_plan lib status plan metric variant_count =
     (case plan of
        None \<Rightarrow> status \<notin> {''scheduled'', ''running''}
      | Some p \<Rightarrow>
          (case metric of
             None \<Rightarrow> False
           | Some m \<Rightarrow>
               (case prospective_sample_size_per_arm lib (sp_baseline_conversion_rate p)
                       (sp_minimum_detectable_effect p) (sp_significance_level p)
                       (sp_nominal_power p) (variant_count - 1) (em_direction m) of
                  None \<Rightarrow> False
                | Some minimum_target \<Rightarrow> minimum_target \<le> sp_required_sample_size_per_arm p)))"

section \<open>Lifecycle window\<close>

definition validate_experiment_lifecycle ::
    "string \<Rightarrow> int option \<Rightarrow> int option \<Rightarrow> bool \<Rightarrow> int \<Rightarrow> bool" where
  "validate_experiment_lifecycle status start_date end_date has_metric now =
     (if end_date \<noteq> None \<and> start_date = None then False
      else if (case (start_date, end_date) of (Some s, Some e) \<Rightarrow> e \<le> s | _ \<Rightarrow> False) then False
      else if (case (start_date, end_date) of (Some s, Some e) \<Rightarrow> MAX_EXPERIMENT_DURATION < e - s | _ \<Rightarrow> False)
      then False
      else if status \<notin> {''scheduled'', ''running''} then True
      else (case (start_date, end_date) of
              (Some s, Some e) \<Rightarrow>
                has_metric \<and> \<not> (status = ''scheduled'' \<and> s \<le> now)
                \<and> \<not> (status = ''running'' \<and> now < s) \<and> \<not> (status = ''running'' \<and> e \<le> now)
            | _ \<Rightarrow> False))"

section \<open>The backing flag\<close>

fun status_to_flag_state :: "string \<Rightarrow> (string \<times> bool) option" where
  "status_to_flag_state s =
     map_of [(''draft'', (''draft'', False)), (''scheduled'', (''draft'', False)),
             (''running'', (''active'', True)), (''completed'', (''disabled'', False)),
             (''stopped'', (''disabled'', False))] s"

record targeting_rule =
  tr_id :: string
  tr_name :: string
  tr_conditions :: "gate_condition list"

definition parse_targeting_rule :: "pyval \<Rightarrow> targeting_rule option" where
  "parse_targeting_rule v = do {
     d \<leftarrow> dict_fields [''id'', ''name'', ''conditions''] v;
     i \<leftarrow> map_of d ''id'' \<bind> str_field 1 MAX_IDENTIFIER_LENGTH;
     n \<leftarrow> map_of d ''name'' \<bind> str_field 0 MAX_STRING_LENGTH;
     cs \<leftarrow> list_field 0 MAX_CONDITIONS_PER_RULE srv_parse_condition
             (dget_default d ''conditions'' (PList []));
     Some \<lparr>tr_id = i, tr_name = n, tr_conditions = cs\<rparr> }"

definition validate_state_enabled :: "string \<Rightarrow> bool \<Rightarrow> bool" where
  "validate_state_enabled state enabled \<longleftrightarrow> enabled = (state = ''active'')"

text \<open>
  The fields of \<open>_flag_fields\<close> checked by \<open>FlagCreate\<close>, as the JSON dump of the model without
  its key, owners, review date and guardrails. The model dump spells out every field, also the
  value of a presence condition, which is null.
\<close>

definition derived_rule :: "rat \<Rightarrow> string \<Rightarrow> targeting_rule \<Rightarrow> gate_rule" where
  "derived_rule traffic bucket_by r =
     \<lparr>gr_id = tr_id r, gr_name = tr_name r, gr_conditions = tr_conditions r,
      gr_rollout = \<lparr>ro_percentage = traffic, ro_bucket_by = bucket_by\<rparr>\<rparr>"

definition build_flag_projection ::
    "string \<Rightarrow> string \<Rightarrow> string \<Rightarrow> string \<Rightarrow> variant_config list \<Rightarrow> string \<Rightarrow> rat
     \<Rightarrow> targeting_rule list \<Rightarrow> string \<Rightarrow> dict option" where
  "build_flag_projection flag_key name description status variants default_variant traffic rules bucket_by = do {
     (state, enabled) \<leftarrow> status_to_flag_state status;
     let shown = (if name = [] then flag_key else name);
     if 1 \<le> length flag_key \<and> length flag_key \<le> MAX_IDENTIFIER_LENGTH \<and> shown \<noteq> []
        \<and> 1 \<le> length default_variant \<and> length default_variant \<le> MAX_IDENTIFIER_LENGTH
        \<and> 1 \<le> length variants \<and> length variants \<le> MAX_VARIANTS
        \<and> srv_validate_variants variants default_variant = Inr ()
        \<and> length rules \<le> MAX_RULES \<and> 0 \<le> traffic \<and> traffic \<le> 100
        \<and> 1 \<le> length bucket_by \<and> length bucket_by \<le> MAX_IDENTIFIER_LENGTH
        \<and> validate_state_enabled state enabled
     then Some [(''default_variant'', PStr default_variant),
       (''variants'', PList (map dump_variant variants)),
       (''name'', PStr shown), (''state'', PStr state), (''enabled'', PBool enabled),
       (''description'', PStr description),
       (''rules'', PList (map (dump_rule \<circ> derived_rule traffic bucket_by) rules)),
       (''fallthrough'', dump_fallthrough \<lparr>ft_rollout =
          \<lparr>ro_percentage = (if rules \<noteq> [] then 0 else traffic), ro_bucket_by = bucket_by\<rparr>\<rparr>),
       (''evaluation_mode'', PStr ''client''), (''auto_disable'', PBool False)]
     else None }"

text \<open>
  \<open>build_flag_create\<close> dumped with \<open>exclude_none\<close>, as the endpoint that creates an experiment
  does: there a presence condition has no value field.
\<close>

definition build_flag_create ::
    "string \<Rightarrow> string \<Rightarrow> string \<Rightarrow> string \<Rightarrow> variant_config list \<Rightarrow> string \<Rightarrow> rat
     \<Rightarrow> targeting_rule list \<Rightarrow> string \<Rightarrow> dict option" where
  "build_flag_create flag_key name description status variants default_variant traffic rules bucket_by = do {
     d \<leftarrow> build_flag_projection flag_key name description status variants default_variant traffic rules bucket_by;
     Some (dmerge (dset d ''key'' (PStr flag_key))
       [(''owners'', PList []), (''guardrails'', PList []),
        (''rules'', map_list (omit_in ''conditions'' omit_condition) (dget d ''rules''))]) }"

section \<open>Validation before persistence\<close>

definition validate_flag_variant_config :: "pydantic \<Rightarrow> dict \<Rightarrow> bool" where
  "validate_flag_variant_config py flag =
     (case (dget flag ''default_variant'', dget flag ''variants'') of
        (PStr default_variant, PList variants) \<Rightarrow>
          default_variant \<noteq> []
          \<and> (case those (map srv_parse_variant variants) of
               None \<Rightarrow> False
             | Some vs \<Rightarrow> srv_validate_variants vs default_variant = Inr ())
          \<and> (case dget flag ''rules'' of
               PList rules \<Rightarrow> length rules \<le> MAX_RULES \<and> those (map (srv_parse_rule py) rules) \<noteq> None
             | _ \<Rightarrow> False)
          \<and> srv_parse_fallthrough py (dget flag ''fallthrough'') \<noteq> None
      | _ \<Rightarrow> False)"

text \<open>\<open>value["key"]\<close> and \<open>value["weight"]\<close> of a stored variant, without its other fields.\<close>

definition variant_of_stored :: "pyval \<Rightarrow> variant_config option" where
  "variant_of_stored v = (case v of
     PDict d \<Rightarrow> do {
       k \<leftarrow> map_of d ''key'';
       w \<leftarrow> map_of d ''weight'';
       srv_parse_variant (PDict [(''key'', k), (''weight'', w)]) }
   | _ \<Rightarrow> None)"

definition stored_list :: "json_text \<Rightarrow> pyval list option" where
  "stored_list t = (case t of JsonOf (PList xs) \<Rightarrow> Some xs | _ \<Rightarrow> None)"

definition derived_experiment_flag :: "pydantic \<Rightarrow> experiment_row \<Rightarrow> dict \<Rightarrow> dict option" where
  "derived_experiment_flag py e backing = do {
     vs \<leftarrow> stored_list (ex_variants_json e) \<bind> (\<lambda>xs. those (map variant_of_stored xs));
     rs \<leftarrow> stored_list (ex_targeting_rules_json e) \<bind> (\<lambda>xs. those (map parse_targeting_rule xs));
     key \<leftarrow> (case dget backing ''key'' of PStr k \<Rightarrow> Some k | _ \<Rightarrow> None);
     name \<leftarrow> (case dget backing ''name'' of PStr n \<Rightarrow> Some (if n = [] then key else n) | PNone \<Rightarrow> Some key | _ \<Rightarrow> None);
     updates \<leftarrow> build_flag_projection key name (ex_description e) (ex_status e) vs
                 (ex_default_variant e) (ex_traffic_percentage e) rs (ex_bucket_by e);
     let merged = dmerge backing updates;
     if validate_flag_variant_config py merged then Some merged else None }"

section \<open>The analysis contract\<close>

definition key_char :: "char \<Rightarrow> bool" where
  "key_char c = (let n = (of_char c :: nat) in is_digit c \<or> (65 \<le> n \<and> n \<le> 90) \<or> (97 \<le> n \<and> n \<le> 122))"

definition resource_key :: "string \<Rightarrow> bool" where
  "resource_key s = (case s of
     [] \<Rightarrow> False
   | c # cs \<Rightarrow> key_char c \<and> length cs \<le> 127
       \<and> list_all (\<lambda>x. key_char x \<or> x = CHR ''.'' \<or> x = CHR ''_'' \<or> x = CHR ''-'') cs)"

record experiment_variant =
  ev_key :: string
  ev_weight :: int
  ev_description :: string

definition parse_experiment_variant :: "pyval \<Rightarrow> experiment_variant option" where
  "parse_experiment_variant v = do {
     d \<leftarrow> dict_fields [''key'', ''weight'', ''description''] v;
     k \<leftarrow> map_of d ''key'' \<bind> str_field 1 MAX_IDENTIFIER_LENGTH;
     w \<leftarrow> map_of d ''weight'' \<bind> int_field 1 (Some MAX_VARIANT_WEIGHT);
     ds \<leftarrow> (case dget_default d ''description'' (PStr '''') of PStr s \<Rightarrow> Some s | _ \<Rightarrow> None);
     Some \<lparr>ev_key = k, ev_weight = w, ev_description = ds\<rparr> }"

record experiment_analysis =
  ea_key :: string
  ea_flag_key :: string
  ea_status :: string
  ea_control_variant :: string
  ea_variants :: "string list"
  ea_metric_event :: string
  ea_metric_direction :: metric_direction
  ea_enrollment_mode :: string
  ea_minimum_exposure_config_version :: int
  ea_statistical_plan :: statistical_plan
  ea_start_date :: int
  ea_end_date :: int
  ea_version :: int

definition validate_analysis_contract :: "experiment_analysis \<Rightarrow> bool" where
  "validate_analysis_contract a \<longleftrightarrow>
     resource_key (ea_key a) \<and> resource_key (ea_flag_key a)
     \<and> ea_status a \<in> {''scheduled'', ''running'', ''completed'', ''stopped''}
     \<and> 1 \<le> length (ea_control_variant a) \<and> length (ea_control_variant a) \<le> MAX_IDENTIFIER_LENGTH
     \<and> 2 \<le> length (ea_variants a) \<and> length (ea_variants a) \<le> MAX_VARIANTS
     \<and> 1 \<le> ea_minimum_exposure_config_version a \<and> 1 \<le> ea_version a
     \<and> distinct (ea_variants a) \<and> list_all (is_identifier \<circ> PStr) (ea_variants a)
     \<and> ea_control_variant a \<in> set (ea_variants a)
     \<and> ea_start_date a < ea_end_date a
     \<and> ea_end_date a - ea_start_date a \<le> MAX_EXPERIMENT_DURATION"

definition build_analysis_contract ::
    "float_library \<Rightarrow> pydantic \<Rightarrow> experiment_row \<Rightarrow> experiment_analysis option" where
  "build_analysis_contract lib py e =
     (if ex_status e = ''draft'' then None
      else do {
        vs \<leftarrow> stored_list (ex_variants_json e) \<bind> (\<lambda>xs. those (map parse_experiment_variant xs));
        m \<leftarrow> (case ex_primary_metric_json e of JsonOf (PDict d) \<Rightarrow> parse_experiment_metric (PDict d) | _ \<Rightarrow> None);
        rs \<leftarrow> stored_list (ex_targeting_rules_json e) \<bind> (\<lambda>xs. those (map parse_targeting_rule xs));
        p \<leftarrow> parse_statistical_plan py (ex_statistical_plan e);
        mv \<leftarrow> ex_minimum_exposure_config_version e;
        s \<leftarrow> ex_start_date e;
        t \<leftarrow> ex_end_date e;
        let a = \<lparr>ea_key = ex_key e, ea_flag_key = ex_flag_key e, ea_status = ex_status e,
          ea_control_variant = ex_default_variant e, ea_variants = map ev_key vs,
          ea_metric_event = em_event m, ea_metric_direction = em_direction m,
          ea_enrollment_mode = (if rs = [] then ''all'' else ''targeted''),
          ea_minimum_exposure_config_version = mv, ea_statistical_plan = p,
          ea_start_date = s, ea_end_date = t, ea_version = ex_version e\<rparr>;
        if validate_statistical_plan lib (ex_status e) (Some p) (Some m) (int (length vs))
           \<and> validate_analysis_contract a
        then Some a else None })"

end
