(* ===== verification/Outbox.thy ===== *)
theory Outbox
  imports OutboxStore Broadcaster
begin

text \<open>
  The outbox worker of the Config service, \<open>services/config/app/outbox.py\<close>: claiming,
  delivering, retrying and quarantining the rows of \<open>config_outbox\<close>, the operator's actions
  and the retention sweep. A statement is one step on the tables; \<open>now\<close> is the transaction
  time in microseconds. Delivery acts on the Redis keys, the event streams and the SSE
  broadcaster (\<open>RedisCache\<close>, \<open>Broadcaster\<close>); a Redis call may fail before or after it has had
  its effect (\<open>redis_fault\<close>). The worker is sequential, and other transactions commit between
  its statements: \<open>ob_step\<close> interleaves them, and a crash may strike between any two.
  \<open>FOR UPDATE SKIP LOCKED\<close> has no effect here, since the rows that other transactions lock are
  already processed or quarantined.
\<close>

section \<open>Constants\<close>

definition EVENT_STREAM_MAX_ENTRIES :: int where "EVENT_STREAM_MAX_ENTRIES = 1000000"
definition EVENT_STREAM_ALERT_ENTRIES :: int where "EVENT_STREAM_ALERT_ENTRIES = 750000"
definition EVENT_STREAM_ALERT_LOG_INTERVAL_SECONDS :: rat where
  "EVENT_STREAM_ALERT_LOG_INTERVAL_SECONDS = 30"
definition MAX_TRACKED_ALERT_STREAMS :: int where "MAX_TRACKED_ALERT_STREAMS = 10000"
definition CLAIM_TIMEOUT_SECONDS :: int where "CLAIM_TIMEOUT_SECONDS = 60"
definition MAX_BACKOFF_SECONDS :: int where "MAX_BACKOFF_SECONDS = 60"
definition MAX_DELIVERY_ATTEMPTS :: int where "MAX_DELIVERY_ATTEMPTS = 8"
definition FAILURE_EVIDENCE_MAX_CHARS :: nat where "FAILURE_EVIDENCE_MAX_CHARS = 2000"
definition CLEANUP_BATCH_SIZE :: nat where "CLEANUP_BATCH_SIZE = 500"
definition PROCESSED_RETENTION_SECONDS :: int where
  "PROCESSED_RETENTION_SECONDS = 7 * 24 * 60 * 60"
definition QUARANTINED_RETENTION_SECONDS :: int where
  "QUARANTINED_RETENTION_SECONDS = 90 * 24 * 60 * 60"
definition EXPOSURE_RECEIPT_RETENTION_SECONDS :: int where
  "EXPOSURE_RECEIPT_RETENTION_SECONDS = 400 * 24 * 60 * 60"
definition CLEANUP_READINESS_GRACE_SECONDS :: int where
  "CLEANUP_READINESS_GRACE_SECONDS = 60 * 60"

text \<open>\<open>interval '1 second'\<close> in microseconds.\<close>

definition seconds :: "int \<Rightarrow> int" where "seconds n = n * 1000000"

section \<open>Delivery errors\<close>

datatype delivery_error =
    PermanentDeliveryError string string
  | EventStreamOverloaded string int
  | TransientError string

text \<open>\<open>str(exc)\<close>; the exceptions other code raises carry their own text.\<close>

definition error_text :: "delivery_error \<Rightarrow> string" where
  "error_text e = (case e of
     PermanentDeliveryError code message \<Rightarrow> message
   | EventStreamOverloaded stream_key n \<Rightarrow>
       ''Event stream '' @ stream_key @ '' is at its durability capacity ('' @ dec (nat n) @ ''/''
         @ dec (nat EVENT_STREAM_MAX_ENTRIES) @ '')''
   | TransientError message \<Rightarrow> message)"

definition error_name :: "delivery_error \<Rightarrow> string" where
  "error_name e = (case e of
     PermanentDeliveryError _ _ \<Rightarrow> ''PermanentDeliveryError''
   | EventStreamOverloaded _ _ \<Rightarrow> ''EventStreamOverloaded''
   | TransientError _ \<Rightarrow> ''ConnectionError'')"

definition error_evidence :: "delivery_error \<Rightarrow> string" where
  "error_evidence e =
     (let message = strip (error_text e)
      in take FAILURE_EVIDENCE_MAX_CHARS (if message = [] then error_name e else message))"

section \<open>Row statements\<close>

definition pending_row :: "outbox_row \<Rightarrow> bool" where
  "pending_row r \<longleftrightarrow> ob_processed_at r = None \<and> ob_quarantined_at r = None"

definition is_config_kind :: "string \<Rightarrow> bool" where
  "is_config_kind k \<longleftrightarrow> k \<in> set CONFIG_KINDS"

text \<open>Two rows whose deliveries are ordered: both configuration changes or both exposures.\<close>

definition same_lane :: "string \<Rightarrow> string \<Rightarrow> bool" where
  "same_lane k l \<longleftrightarrow> (is_config_kind k \<and> is_config_kind l) \<or> (k = ''exposure'' \<and> l = ''exposure'')"

definition claim_free :: "int \<Rightarrow> outbox_row \<Rightarrow> bool" where
  "claim_free now r = (case ob_claimed_at r of
     None \<Rightarrow> True | Some t \<Rightarrow> t < now - seconds CLAIM_TIMEOUT_SECONDS)"

definition claimable :: "int \<Rightarrow> outbox_row list \<Rightarrow> outbox_row \<Rightarrow> bool" where
  "claimable now rows p \<longleftrightarrow> pending_row p \<and> ob_attempts p < MAX_DELIVERY_ATTEMPTS
     \<and> ob_available_at p \<le> now \<and> claim_free now p
     \<and> \<not> (\<exists>e \<in> set rows. ob_project_id e = ob_project_id p \<and> pending_row e \<and> ob_id e < ob_id p
            \<and> same_lane (ob_kind p) (ob_kind e))"

text \<open>\<open>ORDER BY available_at, id LIMIT 1\<close>.\<close>

fun first_due :: "outbox_row list \<Rightarrow> outbox_row option" where
  "first_due [] = None"
| "first_due (r # rs) = (case first_due rs of
     None \<Rightarrow> Some r
   | Some q \<Rightarrow> if ob_available_at q < ob_available_at r
                 \<or> (ob_available_at q = ob_available_at r \<and> ob_id q < ob_id r)
               then Some q else Some r)"

definition update_row ::
    "outbox_db \<Rightarrow> (outbox_row \<Rightarrow> bool) \<Rightarrow> (outbox_row \<Rightarrow> outbox_row) \<Rightarrow> outbox_db" where
  "update_row db P f = db\<lparr>db_outbox := map (\<lambda>r. if P r then f r else r) (db_outbox db)\<rparr>"

record outbox_claim =
  cl_id :: int
  cl_project_id :: string
  cl_kind :: string
  cl_payload :: raw_payload
  cl_attempts :: int

definition claim_next :: "outbox_db \<Rightarrow> int \<Rightarrow> outbox_claim option \<times> outbox_db" where
  "claim_next db now =
     (case first_due (filter (claimable now (db_outbox db)) (db_outbox db)) of
        None \<Rightarrow> (None, db)
      | Some r \<Rightarrow>
          (Some \<lparr>cl_id = ob_id r, cl_project_id = ob_project_id r, cl_kind = ob_kind r,
             cl_payload = ob_payload r, cl_attempts = ob_attempts r + 1\<rparr>,
           update_row db (\<lambda>q. ob_id q = ob_id r)
             (\<lambda>q. q\<lparr>ob_claimed_at := Some now, ob_attempts := ob_attempts q + 1\<rparr>)))"

definition mark_processed :: "outbox_db \<Rightarrow> int \<Rightarrow> int \<Rightarrow> outbox_db" where
  "mark_processed db now row_id =
     update_row db (\<lambda>r. ob_id r = row_id \<and> pending_row r)
       (\<lambda>r. r\<lparr>ob_processed_at := Some now, ob_claimed_at := None, ob_last_error := ''''\<rparr>)"

definition backoff_seconds :: "int \<Rightarrow> int" where
  "backoff_seconds attempts = min (2 ^ nat (max (attempts - 1) 0)) MAX_BACKOFF_SECONDS"

definition mark_failed :: "outbox_db \<Rightarrow> int \<Rightarrow> int \<Rightarrow> int \<Rightarrow> string \<Rightarrow> outbox_db" where
  "mark_failed db now row_id attempts error =
     update_row db
       (\<lambda>r. ob_id r = row_id \<and> pending_row r \<and> ob_attempts r < MAX_DELIVERY_ATTEMPTS)
       (\<lambda>r. r\<lparr>ob_claimed_at := None, ob_available_at := now + seconds (backoff_seconds attempts),
             ob_last_error := take FAILURE_EVIDENCE_MAX_CHARS error\<rparr>)"

definition mark_quarantined ::
    "outbox_db \<Rightarrow> int \<Rightarrow> int \<Rightarrow> string \<Rightarrow> string \<Rightarrow> string \<Rightarrow> outbox_db" where
  "mark_quarantined db now row_id failure_class failure_code error =
     update_row db (\<lambda>r. ob_id r = row_id \<and> pending_row r)
       (\<lambda>r. r\<lparr>ob_quarantined_at := Some now, ob_claimed_at := None,
             ob_failure_class := Some failure_class, ob_failure_code := Some failure_code,
             ob_last_error := take FAILURE_EVIDENCE_MAX_CHARS error\<rparr>)"

definition exhausted :: "int \<Rightarrow> outbox_row \<Rightarrow> bool" where
  "exhausted now r \<longleftrightarrow> pending_row r \<and> MAX_DELIVERY_ATTEMPTS \<le> ob_attempts r \<and> claim_free now r"

definition quarantine_exhausted :: "outbox_db \<Rightarrow> int \<Rightarrow> nat \<times> outbox_db" where
  "quarantine_exhausted db now =
     (length (filter (exhausted now) (db_outbox db)),
      update_row db (exhausted now)
        (\<lambda>r. r\<lparr>ob_quarantined_at := Some now, ob_claimed_at := None,
              ob_failure_class := Some ''attempts_exhausted'',
              ob_failure_code := Some ''delivery_attempts_exhausted'',
              ob_last_error := (if ob_last_error r = [] then ''Delivery attempt limit reached''
                                else ob_last_error r)\<rparr>))"

section \<open>Operator actions and retention\<close>

text \<open>The representation an operator sees: the payload decoded where it is JSON.\<close>

definition quarantine_entry :: "outbox_row \<Rightarrow> outbox_row" where
  "quarantine_entry r = (case ob_payload r of
     RawText (JsonOf v) \<Rightarrow> r\<lparr>ob_payload := RawValue v\<rparr> | _ \<Rightarrow> r)"

definition list_quarantined ::
    "outbox_db \<Rightarrow> string \<Rightarrow> nat \<Rightarrow> int option \<Rightarrow> outbox_row list \<times> int option" where
  "list_quarantined db project_id limit before_id =
     (let rows = take (limit + 1) (rev (sort_key ob_id (filter
            (\<lambda>r. ob_project_id r = project_id \<and> ob_quarantined_at r \<noteq> None
              \<and> (case before_id of None \<Rightarrow> True | Some b \<Rightarrow> ob_id r < b)) (db_outbox db))));
          has_more = limit < length rows;
          entries = map quarantine_entry (take limit rows)
      in (entries, if has_more \<and> entries \<noteq> [] then Some (ob_id (last entries)) else None))"

datatype resolve_error = UnsupportedAction | UnsafeQuarantineReplay string

definition quarantined_row :: "string \<Rightarrow> int \<Rightarrow> outbox_row \<Rightarrow> bool" where
  "quarantined_row project_id row_id r \<longleftrightarrow>
     ob_id r = row_id \<and> ob_project_id r = project_id \<and> ob_quarantined_at r \<noteq> None"

definition resolve_quarantined ::
    "(raw_payload \<Rightarrow> string) \<Rightarrow> outbox_db \<Rightarrow> int \<Rightarrow> string \<Rightarrow> int \<Rightarrow> string \<Rightarrow> string \<Rightarrow> string
     \<Rightarrow> (resolve_error, outbox_row option \<times> outbox_db) result" where
  "resolve_quarantined payload_sha256 db now project_id row_id action actor reason =
     (if action \<notin> {''replay'', ''discard''} then Inl UnsupportedAction
      else case find (quarantined_row project_id row_id) (db_outbox db) of
             None \<Rightarrow> Inr (None, db)
           | Some row \<Rightarrow>
               if action = ''replay'' \<and> ob_kind row \<noteq> ''exposure''
               then Inl (UnsafeQuarantineReplay (ob_kind row))
               else let db1 = db\<lparr>db_operator_log := db_operator_log db @
                          [\<lparr>ol_project_id = project_id, ol_outbox_id = row_id, ol_action = action,
                            ol_actor = actor, ol_reason = reason, ol_kind = ob_kind row,
                            ol_failure_class = ob_failure_class row,
                            ol_failure_code = ob_failure_code row,
                            ol_payload_sha256 = payload_sha256 (ob_payload row)\<rparr>]\<rparr>;
                        db2 = (if action = ''replay''
                               then update_row db1 (quarantined_row project_id row_id)
                                 (\<lambda>r. r\<lparr>ob_attempts := 0, ob_available_at := now,
                                   ob_claimed_at := None, ob_quarantined_at := None,
                                   ob_failure_class := None, ob_failure_code := None,
                                   ob_last_error := ''''\<rparr>)
                               else db1\<lparr>db_outbox :=
                                 filter (\<lambda>r. \<not> quarantined_row project_id row_id r) (db_outbox db1)\<rparr>)
                    in Inr (Some (quarantine_entry row), db2))"

definition older_than :: "int \<Rightarrow> int \<Rightarrow> int option \<Rightarrow> bool" where
  "older_than now retention t = (case t of None \<Rightarrow> False | Some v \<Rightarrow> v < now - seconds retention)"

text \<open>\<open>ORDER BY <time>, id LIMIT n\<close> of a retention statement, as the ids it selects.\<close>

definition oldest_ids :: "(outbox_row \<Rightarrow> int option) \<Rightarrow> int \<Rightarrow> int \<Rightarrow> outbox_row list \<Rightarrow> int list" where
  "oldest_ids time now retention rows =
     map ob_id (take CLEANUP_BATCH_SIZE
       (sort_key (\<lambda>r. case time r of None \<Rightarrow> 0 | Some t \<Rightarrow> t)
         (sort_key ob_id (filter (\<lambda>r. older_than now retention (time r)) rows))))"

definition delete_rows :: "outbox_db \<Rightarrow> int list \<Rightarrow> outbox_db" where
  "delete_rows db ids = db\<lparr>db_outbox := filter (\<lambda>r. ob_id r \<notin> set ids) (db_outbox db)\<rparr>"

definition receipt_expired :: "outbox_db \<Rightarrow> int \<Rightarrow> exposure_receipt \<Rightarrow> bool" where
  "receipt_expired db now receipt \<longleftrightarrow>
     er_last_seen_at receipt < now - seconds EXPOSURE_RECEIPT_RETENTION_SECONDS
     \<and> \<not> (\<exists>r \<in> set (db_outbox db). ob_project_id r = er_project_id receipt
            \<and> ob_kind r = ''exposure'' \<and> ob_dedup_key r = er_message_id receipt)"

text \<open>The receipts are ordered by age only; which of two equally old ones goes first is free.\<close>

definition cleanup_once :: "outbox_db \<Rightarrow> int \<Rightarrow> (nat \<times> nat \<times> nat) \<times> outbox_db" where
  "cleanup_once db now =
     (let processed = oldest_ids ob_processed_at now PROCESSED_RETENTION_SECONDS (db_outbox db);
          db1 = delete_rows db processed;
          quarantined = oldest_ids ob_quarantined_at now QUARANTINED_RETENTION_SECONDS (db_outbox db1);
          db2 = delete_rows db1 quarantined;
          receipts = take CLEANUP_BATCH_SIZE
            (sort_key er_last_seen_at (filter (receipt_expired db2 now) (db_receipts db2)));
          gone = set (map (\<lambda>r. (er_project_id r, er_message_id r)) receipts);
          db3 = db2\<lparr>db_receipts :=
            filter (\<lambda>r. (er_project_id r, er_message_id r) \<notin> gone) (db_receipts db2)\<rparr>
      in ((length processed, length quarantined, length receipts), db3))"

section \<open>Canonical payloads\<close>

type_synonym 'a delivery = "(delivery_error, 'a) result"

definition invalid_payload :: "string \<Rightarrow> 'a delivery" where
  "invalid_payload message = Inl (PermanentDeliveryError ''invalid_payload'' message)"

definition outbox_payload :: "raw_payload \<Rightarrow> dict delivery" where
  "outbox_payload raw = (case raw of
     RawText NotJson \<Rightarrow> invalid_payload ''Config outbox payload is not valid JSON''
   | RawText (JsonOf (PDict d)) \<Rightarrow> Inr d
   | RawValue (PDict d) \<Rightarrow> Inr d
   | _ \<Rightarrow> invalid_payload ''Config outbox payload must be an object'')"

definition exact_payload_keys :: "dict \<Rightarrow> string list \<Rightarrow> bool" where
  "exact_payload_keys payload expected \<longleftrightarrow> fst ` set payload = set expected"

text \<open>
  \<open>json.dumps(v, allow_nan=False, ensure_ascii=False, separators=(",", ":"))\<close>, where \<open>None\<close> is
  the \<open>ValueError\<close> of a non-finite float; \<open>float_repr\<close> is the shortest decimal of a float.
\<close>

definition hex_digit :: "nat \<Rightarrow> char" where
  "hex_digit n = (if n < 10 then char_of (48 + n) else char_of (87 + n))"

definition escape_char :: "char \<Rightarrow> string" where
  "escape_char c =
     (let n = (of_char c :: nat)
      in if n = 34 then [CHR 0x5C, CHR 0x22]
         else if n = 92 then [CHR 0x5C, CHR 0x5C]
         else if n = 10 then [CHR 0x5C, CHR ''n'']
         else if n = 13 then [CHR 0x5C, CHR ''r'']
         else if n = 9 then [CHR 0x5C, CHR ''t'']
         else if n = 12 then [CHR 0x5C, CHR ''f'']
         else if n = 8 then [CHR 0x5C, CHR ''b'']
         else if n < 32 then [CHR 0x5C, CHR ''u'', CHR ''0'', CHR ''0'', hex_digit (n div 16),
                              hex_digit (n mod 16)]
         else [c])"

definition json_string :: "string \<Rightarrow> string" where
  "json_string s = [CHR 0x22] @ concat (map escape_char s) @ [CHR 0x22]"

fun comma_join :: "string list \<Rightarrow> string" where
  "comma_join [] = []"
| "comma_join [s] = s"
| "comma_join (s # t # ss) = s @ '','' @ comma_join (t # ss)"

fun json_dumps :: "(rat \<Rightarrow> string) \<Rightarrow> pyval \<Rightarrow> string option"
  and json_items :: "(rat \<Rightarrow> string) \<Rightarrow> pyval list \<Rightarrow> string list option"
  and json_members :: "(rat \<Rightarrow> string) \<Rightarrow> dict \<Rightarrow> string list option" where
  "json_dumps fr PNone = Some ''null''"
| "json_dumps fr (PBool b) = Some (if b then ''true'' else ''false'')"
| "json_dumps fr (PInt i) = Some (if i < 0 then ''-'' @ dec (nat (- i)) else dec (nat i))"
| "json_dumps fr (PFloat f) = (case f of Fin r \<Rightarrow> Some (fr r) | _ \<Rightarrow> None)"
| "json_dumps fr (PStr s) = Some (json_string s)"
| "json_dumps fr (PList xs) =
     (case json_items fr xs of None \<Rightarrow> None | Some ss \<Rightarrow> Some (''['' @ comma_join ss @ '']''))"
| "json_dumps fr (PDict d) =
     (case json_members fr d of None \<Rightarrow> None | Some ss \<Rightarrow> Some (''{'' @ comma_join ss @ ''}''))"
| "json_items fr [] = Some []"
| "json_items fr (x # xs) =
     (case (json_dumps fr x, json_items fr xs) of (Some s, Some ss) \<Rightarrow> Some (s # ss) | _ \<Rightarrow> None)"
| "json_members fr [] = Some []"
| "json_members fr ((k, v) # d) =
     (case (json_dumps fr v, json_members fr d) of
        (Some s, Some ss) \<Rightarrow> Some ((json_string k @ '':'' @ s) # ss) | _ \<Rightarrow> None)"

definition outbox_project_version :: "dict \<Rightarrow> int delivery" where
  "outbox_project_version payload = (case dget payload ''project_version'' of
     PInt v \<Rightarrow> if v < 1 then Inl (PermanentDeliveryError ''invalid_project_version''
                      ''Config outbox payload has an invalid project_version'')
               else Inr v
   | _ \<Rightarrow> Inl (PermanentDeliveryError ''invalid_project_version''
            ''Config outbox payload has an invalid project_version''))"

definition config_delivery_payload ::
    "(rat \<Rightarrow> string) \<Rightarrow> raw_payload \<Rightarrow> string \<Rightarrow> (string \<times> int \<times> string) delivery" where
  "config_delivery_payload fr raw expected_event_type =
     (case outbox_payload raw of
        Inl e \<Rightarrow> Inl e
      | Inr payload \<Rightarrow>
          if \<not> exact_payload_keys payload [''event_type'', ''project_version'', ''data'']
          then invalid_payload ''Config outbox payload has noncanonical fields''
          else if dget payload ''event_type'' \<noteq> PStr expected_event_type
          then invalid_payload ''Config outbox payload has an invalid event_type''
          else if \<not> is_dict (dget payload ''data'')
          then invalid_payload ''Config outbox data must be an object''
          else (case json_dumps fr (dget payload ''data'') of
                  None \<Rightarrow> invalid_payload ''Config outbox data is not canonical JSON''
                | Some data_json \<Rightarrow>
                    (case outbox_project_version payload of
                       Inl e \<Rightarrow> Inl e
                     | Inr v \<Rightarrow> Inr (expected_event_type, v, data_json))))"

definition required_event_fields :: "string list" where
  "required_event_fields = [''event'', ''type'', ''timestamp'', ''server_timestamp'',
     ''message_id'', ''session_id'', ''context'', ''properties'']"

definition optional_event_fields :: "string list" where
  "optional_event_fields = [''user_id'', ''anonymous_id'']"

definition nonempty_str :: "pyval \<Rightarrow> bool" where
  "nonempty_str v = (case v of PStr s \<Rightarrow> s \<noteq> [] | _ \<Rightarrow> False)"

definition exposure_delivery_payload ::
    "(rat \<Rightarrow> string) \<Rightarrow> raw_payload \<Rightarrow> string \<Rightarrow> (string \<times> string) delivery" where
  "exposure_delivery_payload fr raw project_id =
     (case outbox_payload raw of
        Inl e \<Rightarrow> Inl e
      | Inr payload \<Rightarrow>
          if \<not> exact_payload_keys payload [''stream_key'', ''event'']
          then invalid_payload ''Config outbox payload has noncanonical fields''
          else if dget payload ''stream_key'' \<noteq> PStr (''events:raw:'' @ project_id)
          then invalid_payload ''Config exposure stream does not match its project''
          else (case dget payload ''event'' of
                  PDict event \<Rightarrow>
                    if \<not> (set required_event_fields \<subseteq> fst ` set event
                          \<and> fst ` set event \<subseteq> set (required_event_fields @ optional_event_fields))
                    then invalid_payload ''Config exposure event has noncanonical fields''
                    else if dget event ''event'' \<noteq> PStr ''$feature_flag_exposure''
                      \<or> dget event ''type'' \<noteq> PStr ''track''
                    then invalid_payload ''Config exposure event has an invalid type''
                    else (case find (\<lambda>field. \<not> nonempty_str (dget event field))
                                 [''timestamp'', ''server_timestamp'', ''message_id'', ''session_id''] of
                            Some field \<Rightarrow>
                              invalid_payload (''Config exposure event has an invalid '' @ field)
                          | None \<Rightarrow>
                              if \<not> is_dict (dget event ''context'') \<or> \<not> is_dict (dget event ''properties'')
                              then invalid_payload ''Config exposure context and properties must be objects''
                              else if \<not> (nonempty_str (dget event ''user_id'')
                                         \<or> nonempty_str (dget event ''anonymous_id''))
                              then invalid_payload ''Config exposure event requires an identity''
                              else (case json_dumps fr (PDict event) of
                                      None \<Rightarrow> invalid_payload ''Config exposure event is not canonical JSON''
                                    | Some event_json \<Rightarrow>
                                        Inr (''events:raw:'' @ project_id, event_json)))
                | _ \<Rightarrow> invalid_payload ''Config exposure event must be an object''))"

section \<open>Delivery\<close>

text \<open>
  What a delivery touches: the flag cache keys and the experiments entry of each project, the
  entries outstanding on each event stream, the broadcaster, and the log-throttling table.
\<close>

record delivery_world =
  dw_flags :: "string \<Rightarrow> flag_keys"
  dw_experiments :: "string \<Rightarrow> string option"
  dw_streams :: "string \<Rightarrow> string list"
  dw_sse :: sse_broadcaster
  dw_last_alert_log :: "((string \<times> string) \<times> rat) list"

datatype redis_fault = RedisOk | RedisDown string | ReplyLost string

record xadd_reply =
  xr_admitted :: int
  xr_entries :: int
  xr_ids :: nat

definition bounded_xadd_lua ::
    "int \<Rightarrow> string list \<Rightarrow> string list \<Rightarrow> xadd_reply \<times> string list" where
  "bounded_xadd_lua capacity entries stream =
     (let count = int (length entries); current = int (length stream)
      in if capacity < current + count
         then (\<lparr>xr_admitted = 0, xr_entries = current, xr_ids = 0\<rparr>, stream)
         else (\<lparr>xr_admitted = 1, xr_entries = current + count, xr_ids = length entries\<rparr>,
               stream @ entries))"

text \<open>\<open>min(_last_alert_log, key=_last_alert_log.get)\<close>: the first entry with the least time.\<close>

fun oldest_alert :: "((string \<times> string) \<times> rat) list \<Rightarrow> (string \<times> string) option" where
  "oldest_alert [] = None"
| "oldest_alert ((k, t) # rest) = (case oldest_alert rest of
     None \<Rightarrow> Some k
   | Some q \<Rightarrow> (case map_of rest q of
        Some u \<Rightarrow> if u < t then Some q else Some k
      | None \<Rightarrow> Some k))"

definition should_log_alert ::
    "((string \<times> string) \<times> rat) list \<Rightarrow> rat \<Rightarrow> string \<Rightarrow> string
     \<Rightarrow> bool \<times> ((string \<times> string) \<times> rat) list" where
  "should_log_alert logged now event stream_key =
     (let key = (event, stream_key); last_logged = map_of logged key
      in if (case last_logged of None \<Rightarrow> False
             | Some t \<Rightarrow> fl (now - t) < EVENT_STREAM_ALERT_LOG_INTERVAL_SECONDS)
         then (False, logged)
         else let trimmed =
                (if last_logged = None \<and> MAX_TRACKED_ALERT_STREAMS \<le> int (length logged)
                 then (case oldest_alert logged of None \<Rightarrow> logged | Some k \<Rightarrow> dpop logged k)
                 else logged)
              in (True, dset trimmed key now))"

definition broadcast_change ::
    "delivery_world \<Rightarrow> string \<Rightarrow> string \<Rightarrow> string \<Rightarrow> int \<Rightarrow> unit delivery \<times> delivery_world" where
  "broadcast_change w project_id event_type data_json v =
     (case broadcast (dw_sse w) project_id event_type data_json v of
        Inl message \<Rightarrow> (Inl (TransientError message), w)
      | Inr b \<Rightarrow> (Inr (), w\<lparr>dw_sse := b\<rparr>))"

text \<open>A Redis call with its effect \<open>f\<close>: it may fail before the effect, or lose the reply after it.\<close>

definition redis_call ::
    "redis_fault \<Rightarrow> (delivery_world \<Rightarrow> delivery_world) \<Rightarrow> delivery_world \<Rightarrow> unit delivery \<times> delivery_world" where
  "redis_call fault f w = (case fault of
     RedisOk \<Rightarrow> (Inr (), f w)
   | RedisDown message \<Rightarrow> (Inl (TransientError message), w)
   | ReplyLost message \<Rightarrow> (Inl (TransientError message), f w))"

definition deliver_exposure ::
    "redis_fault \<Rightarrow> rat \<Rightarrow> string \<Rightarrow> string \<Rightarrow> delivery_world \<Rightarrow> unit delivery \<times> delivery_world" where
  "deliver_exposure fault clock stream_key event_json w =
     (case bounded_xadd_lua EVENT_STREAM_MAX_ENTRIES [event_json] (dw_streams w stream_key) of
        (reply, stream) \<Rightarrow>
          (case redis_call fault (\<lambda>w. w\<lparr>dw_streams := (dw_streams w)(stream_key := stream)\<rparr>) w of
             (Inl e, w1) \<Rightarrow> (Inl e, w1)
           | (Inr _, w1) \<Rightarrow>
               if xr_admitted reply = 0
               then (Inl (EventStreamOverloaded stream_key (xr_entries reply)),
                     w1\<lparr>dw_last_alert_log := snd (should_log_alert (dw_last_alert_log w1) clock
                          ''event_stream_overloaded'' stream_key)\<rparr>)
               else if xr_admitted reply \<noteq> 1 \<or> xr_ids reply \<noteq> 1
               then (Inl (TransientError ''Redis bounded XADD returned an invalid response''), w1)
               else (Inr (),
                     if EVENT_STREAM_ALERT_ENTRIES \<le> xr_entries reply
                     then w1\<lparr>dw_last_alert_log := snd (should_log_alert (dw_last_alert_log w1) clock
                            ''event_stream_pressure'' stream_key)\<rparr>
                     else w1)))"

definition deliver ::
    "(rat \<Rightarrow> string) \<Rightarrow> redis_fault \<Rightarrow> rat \<Rightarrow> outbox_claim \<Rightarrow> delivery_world
     \<Rightarrow> unit delivery \<times> delivery_world" where
  "deliver fr fault clock row w =
     (let kind = cl_kind row; project_id = cl_project_id row
      in if kind = ''flag_change'' then
           (case config_delivery_payload fr (cl_payload row) ''flag_update'' of
              Inl e \<Rightarrow> (Inl e, w)
            | Inr (event_type, v, data_json) \<Rightarrow>
                (case rc_invalidate_flags (dw_flags w project_id) v of
                   Inl _ \<Rightarrow> (Inl (TransientError ''project_version must be a non-negative integer''), w)
                 | Inr keys \<Rightarrow>
                     (case redis_call fault (\<lambda>w. w\<lparr>dw_flags := (dw_flags w)(project_id := keys)\<rparr>) w of
                        (Inl e, w1) \<Rightarrow> (Inl e, w1)
                      | (Inr _, w1) \<Rightarrow> broadcast_change w1 project_id event_type data_json v)))
         else if kind = ''experiment_change'' then
           (case config_delivery_payload fr (cl_payload row) ''experiment_update'' of
              Inl e \<Rightarrow> (Inl e, w)
            | Inr (event_type, v, data_json) \<Rightarrow>
                (case redis_call fault
                        (\<lambda>w. w\<lparr>dw_experiments := (dw_experiments w)(project_id := None)\<rparr>) w of
                   (Inl e, w1) \<Rightarrow> (Inl e, w1)
                 | (Inr _, w1) \<Rightarrow> broadcast_change w1 project_id event_type data_json v))
         else if kind = ''exposure'' then
           (case exposure_delivery_payload fr (cl_payload row) project_id of
              Inl e \<Rightarrow> (Inl e, w)
            | Inr (stream_key, event_json) \<Rightarrow> deliver_exposure fault clock stream_key event_json w)
         else (Inl (PermanentDeliveryError ''unsupported_kind''
                 (''Unsupported Config outbox kind: '' @ kind)), w))"

section \<open>The worker\<close>

text \<open>How \<open>drain_once\<close> settles a row after its delivery.\<close>

definition settle :: "outbox_db \<Rightarrow> int \<Rightarrow> outbox_claim \<Rightarrow> unit delivery \<Rightarrow> outbox_db" where
  "settle db now row outcome = (case outcome of
     Inr _ \<Rightarrow> mark_processed db now (cl_id row)
   | Inl e \<Rightarrow>
       (case e of
          PermanentDeliveryError code _ \<Rightarrow>
            mark_quarantined db now (cl_id row) ''permanent'' code (error_evidence e)
        | _ \<Rightarrow>
            if MAX_DELIVERY_ATTEMPTS \<le> cl_attempts row
            then mark_quarantined db now (cl_id row) ''attempts_exhausted''
                   ''delivery_attempts_exhausted'' (error_evidence e)
            else mark_failed db now (cl_id row) (cl_attempts row) (error_evidence e)))"

definition drain_once ::
    "(rat \<Rightarrow> string) \<Rightarrow> redis_fault \<Rightarrow> rat \<Rightarrow> int \<Rightarrow> int \<Rightarrow> outbox_db \<times> delivery_world
     \<Rightarrow> bool \<times> outbox_db \<times> delivery_world" where
  "drain_once fr fault clock now later s =
     (case claim_next (fst s) now of
        (None, db1) \<Rightarrow> (False, db1, snd s)
      | (Some row, db1) \<Rightarrow>
          (case deliver fr fault clock row (snd s) of
             (outcome, w) \<Rightarrow> (True, settle db1 later row outcome, w)))"

record worker_timers =
  wt_next_cleanup_at :: rat
  wt_next_quarantine_sweep_at :: rat

text \<open>
  One iteration of \<open>run_worker\<close>: a sweep or a cleanup whose statement fails (\<open>None\<close> for its
  transaction time) leaves the tables as they were. The result tells whether a row was claimed,
  that is, whether the worker polls again without sleeping.
\<close>

definition worker_iteration ::
    "(rat \<Rightarrow> string) \<Rightarrow> redis_fault \<Rightarrow> rat \<Rightarrow> rat \<Rightarrow> rat \<Rightarrow> int option \<Rightarrow> int option \<Rightarrow> (int \<times> int) option
     \<Rightarrow> worker_timers \<times> outbox_db \<times> delivery_world \<Rightarrow> bool \<times> worker_timers \<times> outbox_db \<times> delivery_world" where
  "worker_iteration fr fault now cleanup_interval sweep_interval sweep_time cleanup_time drain_times s =
     (case s of (timers, db, w) \<Rightarrow>
      let (db1, timers1) =
            (if wt_next_quarantine_sweep_at timers \<le> now
             then (case sweep_time of None \<Rightarrow> db | Some t \<Rightarrow> snd (quarantine_exhausted db t),
                   timers\<lparr>wt_next_quarantine_sweep_at := fl (now + sweep_interval)\<rparr>)
             else (db, timers));
          (db2, timers2) =
            (if wt_next_cleanup_at timers1 \<le> now
             then (case cleanup_time of
                     None \<Rightarrow> (db1, timers1\<lparr>wt_next_cleanup_at := fl (now + cleanup_interval)\<rparr>)
                   | Some t \<Rightarrow>
                       (case cleanup_once db1 t of
                          ((processed, quarantined, receipts), db') \<Rightarrow>
                            (db', timers1\<lparr>wt_next_cleanup_at :=
                               (if CLEANUP_BATCH_SIZE \<le> processed \<or> CLEANUP_BATCH_SIZE \<le> quarantined
                                   \<or> CLEANUP_BATCH_SIZE \<le> receipts
                                then now else fl (now + cleanup_interval))\<rparr>)))
             else (db1, timers1));
          (claimed, db3, w3) =
            (case drain_times of
               None \<Rightarrow> (False, db2, w)
             | Some (t, u) \<Rightarrow> drain_once fr fault now t u (db2, w))
      in (claimed, timers2, db3, w3))"

section \<open>Readiness\<close>

record outbox_metrics =
  om_oldest_pending_age :: rat
  om_quarantined_threshold_exceeded :: bool
  om_oldest_processed_age :: rat
  om_oldest_quarantined_age :: rat
  om_oldest_receipt_age :: rat

definition readiness_reasons :: "rat \<Rightarrow> outbox_metrics \<Rightarrow> string list" where
  "readiness_reasons max_pending_age m =
     (if max_pending_age < om_oldest_pending_age m then [''oldest_pending_age_exceeded''] else [])
     @ (if om_quarantined_threshold_exceeded m then [''quarantined_rows_exceeded''] else [])
     @ (if of_int (PROCESSED_RETENTION_SECONDS + CLEANUP_READINESS_GRACE_SECONDS)
           < om_oldest_processed_age m then [''processed_cleanup_overdue''] else [])
     @ (if of_int (QUARANTINED_RETENTION_SECONDS + CLEANUP_READINESS_GRACE_SECONDS)
           < om_oldest_quarantined_age m then [''quarantined_cleanup_overdue''] else [])
     @ (if of_int (EXPOSURE_RECEIPT_RETENTION_SECONDS + CLEANUP_READINESS_GRACE_SECONDS)
           < om_oldest_receipt_age m then [''receipt_cleanup_overdue''] else [])"

definition readiness_status :: "rat \<Rightarrow> outbox_metrics \<Rightarrow> string" where
  "readiness_status max_pending_age m =
     (if readiness_reasons max_pending_age m = [] then ''ready'' else ''degraded'')"

end
