(* ===== verification/OutboxRun.thy ===== *)
theory OutboxRun
  imports Outbox
begin

text \<open>
  The outbox as a whole: commits of configuration changes and exposures, the statements of the
  worker, operator actions, retention and the other users of Redis and of the broadcaster,
  interleaved in any order, with crashes of the worker between any two of its statements. The
  invariant \<open>ob_inv\<close> gives the ordering and durability properties of
  \<open>services/config/app/outbox.py\<close>.
\<close>

section \<open>Interleaved runs\<close>

text \<open>
  The payload of a configuration change (\<open>_flag_delivery\<close>, \<open>_experiment_delivery\<close>) and the
  part of a mutation's transaction that reaches the outbox: one new project version, and one
  row per change with that version.
\<close>

definition change_payload :: "string \<Rightarrow> int \<Rightarrow> dict \<Rightarrow> pyval" where
  "change_payload kind v data =
     (if kind = ''flag_change''
      then PDict [(''event_type'', PStr ''flag_update''), (''project_version'', PInt v),
                  (''data'', PDict data)]
      else PDict [(''event_type'', PStr ''experiment_update''), (''data'', PDict data),
                  (''project_version'', PInt v)])"

type_synonym change = "int \<times> string \<times> string \<times> dict"

fun insert_changes ::
    "outbox_db \<Rightarrow> int \<Rightarrow> string \<Rightarrow> int \<Rightarrow> change list \<Rightarrow> (mutation_error, outbox_db) result" where
  "insert_changes db now project_id v [] = Inr db"
| "insert_changes db now project_id v ((row_id, kind, dedup_key, data) # changes) =
     (case insert_outbox db row_id now project_id kind dedup_key (change_payload kind v data) of
        Inl e \<Rightarrow> Inl e
      | Inr db' \<Rightarrow> insert_changes db' now project_id v changes)"

definition commit_changes ::
    "outbox_db \<Rightarrow> int \<Rightarrow> string \<Rightarrow> change list \<Rightarrow> (mutation_error, outbox_db) result" where
  "commit_changes db now project_id changes =
     (case next_project_version db project_id of
        (v, db1) \<Rightarrow> insert_changes db1 now project_id v changes)"

datatype worker_state =
    WIdle
  | WClaimed outbox_claim
  | WDelivered outbox_claim "unit delivery"

text \<open>
  \<open>os_sent\<close> records the successful deliveries in order. \<open>os_high\<close> is the highest identifier a
  configuration change of a project has got: the version row is locked from before the
  identifiers are drawn until the transaction commits, so they grow with the versions.
\<close>

record ob_system =
  os_db :: outbox_db
  os_world :: delivery_world
  os_worker :: worker_state
  os_sent :: "outbox_claim list"
  os_high :: "string \<Rightarrow> int"

datatype ob_cmd =
    CommitConfig int string "change list"
  | CommitExposure int int string string string dict
  | Claim int
  | Deliver redis_fault rat
  | Settle int
  | Crash
  | Sweep int
  | Cleanup int
  | Resolve int string int string string string
  | CacheOp string rc_op
  | SseOp sse_op
  | StreamAppend string "string list"
  | StreamTrim string nat

definition commit_enabled :: "ob_system \<Rightarrow> string \<Rightarrow> change list \<Rightarrow> bool" where
  "commit_enabled s p changes \<longleftrightarrow>
     list_all (\<lambda>(i, k, _, _). is_config_kind k \<and> os_high s p < i
       \<and> (\<forall>r \<in> set (db_outbox (os_db s)). ob_id r \<noteq> i)) changes
     \<and> sorted_wrt (<) (map fst changes)"

definition is_broadcast :: "sse_op \<Rightarrow> bool" where
  "is_broadcast x = (case x of SBroadcast _ _ _ _ \<Rightarrow> True | _ \<Rightarrow> False)"

fun ob_step :: "(rat \<Rightarrow> string) \<Rightarrow> (raw_payload \<Rightarrow> string) \<Rightarrow> ob_system \<Rightarrow> ob_cmd \<Rightarrow> ob_system" where
  "ob_step fr sha s (CommitConfig now p changes) =
     (if \<not> commit_enabled s p changes then s
      else case commit_changes (os_db s) now p changes of
             Inl _ \<Rightarrow> s
           | Inr db \<Rightarrow> s\<lparr>os_db := db,
               os_high := (os_high s)(p := Max (insert (os_high s p) (set (map fst changes))))\<rparr>)"
| "ob_step fr sha s (CommitExposure i now p m stream_key event) =
     (if \<exists>r \<in> set (db_outbox (os_db s)). ob_id r = i then s
      else case enqueue_exposure (os_db s) i now p m stream_key event of
             Inl _ \<Rightarrow> s | Inr db \<Rightarrow> s\<lparr>os_db := db\<rparr>)"
| "ob_step fr sha s (Claim now) = (case os_worker s of
     WIdle \<Rightarrow> (case claim_next (os_db s) now of
        (None, db) \<Rightarrow> s\<lparr>os_db := db\<rparr>
      | (Some c, db) \<Rightarrow> s\<lparr>os_db := db, os_worker := WClaimed c\<rparr>)
   | _ \<Rightarrow> s)"
| "ob_step fr sha s (Deliver fault clock) = (case os_worker s of
     WClaimed c \<Rightarrow> (case deliver fr fault clock c (os_world s) of
        (outcome, w) \<Rightarrow> s\<lparr>os_world := w, os_worker := WDelivered c outcome,
          os_sent := os_sent s @ (if outcome = Inr () then [c] else [])\<rparr>)
   | _ \<Rightarrow> s)"
| "ob_step fr sha s (Settle now) = (case os_worker s of
     WDelivered c outcome \<Rightarrow> s\<lparr>os_db := settle (os_db s) now c outcome, os_worker := WIdle\<rparr>
   | _ \<Rightarrow> s)"
| "ob_step fr sha s Crash = s\<lparr>os_worker := WIdle\<rparr>"
| "ob_step fr sha s (Sweep now) = s\<lparr>os_db := snd (quarantine_exhausted (os_db s) now)\<rparr>"
| "ob_step fr sha s (Cleanup now) = s\<lparr>os_db := snd (cleanup_once (os_db s) now)\<rparr>"
| "ob_step fr sha s (Resolve now p i action actor reason) =
     (case resolve_quarantined sha (os_db s) now p i action actor reason of
        Inl _ \<Rightarrow> s | Inr (_, db) \<Rightarrow> s\<lparr>os_db := db\<rparr>)"
| "ob_step fr sha s (CacheOp p x) =
     s\<lparr>os_world := (os_world s)\<lparr>dw_flags := (dw_flags (os_world s))(p := rc_step (dw_flags (os_world s) p) x)\<rparr>\<rparr>"
| "ob_step fr sha s (SseOp x) =
     (if is_broadcast x then s
      else s\<lparr>os_world := (os_world s)\<lparr>dw_sse := sse_step (dw_sse (os_world s)) x\<rparr>\<rparr>)"
| "ob_step fr sha s (StreamAppend k entries) =
     s\<lparr>os_world := (os_world s)\<lparr>dw_streams := (dw_streams (os_world s))
        (k := snd (bounded_xadd_lua EVENT_STREAM_MAX_ENTRIES entries (dw_streams (os_world s) k)))\<rparr>\<rparr>"
| "ob_step fr sha s (StreamTrim k n) =
     s\<lparr>os_world := (os_world s)\<lparr>dw_streams := (dw_streams (os_world s))
        (k := drop n (dw_streams (os_world s) k))\<rparr>\<rparr>"

definition ob_run ::
    "(rat \<Rightarrow> string) \<Rightarrow> (raw_payload \<Rightarrow> string) \<Rightarrow> ob_system \<Rightarrow> ob_cmd list \<Rightarrow> ob_system" where
  "ob_run fr sha s cmds = foldl (ob_step fr sha) s cmds"

definition ob_init :: "sse_settings \<Rightarrow> ob_system" where
  "ob_init settings = \<lparr>os_db = outbox_db_empty,
     os_world = \<lparr>dw_flags = (\<lambda>_. rc_empty), dw_experiments = (\<lambda>_. None), dw_streams = (\<lambda>_. []),
       dw_sse = sse_init settings, dw_last_alert_log = []\<rparr>,
     os_worker = WIdle, os_sent = [], os_high = (\<lambda>_. 0)\<rparr>"

section \<open>Vocabulary of the statements\<close>

definition payload_version :: "raw_payload \<Rightarrow> int" where
  "payload_version raw = (case outbox_payload raw of
     Inl _ \<Rightarrow> 0 | Inr d \<Rightarrow> (case dget d ''project_version'' of PInt v \<Rightarrow> v | _ \<Rightarrow> 0))"

definition config_claim :: "string \<Rightarrow> outbox_claim \<Rightarrow> bool" where
  "config_claim p c \<longleftrightarrow> cl_project_id c = p \<and> is_config_kind (cl_kind c)"

definition config_row :: "string \<Rightarrow> outbox_row \<Rightarrow> bool" where
  "config_row p r \<longleftrightarrow> ob_project_id r = p \<and> is_config_kind (ob_kind r)"

abbreviation claim_version :: "outbox_claim \<Rightarrow> int" where
  "claim_version c \<equiv> payload_version (cl_payload c)"

abbreviation row_version :: "outbox_row \<Rightarrow> int" where
  "row_version r \<equiv> payload_version (ob_payload r)"

text \<open>The project versions sent to the subscribers of a project, in order.\<close>

definition sent_versions :: "ob_system \<Rightarrow> string \<Rightarrow> int list" where
  "sent_versions s p = map claim_version (filter (config_claim p) (os_sent s))"

definition blank :: "string \<Rightarrow> bool" where
  "blank s \<longleftrightarrow> list_all (\<lambda>c. c = CHR '' '') s"

text \<open>The CHECK constraints of the table, with the bounds the worker keeps.\<close>

definition row_ok :: "outbox_row \<Rightarrow> bool" where
  "row_ok r \<longleftrightarrow> 0 \<le> ob_attempts r \<and> ob_attempts r \<le> MAX_DELIVERY_ATTEMPTS
     \<and> (ob_processed_at r = None \<or> ob_quarantined_at r = None)
     \<and> (if ob_quarantined_at r = None then ob_failure_class r = None \<and> ob_failure_code r = None
        else ob_failure_class r \<in> {Some ''permanent'', Some ''attempts_exhausted''}
          \<and> (\<exists>code. ob_failure_code r = Some code \<and> \<not> blank code) \<and> ob_last_error r \<noteq> [])
     \<and> length (ob_last_error r) \<le> FAILURE_EVIDENCE_MAX_CHARS"

text \<open>
  The invariant. Versions of a project's configuration rows grow with their identifiers; a
  version that has been sent, or is in flight, is a lower bound (\<open>floor_at\<close>) of what is still
  pending.
\<close>

definition floor_at :: "outbox_db \<Rightarrow> string \<Rightarrow> int \<Rightarrow> bool" where
  "floor_at db p v \<longleftrightarrow> v \<le> project_version_of db p
     \<and> (\<forall>r \<in> set (db_outbox db). config_row p r \<and> pending_row r \<longrightarrow> v \<le> row_version r)"

definition table_inv :: "outbox_db \<Rightarrow> (string \<Rightarrow> int) \<Rightarrow> bool" where
  "table_inv db high \<longleftrightarrow> distinct (map ob_id (db_outbox db))
     \<and> (\<forall>r \<in> set (db_outbox db). row_ok r)
     \<and> (\<forall>p. \<forall>r \<in> set (db_outbox db). config_row p r \<longrightarrow>
          row_version r \<le> project_version_of db p \<and> ob_id r \<le> high p)
     \<and> (\<forall>p. \<forall>r \<in> set (db_outbox db). \<forall>q \<in> set (db_outbox db).
          config_row p r \<and> config_row p q \<and> ob_id r < ob_id q \<longrightarrow> row_version r \<le> row_version q)"

definition claim_inv :: "ob_system \<Rightarrow> outbox_claim \<Rightarrow> bool" where
  "claim_inv s c \<longleftrightarrow> (\<forall>p. config_claim p c \<longrightarrow> floor_at (os_db s) p (claim_version c)
     \<and> (\<forall>v \<in> set (sent_versions s p). v \<le> claim_version c))"

definition worker_inv :: "ob_system \<Rightarrow> bool" where
  "worker_inv s = (case os_worker s of
     WIdle \<Rightarrow> True
   | WClaimed c \<Rightarrow> claim_inv s c
   | WDelivered c outcome \<Rightarrow> claim_inv s c
       \<and> (case outcome of Inr _ \<Rightarrow> c \<in> set (os_sent s)
          | Inl (PermanentDeliveryError code _) \<Rightarrow> \<not> blank code | _ \<Rightarrow> True))"

definition sent_inv :: "ob_system \<Rightarrow> bool" where
  "sent_inv s \<longleftrightarrow>
     (\<forall>p. sorted (sent_versions s p) \<and> (\<forall>v \<in> set (sent_versions s p). floor_at (os_db s) p v))
     \<and> (\<forall>r \<in> set (db_outbox (os_db s)). ob_processed_at r \<noteq> None \<longrightarrow> ob_id r \<in> cl_id ` set (os_sent s))"

definition world_inv :: "ob_system \<Rightarrow> bool" where
  "world_inv s \<longleftrightarrow>
     (\<forall>k. int (length (dw_streams (os_world s) k)) \<le> EVENT_STREAM_MAX_ENTRIES)
     \<and> (\<forall>(i, sub) \<in> set (b_connections (dw_sse (os_world s))).
          subseq (map pe_project_version (sub_queue sub)) (sent_versions s (sub_project_id sub)))"

definition ob_inv :: "ob_system \<Rightarrow> bool" where
  "ob_inv s \<longleftrightarrow> table_inv (os_db s) (os_high s) \<and> sent_inv s \<and> worker_inv s \<and> world_inv s"

section \<open>Lemmas: row statements\<close>

text \<open>The contract of every UPDATE of the worker and the operator.\<close>

locale row_update =
  fixes P :: "outbox_row \<Rightarrow> bool" and f :: "outbox_row \<Rightarrow> outbox_row"
  assumes identity: "P r \<Longrightarrow> ob_id (f r) = ob_id r \<and> ob_project_id (f r) = ob_project_id r
      \<and> ob_kind (f r) = ob_kind r \<and> ob_payload (f r) = ob_payload r"
    and no_revival: "P r \<Longrightarrow> pending_row (f r) \<Longrightarrow> is_config_kind (ob_kind r) \<Longrightarrow> pending_row r"
    and keeps_ok: "P r \<Longrightarrow> row_ok r \<Longrightarrow> row_ok (f r)"
begin

lemma version_of [simp]: "project_version_of (update_row db P f) p = project_version_of db p"
  by (simp add: update_row_def project_version_of_def)

lemma row_origin:
  assumes "r' \<in> set (db_outbox (update_row db P f))"
  obtains r where "r \<in> set (db_outbox db)" "r' = (if P r then f r else r)" "ob_id r' = ob_id r"
    "config_row p r' = config_row p r" "row_version r' = row_version r"
proof -
  from assms obtain r where r: "r \<in> set (db_outbox db)" "r' = (if P r then f r else r)"
    by (auto simp: update_row_def)
  then have "ob_id r' = ob_id r" "config_row p r' = config_row p r" "row_version r' = row_version r"
    using identity [of r] by (auto simp: config_row_def)
  with r show thesis by (rule that)
qed

lemma floor_kept:
  assumes "floor_at db p v"
  shows "floor_at (update_row db P f) p v"
  unfolding floor_at_def
proof (intro conjI ballI impI)
  show "v \<le> project_version_of (update_row db P f) p" using assms by (simp add: floor_at_def)
  fix r' assume r': "r' \<in> set (db_outbox (update_row db P f))" "config_row p r' \<and> pending_row r'"
  from r'(1) obtain r where r: "r \<in> set (db_outbox db)" "r' = (if P r then f r else r)"
    "ob_id r' = ob_id r" "config_row p r' = config_row p r" "row_version r' = row_version r"
    by (rule row_origin)
  then have "pending_row r"
    using r' no_revival [of r] by (auto simp: config_row_def split: if_splits)
  with r r' assms show "v \<le> row_version r'" by (simp add: floor_at_def)
qed

lemma ids_kept: "map ob_id (db_outbox (update_row db P f)) = map ob_id (db_outbox db)"
  using identity by (simp add: update_row_def)

lemma rows_ok: "\<forall>r \<in> set (db_outbox db). row_ok r \<Longrightarrow> \<forall>r \<in> set (db_outbox (update_row db P f)). row_ok r"
  using keeps_ok by (auto simp: update_row_def)

lemma table_kept:
  assumes "table_inv db high"
  shows "table_inv (update_row db P f) high"
  unfolding table_inv_def
proof (intro conjI allI)
  show "distinct (map ob_id (db_outbox (update_row db P f)))"
    using assms by (simp add: ids_kept table_inv_def)
  show "\<forall>r \<in> set (db_outbox (update_row db P f)). row_ok r"
    using assms rows_ok unfolding table_inv_def by blast
next
  fix p
  show "\<forall>r \<in> set (db_outbox (update_row db P f)). config_row p r \<longrightarrow>
      row_version r \<le> project_version_of (update_row db P f) p \<and> ob_id r \<le> high p"
  proof (intro ballI impI)
    fix r assume r: "r \<in> set (db_outbox (update_row db P f))" and c: "config_row p r"
    from r obtain r0 where "r0 \<in> set (db_outbox db)" "r = (if P r0 then f r0 else r0)"
      "ob_id r = ob_id r0" "config_row p r = config_row p r0" "row_version r = row_version r0"
      by (rule row_origin)
    then show "row_version r \<le> project_version_of (update_row db P f) p \<and> ob_id r \<le> high p"
      using assms c by (simp add: table_inv_def)
  qed
next
  fix p
  show "\<forall>r \<in> set (db_outbox (update_row db P f)). \<forall>q \<in> set (db_outbox (update_row db P f)).
     config_row p r \<and> config_row p q \<and> ob_id r < ob_id q \<longrightarrow> row_version r \<le> row_version q"
  proof (intro ballI impI)
    fix r q
    assume r: "r \<in> set (db_outbox (update_row db P f))" and q: "q \<in> set (db_outbox (update_row db P f))"
      and h: "config_row p r \<and> config_row p q \<and> ob_id r < ob_id q"
    from r obtain r0 where r0: "r0 \<in> set (db_outbox db)" "r = (if P r0 then f r0 else r0)"
      "ob_id r = ob_id r0" "config_row p r = config_row p r0" "row_version r = row_version r0"
      by (rule row_origin)
    from q obtain q0 where q0: "q0 \<in> set (db_outbox db)" "q = (if P q0 then f q0 else q0)"
      "ob_id q = ob_id q0" "config_row p q = config_row p q0" "row_version q = row_version q0"
      by (rule row_origin)
    from assms have "\<forall>r \<in> set (db_outbox db). \<forall>q \<in> set (db_outbox db).
        config_row p r \<and> config_row p q \<and> ob_id r < ob_id q \<longrightarrow> row_version r \<le> row_version q"
      unfolding table_inv_def by blast
    with r0 q0 h show "row_version r \<le> row_version q" by simp
  qed
qed

end

text \<open>Deletions keep the same facts.\<close>

lemma floor_filter:
  "floor_at db p v \<Longrightarrow> floor_at (db\<lparr>db_outbox := filter Q (db_outbox db)\<rparr>) p v"
  by (auto simp: floor_at_def project_version_of_def)

lemma table_filter:
  assumes "table_inv db high"
  shows "table_inv (db\<lparr>db_outbox := filter Q (db_outbox db)\<rparr>) high"
  using assms unfolding table_inv_def project_version_of_def
  by (auto intro: distinct_map_filter)

lemma strip_evidence: "error_evidence e \<noteq> [] \<and> length (error_evidence e) \<le> FAILURE_EVIDENCE_MAX_CHARS"
  by (auto simp: error_evidence_def Let_def FAILURE_EVIDENCE_MAX_CHARS_def error_name_def
      split: delivery_error.splits)

lemmas row_defs = row_ok_def pending_row_def MAX_DELIVERY_ATTEMPTS_def FAILURE_EVIDENCE_MAX_CHARS_def

interpretation claimed: row_update
  "\<lambda>q. ob_id q = i \<and> ob_attempts q < MAX_DELIVERY_ATTEMPTS"
  "\<lambda>q. q\<lparr>ob_claimed_at := Some now, ob_attempts := ob_attempts q + 1\<rparr>" for i now
  by unfold_locales (auto simp: row_defs split: if_splits)

interpretation processed: row_update "\<lambda>r. ob_id r = i \<and> pending_row r"
  "\<lambda>r. r\<lparr>ob_processed_at := Some now, ob_claimed_at := None, ob_last_error := ''''\<rparr>" for i now
  by unfold_locales (auto simp: row_defs split: if_splits)

interpretation failed: row_update
  "\<lambda>r. ob_id r = i \<and> pending_row r \<and> ob_attempts r < MAX_DELIVERY_ATTEMPTS"
  "\<lambda>r. r\<lparr>ob_claimed_at := None, ob_available_at := t, ob_last_error := take FAILURE_EVIDENCE_MAX_CHARS e\<rparr>"
  for i t e
  by unfold_locales (auto simp: row_defs split: if_splits)

interpretation swept: row_update "exhausted now"
  "\<lambda>r. r\<lparr>ob_quarantined_at := Some now, ob_claimed_at := None,
              ob_failure_class := Some ''attempts_exhausted'',
              ob_failure_code := Some ''delivery_attempts_exhausted'',
              ob_last_error := (if ob_last_error r = [] then ''Delivery attempt limit reached''
                                else ob_last_error r)\<rparr>" for now
  by unfold_locales (auto simp: exhausted_def row_defs blank_def split: if_splits)

lemma quarantined_update:
  assumes "cls \<in> {''permanent'', ''attempts_exhausted''}" "\<not> blank code" "e \<noteq> []"
  shows "row_update (\<lambda>r. ob_id r = i \<and> pending_row r)
    (\<lambda>r. r\<lparr>ob_quarantined_at := Some now, ob_claimed_at := None,
             ob_failure_class := Some cls, ob_failure_code := Some code,
             ob_last_error := take FAILURE_EVIDENCE_MAX_CHARS e\<rparr>)"
  using assms by unfold_locales (auto simp: row_defs split: if_splits)

interpretation replayed: row_update "\<lambda>r. quarantined_row p i r \<and> ob_kind r = ''exposure''"
  "\<lambda>r. r\<lparr>ob_attempts := 0, ob_available_at := now, ob_claimed_at := None, ob_quarantined_at := None,
        ob_failure_class := None, ob_failure_code := None, ob_last_error := ''''\<rparr>" for p i now
  by unfold_locales (auto simp: quarantined_row_def is_config_kind_def CONFIG_KINDS_def row_defs)

lemma update_row_cong:
  "(\<And>r. r \<in> set (db_outbox db) \<Longrightarrow> P r = Q r) \<Longrightarrow> update_row db P f = update_row db Q f"
  by (simp add: update_row_def)

lemma same_id_same_row:
  "table_inv db high \<Longrightarrow> r \<in> set (db_outbox db) \<Longrightarrow> q \<in> set (db_outbox db) \<Longrightarrow> ob_id q = ob_id r \<Longrightarrow> q = r"
  by (simp add: table_inv_def distinct_map inj_on_def)

lemma first_due_in: "first_due rs = Some r \<Longrightarrow> r \<in> set rs"
  by (induction rs arbitrary: r) (auto split: option.splits if_splits)


lemma table_versions:
  "table_inv db high \<Longrightarrow> r \<in> set (db_outbox db) \<Longrightarrow> q \<in> set (db_outbox db) \<Longrightarrow> config_row p r
   \<Longrightarrow> config_row p q \<Longrightarrow> ob_id r < ob_id q \<Longrightarrow> row_version r \<le> row_version q"
  unfolding table_inv_def by blast

lemma table_version_bound:
  "table_inv db high \<Longrightarrow> r \<in> set (db_outbox db) \<Longrightarrow> config_row p r
   \<Longrightarrow> row_version r \<le> project_version_of db p \<and> ob_id r \<le> high p"
  unfolding table_inv_def by blast

text \<open>What a successful claim tells: the row is unchanged but for its claim, and it heads its lane.\<close>

lemma claim_nextD:
  assumes "claim_next db now = (Some c, db')" "table_inv db high"
  obtains r where "r \<in> set (db_outbox db)" "claimable now (db_outbox db) r"
    "c = \<lparr>cl_id = ob_id r, cl_project_id = ob_project_id r, cl_kind = ob_kind r,
             cl_payload = ob_payload r, cl_attempts = ob_attempts r + 1\<rparr>"
    "db' = update_row db (\<lambda>q. ob_id q = ob_id r \<and> ob_attempts q < MAX_DELIVERY_ATTEMPTS)
             (\<lambda>q. q\<lparr>ob_claimed_at := Some now, ob_attempts := ob_attempts q + 1\<rparr>)"
proof -
  from assms(1) obtain r where f: "first_due (filter (claimable now (db_outbox db)) (db_outbox db)) = Some r"
    and c: "c = \<lparr>cl_id = ob_id r, cl_project_id = ob_project_id r, cl_kind = ob_kind r,
             cl_payload = ob_payload r, cl_attempts = ob_attempts r + 1\<rparr>"
    and d: "db' = update_row db (\<lambda>q. ob_id q = ob_id r)
             (\<lambda>q. q\<lparr>ob_claimed_at := Some now, ob_attempts := ob_attempts q + 1\<rparr>)"
    by (auto simp: claim_next_def split: option.splits)
  from first_due_in [OF f] have r: "r \<in> set (db_outbox db)" "claimable now (db_outbox db) r" by auto
  have "ob_id q = ob_id r \<longleftrightarrow> ob_id q = ob_id r \<and> ob_attempts q < MAX_DELIVERY_ATTEMPTS"
    if "q \<in> set (db_outbox db)" for q
    using same_id_same_row [OF assms(2) r(1) that] r(2) by (auto simp: claimable_def)
  then have "update_row db (\<lambda>q. ob_id q = ob_id r) f
      = update_row db (\<lambda>q. ob_id q = ob_id r \<and> ob_attempts q < MAX_DELIVERY_ATTEMPTS) f" for f
    by (rule update_row_cong)
  with d show thesis using that [OF r c] by simp
qed

section \<open>Lemmas: the invariant\<close>

lemma processed_update:
  assumes "\<forall>r \<in> set (db_outbox db). ob_processed_at r \<noteq> None \<longrightarrow> ob_id r \<in> S"
    and "\<And>r. P r \<Longrightarrow> ob_id (f r) = ob_id r \<and> (ob_processed_at (f r) = ob_processed_at r \<or> ob_id r \<in> S)"
  shows "\<forall>r \<in> set (db_outbox (update_row db P f)). ob_processed_at r \<noteq> None \<longrightarrow> ob_id r \<in> S"
proof
  fix r' assume "r' \<in> set (db_outbox (update_row db P f))"
  then obtain r where "r \<in> set (db_outbox db)" "r' = (if P r then f r else r)"
    by (auto simp: update_row_def)
  with assms(1) assms(2) [of r] show "ob_processed_at r' \<noteq> None \<longrightarrow> ob_id r' \<in> S" by auto
qed

text \<open>A step on the tables that keeps the floors and records no unsent row as processed.\<close>

lemma ob_inv_db:
  assumes i: "ob_inv s" and t: "table_inv db' high'"
    and f: "\<And>p v. floor_at (os_db s) p v \<Longrightarrow> floor_at db' p v"
    and d: "\<forall>r \<in> set (db_outbox db'). ob_processed_at r \<noteq> None \<longrightarrow> ob_id r \<in> cl_id ` set (os_sent s)"
    and w: "worker' = os_worker s \<or> worker' = WIdle"
  shows "ob_inv (s\<lparr>os_db := db', os_high := high', os_worker := worker'\<rparr>)"
proof -
  let ?s = "s\<lparr>os_db := db', os_high := high', os_worker := worker'\<rparr>"
  have sv: "sent_versions ?s = sent_versions s" by (simp add: sent_versions_def fun_eq_iff)
  have c: "claim_inv s c \<Longrightarrow> claim_inv ?s c" for c using f by (simp add: claim_inv_def sv)
  have "sent_inv ?s" using i f d by (simp add: ob_inv_def sent_inv_def sv)
  moreover have "worker_inv ?s"
    using i w c by (auto simp: ob_inv_def worker_inv_def split: worker_state.splits sum.splits delivery_error.splits)
  moreover have "world_inv ?s" using i by (simp add: ob_inv_def world_inv_def sv)
  ultimately show ?thesis using t by (simp add: ob_inv_def)
qed

lemma inv_claim:
  assumes i: "ob_inv s" and idle: "os_worker s = WIdle" and c: "claim_next (os_db s) now = (Some c, db')"
  shows "ob_inv (s\<lparr>os_db := db', os_worker := WClaimed c\<rparr>)"
proof -
  have t: "table_inv (os_db s) (os_high s)" using i by (simp add: ob_inv_def)
  from c t obtain r where r: "r \<in> set (db_outbox (os_db s))" "claimable now (db_outbox (os_db s)) r"
    "c = \<lparr>cl_id = ob_id r, cl_project_id = ob_project_id r, cl_kind = ob_kind r,
             cl_payload = ob_payload r, cl_attempts = ob_attempts r + 1\<rparr>"
    and db': "db' = update_row (os_db s) (\<lambda>q. ob_id q = ob_id r \<and> ob_attempts q < MAX_DELIVERY_ATTEMPTS)
             (\<lambda>q. q\<lparr>ob_claimed_at := Some now, ob_attempts := ob_attempts q + 1\<rparr>)"
    by (rule claim_nextD)
  let ?s1 = "s\<lparr>os_db := db', os_high := os_high s, os_worker := WIdle\<rparr>"
  have s1: "ob_inv ?s1"
  proof (rule ob_inv_db [OF i])
    show "table_inv db' (os_high s)" unfolding db' by (rule claimed.table_kept [OF t])
    show "floor_at db' p v" if "floor_at (os_db s) p v" for p v
      unfolding db' by (rule claimed.floor_kept [OF that])
    show "\<forall>r \<in> set (db_outbox db'). ob_processed_at r \<noteq> None \<longrightarrow> ob_id r \<in> cl_id ` set (os_sent s)"
      unfolding db'
    proof (rule processed_update)
      show "\<forall>r \<in> set (db_outbox (os_db s)). ob_processed_at r \<noteq> None \<longrightarrow> ob_id r \<in> cl_id ` set (os_sent s)"
        using i by (simp add: ob_inv_def sent_inv_def)
    qed simp
  qed simp
  have "floor_at db' p (claim_version c) \<and> (\<forall>v \<in> set (sent_versions s p). v \<le> claim_version c)"
    if p: "config_claim p c" for p
  proof
    have rp: "config_row p r" "pending_row r"
      using p r by (auto simp: config_claim_def config_row_def claimable_def)
    have "row_version r \<le> row_version q"
      if q: "q \<in> set (db_outbox (os_db s))" "config_row p q" "pending_row q" for q
    proof (cases "ob_id r < ob_id q")
      case True
      show ?thesis by (rule table_versions [OF t r(1) q(1) rp(1) q(2) True])
    next
      case False
      have "\<not> ob_id q < ob_id r"
        using r(2) q rp by (auto simp: claimable_def config_row_def same_lane_def)
      with False have "ob_id q = ob_id r" by simp
      then have "q = r" by (rule same_id_same_row [OF t r(1) q(1)])
      then show ?thesis by simp
    qed
    then have "floor_at (os_db s) p (claim_version c)"
      using table_version_bound [OF t r(1) rp(1)] r(3) by (simp add: floor_at_def)
    then show "floor_at db' p (claim_version c)" unfolding db' by (rule claimed.floor_kept)
    show "\<forall>v \<in> set (sent_versions s p). v \<le> claim_version c"
    proof
      fix v assume "v \<in> set (sent_versions s p)"
      then have "floor_at (os_db s) p v" using i by (simp add: ob_inv_def sent_inv_def)
      with r(1,3) rp show "v \<le> claim_version c" by (simp add: floor_at_def)
    qed
  qed
  then have "claim_inv (s\<lparr>os_db := db', os_worker := WClaimed c\<rparr>) c"
    by (simp add: claim_inv_def sent_versions_def)
  with s1 show ?thesis
    by (simp add: ob_inv_def worker_inv_def sent_inv_def world_inv_def sent_versions_def)
qed

lemma config_delivery_ok:
  "config_delivery_payload fr raw t = Inr (u, v, d) \<Longrightarrow> v = payload_version raw \<and> 1 \<le> v"
  by (auto simp: config_delivery_payload_def payload_version_def outbox_project_version_def
      invalid_payload_def split: sum.splits if_splits option.splits pyval.splits)

lemma blank_codes [simp]:
  "\<not> blank ''invalid_payload''" "\<not> blank ''invalid_project_version''" "\<not> blank ''unsupported_kind''"
  "\<not> blank ''delivery_attempts_exhausted''"
  by (simp_all add: blank_def)

definition permanent_ok :: "delivery_error \<Rightarrow> bool" where
  "permanent_ok e = (case e of PermanentDeliveryError code _ \<Rightarrow> \<not> blank code | _ \<Rightarrow> True)"

lemma outbox_payload_error: "outbox_payload raw = Inl e \<Longrightarrow> permanent_ok e"
  by (auto simp: outbox_payload_def invalid_payload_def permanent_ok_def
      split: raw_payload.splits json_text.splits pyval.splits)

lemma config_delivery_error: "config_delivery_payload fr raw t = Inl e \<Longrightarrow> permanent_ok e"
  by (auto simp: config_delivery_payload_def outbox_project_version_def invalid_payload_def
      permanent_ok_def dest: outbox_payload_error split: sum.splits if_splits option.splits pyval.splits)

lemma exposure_delivery_error: "exposure_delivery_payload fr raw p = Inl e \<Longrightarrow> permanent_ok e"
  by (auto simp: exposure_delivery_payload_def invalid_payload_def permanent_ok_def
      dest: outbox_payload_error split: sum.splits if_splits option.splits pyval.splits)

text \<open>One delivery: what it may do to the broadcaster and to the streams.\<close>

definition delivery_effect ::
    "outbox_claim \<Rightarrow> delivery_world \<Rightarrow> unit delivery \<Rightarrow> delivery_world \<Rightarrow> bool" where
  "delivery_effect c w outcome w' \<longleftrightarrow>
     (\<forall>e. outcome = Inl e \<longrightarrow> permanent_ok e)
     \<and> ((\<forall>k. int (length (dw_streams w k)) \<le> EVENT_STREAM_MAX_ENTRIES) \<longrightarrow>
         (\<forall>k. int (length (dw_streams w' k)) \<le> EVENT_STREAM_MAX_ENTRIES))
     \<and> (if outcome = Inr () \<and> is_config_kind (cl_kind c)
        then \<exists>t d. broadcast (dw_sse w) (cl_project_id c) t d (claim_version c) = Inr (dw_sse w')
        else dw_sse w' = dw_sse w)"

lemma redis_call_cases:
  assumes "redis_call fault f w = (x, w')"
  obtains "x = Inr ()" "w' = f w" | m where "x = Inl (TransientError m)" "w' = w \<or> w' = f w"
  using assms by (auto simp: redis_call_def split: redis_fault.splits)

lemma broadcast_change_cases:
  assumes "broadcast_change w p t d v = (x, w')" "1 \<le> v"
  shows "x = Inr () \<and> broadcast (dw_sse w) p t d v = Inr (dw_sse w') \<and> dw_streams w' = dw_streams w"
  using assms by (auto simp: broadcast_change_def broadcast_def Let_def split: sum.splits prod.splits)

lemma deliver_exposure_effect:
  assumes "deliver_exposure fault clock k j w = (x, w')" "\<not> is_config_kind (cl_kind c)"
  shows "delivery_effect c w x w'"
  using assms
  by (auto simp: deliver_exposure_def delivery_effect_def bounded_xadd_lua_def Let_def permanent_ok_def
      redis_call_def split: redis_fault.splits if_splits)

lemma deliver_effect:
  assumes "deliver fr fault clock c w = (x, w')"
  shows "delivery_effect c w x w'"
proof -
  have permanent: "delivery_effect c w1 (Inl e) w1" if "permanent_ok e" for e w1
    using that by (simp add: delivery_effect_def)
  have failed: "delivery_effect c w (Inl (TransientError m)) w1"
    if "dw_sse w1 = dw_sse w" "dw_streams w1 = dw_streams w" for m w1
    using that by (simp add: delivery_effect_def permanent_ok_def)
  have sent: "delivery_effect c w x w'"
    if "broadcast_change w1 (cl_project_id c) t d v = (x, w')" "dw_sse w1 = dw_sse w"
      "dw_streams w1 = dw_streams w" "v = claim_version c" "1 \<le> v" "is_config_kind (cl_kind c)" for w1 t d v
    using broadcast_change_cases [OF that(1,5)] that(2-6) by (auto simp: delivery_effect_def)
  consider "cl_kind c = ''flag_change''" | "cl_kind c = ''experiment_change''" | "cl_kind c = ''exposure''"
    | "cl_kind c \<notin> {''flag_change'', ''experiment_change'', ''exposure''}" by blast
  then show ?thesis
  proof cases
    case 1
    then have k: "is_config_kind (cl_kind c)" by (simp add: is_config_kind_def CONFIG_KINDS_def)
    show ?thesis
    proof (cases "config_delivery_payload fr (cl_payload c) ''flag_update''")
      case (Inl e)
      with assms 1 permanent [OF config_delivery_error [OF Inl]] show ?thesis
        by (simp add: deliver_def Let_def)
    next
      case (Inr y)
      obtain t v d where y: "y = (t, v, d)" by (cases y)
      with Inr have v: "v = claim_version c" "1 \<le> v" using config_delivery_ok by blast+
      from v obtain keys where "rc_invalidate_flags (dw_flags w (cl_project_id c)) v = Inr keys"
        by (simp add: rc_invalidate_flags_def)
      with assms 1 Inr y show ?thesis
        by (auto simp: deliver_def Let_def split: prod.splits sum.splits elim!: redis_call_cases
            intro: failed sent [OF _ _ _ v k])
    qed
  next
    case 2
    then have k: "is_config_kind (cl_kind c)" by (simp add: is_config_kind_def CONFIG_KINDS_def)
    show ?thesis
    proof (cases "config_delivery_payload fr (cl_payload c) ''experiment_update''")
      case (Inl e)
      with assms 2 permanent [OF config_delivery_error [OF Inl]] show ?thesis
        by (simp add: deliver_def Let_def)
    next
      case (Inr y)
      obtain t v d where y: "y = (t, v, d)" by (cases y)
      with Inr have v: "v = claim_version c" "1 \<le> v" using config_delivery_ok by blast+
      with assms 2 Inr y show ?thesis
        by (auto simp: deliver_def Let_def split: prod.splits sum.splits elim!: redis_call_cases
            intro: failed sent [OF _ _ _ v k])
    qed
  next
    case 3
    then have "\<not> is_config_kind (cl_kind c)" by (simp add: is_config_kind_def CONFIG_KINDS_def)
    with assms 3 show ?thesis
      by (auto simp: deliver_def Let_def split: sum.splits prod.splits
          intro: permanent exposure_delivery_error deliver_exposure_effect)
  next
    case 4
    with assms show ?thesis by (auto simp: deliver_def Let_def intro!: permanent simp: permanent_ok_def)
  qed
qed

lemma subseq_snoc: "subseq xs ys \<Longrightarrow> subseq xs (ys @ zs)"
  by (metis append_Nil2 list_emb_append_mono list_emb_Nil)

lemma subseq_append_same: "subseq xs ys \<Longrightarrow> subseq (xs @ zs) (ys @ zs)"
  by simp

lemma sorted_subseq: "subseq xs ys \<Longrightarrow> sorted ys \<Longrightarrow> sorted xs"
  by (induction xs ys rule: list_emb.induct) (auto dest: list_emb_set)

lemma broadcast_queues:
  assumes "broadcast b p t d v = Inr b'"
    and "\<forall>(i, sub) \<in> set (b_connections b). subseq (map pe_project_version (sub_queue sub)) (sv (sub_project_id sub))"
    and "\<forall>q. sv' q = sv q @ (if q = p then [v] else [])"
  shows "\<forall>(i, sub) \<in> set (b_connections b'). subseq (map pe_project_version (sub_queue sub)) (sv' (sub_project_id sub))"
proof -
  let ?e = "\<lparr>pe_type = t, pe_data = d, pe_project_version = v\<rparr>"
  have "b_connections b' = map (\<lambda>(i, s). (i, broadcast_one (queue_capacity (b_settings b)) p ?e s)) (b_connections b)"
    using assms(1) broadcast_loop_map [of "queue_capacity (b_settings b)" p ?e "b_connections b" "b_queue_overflow_total b"]
    by (auto simp: broadcast_def Let_def split: if_splits prod.splits)
  moreover have "subseq (map pe_project_version (sub_queue (broadcast_one cap p ?e s)))
      (sv' (sub_project_id (broadcast_one cap p ?e s)))"
    if "subseq (map pe_project_version (sub_queue s)) (sv (sub_project_id s))" for cap s
    using that assms(3) subseq_snoc
    by (auto simp: broadcast_one_def request_close_locked_def subseq_append_same)
  ultimately show ?thesis using assms(2) by auto
qed

lemma inv_deliver:
  assumes i: "ob_inv s" and w: "os_worker s = WClaimed c"
    and d: "deliver fr fault clock c (os_world s) = (x, w')"
  shows "ob_inv (s\<lparr>os_world := w', os_worker := WDelivered c x,
           os_sent := os_sent s @ (if x = Inr () then [c] else [])\<rparr>)" (is "ob_inv ?s")
proof -
  have e: "delivery_effect c (os_world s) x w'" by (rule deliver_effect [OF d])
  have ci: "claim_inv s c" using i w by (simp add: ob_inv_def worker_inv_def)
  have sv: "sent_versions ?s p = sent_versions s p @ (if x = Inr () \<and> config_claim p c then [claim_version c] else [])"
    for p by (simp add: sent_versions_def)
  have "claim_inv ?s c" using ci by (auto simp: claim_inv_def sv)
  then have "worker_inv ?s"
    using e by (auto simp: worker_inv_def delivery_effect_def permanent_ok_def split: sum.splits delivery_error.splits)
  moreover have "sent_inv ?s"
    using i ci by (auto simp: ob_inv_def sent_inv_def sv claim_inv_def sorted_append)
  moreover have "world_inv ?s"
  proof -
    have streams: "\<forall>k. int (length (dw_streams w' k)) \<le> EVENT_STREAM_MAX_ENTRIES"
      using e i by (simp add: delivery_effect_def ob_inv_def world_inv_def)
    have q: "\<forall>(j, sub) \<in> set (b_connections (dw_sse (os_world s))).
        subseq (map pe_project_version (sub_queue sub)) (sent_versions s (sub_project_id sub))"
      using i by (simp add: ob_inv_def world_inv_def)
    have "\<forall>(j, sub) \<in> set (b_connections (dw_sse w')).
        subseq (map pe_project_version (sub_queue sub)) (sent_versions ?s (sub_project_id sub))"
    proof (cases "x = Inr () \<and> is_config_kind (cl_kind c)")
      case True
      with e obtain t dt where "broadcast (dw_sse (os_world s)) (cl_project_id c) t dt (claim_version c) = Inr (dw_sse w')"
        by (auto simp: delivery_effect_def)
      then show ?thesis
        by (rule broadcast_queues [OF _ q]) (use True in \<open>auto simp: sent_versions_def config_claim_def\<close>)
    next
      case False
      then have "dw_sse w' = dw_sse (os_world s)" "sent_versions ?s = sent_versions s"
        using e by (auto simp: delivery_effect_def sv config_claim_def fun_eq_iff)
      with q show ?thesis by simp
    qed
    with streams show ?thesis by (simp add: world_inv_def)
  qed
  ultimately show ?thesis using i by (simp add: ob_inv_def)
qed

lemma inv_processed:
  assumes "ob_inv s"
    and "\<And>r. P r \<Longrightarrow> ob_id (f r) = ob_id r \<and> (ob_processed_at (f r) = ob_processed_at r \<or> ob_id r \<in> cl_id ` set (os_sent s))"
  shows "\<forall>r \<in> set (db_outbox (update_row (os_db s) P f)). ob_processed_at r \<noteq> None \<longrightarrow> ob_id r \<in> cl_id ` set (os_sent s)"
  by (rule processed_update [OF _ assms(2)]) (use assms(1) in \<open>simp_all add: ob_inv_def sent_inv_def\<close>)

text \<open>Every UPDATE that meets the contract keeps the invariant, with the worker as it was or idle.\<close>

lemma inv_update:
  assumes "ob_inv s" "row_update P f" "worker' = os_worker s \<or> worker' = WIdle"
    and "\<And>r. P r \<Longrightarrow> ob_processed_at (f r) = ob_processed_at r \<or> ob_id r \<in> cl_id ` set (os_sent s)"
  shows "ob_inv (s\<lparr>os_db := update_row (os_db s) P f, os_worker := worker'\<rparr>)"
proof -
  have t: "table_inv (os_db s) (os_high s)" using assms(1) by (simp add: ob_inv_def)
  have "ob_inv (s\<lparr>os_db := update_row (os_db s) P f, os_high := os_high s, os_worker := worker'\<rparr>)"
    using assms(2-4) inv_processed [OF assms(1), of P f] row_update.identity [OF assms(2)]
    by (intro ob_inv_db [OF assms(1) row_update.table_kept [OF assms(2) t] row_update.floor_kept [OF assms(2)]]) auto
  then show ?thesis by simp
qed

lemma inv_settle:
  assumes i: "ob_inv s" and w: "os_worker s = WDelivered c x"
  shows "ob_inv (s\<lparr>os_db := settle (os_db s) now c x, os_worker := WIdle\<rparr>)"
proof (cases x)
  case (Inr u)
  then have "cl_id c \<in> cl_id ` set (os_sent s)" using i w by (simp add: ob_inv_def worker_inv_def)
  then show ?thesis
    using Inr inv_update [OF i processed.row_update_axioms, of WIdle "cl_id c" now]
    by (simp add: settle_def mark_processed_def)
next
  case (Inl e)
  have q: "ob_inv (s\<lparr>os_db := mark_quarantined (os_db s) now (cl_id c) cls code (error_evidence e), os_worker := WIdle\<rparr>)"
    if "cls \<in> {''permanent'', ''attempts_exhausted''}" "\<not> blank code" for cls code
    using inv_update [OF i quarantined_update [OF that], of "error_evidence e" WIdle "cl_id c" now] strip_evidence [of e]
    by (simp add: mark_quarantined_def)
  have f: "ob_inv (s\<lparr>os_db := mark_failed (os_db s) now (cl_id c) (cl_attempts c) (error_evidence e), os_worker := WIdle\<rparr>)"
    using inv_update [OF i failed.row_update_axioms, of WIdle "cl_id c"] by (simp add: mark_failed_def)
  show ?thesis
  proof (cases e)
    case (PermanentDeliveryError code m)
    then have "\<not> blank code" using i w Inl by (simp add: ob_inv_def worker_inv_def)
    with q Inl PermanentDeliveryError show ?thesis by (simp add: settle_def)
  qed (use q f Inl in \<open>auto simp: settle_def\<close>)
qed

lemma inv_sweep: "ob_inv s \<Longrightarrow> ob_inv (s\<lparr>os_db := snd (quarantine_exhausted (os_db s) now)\<rparr>)"
  using inv_update [OF _ swept.row_update_axioms, of s "os_worker s" now] by (simp add: quarantine_exhausted_def)

lemma inv_filter:
  assumes "ob_inv s"
  shows "ob_inv (s\<lparr>os_db := (os_db s)\<lparr>db_outbox := filter Q (db_outbox (os_db s))\<rparr>\<rparr>)"
proof -
  have "ob_inv (s\<lparr>os_db := (os_db s)\<lparr>db_outbox := filter Q (db_outbox (os_db s))\<rparr>, os_high := os_high s,
      os_worker := os_worker s\<rparr>)"
    using assms by (intro ob_inv_db [OF assms table_filter floor_filter]) (auto simp: ob_inv_def sent_inv_def)
  then show ?thesis by simp
qed

text \<open>The receipts and the operator log are not part of the invariant.\<close>

lemma inv_other_tables:
  "ob_inv (s\<lparr>os_db := db\<lparr>db_receipts := x\<rparr>\<rparr>) = ob_inv (s\<lparr>os_db := db\<rparr>)"
  "ob_inv (s\<lparr>os_db := db\<lparr>db_operator_log := y\<rparr>\<rparr>) = ob_inv (s\<lparr>os_db := db\<rparr>)"
  by (simp_all add: ob_inv_def table_inv_def sent_inv_def worker_inv_def world_inv_def claim_inv_def
      floor_at_def project_version_of_def sent_versions_def cong: worker_state.case_cong sum.case_cong)

lemma inv_cleanup:
  assumes "ob_inv s"
  shows "ob_inv (s\<lparr>os_db := snd (cleanup_once (os_db s) now)\<rparr>)"
proof -
  have "ob_inv (s\<lparr>os_db := delete_rows (delete_rows (os_db s) ids) ids'\<rparr>)" for ids ids'
    using inv_filter [OF inv_filter [OF assms]] by (simp add: delete_rows_def)
  then show ?thesis by (simp add: cleanup_once_def Let_def inv_other_tables)
qed

lemma inv_resolve:
  assumes i: "ob_inv s" and r: "resolve_quarantined sha (os_db s) now p j action actor reason = Inr (x, db')"
  shows "ob_inv (s\<lparr>os_db := db'\<rparr>)"
proof (cases "find (quarantined_row p j) (db_outbox (os_db s))")
  case None
  with r i show ?thesis by (auto simp: resolve_quarantined_def split: if_splits)
next
  case (Some row)
  then have row: "row \<in> set (db_outbox (os_db s))" "quarantined_row p j row"
    by (auto simp: find_Some_iff)
  define f where "f = (\<lambda>r. r\<lparr>ob_attempts := 0, ob_available_at := now,
     ob_claimed_at := None, ob_quarantined_at := None,
     ob_failure_class := None, ob_failure_code := None, ob_last_error := ''''\<rparr> :: outbox_row)"
  have t: "table_inv (os_db s) (os_high s)" using i by (simp add: ob_inv_def)
  have replay: "ob_inv (s\<lparr>os_db := update_row (os_db s) (quarantined_row p j) f\<rparr>)"
    if "ob_kind row = ''exposure''"
  proof -
    have "quarantined_row p j q = (quarantined_row p j q \<and> ob_kind q = ''exposure'')"
      if "q \<in> set (db_outbox (os_db s))" for q
      using same_id_same_row [OF t row(1) that] row(2) \<open>ob_kind row = ''exposure''\<close>
      by (auto simp: quarantined_row_def)
    then have "update_row (os_db s) (quarantined_row p j) f
        = update_row (os_db s) (\<lambda>r. quarantined_row p j r \<and> ob_kind r = ''exposure'') f"
      by (rule update_row_cong)
    then show ?thesis
      using inv_update [OF i replayed.row_update_axioms, of "os_worker s" p j now] by (simp add: f_def)
  qed
  from r Some obtain lg where
    "db' = (if action = ''replay'' then update_row ((os_db s)\<lparr>db_operator_log := lg\<rparr>) (quarantined_row p j) f
            else (os_db s)\<lparr>db_operator_log := lg, db_outbox := filter (\<lambda>r. \<not> quarantined_row p j r) (db_outbox (os_db s))\<rparr>)"
    "action = ''replay'' \<longrightarrow> ob_kind row = ''exposure''"
    by (auto simp: resolve_quarantined_def Let_def f_def split: if_splits)
  then have "db' = (if action = ''replay'' then (update_row (os_db s) (quarantined_row p j) f)\<lparr>db_operator_log := lg\<rparr>
            else ((os_db s)\<lparr>db_outbox := filter (\<lambda>r. \<not> quarantined_row p j r) (db_outbox (os_db s))\<rparr>)\<lparr>db_operator_log := lg\<rparr>)"
    "action = ''replay'' \<longrightarrow> ob_kind row = ''exposure''"
    by (auto simp: update_row_def)
  then show ?thesis using replay inv_filter [OF i] by (simp add: inv_other_tables)
qed

lemma insert_outboxD:
  "insert_outbox db i now p k dk pl = Inr db' \<Longrightarrow>
   db' = db\<lparr>db_outbox := db_outbox db @ [new_outbox_row i now p k dk pl]\<rparr>"
  by (auto simp: insert_outbox_def split: if_splits)

lemma new_row_ok [simp]: "row_ok (new_outbox_row i now p k dk pl)"
  by (simp add: row_ok_def new_outbox_row_def MAX_DELIVERY_ATTEMPTS_def)

lemma new_row_simps [simp]:
  "ob_id (new_outbox_row i now p k dk pl) = i"
  "config_row q (new_outbox_row i now p k dk pl) \<longleftrightarrow> q = p \<and> is_config_kind k"
  "ob_processed_at (new_outbox_row i now p k dk pl) = None"
  "pending_row (new_outbox_row i now p k dk pl)"
  "ob_payload (new_outbox_row i now p k dk pl) = RawText (JsonOf pl)"
  by (auto simp: new_outbox_row_def config_row_def pending_row_def)

lemma change_version [simp]: "payload_version (RawText (JsonOf (change_payload k v d))) = v"
  by (simp add: payload_version_def outbox_payload_def change_payload_def dget_def dget_default_def)

lemma table_insert:
  assumes "table_inv db high" "row_ok r" "ob_id r \<notin> ob_id ` set (db_outbox db)"
    and "\<And>q. config_row q r \<Longrightarrow> row_version r = project_version_of db q \<and> ob_id r \<le> high q
           \<and> (\<forall>x \<in> set (db_outbox db). config_row q x \<longrightarrow> ob_id x < ob_id r)"
  shows "table_inv (db\<lparr>db_outbox := db_outbox db @ [r]\<rparr>) high"
proof -
  have pv: "project_version_of (db\<lparr>db_outbox := xs\<rparr>) = project_version_of db" for xs
    by (simp add: project_version_of_def fun_eq_iff)
  have new: "row_version x \<le> row_version r \<and> \<not> ob_id r < ob_id x"
    if "config_row q r" "x \<in> set (db_outbox db)" "config_row q x" for q x
    using table_version_bound [OF assms(1) that(2,3)] assms(4) [OF that(1)] that by auto
  show ?thesis
    unfolding table_inv_def pv
  proof (intro conjI allI ballI impI)
    show "distinct (map ob_id (db_outbox (db\<lparr>db_outbox := db_outbox db @ [r]\<rparr>)))"
      using assms(1,3) by (simp add: table_inv_def)
  next
    fix x assume "x \<in> set (db_outbox (db\<lparr>db_outbox := db_outbox db @ [r]\<rparr>))"
    then show "row_ok x" using assms(1,2) by (auto simp: table_inv_def)
  next
    fix q x assume "x \<in> set (db_outbox (db\<lparr>db_outbox := db_outbox db @ [r]\<rparr>))" "config_row q x"
    then have "row_version x \<le> project_version_of db q \<and> ob_id x \<le> high q"
      using table_version_bound [OF assms(1)] assms(4) by auto
    then show "row_version x \<le> project_version_of db q" "ob_id x \<le> high q" by simp_all
  next
    fix q x y
    assume "x \<in> set (db_outbox (db\<lparr>db_outbox := db_outbox db @ [r]\<rparr>))"
      "y \<in> set (db_outbox (db\<lparr>db_outbox := db_outbox db @ [r]\<rparr>))"
      "config_row q x \<and> config_row q y \<and> ob_id x < ob_id y"
    then show "row_version x \<le> row_version y"
      using table_versions [OF assms(1)] new by auto
  qed
qed

lemma floor_insert:
  assumes "floor_at db p v" "config_row p r \<Longrightarrow> row_version r = project_version_of db p"
  shows "floor_at (db\<lparr>db_outbox := db_outbox db @ [r]\<rparr>) p v"
  using assms by (auto simp: floor_at_def project_version_of_def)

lemma insert_changes_inv:
  assumes "insert_changes db now p v changes = Inr db'" "table_inv db high"
    and "v = project_version_of db p" "sorted_wrt (<) (map fst changes)"
    and "\<forall>(i, k, _, _) \<in> set changes. is_config_kind k \<and> i \<le> high p \<and> i \<notin> ob_id ` set (db_outbox db)
           \<and> (\<forall>x \<in> set (db_outbox db). config_row p x \<longrightarrow> ob_id x < i)"
    and "\<forall>r \<in> set (db_outbox db). ob_processed_at r \<noteq> None \<longrightarrow> ob_id r \<in> S"
  shows "table_inv db' high \<and> (\<forall>q u. floor_at db q u \<longrightarrow> floor_at db' q u)
    \<and> (\<forall>r \<in> set (db_outbox db'). ob_processed_at r \<noteq> None \<longrightarrow> ob_id r \<in> S)"
  using assms
proof (induction changes arbitrary: db)
  case Nil
  then show ?case by simp
next
  case (Cons ch changes)
  obtain i k dk d where ch: "ch = (i, k, dk, d)" by (cases ch)
  let ?r = "new_outbox_row i now p k dk (change_payload k v d)"
  let ?db = "db\<lparr>db_outbox := db_outbox db @ [?r]\<rparr>"
  have rest: "insert_changes ?db now p v changes = Inr db'"
    using Cons.prems(1) ch by (auto split: sum.splits dest: insert_outboxD)
  have t: "table_inv ?db high"
    by (rule table_insert [OF Cons.prems(2)]) (use Cons.prems(3,5) ch in auto)
  have f: "floor_at db q u \<Longrightarrow> floor_at ?db q u" for q u
    by (rule floor_insert) (use Cons.prems(3) in auto)
  have "table_inv db' high \<and> (\<forall>q u. floor_at ?db q u \<longrightarrow> floor_at db' q u)
    \<and> (\<forall>r \<in> set (db_outbox db'). ob_processed_at r \<noteq> None \<longrightarrow> ob_id r \<in> S)"
  proof (rule Cons.IH [OF rest t])
    show "v = project_version_of ?db p" using Cons.prems(3) by (simp add: project_version_of_def)
    show "sorted_wrt (<) (map fst changes)" using Cons.prems(4) by simp
    show "\<forall>r \<in> set (db_outbox ?db). ob_processed_at r \<noteq> None \<longrightarrow> ob_id r \<in> S" using Cons.prems(6) by auto
    have "i < j" if "(j, x) \<in> set changes" for j x
      using Cons.prems(4) that ch by force
    then show "\<forall>(j, k, _, _) \<in> set changes. is_config_kind k \<and> j \<le> high p \<and> j \<notin> ob_id ` set (db_outbox ?db)
           \<and> (\<forall>x \<in> set (db_outbox ?db). config_row p x \<longrightarrow> ob_id x < j)"
      using Cons.prems(5) by fastforce
  qed
  with f show ?case by blast
qed

lemma next_versionD:
  assumes "next_project_version db p = (v, db1)"
  shows "v = project_version_of db p + 1" "db_outbox db1 = db_outbox db"
    "project_version_of db1 q = (if q = p then v else project_version_of db q)"
  using assms by (auto simp: next_project_version_def Let_def project_version_of_def split: option.splits)

lemma table_raise:
  assumes "table_inv db high" "db_outbox db1 = db_outbox db"
    and "\<And>q. project_version_of db q \<le> project_version_of db1 q" "\<And>q. high q \<le> high1 q"
  shows "table_inv db1 high1"
  using assms order_trans [OF _ assms(3)] order_trans [OF _ assms(4)] by (simp add: table_inv_def) blast

lemma inv_commit:
  assumes i: "ob_inv s" and e: "commit_enabled s p changes"
    and c: "commit_changes (os_db s) now p changes = Inr db'"
  shows "ob_inv (s\<lparr>os_db := db',
           os_high := (os_high s)(p := Max (insert (os_high s p) (set (map fst changes))))\<rparr>)"
    (is "ob_inv (s\<lparr>os_db := _, os_high := ?high\<rparr>)")
proof -
  obtain v db1 where n: "next_project_version (os_db s) p = (v, db1)" by fastforce
  note d = next_versionD [OF n]
  have t: "table_inv (os_db s) (os_high s)" using i by (simp add: ob_inv_def)
  have up: "os_high s q \<le> ?high q" for q by simp
  have t1: "table_inv db1 ?high"
    by (rule table_raise [OF t d(2) _ up]) (simp add: d)
  have f1: "floor_at (os_db s) q u \<Longrightarrow> floor_at db1 q u" for q u
    using d by (auto simp: floor_at_def)
  have ch: "is_config_kind k \<and> j \<le> ?high p \<and> j \<notin> ob_id ` set (db_outbox db1)
      \<and> (\<forall>x \<in> set (db_outbox db1). config_row p x \<longrightarrow> ob_id x < j)"
    if "(j, k, dk, dt) \<in> set changes" for j k dk dt
  proof -
    have j: "is_config_kind k" "os_high s p < j" "\<forall>r \<in> set (db_outbox (os_db s)). ob_id r \<noteq> j"
      using e that by (auto simp: commit_enabled_def list_all_iff)
    moreover have "j \<in> fst ` set changes" using that by force
    then have "j \<le> ?high p" by simp
    moreover have "ob_id x < j" if "x \<in> set (db_outbox db1)" "config_row p x" for x
      using table_version_bound [OF t _ that(2)] that(1) d(2) j(2) by auto
    ultimately show ?thesis using d(2) by auto
  qed
  have "table_inv db' ?high \<and> (\<forall>q u. floor_at db1 q u \<longrightarrow> floor_at db' q u)
    \<and> (\<forall>r \<in> set (db_outbox db'). ob_processed_at r \<noteq> None \<longrightarrow> ob_id r \<in> cl_id ` set (os_sent s))"
  proof (rule insert_changes_inv [OF _ t1])
    show "insert_changes db1 now p v changes = Inr db'" using c n by (simp add: commit_changes_def)
    show "v = project_version_of db1 p" using d by simp
    show "sorted_wrt (<) (map fst changes)" using e by (simp add: commit_enabled_def)
    show "\<forall>r \<in> set (db_outbox db1). ob_processed_at r \<noteq> None \<longrightarrow> ob_id r \<in> cl_id ` set (os_sent s)"
      using i d by (simp add: ob_inv_def sent_inv_def)
    show "\<forall>(j, k, dk, dt) \<in> set changes. is_config_kind k \<and> j \<le> ?high p
        \<and> j \<notin> ob_id ` set (db_outbox db1) \<and> (\<forall>x \<in> set (db_outbox db1). config_row p x \<longrightarrow> ob_id x < j)"
      using ch by blast
  qed
  then have "ob_inv (s\<lparr>os_db := db', os_high := ?high, os_worker := os_worker s\<rparr>)"
    using f1 by (intro ob_inv_db [OF i]) auto
  then show ?thesis by simp
qed

lemma enqueue_exposureD:
  assumes "enqueue_exposure db i now p m k e = Inr db'"
  obtains "db' = db" | rc pl where "db' =
    db\<lparr>db_receipts := rc, db_outbox := db_outbox db @ [new_outbox_row i now p ''exposure'' m pl]\<rparr>"
  using assms by (auto simp: enqueue_exposure_def Let_def split: option.splits if_splits dest!: insert_outboxD)

lemma inv_exposure:
  assumes i: "ob_inv s" and n: "\<not> (\<exists>r \<in> set (db_outbox (os_db s)). ob_id r = j)"
    and e: "enqueue_exposure (os_db s) j now p m k ev = Inr db'"
  shows "ob_inv (s\<lparr>os_db := db'\<rparr>)"
  using e
proof (cases rule: enqueue_exposureD)
  case 1
  with i show ?thesis by simp
next
  case (2 rc pl)
  let ?r = "new_outbox_row j now p ''exposure'' m pl"
  have x: "\<not> is_config_kind ''exposure''" by (simp add: is_config_kind_def CONFIG_KINDS_def)
  have "ob_inv (s\<lparr>os_db := (os_db s)\<lparr>db_outbox := db_outbox (os_db s) @ [?r]\<rparr>, os_high := os_high s,
      os_worker := os_worker s\<rparr>)"
  proof (rule ob_inv_db [OF i])
    show "table_inv ((os_db s)\<lparr>db_outbox := db_outbox (os_db s) @ [?r]\<rparr>) (os_high s)"
      by (rule table_insert) (use i n x in \<open>auto simp: ob_inv_def\<close>)
    show "floor_at ((os_db s)\<lparr>db_outbox := db_outbox (os_db s) @ [?r]\<rparr>) q u"
      if "floor_at (os_db s) q u" for q u
      by (rule floor_insert [OF that]) (use x in simp)
  qed (use i in \<open>auto simp: ob_inv_def sent_inv_def\<close>)
  moreover have "db' = (os_db s)\<lparr>db_outbox := db_outbox (os_db s) @ [?r], db_receipts := rc\<rparr>"
    using 2 by simp
  ultimately show ?thesis
    using inv_other_tables(1) [where db = "(os_db s)\<lparr>db_outbox := db_outbox (os_db s) @ [?r]\<rparr>"] by simp
qed

text \<open>The other users of the broadcaster keep each queue a subsequence of what was sent.\<close>

lemma queues_shrink:
  assumes "\<forall>(i, sub) \<in> set (b_connections b). subseq (map pe_project_version (sub_queue sub)) (sv (sub_project_id sub))"
    and "\<And>i sub'. (i, sub') \<in> set (b_connections b') \<Longrightarrow> sub_queue sub' = [] \<or>
       (\<exists>sub j. (j, sub) \<in> set (b_connections b) \<and> sub_project_id sub' = sub_project_id sub
          \<and> subseq (sub_queue sub') (sub_queue sub))"
  shows "\<forall>(i, sub) \<in> set (b_connections b'). subseq (map pe_project_version (sub_queue sub)) (sv (sub_project_id sub))"
proof clarify
  fix i sub' assume "(i, sub') \<in> set (b_connections b')"
  from assms(2) [OF this] show "subseq (map pe_project_version (sub_queue sub')) (sv (sub_project_id sub'))"
  proof
    assume "\<exists>sub j. (j, sub) \<in> set (b_connections b) \<and> sub_project_id sub' = sub_project_id sub
          \<and> subseq (sub_queue sub') (sub_queue sub)"
    then obtain sub j where s: "(j, sub) \<in> set (b_connections b)" "sub_project_id sub' = sub_project_id sub"
      "subseq (sub_queue sub') (sub_queue sub)" by blast
    then have "subseq (map pe_project_version (sub_queue sub')) (map pe_project_version (sub_queue sub))"
      by (simp add: subseq_map)
    with s assms(1) show ?thesis using subseq_order.order_trans by fastforce
  qed simp
qed

lemma stop_loop_subset:
  "set (b_connections (stop_loop b subs)) \<subseteq> set (b_connections b)"
proof (induction b subs rule: stop_loop.induct)
  case (2 b i sub subs)
  then show ?case by (auto simp: remove_locked_def dpop_def)
qed simp

lemma sse_step_queues:
  assumes "\<not> is_broadcast x" "(i, sub') \<in> set (b_connections (sse_step b x))"
  shows "sub_queue sub' = [] \<or> (\<exists>sub j. (j, sub) \<in> set (b_connections b)
    \<and> sub_project_id sub' = sub_project_id sub \<and> subseq (sub_queue sub') (sub_queue sub))"
proof (cases x)
  case (SAdd p c ip now)
  with assms(2) show ?thesis
    by (auto simp: add_connection_def Let_def split: option.splits prod.splits dest!: set_dset)
next
  case (SRemove j r)
  with assms(2) show ?thesis
    by (auto simp: remove_connection_def remove_locked_def dpop_def split: option.splits)
next
  case (SBroadcast a c d e)
  with assms(1) show ?thesis by (simp add: is_broadcast_def)
next
  case (SExpire now)
  with assms(2) show ?thesis
    by (auto simp: expire_connections_def expire_one_def request_close_locked_def split: if_splits)
next
  case (SGet j)
  show ?thesis
  proof (cases "map_of (b_connections b) j")
    case None
    with SGet assms(2) show ?thesis by (auto simp: queue_get_def)
  next
    case (Some sub)
    from map_of_SomeD [OF Some] SGet assms(2) Some show ?thesis
      by (cases "sub_queue sub") (fastforce simp: queue_get_def dest!: set_dset)+
  qed
next
  case SStop
  with assms(2) stop_loop_subset [of b "b_connections b"] show ?thesis by (auto simp: sse_stop_def)
qed

lemma inv_world:
  assumes "ob_inv s" "\<And>k. int (length (dw_streams w' k)) \<le> EVENT_STREAM_MAX_ENTRIES"
    and "\<And>i sub'. (i, sub') \<in> set (b_connections (dw_sse w')) \<Longrightarrow> sub_queue sub' = [] \<or>
       (\<exists>sub j. (j, sub) \<in> set (b_connections (dw_sse (os_world s))) \<and> sub_project_id sub' = sub_project_id sub
          \<and> subseq (sub_queue sub') (sub_queue sub))"
  shows "ob_inv (s\<lparr>os_world := w'\<rparr>)"
proof -
  have sv: "sent_versions (s\<lparr>os_world := w'\<rparr>) = sent_versions s" by (simp add: sent_versions_def fun_eq_iff)
  have "\<forall>(i, sub) \<in> set (b_connections (dw_sse (os_world s))).
      subseq (map pe_project_version (sub_queue sub)) (sent_versions s (sub_project_id sub))"
    using assms(1) by (simp add: ob_inv_def world_inv_def)
  from queues_shrink [OF this assms(3)]
  have "\<forall>(i, sub) \<in> set (b_connections (dw_sse w')).
      subseq (map pe_project_version (sub_queue sub)) (sent_versions s (sub_project_id sub))" .
  then show ?thesis
    using assms(1,2) by (simp add: ob_inv_def sent_inv_def worker_inv_def world_inv_def claim_inv_def sv
        cong: worker_state.case_cong sum.case_cong)
qed

lemma inv_world_streams:
  assumes "ob_inv s" "\<And>k. int (length (dw_streams w' k)) \<le> EVENT_STREAM_MAX_ENTRIES"
    and "dw_sse w' = dw_sse (os_world s)"
  shows "ob_inv (s\<lparr>os_world := w'\<rparr>)"
  by (rule inv_world [OF assms(1,2)]) (auto simp: assms(3))

lemma ob_inv_streams: "ob_inv s \<Longrightarrow> int (length (dw_streams (os_world s) k)) \<le> EVENT_STREAM_MAX_ENTRIES"
  by (simp add: ob_inv_def world_inv_def)

lemma ob_step_inv [inv_intros]:
  assumes "ob_inv s"
  shows "ob_inv (ob_step fr sha s x)"
proof (cases x)
  case (CommitConfig now p changes)
  with assms inv_commit show ?thesis by (auto split: sum.splits)
next
  case (CommitExposure i now p m k e)
  with assms inv_exposure [OF assms] show ?thesis by (auto split: sum.splits)
next
  case (Claim now)
  obtain c db where c: "claim_next (os_db s) now = (c, db)" by fastforce
  then have "c = None \<Longrightarrow> db = os_db s" by (auto simp: claim_next_def split: option.splits)
  with Claim c assms inv_claim [OF assms] show ?thesis by (auto split: worker_state.splits option.splits)
next
  case (Deliver fault clock)
  with assms inv_deliver [OF assms] show ?thesis by (auto split: worker_state.splits prod.splits)
next
  case (Settle now)
  with assms inv_settle [OF assms] show ?thesis by (auto split: worker_state.splits)
next
  case Crash
  have "ob_inv (s\<lparr>os_db := os_db s, os_high := os_high s, os_worker := WIdle\<rparr>)"
    using assms by (intro ob_inv_db [OF assms]) (auto simp: ob_inv_def sent_inv_def)
  with Crash show ?thesis by simp
next
  case (Sweep now)
  with inv_sweep [OF assms] show ?thesis by simp
next
  case (Cleanup now)
  with inv_cleanup [OF assms] show ?thesis by simp
next
  case (Resolve now p i action actor reason)
  with assms inv_resolve [OF assms] show ?thesis by (auto split: sum.splits prod.splits)
next
  case (CacheOp p y)
  then show ?thesis using ob_inv_streams [OF assms] by (auto intro!: inv_world_streams [OF assms])
next
  case (SseOp y)
  have "\<not> is_broadcast y \<Longrightarrow> ob_inv (s\<lparr>os_world := (os_world s)\<lparr>dw_sse := sse_step (dw_sse (os_world s)) y\<rparr>\<rparr>)"
    using ob_inv_streams [OF assms] sse_step_queues [of y] by (intro inv_world [OF assms]) simp_all
  with SseOp assms show ?thesis by simp
next
  case (StreamAppend k entries)
  then show ?thesis using assms ob_inv_streams [OF assms]
    by (auto simp: bounded_xadd_lua_def Let_def intro!: inv_world_streams [OF assms])
next
  case (StreamTrim k n)
  have "int (length (dw_streams (os_world s) k) - n) \<le> EVENT_STREAM_MAX_ENTRIES"
    using ob_inv_streams [OF assms, of k] by linarith
  with StreamTrim show ?thesis
    using ob_inv_streams [OF assms] by (auto intro!: inv_world_streams [OF assms])
qed

lemma ob_init_inv: "ob_inv (ob_init settings)"
  by (simp add: ob_inv_def ob_init_def table_inv_def sent_inv_def worker_inv_def world_inv_def
      outbox_db_empty_def sent_versions_def sse_init_def EVENT_STREAM_MAX_ENTRIES_def)

lemma ob_step_sent: "prefix (os_sent s) (os_sent (ob_step fr sha s c))"
  by (cases c) (auto split: sum.splits option.splits prod.splits worker_state.splits)

interpretation outbox: monotone_machine "ob_step fr sha" ob_inv "\<lambda>s t. prefix (os_sent s) (os_sent t)" for fr sha
  by unfold_locales (auto intro: ob_step_inv ob_step_sent prefix_order.trans)

lemma ob_run_inv: "ob_inv (ob_run fr sha (ob_init settings) cmds)"
  unfolding ob_run_def by (rule outbox.commands_keep [OF ob_init_inv])

section \<open>Lemmas: progress\<close>

text \<open>The attempts the pending rows still have.\<close>

definition attempt_budget :: "outbox_db \<Rightarrow> int" where
  "attempt_budget db = (\<Sum>r \<leftarrow> filter pending_row (db_outbox db). MAX_DELIVERY_ATTEMPTS - ob_attempts r)"

fun worker_cmd :: "ob_cmd \<Rightarrow> bool" where
  "worker_cmd (CommitConfig _ _ _) = False"
| "worker_cmd (CommitExposure _ _ _ _ _ _) = False"
| "worker_cmd (Resolve _ _ _ _ _ _) = False"
| "worker_cmd _ = True"

text \<open>The number of claims a run makes.\<close>

definition claims_now :: "ob_system \<Rightarrow> ob_cmd \<Rightarrow> bool" where
  "claims_now s x = (case x of Claim now \<Rightarrow> os_worker s = WIdle \<and> fst (claim_next (os_db s) now) \<noteq> None | _ \<Rightarrow> False)"

fun claims_made :: "(rat \<Rightarrow> string) \<Rightarrow> (raw_payload \<Rightarrow> string) \<Rightarrow> ob_system \<Rightarrow> ob_cmd list \<Rightarrow> int" where
  "claims_made fr sha s [] = 0"
| "claims_made fr sha s (x # xs) =
     (if claims_now s x then 1 else 0) + claims_made fr sha (ob_step fr sha s x) xs"

lemma budget_eq:
  "attempt_budget db = (\<Sum>r \<leftarrow> db_outbox db. if pending_row r then MAX_DELIVERY_ATTEMPTS - ob_attempts r else 0)"
  unfolding attempt_budget_def by (induction "db_outbox db" arbitrary: db rule: list.induct)
    (simp_all add: sum_list_map_filter')

lemma budget_update_le:
  assumes "\<forall>r \<in> set (db_outbox db). row_ok r"
    and "\<And>r. P r \<Longrightarrow> pending_row (f r) \<Longrightarrow> pending_row r \<and> ob_attempts r \<le> ob_attempts (f r)"
  shows "attempt_budget (update_row db P f) \<le> attempt_budget db"
proof -
  have "(if pending_row (if P r then f r else r) then MAX_DELIVERY_ATTEMPTS - ob_attempts (if P r then f r else r) else 0)
      \<le> (if pending_row r then MAX_DELIVERY_ATTEMPTS - ob_attempts r else 0)"
    if "r \<in> set (db_outbox db)" for r
    using assms(2) [of r] assms(1) that by (auto simp: row_ok_def)
  then show ?thesis by (auto simp: budget_eq update_row_def comp_def intro: sum_list_mono)
qed

lemma budget_filter_le:
  assumes "\<forall>r \<in> set (db_outbox db). row_ok r"
  shows "attempt_budget (db\<lparr>db_outbox := filter Q (db_outbox db)\<rparr>) \<le> attempt_budget db"
proof -
  have "(\<Sum>r \<leftarrow> filter Q rs. if pending_row r then MAX_DELIVERY_ATTEMPTS - ob_attempts r else 0)
      \<le> (\<Sum>r \<leftarrow> rs. if pending_row r then MAX_DELIVERY_ATTEMPTS - ob_attempts r else 0)"
    if "\<forall>r \<in> set rs. ob_attempts r \<le> MAX_DELIVERY_ATTEMPTS" for rs
    using that by (induction rs) auto
  moreover have "\<forall>r \<in> set (db_outbox db). ob_attempts r \<le> MAX_DELIVERY_ATTEMPTS"
    using assms by (simp add: row_ok_def)
  ultimately show ?thesis by (simp add: budget_eq)
qed

lemma budget_claim:
  assumes "claim_next db now = (Some c, db')" "table_inv db high"
  shows "attempt_budget db' = attempt_budget db - 1"
proof -
  from assms obtain r where r: "r \<in> set (db_outbox db)" "claimable now (db_outbox db) r"
    "c = \<lparr>cl_id = ob_id r, cl_project_id = ob_project_id r, cl_kind = ob_kind r,
             cl_payload = ob_payload r, cl_attempts = ob_attempts r + 1\<rparr>"
    "db' = update_row db (\<lambda>q. ob_id q = ob_id r \<and> ob_attempts q < MAX_DELIVERY_ATTEMPTS)
             (\<lambda>q. q\<lparr>ob_claimed_at := Some now, ob_attempts := ob_attempts q + 1\<rparr>)"
    by (rule claim_nextD)
  have pend: "pending_row r" "ob_attempts r < MAX_DELIVERY_ATTEMPTS" using r(2) by (auto simp: claimable_def)
  have same: "ob_id q = ob_id r \<Longrightarrow> q = r" if "q \<in> set (db_outbox db)" for q
    by (rule same_id_same_row [OF assms(2) r(1) that])
  let ?g = "\<lambda>q. if pending_row q then MAX_DELIVERY_ATTEMPTS - ob_attempts q else 0"
  let ?u = "\<lambda>q. if ob_id q = ob_id r \<and> ob_attempts q < MAX_DELIVERY_ATTEMPTS
      then q\<lparr>ob_claimed_at := Some now, ob_attempts := ob_attempts q + 1\<rparr> else q"
  have "?g (?u q) = ?g q - (if q = r then 1 else 0)" if "q \<in> set (db_outbox db)" for q
    using same [OF that] pend by (auto simp: pending_row_def)
  then have "(\<Sum>q \<leftarrow> db_outbox db. ?g (?u q)) = (\<Sum>q \<leftarrow> db_outbox db. ?g q - (if q = r then 1 else 0))"
    by (auto intro!: arg_cong [where f = sum_list])
  also have "\<dots> = (\<Sum>q \<leftarrow> db_outbox db. ?g q) - (\<Sum>q \<leftarrow> db_outbox db. if q = r then 1 else 0)"
    by (simp add: sum_list_subtractf)
  also have "(\<Sum>q \<leftarrow> db_outbox db. if q = r then (1 :: int) else 0) = 1"
  proof -
    have "distinct (db_outbox db)" using assms(2) by (auto simp: table_inv_def distinct_map)
    with r(1) show ?thesis by (induction "db_outbox db" arbitrary: db rule: list.induct)
        (auto simp: sum_list_distinct_conv_sum_set)
  qed
  finally show ?thesis by (simp add: r(4) budget_eq update_row_def comp_def)
qed

lemma budget_settle:
  assumes "\<forall>r \<in> set (db_outbox db). row_ok r"
  shows "attempt_budget (settle db now c x) \<le> attempt_budget db"
proof -
  have "attempt_budget (mark_processed db now i) \<le> attempt_budget db"
    "attempt_budget (mark_failed db now i n e) \<le> attempt_budget db"
    "attempt_budget (mark_quarantined db now i cls code e) \<le> attempt_budget db" for i n cls code e
    unfolding mark_processed_def mark_failed_def mark_quarantined_def
    by (rule budget_update_le [OF assms]; simp add: pending_row_def)+
  then show ?thesis by (auto simp: settle_def split: sum.splits delivery_error.splits)
qed

lemma budget_sweep:
  assumes "\<forall>r \<in> set (db_outbox db). row_ok r"
  shows "attempt_budget (snd (quarantine_exhausted db now)) \<le> attempt_budget db"
  by (simp add: quarantine_exhausted_def) (rule budget_update_le [OF assms]; simp add: pending_row_def)

lemma budget_receipts [simp]: "attempt_budget (db\<lparr>db_receipts := x\<rparr>) = attempt_budget db"
  by (simp add: attempt_budget_def)

lemma budget_cleanup:
  assumes "\<forall>r \<in> set (db_outbox db). row_ok r"
  shows "attempt_budget (snd (cleanup_once db now)) \<le> attempt_budget db"
proof -
  have "attempt_budget (delete_rows (delete_rows db ids) ids') \<le> attempt_budget db" for ids ids'
    using budget_filter_le [OF assms, of "\<lambda>r. ob_id r \<notin> set ids"]
      budget_filter_le [of "delete_rows db ids" "\<lambda>r. ob_id r \<notin> set ids'"] assms
    by (simp add: delete_rows_def)
  then show ?thesis by (simp add: cleanup_once_def Let_def)
qed

lemma budget_step:
  assumes i: "ob_inv s" and x: "worker_cmd x"
  shows "attempt_budget (os_db (ob_step fr sha s x)) + (if claims_now s x then 1 else 0) \<le> attempt_budget (os_db s)"
proof -
  have t: "table_inv (os_db s) (os_high s)" using i by (simp add: ob_inv_def)
  then have ok: "\<forall>r \<in> set (db_outbox (os_db s)). row_ok r" by (simp add: table_inv_def)
  show ?thesis
  proof (cases x)
    case (Claim now)
    obtain c db where c: "claim_next (os_db s) now = (c, db)" by fastforce
    then have "c = None \<Longrightarrow> db = os_db s" by (auto simp: claim_next_def split: option.splits)
    with Claim c budget_claim [OF _ t] show ?thesis
      by (auto simp: claims_now_def split: worker_state.splits option.splits)
  next
    case (Deliver fault clock)
    then show ?thesis by (auto simp: claims_now_def split: worker_state.splits prod.splits)
  next
    case (Settle now)
    with budget_settle [OF ok] show ?thesis by (auto simp: claims_now_def split: worker_state.splits)
  next
    case (Sweep now)
    with budget_sweep [OF ok] show ?thesis by (simp add: claims_now_def)
  next
    case (Cleanup now)
    with budget_cleanup [OF ok] show ?thesis by (simp add: claims_now_def)
  qed (use x in \<open>simp_all add: claims_now_def\<close>)
qed

lemma budget_bounds:
  assumes "\<forall>r \<in> set (db_outbox db). row_ok r"
  shows "0 \<le> attempt_budget db"
    and "attempt_budget db \<le> MAX_DELIVERY_ATTEMPTS * int (length (filter pending_row (db_outbox db)))"
proof -
  have "0 \<le> (\<Sum>r \<leftarrow> rs. MAX_DELIVERY_ATTEMPTS - ob_attempts r)
      \<and> (\<Sum>r \<leftarrow> rs. MAX_DELIVERY_ATTEMPTS - ob_attempts r) \<le> MAX_DELIVERY_ATTEMPTS * int (length rs)"
    if "\<forall>r \<in> set rs. 0 \<le> ob_attempts r \<and> ob_attempts r \<le> MAX_DELIVERY_ATTEMPTS" for rs
    using that by (induction rs) (auto simp: algebra_simps)
  moreover have "\<forall>r \<in> set (filter pending_row (db_outbox db)). 0 \<le> ob_attempts r \<and> ob_attempts r \<le> MAX_DELIVERY_ATTEMPTS"
    using assms by (simp add: row_ok_def)
  ultimately show "0 \<le> attempt_budget db"
    "attempt_budget db \<le> MAX_DELIVERY_ATTEMPTS * int (length (filter pending_row (db_outbox db)))"
    unfolding attempt_budget_def by blast+
qed

lemma claims_made_budget:
  assumes "ob_inv s" "list_all worker_cmd xs"
  shows "claims_made fr sha s xs \<le> attempt_budget (os_db s)"
  using assms
proof (induction xs arbitrary: s)
  case Nil
  then show ?case using budget_bounds(1) [of "os_db s"] by (simp add: ob_inv_def table_inv_def)
next
  case (Cons x xs)
  have "claims_made fr sha (ob_step fr sha s x) xs \<le> attempt_budget (os_db (ob_step fr sha s x))"
    using Cons by (intro Cons.IH ob_step_inv) auto
  with budget_step [OF Cons.prems(1), of x fr sha] Cons.prems(2) show ?case by auto
qed

section \<open>Properties\<close>

text \<open>A run in which two changes and an exposure are delivered, one of them after a lost reply.\<close>

definition sample_commands :: "ob_cmd list" where
  "sample_commands = [SseOp (SAdd ''p'' ''c'' ''ip'' 0),
     CommitConfig 10 ''p'' [(1, ''flag_change'', ''k:1:flag_created'', [])],
     CommitConfig 20 ''p'' [(3, ''flag_change'', ''k:2:flag_updated'', []),
                            (4, ''experiment_change'', ''e:2:experiment_updated'', [])],
     Claim 30, Deliver (ReplyLost ''timeout'') 1, Settle 40, Claim 50,
     Claim 2000000, Deliver RedisOk 2, Settle 2000010,
     Claim 2000020, Deliver RedisOk 3, Crash,
     Claim 70000000, Deliver RedisOk 4, Settle 70000010,
     Claim 70000020, Deliver RedisOk 5, Settle 70000030]"

definition sample_run :: ob_system where
  "sample_run = ob_run (\<lambda>_. '''') (\<lambda>_. '''') (ob_init sample_sse_settings) sample_commands"

text \<open>
  C2. However commits, deliveries, retries, crashes, operator actions and retention interleave,
  the project versions a project's subscribers are sent never decrease, and neither do those
  waiting in the queue of any open connection.
\<close>

theorem outbox_versions_monotone:
  assumes "s = ob_run fr sha (ob_init settings) cmds"
  shows "sorted (sent_versions s p)
    \<and> (\<forall>(i, sub) \<in> set (b_connections (dw_sse (os_world s))). sorted (map pe_project_version (sub_queue sub)))"
proof -
  have i: "ob_inv s" unfolding assms by (rule ob_run_inv)
  then have "sorted (sent_versions s q)" for q by (simp add: ob_inv_def sent_inv_def)
  with i show ?thesis
    by (auto simp: ob_inv_def world_inv_def intro: sorted_subseq)
qed

theorem outbox_versions_monotone_witness:
  "sorted (sent_versions sample_run ''p'') \<and> sent_versions sample_run ''p'' = [1, 2, 2, 2]"
proof -
  have "sent_versions sample_run ''p'' = [1, 2, 2, 2]" by code_simp
  with outbox_versions_monotone [OF sample_run_def, of "''p''"] show ?thesis by blast
qed

text \<open>
  C21. Nothing is reported as processed that was not delivered, and the table always meets its
  constraints: at most eight attempts per row, never both processed and quarantined, and every
  quarantined row carries its failure class, code and evidence. The event streams never
  exceed their capacity.
\<close>

theorem outbox_delivery_evidence:
  assumes "s = ob_run fr sha (ob_init settings) cmds"
  shows "(\<forall>r \<in> set (db_outbox (os_db s)). row_ok r
      \<and> (ob_processed_at r \<noteq> None \<longrightarrow> (\<exists>c \<in> set (os_sent s). cl_id c = ob_id r)))
    \<and> (\<forall>k. int (length (dw_streams (os_world s) k)) \<le> EVENT_STREAM_MAX_ENTRIES)"
proof -
  have i: "ob_inv s" unfolding assms by (rule ob_run_inv)
  then have "\<forall>r \<in> set (db_outbox (os_db s)). row_ok r" by (simp add: ob_inv_def table_inv_def)
  moreover have "\<exists>c \<in> set (os_sent s). cl_id c = ob_id r"
    if "r \<in> set (db_outbox (os_db s))" "ob_processed_at r \<noteq> None" for r
  proof -
    have "ob_id r \<in> cl_id ` set (os_sent s)" using i that by (simp add: ob_inv_def sent_inv_def)
    then show ?thesis by force
  qed
  ultimately show ?thesis using ob_inv_streams [OF i] by blast
qed

theorem outbox_delivery_evidence_witness:
  "\<exists>r \<in> set (db_outbox (os_db sample_run)). ob_id r = 3 \<and> ob_processed_at r = Some 70000010
     \<and> row_ok r \<and> (\<exists>c \<in> set (os_sent sample_run). cl_id c = ob_id r)"
proof -
  have e: "\<exists>r \<in> set (db_outbox (os_db sample_run)). ob_id r = 3 \<and> ob_processed_at r = Some 70000010"
    by code_simp
  then obtain r where r: "r \<in> set (db_outbox (os_db sample_run))" "ob_id r = 3" "ob_processed_at r = Some 70000010"
    by blast
  with outbox_delivery_evidence [OF sample_run_def]
  have "row_ok r \<and> (ob_processed_at r \<noteq> None \<longrightarrow> (\<exists>c \<in> set (os_sent sample_run). cl_id c = ob_id r))"
    by blast
  with r show ?thesis by (intro bexI [of _ r]) auto
qed



text \<open>
  C24. The worker does not retry for ever: without new commits or operator replays, whatever
  fails, it makes at most eight claims per row that was pending.
\<close>

theorem worker_claims_bounded:
  assumes "s = ob_run fr sha (ob_init settings) cmds" "list_all worker_cmd later"
  shows "claims_made fr sha s later \<le> 8 * int (length (filter pending_row (db_outbox (os_db s))))"
proof -
  have i: "ob_inv s" unfolding assms by (rule ob_run_inv)
  then have "attempt_budget (os_db s) \<le> MAX_DELIVERY_ATTEMPTS * int (length (filter pending_row (db_outbox (os_db s))))"
    by (intro budget_bounds) (simp add: ob_inv_def table_inv_def)
  with claims_made_budget [OF i assms(2), of fr sha] show ?thesis by (simp add: MAX_DELIVERY_ATTEMPTS_def)
qed

theorem worker_claims_bounded_witness:
  "claims_made (\<lambda>_. '''') (\<lambda>_. '''') (ob_run (\<lambda>_. '''') (\<lambda>_. '''') (ob_init sample_sse_settings) (take 3 sample_commands))
     (drop 3 sample_commands) \<le> 8 * 3"
proof -
  have n: "length (filter pending_row (db_outbox (os_db
      (ob_run (\<lambda>_. '''') (\<lambda>_. '''') (ob_init sample_sse_settings) (take 3 sample_commands))))) = 3" by code_simp
  have w: "list_all worker_cmd (drop 3 sample_commands)" by code_simp
  show ?thesis using worker_claims_bounded [OF refl w] n by (metis of_nat_numeral)
qed

text \<open>The row a settlement leaves behind.\<close>

definition settled_row :: "int \<Rightarrow> outbox_claim \<Rightarrow> unit delivery \<Rightarrow> outbox_row \<Rightarrow> outbox_row" where
  "settled_row now c x r = (case x of
     Inr _ \<Rightarrow> r\<lparr>ob_processed_at := Some now, ob_claimed_at := None, ob_last_error := ''''\<rparr>
   | Inl e \<Rightarrow>
       (case e of
          PermanentDeliveryError code _ \<Rightarrow>
            r\<lparr>ob_quarantined_at := Some now, ob_claimed_at := None, ob_failure_class := Some ''permanent'',
              ob_failure_code := Some code, ob_last_error := error_evidence e\<rparr>
        | _ \<Rightarrow>
            if cl_attempts c = 8
            then r\<lparr>ob_quarantined_at := Some now, ob_claimed_at := None,
              ob_failure_class := Some ''attempts_exhausted'',
              ob_failure_code := Some ''delivery_attempts_exhausted'', ob_last_error := error_evidence e\<rparr>
            else r\<lparr>ob_claimed_at := None,
              ob_available_at := now + 1000000 * min (2 ^ nat (cl_attempts c - 1)) 60,
              ob_last_error := error_evidence e\<rparr>))"

lemma settle_settles:
  assumes "r \<in> set (db_outbox db)" "pending_row r" "ob_id r = cl_id c" "ob_attempts r = cl_attempts c"
    and "1 \<le> cl_attempts c" "cl_attempts c \<le> 8"
  shows "settled_row now c x r \<in> set (db_outbox (settle db now c x))"
proof -
  have len: "take FAILURE_EVIDENCE_MAX_CHARS (error_evidence e) = error_evidence e" for e
    using strip_evidence [of e] by simp
  show ?thesis
    using assms unfolding settle_def settled_row_def mark_processed_def mark_quarantined_def mark_failed_def update_row_def
    by (auto simp: len seconds_def backoff_seconds_def MAX_BACKOFF_SECONDS_def MAX_DELIVERY_ATTEMPTS_def
        split: sum.splits delivery_error.splits intro!: image_eqI [where x = r])
qed

text \<open>
  Every delivered row is settled at once: processed after a success; quarantined with its
  error's code after a permanent error, or after a failure of the eighth attempt; otherwise it
  is unclaimed again and due after a delay of 1, 2, 4, 8, 16, 32 and then 60 seconds.
\<close>

theorem drain_once_settles:
  assumes "table_inv db high" "claim_next db now = (Some c, db1)"
    and "deliver fr fault clock c w = (x, w')"
  shows "\<exists>r \<in> set (db_outbox db). \<exists>db'. drain_once fr fault clock now later (db, w) = (True, db', w')
    \<and> ob_id r = cl_id c \<and> ob_payload r = cl_payload c \<and> pending_row r
    \<and> settled_row later c x (r\<lparr>ob_claimed_at := Some now, ob_attempts := ob_attempts r + 1\<rparr>) \<in> set (db_outbox db')"
proof -
  from assms(2,1) obtain r where r: "r \<in> set (db_outbox db)" "claimable now (db_outbox db) r"
    "c = \<lparr>cl_id = ob_id r, cl_project_id = ob_project_id r, cl_kind = ob_kind r,
             cl_payload = ob_payload r, cl_attempts = ob_attempts r + 1\<rparr>"
    "db1 = update_row db (\<lambda>q. ob_id q = ob_id r \<and> ob_attempts q < MAX_DELIVERY_ATTEMPTS)
             (\<lambda>q. q\<lparr>ob_claimed_at := Some now, ob_attempts := ob_attempts q + 1\<rparr>)"
    by (rule claim_nextD)
  let ?q = "r\<lparr>ob_claimed_at := Some now, ob_attempts := ob_attempts r + 1\<rparr>"
  have at: "pending_row r" "ob_attempts r < MAX_DELIVERY_ATTEMPTS" using r(2) by (auto simp: claimable_def)
  moreover have "row_ok r" using assms(1) r(1) by (simp add: table_inv_def)
  ultimately have "settled_row later c x ?q \<in> set (db_outbox (settle db1 later c x))"
    using r(1)
    by (intro settle_settles) (auto simp: r(3,4) update_row_def row_ok_def pending_row_def MAX_DELIVERY_ATTEMPTS_def)
  moreover have "drain_once fr fault clock now later (db, w) = (True, settle db1 later c x, w')"
    using assms(2,3) by (simp add: drain_once_def)
  ultimately show ?thesis using r(1,3) at(1) by (intro bexI [OF _ r(1)]) auto
qed

theorem drain_once_settles_witness:
  "\<exists>db'. drain_once (\<lambda>_. '''') (RedisDown ''x'') 0 9 10
       (\<lparr>db_outbox = [new_outbox_row 7 5 ''p'' ''bogus'' ''m'' PNone], db_receipts = [], db_operator_log = [],
         db_project_versions = []\<rparr>, os_world (ob_init sample_sse_settings)) = (True, db', os_world (ob_init sample_sse_settings))
     \<and> map ob_failure_code (db_outbox db') = [Some ''unsupported_kind'']"
proof -
  let ?db = "\<lparr>db_outbox = [new_outbox_row 7 5 ''p'' ''bogus'' ''m'' PNone], db_receipts = [], db_operator_log = [],
       db_project_versions = []\<rparr>"
  let ?w = "os_world (ob_init sample_sse_settings)"
  let ?c = "\<lparr>cl_id = 7, cl_project_id = ''p'', cl_kind = ''bogus'', cl_payload = RawText (JsonOf PNone), cl_attempts = 1\<rparr>"
  have t: "table_inv ?db (\<lambda>_. 0)"
    by (auto simp: table_inv_def is_config_kind_def CONFIG_KINDS_def)
  have c: "claim_next ?db 9 = (Some ?c, snd (claim_next ?db 9))" by code_simp
  have d: "deliver (\<lambda>_. '''') (RedisDown ''x'') 0 ?c ?w
      = (Inl (PermanentDeliveryError ''unsupported_kind'' ''Unsupported Config outbox kind: bogus''), ?w)"
    by (simp add: deliver_def)
  have "map ob_failure_code (db_outbox (fst (snd (drain_once (\<lambda>_. '''') (RedisDown ''x'') 0 9 10 (?db, ?w)))))
      = [Some ''unsupported_kind'']" by code_simp
  with drain_once_settles [OF t c d, of 10] show ?thesis by auto
qed

lemma oldest_idsD:
  assumes "i \<in> set (oldest_ids tm now ret rows)"
  obtains r where "r \<in> set rows" "ob_id r = i" "older_than now ret (tm r)"
  using assms unfolding oldest_ids_def by (auto dest!: in_set_takeD)

lemma cleanup_deletes:
  assumes "distinct (map ob_id (db_outbox db))" "r \<in> set (db_outbox db)"
    and "ob_id r \<in> set (oldest_ids tm now ret (db_outbox (delete_rows db ids)))"
  shows "older_than now ret (tm r)"
proof -
  from assms(3) obtain q where q: "q \<in> set (db_outbox (delete_rows db ids))" "ob_id q = ob_id r"
    "older_than now ret (tm q)" by (rule oldest_idsD)
  then have "q \<in> set (db_outbox db)" by (simp add: delete_rows_def)
  with assms(1,2) q show ?thesis by (metis distinct_map inj_on_def)
qed

text \<open>
  Retention never loses work: a cleanup removes a row only when it was processed more than
  7 days, or quarantined more than 90 days before, so pending rows stay; and it removes a
  receipt only 400 days after the exposure, when the exposure's row is gone as well, so a
  retried exposure cannot be enqueued a second time while the first is in the table.
\<close>

theorem cleanup_keeps_work:
  assumes "cleanup_once db now = (counts, db')" "distinct (map ob_id (db_outbox db))"
    and "distinct (map (\<lambda>e. (er_project_id e, er_message_id e)) (db_receipts db))"
  shows "(\<forall>r \<in> set (db_outbox db). r \<in> set (db_outbox db')
      \<or> older_than now PROCESSED_RETENTION_SECONDS (ob_processed_at r)
      \<or> older_than now QUARANTINED_RETENTION_SECONDS (ob_quarantined_at r))
    \<and> (\<forall>e \<in> set (db_receipts db). e \<in> set (db_receipts db') \<or> receipt_expired db' now e)"
proof -
  define ids where "ids = oldest_ids ob_processed_at now PROCESSED_RETENTION_SECONDS (db_outbox db)"
  define db1 where "db1 = delete_rows db ids"
  define ids' where "ids' = oldest_ids ob_quarantined_at now QUARANTINED_RETENTION_SECONDS (db_outbox db1)"
  define db2 where "db2 = delete_rows db1 ids'"
  define old where "old = take CLEANUP_BATCH_SIZE
      (sort_key er_last_seen_at (filter (receipt_expired db2 now) (db_receipts db2)))"
  have db': "db' = db2\<lparr>db_receipts := filter (\<lambda>r. (er_project_id r, er_message_id r)
      \<notin> set (map (\<lambda>r. (er_project_id r, er_message_id r)) old)) (db_receipts db2)\<rparr>"
    using assms(1) unfolding cleanup_once_def Let_def ids_def db1_def ids'_def db2_def old_def by auto
  have same: "receipt_expired db' now = receipt_expired db2 now"
    by (simp add: db' receipt_expired_def fun_eq_iff)
  have rows: "r \<in> set (db_outbox db') \<or> older_than now PROCESSED_RETENTION_SECONDS (ob_processed_at r)
      \<or> older_than now QUARANTINED_RETENTION_SECONDS (ob_quarantined_at r)" if r: "r \<in> set (db_outbox db)" for r
  proof -
    have "ob_id r \<in> set ids \<Longrightarrow> older_than now PROCESSED_RETENTION_SECONDS (ob_processed_at r)"
      using cleanup_deletes [OF assms(2) r, of ob_processed_at now _ "[]"] by (simp add: ids_def delete_rows_def)
    moreover have "ob_id r \<in> set ids' \<Longrightarrow> older_than now QUARANTINED_RETENTION_SECONDS (ob_quarantined_at r)"
      using cleanup_deletes [OF assms(2) r] by (simp add: ids'_def db1_def)
    ultimately show ?thesis using r by (auto simp: db' db2_def db1_def delete_rows_def)
  qed
  have "e \<in> set (db_receipts db') \<or> receipt_expired db' now e" if e: "e \<in> set (db_receipts db)" for e
  proof (cases "e \<in> set (db_receipts db')")
    case False
    have rc: "db_receipts db2 = db_receipts db" by (simp add: db2_def db1_def delete_rows_def)
    with False e obtain f where f: "f \<in> set old" "er_project_id f = er_project_id e" "er_message_id f = er_message_id e"
      by (auto simp: db')
    then have "f \<in> set (db_receipts db)" "receipt_expired db2 now f"
      unfolding old_def rc by (auto dest!: in_set_takeD)
    with assms(3) e f(2,3) have "f = e" by (auto simp: distinct_map inj_on_def)
    with \<open>receipt_expired db2 now f\<close> show ?thesis by (simp add: same)
  qed simp
  with rows show ?thesis by blast
qed

theorem cleanup_keeps_work_witness:
  "set [new_outbox_row 7 5 ''p'' ''exposure'' ''m'' PNone,
       (new_outbox_row 6 5 ''p'' ''exposure'' ''n'' PNone)\<lparr>ob_processed_at := Some 9\<rparr>]
   \<subseteq> set (db_outbox (snd (cleanup_once \<lparr>db_outbox = [new_outbox_row 7 5 ''p'' ''exposure'' ''m'' PNone,
       (new_outbox_row 6 5 ''p'' ''exposure'' ''n'' PNone)\<lparr>ob_processed_at := Some 9\<rparr>], db_receipts = [],
       db_operator_log = [], db_project_versions = []\<rparr> 604800000009)))"
  (is "set ?rows \<subseteq> set (db_outbox (snd (cleanup_once ?db _)))")
proof
  fix r assume "r \<in> set ?rows"
  moreover have d: "distinct (map ob_id (db_outbox ?db))" by simp
  ultimately show "r \<in> set (db_outbox (snd (cleanup_once ?db 604800000009)))"
    using cleanup_keeps_work [OF surjective_pairing d, of 604800000009]
    by (auto simp: older_than_def seconds_def PROCESSED_RETENTION_SECONDS_def new_outbox_row_def)
qed

end
