(* ===== verification/Mutations.thy ===== *)
theory Mutations
  imports Experiments OutboxRun
begin

text \<open>
  The transactional authority of the Config service,
  \<open>services/config/app/store/mutations.py\<close>, with the row projections of
  \<open>services/config/app/store/postgres.py\<close> and the lifecycle scheduler
  (\<open>services/config/app/experiments/lifecycle.py\<close>). A command is one transaction on \<open>config_db\<close>:
  its result is the new state, or an error and no change. A flag row is the dictionary of its
  columns (\<open>FLAG_COLUMNS\<close>), with JSON columns as documents and a timestamp as its text; an
  experiment row is the record \<open>experiment_row\<close>. \<open>ids\<close> are the identifiers the outbox sequence
  gives the transaction, \<open>now\<close> is the transaction time and \<open>wall\<close> the process clock.
\<close>

section \<open>Rows and tables\<close>

definition FLAG_COLUMNS :: "string list" where
  "FLAG_COLUMNS = [''key'', ''project_id'', ''name'', ''state'', ''owners'', ''review_by'',
     ''enabled'', ''description'', ''default_variant'', ''variants'', ''rules'', ''fallthrough'',
     ''salt'', ''evaluation_mode'', ''auto_disable'', ''guardrails'', ''disabled_reason'',
     ''disabled_by'', ''disabled_at'', ''version'', ''created_at'', ''updated_at'', ''archived_at'']"

definition row_to_flag :: "dict \<Rightarrow> dict" where
  "row_to_flag row = map (\<lambda>c. (c, dget row c)) FLAG_COLUMNS"

definition stamp :: "int \<Rightarrow> pyval" where
  "stamp t = PStr (''@'' @ dec (nat t))"

record flag_audit_entry =
  fa_project_id :: string
  fa_flag_key :: string
  fa_action :: string
  fa_actor :: string
  fa_origin :: string
  fa_previous_version :: "int option"
  fa_new_version :: "int option"
  fa_before :: "dict option"
  fa_after :: "dict option"
  fa_evidence :: pyval
  fa_reason :: string

record experiment_audit_entry =
  xa_project_id :: string
  xa_experiment_key :: string
  xa_action :: string
  xa_actor :: string
  xa_previous_version :: "int option"
  xa_new_version :: "int option"
  xa_before :: "experiment_row option"
  xa_after :: "experiment_row option"

record config_db =
  cd_flags :: "dict list"
  cd_experiments :: "experiment_row list"
  cd_flag_audit :: "flag_audit_entry list"
  cd_experiment_audit :: "experiment_audit_entry list"
  cd_outbox :: outbox_db

definition config_db_empty :: config_db where
  "config_db_empty = \<lparr>cd_flags = [], cd_experiments = [], cd_flag_audit = [],
     cd_experiment_audit = [], cd_outbox = outbox_db_empty\<rparr>"

type_synonym 'a tx = "(mutation_error, 'a \<times> config_db) result"

definition bind_tx :: "('e, 'a) result \<Rightarrow> ('a \<Rightarrow> ('e, 'b) result) \<Rightarrow> ('e, 'b) result" where
  "bind_tx r f = (case r of Inl e \<Rightarrow> Inl e | Inr x \<Rightarrow> f x)"

definition column :: "dict \<Rightarrow> string \<Rightarrow> string" where
  "column row c = (case dget row c of PStr s \<Rightarrow> s | _ \<Rightarrow> '''')"

definition flag_version :: "dict \<Rightarrow> int" where
  "flag_version row = (case dget row ''version'' of PInt v \<Rightarrow> v | _ \<Rightarrow> 0)"

definition flag_at :: "string \<Rightarrow> string \<Rightarrow> dict \<Rightarrow> bool" where
  "flag_at project_id key row \<longleftrightarrow>
     dget row ''project_id'' = PStr project_id \<and> dget row ''key'' = PStr key"

definition live :: "dict \<Rightarrow> bool" where
  "live row \<longleftrightarrow> dget row ''archived_at'' = PNone"

definition experiment_at :: "string \<Rightarrow> string \<Rightarrow> experiment_row \<Rightarrow> bool" where
  "experiment_at project_id key e \<longleftrightarrow> ex_project_id e = project_id \<and> ex_key e = key"

section \<open>Deliveries\<close>

definition flag_delivery_data :: "pydantic \<Rightarrow> string \<Rightarrow> dict \<Rightarrow> dict option" where
  "flag_delivery_data py action flag =
     (if dget flag ''evaluation_mode'' \<in> {PStr ''client'', PStr ''both''}
         \<and> \<not> truthy (dget flag ''archived_at'')
      then (case serialize_client_flag py flag of
              None \<Rightarrow> None
            | Some f \<Rightarrow> Some [(''action'', PStr action), (''flag'', f),
                              (''version'', PInt (flag_version flag))])
      else Some [(''action'', PStr ''flag_removed''), (''key'', dget flag ''key''),
                 (''version'', PInt (flag_version flag))])"

definition experiment_delivery_data :: "string \<Rightarrow> experiment_row \<Rightarrow> dict" where
  "experiment_delivery_data action e =
     [(''action'', PStr action), (''key'', PStr (ex_key e)), (''status'', PStr (ex_status e)),
      (''flag_key'', PStr (ex_flag_key e)), (''version'', PInt (ex_version e))]"

definition dedup_key_of :: "string \<Rightarrow> int \<Rightarrow> string \<Rightarrow> string" where
  "dedup_key_of key version action = key @ '':'' @ dec (nat version) @ '':'' @ action"

definition enqueue_flag_change ::
    "pydantic \<Rightarrow> config_db \<Rightarrow> int \<Rightarrow> int \<Rightarrow> string \<Rightarrow> dict \<Rightarrow> int tx" where
  "enqueue_flag_change py db row_id now action flag =
     (case next_project_version (cd_outbox db) (column flag ''project_id'') of
        (v, ob) \<Rightarrow>
          (case flag_delivery_data py action flag of
             None \<Rightarrow> Inl ValidationFailed
           | Some data \<Rightarrow>
               bind_tx (insert_outbox ob row_id now (column flag ''project_id'') ''flag_change''
                   (dedup_key_of (column flag ''key'') (flag_version flag) action)
                   (change_payload ''flag_change'' v data))
                 (\<lambda>ob'. Inr (v, db\<lparr>cd_outbox := ob'\<rparr>))))"

text \<open>The experiment's change always follows its flag's and shares its project version.\<close>

definition enqueue_experiment_change ::
    "config_db \<Rightarrow> int \<Rightarrow> int \<Rightarrow> string \<Rightarrow> experiment_row \<Rightarrow> int \<Rightarrow> int tx" where
  "enqueue_experiment_change db row_id now action e v =
     bind_tx (insert_outbox (cd_outbox db) row_id now (ex_project_id e) ''experiment_change''
         (dedup_key_of (ex_key e) (ex_version e) action)
         (change_payload ''experiment_change'' v (experiment_delivery_data action e)))
       (\<lambda>ob'. Inr (v, db\<lparr>cd_outbox := ob'\<rparr>))"

section \<open>Audit\<close>

definition audit_flag ::
    "config_db \<Rightarrow> string \<Rightarrow> string \<Rightarrow> string \<Rightarrow> dict option \<Rightarrow> dict option \<Rightarrow> string \<Rightarrow> pyval
     \<Rightarrow> (mutation_error, config_db) result" where
  "audit_flag db action actor origin before after reason evidence =
     (case (case after of Some f \<Rightarrow> Some f | None \<Rightarrow> before) of
        None \<Rightarrow> Inl (IntegrityError ''flag audit requires a before or after snapshot'')
      | Some flag \<Rightarrow>
          if \<not> jsonb_ok evidence then Inl InvalidJson
          else Inr (db\<lparr>cd_flag_audit := cd_flag_audit db @
            [\<lparr>fa_project_id = column flag ''project_id'', fa_flag_key = column flag ''key'',
              fa_action = action, fa_actor = actor, fa_origin = origin,
              fa_previous_version = map_option flag_version before,
              fa_new_version = map_option flag_version after, fa_before = before, fa_after = after,
              fa_evidence = evidence, fa_reason = reason\<rparr>]\<rparr>))"

definition audit_experiment ::
    "config_db \<Rightarrow> string \<Rightarrow> string \<Rightarrow> experiment_row option \<Rightarrow> experiment_row option
     \<Rightarrow> (mutation_error, config_db) result" where
  "audit_experiment db action actor before after =
     (case (case after of Some e \<Rightarrow> Some e | None \<Rightarrow> before) of
        None \<Rightarrow> Inl (IntegrityError ''experiment audit requires a before or after snapshot'')
      | Some e \<Rightarrow>
          Inr (db\<lparr>cd_experiment_audit := cd_experiment_audit db @
            [\<lparr>xa_project_id = ex_project_id e, xa_experiment_key = ex_key e, xa_action = action,
              xa_actor = actor, xa_previous_version = map_option ex_version before,
              xa_new_version = map_option ex_version after, xa_before = before, xa_after = after\<rparr>]\<rparr>))"

section \<open>Row commands\<close>

definition locked_flag :: "config_db \<Rightarrow> string \<Rightarrow> string \<Rightarrow> (mutation_error, dict) result" where
  "locked_flag db project_id key =
     (case find (\<lambda>r. flag_at project_id key r \<and> live r) (cd_flags db) of
        None \<Rightarrow> Inl (NotFoundError ''Flag'' key) | Some r \<Rightarrow> Inr (row_to_flag r))"

definition locked_experiment ::
    "config_db \<Rightarrow> string \<Rightarrow> string \<Rightarrow> (mutation_error, experiment_row) result" where
  "locked_experiment db project_id key =
     (case find (experiment_at project_id key) (cd_experiments db) of
        None \<Rightarrow> Inl (NotFoundError ''Experiment'' key) | Some e \<Rightarrow> Inr e)"

definition reject_experiment_owned ::
    "config_db \<Rightarrow> string \<Rightarrow> string \<Rightarrow> (mutation_error, unit) result" where
  "reject_experiment_owned db project_id flag_key =
     (case find (\<lambda>e. ex_project_id e = project_id \<and> ex_flag_key e = flag_key) (cd_experiments db) of
        None \<Rightarrow> Inr () | Some e \<Rightarrow> Inl (ExperimentOwnedFlagError flag_key (ex_key e)))"

definition JSON_COLUMNS :: "string list" where
  "JSON_COLUMNS = [''owners'', ''variants'', ''rules'', ''fallthrough'', ''guardrails'']"

definition new_flag_row :: "int \<Rightarrow> dict \<Rightarrow> dict" where
  "new_flag_row now flag =
     [(''key'', dget flag ''key''), (''project_id'', dget flag ''project_id''),
      (''name'', dget flag ''name''), (''state'', dget_default flag ''state'' (PStr ''draft'')),
      (''owners'', dget_default flag ''owners'' (PList [])), (''review_by'', dget flag ''review_by''),
      (''enabled'', dget_default flag ''enabled'' (PBool False)),
      (''description'', dget_default flag ''description'' (PStr '''')),
      (''default_variant'', dget_default flag ''default_variant'' (PStr ''control'')),
      (''variants'', dget_default flag ''variants''
         (PList [PDict [(''key'', PStr ''control''), (''weight'', PInt 1)],
                 PDict [(''key'', PStr ''treatment''), (''weight'', PInt 1)]])),
      (''rules'', dget_default flag ''rules'' (PList [])),
      (''fallthrough'', dget_default flag ''fallthrough''
         (PDict [(''rollout'', PDict [(''percentage'', PFloat (Fin 0)), (''bucket_by'', PStr ''user_id'')])])),
      (''salt'', dget flag ''salt''),
      (''evaluation_mode'', dget_default flag ''evaluation_mode'' (PStr ''client'')),
      (''auto_disable'', dget_default flag ''auto_disable'' (PBool False)),
      (''guardrails'', dget_default flag ''guardrails'' (PList [])), (''disabled_reason'', PStr ''''),
      (''disabled_by'', PStr ''''), (''disabled_at'', PNone), (''version'', PInt 1),
      (''created_at'', stamp now), (''updated_at'', stamp now), (''archived_at'', PNone)]"

definition insert_flag :: "pydantic \<Rightarrow> config_db \<Rightarrow> int \<Rightarrow> dict \<Rightarrow> dict tx" where
  "insert_flag py db now flag =
     (if \<not> validate_flag_variant_config py flag then Inl ValidationFailed
      else if \<not> list_all (\<lambda>c. is_str (dget flag c)) [''key'', ''project_id'', ''name'', ''salt'']
      then Inl DataError
      else let row = new_flag_row now flag
           in if \<not> list_all (\<lambda>c. jsonb_ok (dget row c)) JSON_COLUMNS then Inl InvalidJson
              else if \<exists>r \<in> set (cd_flags db). flag_at (column flag ''project_id'') (column flag ''key'') r
              then Inl UniqueViolation
              else Inr (row_to_flag row, db\<lparr>cd_flags := cd_flags db @ [row]\<rparr>))"

text \<open>
  The UPDATE shared by the four flag commands: it applies to the live row of the expected
  version, advances its version, and returns it.
\<close>

definition write_flag ::
    "config_db \<Rightarrow> int \<Rightarrow> string \<Rightarrow> string \<Rightarrow> int \<Rightarrow> (string \<times> pyval) list \<Rightarrow> dict tx" where
  "write_flag db now project_id key expected_version columns =
     (let P = (\<lambda>r. flag_at project_id key r \<and> flag_version r = expected_version \<and> live r);
          f = (\<lambda>r. dmerge r (columns @ [(''version'', PInt (flag_version r + 1)), (''updated_at'', stamp now)]))
      in case find P (cd_flags db) of
           None \<Rightarrow> Inl (VersionConflictError ''Flag'' key expected_version)
         | Some r \<Rightarrow>
             Inr (row_to_flag (f r), db\<lparr>cd_flags := map (\<lambda>r. if P r then f r else r) (cd_flags db)\<rparr>))"

definition UPDATED_COLUMNS :: "string list" where
  "UPDATED_COLUMNS = [''name'', ''state'', ''owners'', ''review_by'', ''enabled'', ''description'',
     ''default_variant'', ''variants'', ''rules'', ''fallthrough'', ''evaluation_mode'',
     ''auto_disable'', ''guardrails'']"

definition update_flag :: "pydantic \<Rightarrow> config_db \<Rightarrow> int \<Rightarrow> dict \<Rightarrow> int \<Rightarrow> dict tx" where
  "update_flag py db now flag expected_version =
     (if \<not> validate_flag_variant_config py flag then Inl ValidationFailed
      else if \<not> list_all (\<lambda>c. jsonb_ok (dget flag c)) JSON_COLUMNS then Inl InvalidJson
      else write_flag db now (column flag ''project_id'') (column flag ''key'') expected_version
             (map (\<lambda>c. (c, dget flag c)) UPDATED_COLUMNS))"

definition transition_flag :: "config_db \<Rightarrow> int \<Rightarrow> dict \<Rightarrow> string \<Rightarrow> dict tx" where
  "transition_flag db now before target_state =
     write_flag db now (column before ''project_id'') (column before ''key'') (flag_version before)
       [(''state'', PStr target_state), (''enabled'', PBool (target_state = ''active'')),
        (''disabled_reason'', PStr ''''), (''disabled_by'', PStr ''''), (''disabled_at'', PNone)]"

definition disable_flag :: "config_db \<Rightarrow> int \<Rightarrow> dict \<Rightarrow> string \<Rightarrow> string \<Rightarrow> dict tx" where
  "disable_flag db now before reason actor =
     write_flag db now (column before ''project_id'') (column before ''key'') (flag_version before)
       [(''state'', PStr ''disabled''), (''enabled'', PBool False), (''disabled_reason'', PStr reason),
        (''disabled_by'', PStr actor), (''disabled_at'', stamp now)]"

definition archive_flag :: "config_db \<Rightarrow> int \<Rightarrow> dict \<Rightarrow> dict tx" where
  "archive_flag db now before =
     write_flag db now (column before ''project_id'') (column before ''key'') (flag_version before)
       [(''state'', PStr ''archived''), (''enabled'', PBool False), (''archived_at'', stamp now)]"

definition insert_experiment :: "config_db \<Rightarrow> int \<Rightarrow> experiment_row \<Rightarrow> experiment_row tx" where
  "insert_experiment db now e =
     (if \<exists>r \<in> set (cd_experiments db). ex_project_id r = ex_project_id e
           \<and> (ex_key r = ex_key e \<or> ex_flag_key r = ex_flag_key e
              \<or> (ex_creation_idempotency_key e \<noteq> None
                  \<and> ex_creation_idempotency_key r = ex_creation_idempotency_key e))
      then Inl UniqueViolation
      else if \<not> jsonb_ok (ex_statistical_plan e) then Inl InvalidJson
      else let row = e\<lparr>ex_version := 1, ex_created_at := now, ex_updated_at := now,
             ex_archived_at := None, ex_archived_by := None\<rparr>
           in Inr (row, db\<lparr>cd_experiments := cd_experiments db @ [row]\<rparr>))"

definition write_experiment ::
    "config_db \<Rightarrow> (experiment_row \<Rightarrow> bool) \<Rightarrow> (experiment_row \<Rightarrow> experiment_row) \<Rightarrow> string \<Rightarrow> int
     \<Rightarrow> experiment_row tx" where
  "write_experiment db P f key expected_version =
     (case find P (cd_experiments db) of
        None \<Rightarrow> Inl (VersionConflictError ''Experiment'' key expected_version)
      | Some e \<Rightarrow>
          Inr (f e, db\<lparr>cd_experiments := map (\<lambda>e. if P e then f e else e) (cd_experiments db)\<rparr>))"

definition update_experiment :: "config_db \<Rightarrow> int \<Rightarrow> experiment_row \<Rightarrow> int \<Rightarrow> experiment_row tx" where
  "update_experiment db now d expected_version =
     (if \<not> jsonb_ok (ex_statistical_plan d) then Inl InvalidJson
      else write_experiment db
        (\<lambda>e. experiment_at (ex_project_id d) (ex_key d) e \<and> ex_version e = expected_version)
        (\<lambda>e. e\<lparr>ex_status := ex_status d, ex_description := ex_description d,
               ex_default_variant := ex_default_variant d, ex_variants_json := ex_variants_json d,
               ex_targeting_rules_json := ex_targeting_rules_json d,
               ex_primary_metric_json := ex_primary_metric_json d,
               ex_statistical_plan := ex_statistical_plan d,
               ex_traffic_percentage := ex_traffic_percentage d, ex_bucket_by := ex_bucket_by d,
               ex_minimum_exposure_config_version := ex_minimum_exposure_config_version d,
               ex_start_date := ex_start_date d, ex_end_date := ex_end_date d,
               ex_version := ex_version e + 1, ex_updated_at := now\<rparr>)
        (ex_key d) expected_version)"

section \<open>The analysis window and the frozen fields\<close>

text \<open>The second component is whether the end date may change after draft.\<close>

definition finalize_terminal_analysis_window ::
    "experiment_row \<Rightarrow> experiment_row \<Rightarrow> int \<Rightarrow> (mutation_error, experiment_row \<times> bool) result" where
  "finalize_terminal_analysis_window before desired current =
     (if ex_status before \<in> {''draft'', ''scheduled''} \<and> ex_status desired = ''stopped''
      then Inr (desired\<lparr>ex_end_date := None\<rparr>, True)
      else if ex_status before \<noteq> ''running'' \<or> ex_status desired \<notin> {''completed'', ''stopped''}
      then Inr (desired, False)
      else case (ex_start_date before, ex_end_date before) of
             (Some start, Some planned_end) \<Rightarrow>
               if ex_status desired = ''completed''
               then if current < planned_end
                    then Inl (IntegrityError
                      ''A fixed-horizon experiment cannot complete before its planned end'')
                    else Inr (desired\<lparr>ex_end_date := Some planned_end\<rparr>, False)
               else let actual_end = min current planned_end
                    in if actual_end \<le> start
                       then Inl (IntegrityError ''Terminal experiment end must be after its start'')
                       else Inr (desired\<lparr>ex_end_date := Some actual_end\<rparr>, True)
           | _ \<Rightarrow> Inl (IntegrityError ''Running experiment has an invalid analysis window''))"

fun json_text_eq :: "json_text \<Rightarrow> json_text \<Rightarrow> bool" where
  "json_text_eq (JsonOf v) (JsonOf w) = py_eq v w"
| "json_text_eq NotJson NotJson = True"
| "json_text_eq _ _ = False"

text \<open>The changed fields by their API names, in the order of the error message.\<close>

definition changed_frozen_fields :: "experiment_row \<Rightarrow> experiment_row \<Rightarrow> bool \<Rightarrow> string list" where
  "changed_frozen_fields before desired end_date_allowed =
     map fst (filter snd
       [(''bucket_by'', ex_bucket_by before \<noteq> ex_bucket_by desired),
        (''default_variant'', ex_default_variant before \<noteq> ex_default_variant desired),
        (''end_date'', \<not> end_date_allowed \<and> ex_end_date before \<noteq> ex_end_date desired),
        (''primary_metric'', \<not> json_text_eq (ex_primary_metric_json before) (ex_primary_metric_json desired)),
        (''start_date'', ex_start_date before \<noteq> ex_start_date desired),
        (''statistical_plan'', \<not> py_eq (ex_statistical_plan before) (ex_statistical_plan desired)),
        (''targeting_rules'', ex_targeting_rules_json before \<noteq> ex_targeting_rules_json desired),
        (''traffic_percentage'', ex_traffic_percentage before \<noteq> ex_traffic_percentage desired),
        (''variants'', \<not> json_text_eq (ex_variants_json before) (ex_variants_json desired))])"

definition ensure_experiment_analysis_fields_immutable ::
    "experiment_row \<Rightarrow> experiment_row \<Rightarrow> bool \<Rightarrow> (mutation_error, unit) result" where
  "ensure_experiment_analysis_fields_immutable before desired end_date_allowed =
     (if ex_status before = ''draft'' then Inr ()
      else case changed_frozen_fields before desired end_date_allowed of
             [] \<Rightarrow> Inr ()
           | x # xs \<Rightarrow> Inl (ImmutableExperimentError (ex_key before) (x # xs)))"

definition archive_experiment :: "config_db \<Rightarrow> int \<Rightarrow> int \<Rightarrow> experiment_row \<Rightarrow> string \<Rightarrow> experiment_row tx" where
  "archive_experiment db now archive_time before actor =
     bind_tx (if ex_status before \<in> {''scheduled'', ''running''}
              then finalize_terminal_analysis_window before (before\<lparr>ex_status := ''stopped''\<rparr>) archive_time
              else Inr (before, False))
       (\<lambda>(desired, _). write_experiment db
          (\<lambda>e. experiment_at (ex_project_id before) (ex_key before) e \<and> ex_version e = ex_version before
             \<and> ex_status e \<noteq> ''draft'' \<and> ex_archived_at e = None)
          (\<lambda>e. e\<lparr>ex_status := ex_status desired, ex_end_date := ex_end_date desired,
                 ex_archived_at := Some archive_time, ex_archived_by := Some actor,
                 ex_version := ex_version e + 1, ex_updated_at := now\<rparr>)
          (ex_key before) (ex_version before))"

definition delete_draft_experiment :: "config_db \<Rightarrow> experiment_row \<Rightarrow> (mutation_error, config_db) result" where
  "delete_draft_experiment db before =
     (let P = (\<lambda>e. experiment_at (ex_project_id before) (ex_key before) e \<and> ex_version e = ex_version before
                 \<and> ex_status e = ''draft'' \<and> ex_archived_at e = None)
      in if find P (cd_experiments db) = None
         then Inl (VersionConflictError ''Experiment'' (ex_key before) (ex_version before))
         else Inr (db\<lparr>cd_experiments := filter (\<lambda>e. \<not> P e) (cd_experiments db)\<rparr>))"

section \<open>Commands on standalone flags\<close>

definition create_standalone_flag ::
    "pydantic \<Rightarrow> config_db \<Rightarrow> int \<Rightarrow> int \<Rightarrow> dict \<Rightarrow> string \<Rightarrow> dict tx" where
  "create_standalone_flag py db row_id now flag actor =
     bind_tx (insert_flag py db now flag) (\<lambda>(created, db).
     bind_tx (audit_flag db ''flag_created'' actor ''manual'' None (Some created) '''' (PDict [])) (\<lambda>db.
     bind_tx (enqueue_flag_change py db row_id now ''flag_created'' created) (\<lambda>(_, db).
     Inr (created, db))))"

text \<open>The guards every standalone command starts with.\<close>

definition guarded_flag :: "config_db \<Rightarrow> string \<Rightarrow> string \<Rightarrow> int \<Rightarrow> (mutation_error, dict) result" where
  "guarded_flag db project_id key expected_version =
     bind_tx (locked_flag db project_id key) (\<lambda>before.
     bind_tx (reject_experiment_owned db project_id key) (\<lambda>_.
     if flag_version before \<noteq> expected_version
     then Inl (VersionConflictError ''Flag'' key (flag_version before)) else Inr before))"

definition update_standalone_flag ::
    "pydantic \<Rightarrow> config_db \<Rightarrow> int \<Rightarrow> int \<Rightarrow> string \<Rightarrow> string \<Rightarrow> int \<Rightarrow> dict \<Rightarrow> string \<Rightarrow> dict tx" where
  "update_standalone_flag py db row_id now project_id key expected_version updates actor =
     bind_tx (guarded_flag db project_id key expected_version) (\<lambda>before.
     bind_tx (update_flag py db now (dmerge before updates) expected_version) (\<lambda>(updated, db).
     bind_tx (audit_flag db ''flag_updated'' actor ''manual'' (Some before) (Some updated) '''' (PDict [])) (\<lambda>db.
     bind_tx (enqueue_flag_change py db row_id now ''flag_updated'' updated) (\<lambda>(_, db).
     Inr (updated, db)))))"

definition transition_standalone_flag ::
    "pydantic \<Rightarrow> config_db \<Rightarrow> int \<Rightarrow> int \<Rightarrow> string \<Rightarrow> string \<Rightarrow> int \<Rightarrow> string \<Rightarrow> string \<Rightarrow> dict tx" where
  "transition_standalone_flag py db row_id now project_id key expected_version target_state actor =
     bind_tx (guarded_flag db project_id key expected_version) (\<lambda>before.
     bind_tx (transition_flag db now before target_state) (\<lambda>(updated, db).
     bind_tx (audit_flag db ''flag_updated'' actor ''manual'' (Some before) (Some updated)
                (''transition_to_'' @ target_state) (PDict [])) (\<lambda>db.
     bind_tx (enqueue_flag_change py db row_id now ''flag_updated'' updated) (\<lambda>(_, db).
     Inr (updated, db)))))"

definition disable_standalone_flag ::
    "pydantic \<Rightarrow> config_db \<Rightarrow> int \<Rightarrow> int \<Rightarrow> string \<Rightarrow> string \<Rightarrow> int \<Rightarrow> string \<Rightarrow> dict \<Rightarrow> string
     \<Rightarrow> (dict \<times> bool) tx" where
  "disable_standalone_flag py db row_id now project_id key expected_version reason evidence actor =
     bind_tx (guarded_flag db project_id key expected_version) (\<lambda>before.
     if \<not> truthy (dget_default before ''enabled'' (PBool False)) then Inr ((before, False), db)
     else
     bind_tx (disable_flag db now before reason actor) (\<lambda>(updated, db).
     bind_tx (audit_flag db ''flag_disabled'' actor ''manual'' (Some before) (Some updated) reason (PDict evidence)) (\<lambda>db.
     bind_tx (enqueue_flag_change py db row_id now ''flag_updated'' updated) (\<lambda>(_, db).
     Inr ((updated, True), db)))))"

definition archive_standalone_flag ::
    "pydantic \<Rightarrow> config_db \<Rightarrow> int \<Rightarrow> int \<Rightarrow> string \<Rightarrow> string \<Rightarrow> int \<Rightarrow> string \<Rightarrow> dict tx" where
  "archive_standalone_flag py db row_id now project_id key expected_version actor =
     bind_tx (guarded_flag db project_id key expected_version) (\<lambda>before.
     bind_tx (archive_flag db now before) (\<lambda>(archived, db).
     bind_tx (audit_flag db ''flag_archived'' actor ''manual'' (Some before) (Some archived) '''' (PDict [])) (\<lambda>db.
     bind_tx (enqueue_flag_change py db row_id now ''flag_archived'' archived) (\<lambda>(_, db).
     Inr (archived, db)))))"

text \<open>A malformed fallthrough, which validation keeps out of the table, counts as no percentage.\<close>

definition rollout_percentage :: "dict \<Rightarrow> pyval" where
  "rollout_percentage flag = (case dget flag ''fallthrough'' of
     PDict f \<Rightarrow> (case dget f ''rollout'' of PDict r \<Rightarrow> dget r ''percentage'' | _ \<Rightarrow> PNone)
   | _ \<Rightarrow> PNone)"

definition positive_variant_keys :: "dict \<Rightarrow> pyval list" where
  "positive_variant_keys flag = (case dget flag ''variants'' of
     PList vs \<Rightarrow> List.map_filter (\<lambda>v. case v of
       PDict d \<Rightarrow> (case dget d ''weight'' of PInt w \<Rightarrow> if 0 < w then Some (dget d ''key'') else None
                  | PBool True \<Rightarrow> Some (dget d ''key'') | _ \<Rightarrow> None)
     | _ \<Rightarrow> None) vs
   | _ \<Rightarrow> [])"

definition cleanup_reasons :: "dict \<Rightarrow> string list" where
  "cleanup_reasons flag =
     (if dget flag ''state'' \<noteq> PStr ''active'' \<or> \<not> truthy (dget_default flag ''enabled'' (PBool False)) then []
      else if truthy (dget flag ''rules'') then []
      else if (case rollout_percentage flag of
                 PInt i \<Rightarrow> i < 100 | PFloat f \<Rightarrow> flt_less f (Fin 100) | _ \<Rightarrow> True) then []
      else (case positive_variant_keys flag of
              [k] \<Rightarrow> if k \<noteq> dget flag ''default_variant'' then [''fully_rolled_out''] else []
            | _ \<Rightarrow> []))"

definition cleanup_standalone_flag ::
    "pydantic \<Rightarrow> config_db \<Rightarrow> int \<Rightarrow> int \<Rightarrow> string \<Rightarrow> string \<Rightarrow> int \<Rightarrow> dict \<Rightarrow> string
     \<Rightarrow> (dict \<times> string list) tx" where
  "cleanup_standalone_flag py db row_id now project_id key expected_version evidence actor =
     bind_tx (guarded_flag db project_id key expected_version) (\<lambda>before.
     if ''fully_rolled_out'' \<notin> set (cleanup_reasons before)
     then Inl (IntegrityError (''Flag '' @ key @ '' is not eligible for cleanup''))
     else
     bind_tx (archive_flag db now before) (\<lambda>(archived, db).
     bind_tx (audit_flag db ''flag_cleanup_archived'' actor ''manual'' (Some before) (Some archived)
                ''fully_rolled_out''
                (PDict (dset evidence ''cleanup_reasons'' (PList (map PStr (cleanup_reasons before)))))) (\<lambda>db.
     bind_tx (enqueue_flag_change py db row_id now ''flag_archived'' archived) (\<lambda>(_, db).
     Inr ((archived, cleanup_reasons before), db)))))"

section \<open>Commands on experiments\<close>

definition create_experiment_bundle ::
    "pydantic \<Rightarrow> config_db \<Rightarrow> int \<times> int \<Rightarrow> int \<Rightarrow> experiment_row \<Rightarrow> dict \<Rightarrow> string \<Rightarrow> (experiment_row \<times> dict) tx" where
  "create_experiment_bundle py db ids now experiment flag actor =
     bind_tx (insert_flag py db now flag) (\<lambda>(created_flag, db).
     bind_tx (insert_experiment db now
        (if ex_status experiment \<noteq> ''draft''
         then experiment\<lparr>ex_minimum_exposure_config_version := Some (flag_version created_flag)\<rparr>
         else experiment)) (\<lambda>(created_experiment, db).
     bind_tx (audit_experiment db ''experiment_created'' actor None (Some created_experiment)) (\<lambda>db.
     bind_tx (audit_flag db ''flag_created'' actor ''experiment'' None (Some created_flag)
                (''experiment:'' @ ex_key created_experiment) (PDict [])) (\<lambda>db.
     bind_tx (enqueue_flag_change py db (fst ids) now ''flag_created'' created_flag) (\<lambda>(v, db).
     bind_tx (enqueue_experiment_change db (snd ids) now ''experiment_created'' created_experiment v) (\<lambda>(_, db).
     Inr ((created_experiment, created_flag), db)))))))"

definition update_experiment_bundle ::
    "pydantic \<Rightarrow> config_db \<Rightarrow> int \<times> int \<Rightarrow> int \<Rightarrow> int \<Rightarrow> experiment_row \<Rightarrow> int \<Rightarrow> string \<Rightarrow> string
     \<Rightarrow> (experiment_row \<times> dict) tx" where
  "update_experiment_bundle py db ids now wall desired0 expected_version actor origin =
     bind_tx (locked_experiment db (ex_project_id desired0) (ex_key desired0)) (\<lambda>before.
     if ex_version before \<noteq> expected_version
     then Inl (VersionConflictError ''Experiment'' (ex_key desired0) (ex_version before))
     else if ex_archived_at before \<noteq> None then Inl (ArchivedExperimentError (ex_key before))
     else if ex_flag_key desired0 \<noteq> ex_flag_key before
     then Inl (IntegrityError ''Experiment flag ownership is immutable'')
     else
     bind_tx (finalize_terminal_analysis_window before desired0 wall) (\<lambda>(desired, end_allowed).
     bind_tx (ensure_experiment_analysis_fields_immutable before desired end_allowed) (\<lambda>_.
     bind_tx (locked_flag db (ex_project_id desired) (ex_flag_key before)) (\<lambda>before_flag.
     bind_tx (case derived_experiment_flag py desired before_flag of
                None \<Rightarrow> Inl ValidationFailed | Some f \<Rightarrow> Inr f) (\<lambda>merged_flag.
     bind_tx (update_flag py db now merged_flag (flag_version before_flag)) (\<lambda>(updated_flag, db).
     bind_tx (update_experiment db now
        (if ex_status before = ''draft'' \<and> ex_status desired \<noteq> ''draft''
         then desired\<lparr>ex_minimum_exposure_config_version := Some (flag_version updated_flag)\<rparr>
         else desired) expected_version) (\<lambda>(updated, db).
     bind_tx (audit_experiment db
        (if ex_status before \<noteq> ex_status updated then ''experiment_status_changed'' else ''experiment_updated'')
        actor (Some before) (Some updated)) (\<lambda>db.
     bind_tx (audit_flag db ''flag_updated'' actor origin (Some before_flag) (Some updated_flag)
                (''experiment:'' @ ex_key updated) (PDict [])) (\<lambda>db.
     bind_tx (enqueue_flag_change py db (fst ids) now ''flag_updated'' updated_flag) (\<lambda>(v, db).
     bind_tx (enqueue_experiment_change db (snd ids) now ''experiment_updated'' updated v) (\<lambda>(_, db).
     Inr ((updated, updated_flag), db))))))))))))"

definition delete_experiment_bundle ::
    "pydantic \<Rightarrow> config_db \<Rightarrow> int \<times> int \<Rightarrow> int \<Rightarrow> int \<Rightarrow> string \<Rightarrow> string \<Rightarrow> int \<Rightarrow> string
     \<Rightarrow> (experiment_row \<times> dict) tx" where
  "delete_experiment_bundle py db ids now wall project_id key expected_version actor =
     bind_tx (locked_experiment db project_id key) (\<lambda>experiment.
     if ex_version experiment \<noteq> expected_version
     then Inl (VersionConflictError ''Experiment'' key (ex_version experiment))
     else if ex_archived_at experiment \<noteq> None then Inl (ArchivedExperimentError key)
     else
     bind_tx (locked_flag db project_id (ex_flag_key experiment)) (\<lambda>before_flag.
     bind_tx (archive_flag db now before_flag) (\<lambda>(archived, db).
     bind_tx (if ex_status experiment = ''draft''
              then bind_tx (delete_draft_experiment db experiment) (\<lambda>db.
                     Inr ((experiment\<lparr>ex_version := expected_version + 1\<rparr>, ''experiment_deleted'', None), db))
              else bind_tx (archive_experiment db now wall experiment actor) (\<lambda>(removed, db).
                     Inr ((removed, ''experiment_archived'', Some removed), db)))
       (\<lambda>((removed, action, audit_after), db).
     bind_tx (audit_experiment db action actor (Some experiment) audit_after) (\<lambda>db.
     bind_tx (audit_flag db ''flag_archived'' actor ''experiment'' (Some before_flag) (Some archived)
                (action @ '':'' @ key) (PDict [])) (\<lambda>db.
     bind_tx (enqueue_flag_change py db (fst ids) now ''flag_archived'' archived) (\<lambda>(v, db).
     bind_tx (enqueue_experiment_change db (snd ids) now action removed v) (\<lambda>(_, db).
     Inr ((removed, archived), db)))))))))"

definition launch_plan_ok :: "float_library \<Rightarrow> pydantic \<Rightarrow> experiment_row \<Rightarrow> bool" where
  "launch_plan_ok lib py e =
     (case (parse_statistical_plan py (ex_statistical_plan e), ex_primary_metric_json e, ex_variants_json e) of
        (Some plan, JsonOf m, JsonOf (PList vs)) \<Rightarrow>
          (case parse_experiment_metric m of
             Some metric \<Rightarrow> validate_statistical_plan lib ''running'' (Some plan) (Some metric) (int (length vs))
           | None \<Rightarrow> False)
      | _ \<Rightarrow> False)"

definition transition_due_experiment ::
    "float_library \<Rightarrow> pydantic \<Rightarrow> config_db \<Rightarrow> int \<times> int \<Rightarrow> int \<Rightarrow> int \<Rightarrow> string \<Rightarrow> string \<Rightarrow> int \<Rightarrow> int
     \<Rightarrow> (experiment_row \<times> dict) option tx" where
  "transition_due_experiment lib py db ids now wall project_id key expected_version due =
     bind_tx (locked_experiment db project_id key) (\<lambda>current.
     if ex_version current \<noteq> expected_version then Inr (None, db)
     else
     let advance = (\<lambda>target.
       bind_tx (update_experiment_bundle py db ids now wall (current\<lparr>ex_status := target\<rparr>) expected_version
                  ''system:experiment-scheduler'' ''scheduler'') (\<lambda>(r, db'). Inr (Some r, db')))
     in if ex_status current = ''scheduled'' then
          (case (ex_start_date current, ex_end_date current) of
             (Some start, Some end_date) \<Rightarrow>
               if due < start then Inr (None, db)
               else if due < end_date
               then (if launch_plan_ok lib py current then advance ''running''
                     else Inl (IntegrityError ''Scheduled experiment lacks a valid predeclared statistical plan''))
               else advance ''stopped''
           | _ \<Rightarrow> Inr (None, db))
        else if ex_status current = ''running'' then
          (case ex_end_date current of
             Some end_date \<Rightarrow> if due < end_date then Inr (None, db) else advance ''completed''
           | None \<Rightarrow> Inr (None, db))
        else Inr (None, db))"

section \<open>The lifecycle scheduler\<close>

text \<open>
  Candidates come back ordered by project and key; \<open>collate\<close> is the rank of such a pair in the
  collation of the database. An identifier pair is drawn per candidate.
\<close>

definition get_due_experiments :: "(string \<times> string \<Rightarrow> nat) \<Rightarrow> config_db \<Rightarrow> int \<Rightarrow> experiment_row list" where
  "get_due_experiments collate db now = sort_key (\<lambda>e. collate (ex_project_id e, ex_key e)) (filter (\<lambda>e. ex_archived_at e = None
     \<and> ((ex_status e = ''scheduled'' \<and> (case ex_start_date e of Some s \<Rightarrow> s \<le> now | None \<Rightarrow> False))
        \<or> (ex_status e = ''running'' \<and> (case ex_end_date e of Some t \<Rightarrow> t \<le> now | None \<Rightarrow> False))))
     (cd_experiments db))"

fun advance_loop ::
    "float_library \<Rightarrow> pydantic \<Rightarrow> int \<Rightarrow> int \<Rightarrow> int \<Rightarrow> config_db \<Rightarrow> ((int \<times> int) \<times> experiment_row) list
     \<Rightarrow> int \<Rightarrow> int \<times> config_db" where
  "advance_loop lib py now wall due db [] advanced = (advanced, db)"
| "advance_loop lib py now wall due db ((ids, e) # candidates) advanced =
     (case transition_due_experiment lib py db ids now wall (ex_project_id e) (ex_key e) (ex_version e) due of
        Inl _ \<Rightarrow> advance_loop lib py now wall due db candidates advanced
      | Inr (None, db') \<Rightarrow> advance_loop lib py now wall due db' candidates advanced
      | Inr (Some _, db') \<Rightarrow> advance_loop lib py now wall due db' candidates (advanced + 1))"

definition advance_due_experiments ::
    "float_library \<Rightarrow> pydantic \<Rightarrow> (string \<times> string \<Rightarrow> nat) \<Rightarrow> config_db \<Rightarrow> (int \<times> int) list \<Rightarrow> int \<Rightarrow> int \<Rightarrow> int \<Rightarrow> int \<times> config_db" where
  "advance_due_experiments lib py collate db ids now wall due =
     advance_loop lib py now wall due db (zip ids (get_due_experiments collate db due)) 0"

definition validate_interval_seconds :: "pyval \<Rightarrow> int option" where
  "validate_interval_seconds v = (case v of
     PInt i \<Rightarrow> if 1 \<le> i \<and> i \<le> 86400 then Some i else None | _ \<Rightarrow> None)"

section \<open>Commands as the service issues them\<close>

text \<open>
  The endpoint that creates an experiment (\<open>routers/admin.py\<close>) derives the flag from the request,
  in the project of the experiment and with a fresh salt.
\<close>

definition experiment_flag_request ::
    "string \<Rightarrow> experiment_row \<Rightarrow> variant_config list \<Rightarrow> targeting_rule list \<Rightarrow> dict option" where
  "experiment_flag_request salt e variants rules = do {
     d \<leftarrow> build_flag_create (ex_flag_key e) (ex_key e) (ex_description e) (ex_status e) variants
            (ex_default_variant e) (ex_traffic_percentage e) rules (ex_bucket_by e);
     Some (dmerge d [(''project_id'', PStr (ex_project_id e)), (''salt'', PStr salt)]) }"

datatype config_cmd =
    CreateFlag int int dict string
  | UpdateFlag int int string string int dict string
  | TransitionFlag int int string string int string string
  | DisableFlag int int string string int string dict string
  | ArchiveFlag int int string string int string
  | CleanupFlag int int string string int dict string
  | CreateExperiment "int \<times> int" int string experiment_row "variant_config list" "targeting_rule list" string
  | UpdateExperiment "int \<times> int" int int experiment_row int string
  | DeleteExperiment "int \<times> int" int int string string int string
  | DueExperiment "int \<times> int" int int string string int int

definition tx_state :: "'a tx \<Rightarrow> (mutation_error, config_db) result" where
  "tx_state r = (case r of Inl e \<Rightarrow> Inl e | Inr (_, db) \<Rightarrow> Inr db)"

fun run_command ::
    "float_library \<Rightarrow> pydantic \<Rightarrow> config_db \<Rightarrow> config_cmd \<Rightarrow> (mutation_error, config_db) result" where
  "run_command lib py db (CreateFlag i now flag actor) = tx_state (create_standalone_flag py db i now flag actor)"
| "run_command lib py db (UpdateFlag i now p k v updates actor) =
     tx_state (update_standalone_flag py db i now p k v updates actor)"
| "run_command lib py db (TransitionFlag i now p k v target actor) =
     tx_state (transition_standalone_flag py db i now p k v target actor)"
| "run_command lib py db (DisableFlag i now p k v reason evidence actor) =
     tx_state (disable_standalone_flag py db i now p k v reason evidence actor)"
| "run_command lib py db (ArchiveFlag i now p k v actor) =
     tx_state (archive_standalone_flag py db i now p k v actor)"
| "run_command lib py db (CleanupFlag i now p k v evidence actor) =
     tx_state (cleanup_standalone_flag py db i now p k v evidence actor)"
| "run_command lib py db (CreateExperiment ids now salt e variants rules actor) =
     (case experiment_flag_request salt e variants rules of
        None \<Rightarrow> Inl ValidationFailed
      | Some flag \<Rightarrow> tx_state (create_experiment_bundle py db ids now e flag actor))"
| "run_command lib py db (UpdateExperiment ids now wall desired v actor) =
     tx_state (update_experiment_bundle py db ids now wall desired v actor ''experiment'')"
| "run_command lib py db (DeleteExperiment ids now wall p k v actor) =
     tx_state (delete_experiment_bundle py db ids now wall p k v actor)"
| "run_command lib py db (DueExperiment ids now wall p k v due) =
     tx_state (transition_due_experiment lib py db ids now wall p k v due)"

text \<open>A failed command leaves the state as it was.\<close>

definition run_commands :: "float_library \<Rightarrow> pydantic \<Rightarrow> config_db \<Rightarrow> config_cmd list \<Rightarrow> config_db" where
  "run_commands lib py db cmds =
     foldl (\<lambda>db c. case run_command lib py db c of Inl _ \<Rightarrow> db | Inr db' \<Rightarrow> db') db cmds"

section \<open>Vocabulary of the statements\<close>

text \<open>The backing flag serves exactly as the experiment's status says.\<close>

definition serves_status :: "dict \<Rightarrow> experiment_row \<Rightarrow> bool" where
  "serves_status r e \<longleftrightarrow> flag_at (ex_project_id e) (ex_flag_key e) r \<and> live r
     \<and> (\<exists>state enabled. status_to_flag_state (ex_status e) = Some (state, enabled)
          \<and> dget r ''state'' = PStr state \<and> dget r ''enabled'' = PBool enabled)"

definition config_inv :: "config_db \<Rightarrow> bool" where
  "config_inv db \<longleftrightarrow>
     distinct (map (\<lambda>r. (dget r ''project_id'', dget r ''key'')) (cd_flags db))
     \<and> distinct (map (\<lambda>e. (ex_project_id e, ex_key e)) (cd_experiments db))
     \<and> distinct (map (\<lambda>e. (ex_project_id e, ex_flag_key e)) (cd_experiments db))
     \<and> (\<forall>r \<in> set (cd_flags db). 1 \<le> flag_version r)
     \<and> (\<forall>e \<in> set (cd_experiments db). ex_archived_at e = None \<longrightarrow> (\<exists>r \<in> set (cd_flags db). serves_status r e))"

text \<open>The outbox moved by one commit of changes under the given identifiers.\<close>

definition committed :: "config_db \<Rightarrow> config_db \<Rightarrow> int \<Rightarrow> string \<Rightarrow> int list \<Rightarrow> bool" where
  "committed db db' now p ids \<longleftrightarrow>
     (\<exists>changes. map fst changes = ids \<and> list_all (\<lambda>(_, k, _, _). is_config_kind k) changes
        \<and> commit_changes (cd_outbox db) now p changes = Inr (cd_outbox db'))"

fun command_now :: "config_cmd \<Rightarrow> int" where
  "command_now (CreateFlag _ now _ _) = now"
| "command_now (UpdateFlag _ now _ _ _ _ _) = now"
| "command_now (TransitionFlag _ now _ _ _ _ _) = now"
| "command_now (DisableFlag _ now _ _ _ _ _ _) = now"
| "command_now (ArchiveFlag _ now _ _ _ _) = now"
| "command_now (CleanupFlag _ now _ _ _ _ _) = now"
| "command_now (CreateExperiment _ now _ _ _ _ _) = now"
| "command_now (UpdateExperiment _ now _ _ _ _) = now"
| "command_now (DeleteExperiment _ now _ _ _ _ _) = now"
| "command_now (DueExperiment _ now _ _ _ _ _) = now"

fun command_project :: "config_cmd \<Rightarrow> string" where
  "command_project (CreateFlag _ _ flag _) = column flag ''project_id''"
| "command_project (UpdateFlag _ _ p _ _ _ _) = p"
| "command_project (TransitionFlag _ _ p _ _ _ _) = p"
| "command_project (DisableFlag _ _ p _ _ _ _ _) = p"
| "command_project (ArchiveFlag _ _ p _ _ _) = p"
| "command_project (CleanupFlag _ _ p _ _ _ _) = p"
| "command_project (CreateExperiment _ _ _ e _ _ _) = ex_project_id e"
| "command_project (UpdateExperiment _ _ _ e _ _) = ex_project_id e"
| "command_project (DeleteExperiment _ _ _ p _ _ _) = p"
| "command_project (DueExperiment _ _ _ p _ _ _) = p"

fun command_ids :: "config_cmd \<Rightarrow> int list" where
  "command_ids (CreateFlag i _ _ _) = [i]"
| "command_ids (UpdateFlag i _ _ _ _ _ _) = [i]"
| "command_ids (TransitionFlag i _ _ _ _ _ _) = [i]"
| "command_ids (DisableFlag i _ _ _ _ _ _ _) = [i]"
| "command_ids (ArchiveFlag i _ _ _ _ _) = [i]"
| "command_ids (CleanupFlag i _ _ _ _ _ _) = [i]"
| "command_ids (CreateExperiment (i, j) _ _ _ _ _ _) = [i, j]"
| "command_ids (UpdateExperiment (i, j) _ _ _ _ _) = [i, j]"
| "command_ids (DeleteExperiment (i, j) _ _ _ _ _ _) = [i, j]"
| "command_ids (DueExperiment (i, j) _ _ _ _ _ _) = [i, j]"

text \<open>The update request of a flag has no field for its key or its project.\<close>

fun request_ok :: "config_cmd \<Rightarrow> bool" where
  "request_ok (UpdateFlag _ _ _ _ _ updates _) \<longleftrightarrow>
     ''key'' \<notin> fst ` set updates \<and> ''project_id'' \<notin> fst ` set updates"
| "request_ok _ \<longleftrightarrow> True"

text \<open>What one command does to the state, whatever the command.\<close>

definition flags_grow :: "config_db \<Rightarrow> config_db \<Rightarrow> bool" where
  "flags_grow db db' \<longleftrightarrow>
     (\<forall>r \<in> set (cd_flags db). \<forall>p k. flag_at p k r \<longrightarrow>
        (\<exists>q \<in> set (cd_flags db'). flag_at p k q \<and> flag_version r \<le> flag_version q))"

definition command_effect :: "config_db \<Rightarrow> config_db \<Rightarrow> int \<Rightarrow> string \<Rightarrow> int list \<Rightarrow> bool" where
  "command_effect db db' now p ids \<longleftrightarrow>
     config_inv db' \<and> flags_grow db db' \<and> (db' = db \<or> committed db db' now p ids)"

text \<open>The lifecycle step that is due for an experiment at a time.\<close>

definition due_transition :: "experiment_row \<Rightarrow> int \<Rightarrow> string \<Rightarrow> bool" where
  "due_transition e due target \<longleftrightarrow>
     (\<exists>start end_date. ex_status e = ''scheduled'' \<and> ex_start_date e = Some start \<and> ex_end_date e = Some end_date
        \<and> start \<le> due \<and> target = (if due < end_date then ''running'' else ''stopped''))
     \<or> (\<exists>end_date. ex_status e = ''running'' \<and> ex_end_date e = Some end_date \<and> end_date \<le> due \<and> target = ''completed'')"

text \<open>A command on a standalone flag also leaves it at the version after the expected one.\<close>

definition standalone_effect ::
    "config_db \<Rightarrow> config_db \<Rightarrow> int \<Rightarrow> string \<Rightarrow> string \<Rightarrow> int \<Rightarrow> int \<Rightarrow> bool" where
  "standalone_effect db db' now p k v i \<longleftrightarrow> command_effect db db' now p [i]
     \<and> (db' = db \<or> (\<exists>q \<in> set (cd_flags db'). flag_at p k q \<and> flag_version q = v + 1))"

text \<open>The flag a command on a standalone flag is about, and the version it expects.\<close>

fun flag_target :: "config_cmd \<Rightarrow> (string \<times> string \<times> int) option" where
  "flag_target (UpdateFlag _ _ p k v _ _) = Some (p, k, v)"
| "flag_target (TransitionFlag _ _ p k v _ _) = Some (p, k, v)"
| "flag_target (DisableFlag _ _ p k v _ _ _) = Some (p, k, v)"
| "flag_target (ArchiveFlag _ _ p k v _) = Some (p, k, v)"
| "flag_target (CleanupFlag _ _ p k v _ _) = Some (p, k, v)"
| "flag_target _ = None"

end
