(* ===== verification/MutationLaws.thy ===== *)
theory MutationLaws
  imports Mutations
begin

text \<open>
  Properties of the transactional commands of the Config service: each is one commit of the
  outbox, the backing flag of an experiment serves the experiment's status, versions guard
  concurrent writers, and the analysis fields are frozen once an experiment leaves draft.
\<close>

section \<open>Lemmas: transactions\<close>

lemma bind_tx_Inr: "bind_tx r f = Inr y \<longleftrightarrow> (\<exists>x. r = Inr x \<and> f x = Inr y)"
  by (cases r) (auto simp: bind_tx_def)

lemma bind_tx_simps [simp]: "bind_tx (Inl e) f = Inl e" "bind_tx (Inr x) f = f x"
  by (simp_all add: bind_tx_def)

lemma tx_state_Inr: "tx_state r = Inr db \<longleftrightarrow> (\<exists>x. r = Inr (x, db))"
  by (auto simp: tx_state_def split: sum.splits)

lemma audit_flag_Inr:
  "audit_flag db action actor origin before after reason evidence = Inr db' \<Longrightarrow>
   cd_flags db' = cd_flags db \<and> cd_experiments db' = cd_experiments db \<and> cd_outbox db' = cd_outbox db"
  by (auto simp: audit_flag_def split: option.splits if_splits)

lemma audit_experiment_Inr:
  "audit_experiment db action actor before after = Inr db' \<Longrightarrow>
   cd_flags db' = cd_flags db \<and> cd_experiments db' = cd_experiments db \<and> cd_outbox db' = cd_outbox db"
  by (auto simp: audit_experiment_def split: option.splits)

text \<open>The outbox part of a command, as one commit of a list of changes.\<close>

lemma enqueue_flag_change_Inr:
  assumes "enqueue_flag_change py db i now action flag = Inr (v, db')"
  shows "cd_flags db' = cd_flags db" "cd_experiments db' = cd_experiments db"
    "\<exists>data. commit_changes (cd_outbox db) now (column flag ''project_id'')
       [(i, ''flag_change'', dedup_key_of (column flag ''key'') (flag_version flag) action, data)] = Inr (cd_outbox db')"
    "v = project_version_of (cd_outbox db) (column flag ''project_id'') + 1"
proof -
  obtain w ob where n: "next_project_version (cd_outbox db) (column flag ''project_id'') = (w, ob)" by fastforce
  then obtain data ob' where d: "w = v" "db' = db\<lparr>cd_outbox := ob'\<rparr>"
    "insert_outbox ob i now (column flag ''project_id'') ''flag_change''
       (dedup_key_of (column flag ''key'') (flag_version flag) action) (change_payload ''flag_change'' v data) = Inr ob'"
    using assms by (auto simp: enqueue_flag_change_def bind_tx_Inr split: option.splits)
  then show "cd_flags db' = cd_flags db" "cd_experiments db' = cd_experiments db" by simp_all
  show "\<exists>data. commit_changes (cd_outbox db) now (column flag ''project_id'')
       [(i, ''flag_change'', dedup_key_of (column flag ''key'') (flag_version flag) action, data)] = Inr (cd_outbox db')"
    using n d by (intro exI [of _ data]) (simp add: commit_changes_def)
  show "v = project_version_of (cd_outbox db) (column flag ''project_id'') + 1"
    using next_versionD(1) [OF n] d by simp
qed

lemma enqueue_experiment_change_Inr:
  assumes "enqueue_experiment_change db j now action e v = Inr (w, db')"
    and "commit_changes ob now (ex_project_id e) [c] = Inr (cd_outbox db)"
    and "v = project_version_of ob (ex_project_id e) + 1"
  shows "cd_flags db' = cd_flags db" "cd_experiments db' = cd_experiments db"
    "commit_changes ob now (ex_project_id e)
       [c, (j, ''experiment_change'', dedup_key_of (ex_key e) (ex_version e) action, experiment_delivery_data action e)]
     = Inr (cd_outbox db')"
proof -
  obtain u ob1 where n: "next_project_version ob (ex_project_id e) = (u, ob1)" by fastforce
  with next_versionD(1) [OF n] assms(3) have u: "u = v" by simp
  from assms(1) obtain ob' where d: "db' = db\<lparr>cd_outbox := ob'\<rparr>"
    "insert_outbox (cd_outbox db) j now (ex_project_id e) ''experiment_change''
       (dedup_key_of (ex_key e) (ex_version e) action)
       (change_payload ''experiment_change'' v (experiment_delivery_data action e)) = Inr ob'"
    by (auto simp: enqueue_experiment_change_def bind_tx_Inr)
  then show "cd_flags db' = cd_flags db" "cd_experiments db' = cd_experiments db" by simp_all
  show "commit_changes ob now (ex_project_id e)
       [c, (j, ''experiment_change'', dedup_key_of (ex_key e) (ex_version e) action, experiment_delivery_data action e)]
     = Inr (cd_outbox db')"
    using assms(2) n u d by (cases c) (auto simp: commit_changes_def split: sum.splits)
qed

section \<open>Lemmas: flag rows\<close>

lemma dget_dmerge: "dget (dmerge d e) k = (case map_of (rev e) k of Some v \<Rightarrow> v | None \<Rightarrow> dget d k)"
  by (simp add: dget_def dget_default_def map_of_dmerge split: option.splits)

lemma map_of_columns: "map_of (map (\<lambda>c. (c, g c)) cs) k = (if k \<in> set cs then Some (g k) else None)"
  by (induction cs) auto

lemma dget_row_to_flag [simp]: "k \<in> set FLAG_COLUMNS \<Longrightarrow> dget (row_to_flag r) k = dget r k"
  by (simp add: row_to_flag_def dget_def dget_default_def map_of_columns)

lemma row_to_flag_columns [simp]:
  "dget (row_to_flag r) ''key'' = dget r ''key''" "dget (row_to_flag r) ''project_id'' = dget r ''project_id''"
  "dget (row_to_flag r) ''version'' = dget r ''version''" "dget (row_to_flag r) ''state'' = dget r ''state''"
  "dget (row_to_flag r) ''enabled'' = dget r ''enabled''" "dget (row_to_flag r) ''archived_at'' = dget r ''archived_at''"
  by (simp_all add: FLAG_COLUMNS_def)

lemma flag_version_row [simp]: "flag_version (row_to_flag r) = flag_version r"
  by (simp add: flag_version_def)

lemma locked_flagD:
  assumes "locked_flag db p k = Inr f"
  obtains r where "r \<in> set (cd_flags db)" "flag_at p k r" "live r" "f = row_to_flag r"
    "column f ''project_id'' = p" "column f ''key'' = k"
proof -
  from assms obtain r where r: "find (\<lambda>r. flag_at p k r \<and> live r) (cd_flags db) = Some r" "f = row_to_flag r"
    by (auto simp: locked_flag_def split: option.splits)
  then have "r \<in> set (cd_flags db)" "flag_at p k r" "live r" by (auto simp: find_Some_iff)
  with r show thesis by (intro that [of r]) (auto simp: column_def flag_at_def)
qed

text \<open>The row an UPDATE writes, for columns that are not part of the key.\<close>

definition written :: "int \<Rightarrow> (string \<times> pyval) list \<Rightarrow> dict \<Rightarrow> dict" where
  "written now cols r = dmerge r (cols @ [(''version'', PInt (flag_version r + 1)), (''updated_at'', stamp now)])"

definition plain_columns :: "(string \<times> pyval) list \<Rightarrow> bool" where
  "plain_columns cols \<longleftrightarrow> fst ` set cols \<inter> {''key'', ''project_id'', ''version'', ''updated_at''} = {}"

lemma written_map_of: "c \<notin> fst ` set cols \<Longrightarrow> map_of (rev cols) c = None"
  by (simp add: map_of_eq_None_iff)

lemma plain_columnsD:
  "plain_columns cols \<Longrightarrow> c \<in> {''key'', ''project_id'', ''version'', ''updated_at''} \<Longrightarrow> map_of (rev cols) c = None"
  unfolding plain_columns_def by (rule written_map_of) blast

lemma written_simps:
  assumes "plain_columns cols"
  shows "dget (written now cols r) ''key'' = dget r ''key''"
    "dget (written now cols r) ''project_id'' = dget r ''project_id''"
    "flag_version (written now cols r) = flag_version r + 1"
    "flag_at p k (written now cols r) = flag_at p k r"
proof -
  show "dget (written now cols r) ''key'' = dget r ''key''"
    "dget (written now cols r) ''project_id'' = dget r ''project_id''"
    "flag_version (written now cols r) = flag_version r + 1"
    by (simp_all add: written_def dget_dmerge flag_version_def plain_columnsD [OF assms])
  then show "flag_at p k (written now cols r) = flag_at p k r" by (simp add: flag_at_def)
qed

lemma dget_written:
  assumes "distinct (map fst cols)" "(c, x) \<in> set cols" "c \<notin> {''version'', ''updated_at''}"
  shows "dget (written now cols r) c = x"
proof -
  have "map_of (rev cols) c = Some x" using assms by (auto intro!: map_of_is_SomeI simp: rev_map [symmetric])
  with assms(3) show ?thesis by (simp add: written_def dget_dmerge)
qed

lemma dget_written_other:
  assumes "c \<notin> fst ` set cols" "c \<notin> {''version'', ''updated_at''}"
  shows "dget (written now cols r) c = dget r c"
  using assms(2) by (simp add: written_def dget_dmerge written_map_of [OF assms(1)])

lemma same_key_same_flag:
  "config_inv db \<Longrightarrow> r \<in> set (cd_flags db) \<Longrightarrow> q \<in> set (cd_flags db) \<Longrightarrow> flag_at p k r \<Longrightarrow> flag_at p k q \<Longrightarrow> q = r"
  by (auto simp: config_inv_def distinct_map inj_on_def flag_at_def)

text \<open>One row is replaced, the others stay.\<close>

definition replaced :: "dict \<Rightarrow> dict \<Rightarrow> dict list \<Rightarrow> dict list" where
  "replaced r r' rows = map (\<lambda>q. if q = r then r' else q) rows"

lemma set_replaced: "r \<in> set rows \<Longrightarrow> set (replaced r r' rows) = insert r' (set rows - {r})"
  by (auto simp: replaced_def)

lemma replaced_keys:
  assumes "dget r' ''project_id'' = dget r ''project_id''" "dget r' ''key'' = dget r ''key''"
  shows "map (\<lambda>r. (dget r ''project_id'', dget r ''key'')) (replaced r r' rows)
       = map (\<lambda>r. (dget r ''project_id'', dget r ''key'')) rows"
  unfolding replaced_def map_map by (rule map_cong [OF refl]) (simp add: assms)

lemma write_flagD:
  assumes "write_flag db now p k v cols = Inr (f, db')" "config_inv db"
  obtains r where "r \<in> set (cd_flags db)" "flag_at p k r" "live r" "flag_version r = v"
    "f = row_to_flag (written now cols r)"
    "db' = db\<lparr>cd_flags := replaced r (written now cols r) (cd_flags db)\<rparr>"
proof -
  let ?P = "\<lambda>r. flag_at p k r \<and> flag_version r = v \<and> live r"
  from assms(1) obtain r where r: "find ?P (cd_flags db) = Some r"
    and f: "f = row_to_flag (written now cols r)"
    and d: "db' = db\<lparr>cd_flags := map (\<lambda>q. if ?P q then written now cols q else q) (cd_flags db)\<rparr>"
    unfolding write_flag_def Let_def written_def [symmetric] by (auto split: option.splits)
  from r have rr: "r \<in> set (cd_flags db)" "flag_at p k r" "live r" "flag_version r = v"
    by (auto simp: find_Some_iff)
  have "?P q \<longleftrightarrow> q = r" if "q \<in> set (cd_flags db)" for q
  proof
    assume "?P q"
    then have "flag_at p k q" by simp
    then show "q = r" by (rule same_key_same_flag [OF assms(2) rr(1) that rr(2)])
  next
    assume "q = r"
    then show "?P q" using rr by blast
  qed
  then have "map (\<lambda>q. if ?P q then written now cols q else q) (cd_flags db)
      = replaced r (written now cols r) (cd_flags db)"
    unfolding replaced_def by (intro map_cong [OF refl]) (metis (no_types, lifting))
  with rr f d show thesis by (intro that) simp_all
qed

text \<open>Writing a row keeps the invariant when the experiment it backs, if any, agrees.\<close>

lemma inv_replaced:
  assumes "config_inv db" "r \<in> set (cd_flags db)" "plain_columns cols"
    and "\<And>e. e \<in> set (cd_experiments db) \<Longrightarrow> ex_archived_at e = None \<Longrightarrow>
           flag_at (ex_project_id e) (ex_flag_key e) r \<Longrightarrow> serves_status (written now cols r) e"
  shows "config_inv (db\<lparr>cd_flags := replaced r (written now cols r) (cd_flags db)\<rparr>)"
proof -
  let ?rows = "replaced r (written now cols r) (cd_flags db)"
  note keys = replaced_keys [OF written_simps(2) [OF assms(3)] written_simps(1) [OF assms(3)]]
  have v: "1 \<le> flag_version q" if "q \<in> set ?rows" for q
    using that assms(1,2) written_simps(3) [OF assms(3), of now r]
    by (auto simp: set_replaced config_inv_def)
  have s: "\<exists>q \<in> set ?rows. serves_status q e"
    if e: "e \<in> set (cd_experiments db)" "ex_archived_at e = None" for e
  proof -
    from e assms(1) obtain q where q: "q \<in> set (cd_flags db)" "serves_status q e" by (auto simp: config_inv_def)
    show ?thesis
    proof (cases "q = r")
      case True
      then have "serves_status (written now cols r) e"
        using q(2) by (intro assms(4) e) (simp add: serves_status_def)
      then show ?thesis using assms(2) by (auto simp: set_replaced)
    next
      case False
      then show ?thesis using q assms(2) by (auto simp: set_replaced)
    qed
  qed
  show ?thesis using assms(1) v s by (simp add: config_inv_def keys)
qed

section \<open>Lemmas: the shape of a command\<close>

lemma config_inv_cong:
  "cd_flags db' = cd_flags db \<Longrightarrow> cd_experiments db' = cd_experiments db \<Longrightarrow> config_inv db' = config_inv db"
  by (simp add: config_inv_def)

lemma is_config_kind_simps [simp]: "is_config_kind ''flag_change''" "is_config_kind ''experiment_change''"
  by (simp_all add: is_config_kind_def CONFIG_KINDS_def)

lemma flags_grow_replaced:
  assumes "r \<in> set (cd_flags db)" "plain_columns cols" "cd_flags db' = replaced r (written now cols r) (cd_flags db)"
  shows "flags_grow db db'"
  unfolding flags_grow_def
proof (intro ballI allI impI)
  fix q p k assume q: "q \<in> set (cd_flags db)" "flag_at p k q"
  show "\<exists>q' \<in> set (cd_flags db'). flag_at p k q' \<and> flag_version q \<le> flag_version q'"
  proof (cases "q = r")
    case True
    then show ?thesis using q assms written_simps(3) [OF assms(2), of now r] written_simps(4) [OF assms(2), of p k now r]
      by (intro bexI [of _ "written now cols r"]) (simp_all add: set_replaced)
  next
    case False
    then show ?thesis using q assms by (intro bexI [of _ q]) (simp_all add: set_replaced)
  qed
qed

lemma flags_grow_superset: "set (cd_flags db) \<subseteq> set (cd_flags db') \<Longrightarrow> flags_grow db db'"
  by (auto simp: flags_grow_def)

lemma flags_grow_trans: "flags_grow db1 db2 \<Longrightarrow> flags_grow db2 db3 \<Longrightarrow> flags_grow db1 db3"
  unfolding flags_grow_def by (meson order_trans)

lemma audit_then_enqueue:
  assumes a: "audit_flag db a b c d e f g = Inr db1"
    and q: "enqueue_flag_change py db1 i now action flag = Inr (v, db')"
  shows "cd_flags db' = cd_flags db" "cd_experiments db' = cd_experiments db"
    "committed db db' now (column flag ''project_id'') [i]"
proof -
  note a' = audit_flag_Inr [OF a]
  show "cd_flags db' = cd_flags db" "cd_experiments db' = cd_experiments db"
    using enqueue_flag_change_Inr(1,2) [OF q] a' by simp_all
  from enqueue_flag_change_Inr(3) [OF q] obtain data where
    "commit_changes (cd_outbox db1) now (column flag ''project_id'')
       [(i, ''flag_change'', dedup_key_of (column flag ''key'') (flag_version flag) action, data)] = Inr (cd_outbox db')" by blast
  then show "committed db db' now (column flag ''project_id'') [i]"
    unfolding committed_def using a'
    by (intro exI [of _ "[(i, ''flag_change'', dedup_key_of (column flag ''key'') (flag_version flag) action, data)]"]) simp
qed

lemma column_row:
  assumes "flag_at p k r"
  shows "column (row_to_flag r) ''project_id'' = p" "column (row_to_flag r) ''key'' = k"
  using assms by (simp_all add: column_def flag_at_def)

lemma guarded_flagD:
  assumes "guarded_flag db p k v = Inr before"
  obtains r where "r \<in> set (cd_flags db)" "flag_at p k r" "live r" "before = row_to_flag r"
    "column before ''project_id'' = p" "column before ''key'' = k" "flag_version before = v"
    "\<And>e. e \<in> set (cd_experiments db) \<Longrightarrow> \<not> flag_at (ex_project_id e) (ex_flag_key e) r"
proof -
  from assms have l: "locked_flag db p k = Inr before" and o: "reject_experiment_owned db p k = Inr ()"
    and v: "flag_version before = v"
    by (auto simp: guarded_flag_def bind_tx_Inr split: if_splits)
  from l obtain r where r: "r \<in> set (cd_flags db)" "flag_at p k r" "live r" "before = row_to_flag r"
    "column before ''project_id'' = p" "column before ''key'' = k" by (rule locked_flagD)
  have "\<not> flag_at (ex_project_id e) (ex_flag_key e) r" if "e \<in> set (cd_experiments db)" for e
    using o that r(2) by (auto simp: reject_experiment_owned_def find_None_iff flag_at_def split: option.splits)
  with r v show thesis by (intro that)
qed

text \<open>The common part of the commands that write a standalone flag.\<close>

lemma standalone_write:
  assumes inv: "config_inv db" and g: "guarded_flag db p k v = Inr before"
    and w: "write_flag db now (column before ''project_id'') (column before ''key'') v' cols = Inr (updated, db1)"
    and cols: "plain_columns cols"
    and t: "audit_flag db1 a b c d e f g' = Inr db2" "enqueue_flag_change py db2 i now action updated = Inr (x, db')"
  shows "standalone_effect db db' now p k v i"
proof -
  from g obtain r where r: "r \<in> set (cd_flags db)" "flag_at p k r" "before = row_to_flag r" "flag_version before = v"
    and b: "column before ''project_id'' = p" "column before ''key'' = k"
    and free: "\<And>e. e \<in> set (cd_experiments db) \<Longrightarrow> \<not> flag_at (ex_project_id e) (ex_flag_key e) r"
    by (rule guarded_flagD) blast
  from w [unfolded b] inv obtain q where q: "q \<in> set (cd_flags db)" "flag_at p k q" "live q" "flag_version q = v'"
    "updated = row_to_flag (written now cols q)" "db1 = db\<lparr>cd_flags := replaced q (written now cols q) (cd_flags db)\<rparr>"
    by (rule write_flagD)
  have [simp]: "q = r" by (rule same_key_same_flag [OF inv r(1) q(1) r(2) q(2)])
  have "written now cols r \<in> set (cd_flags db1)" using q(6) r(1) by (simp add: set_replaced)
  moreover have "flag_at p k (written now cols r)" "flag_version (written now cols r) = v + 1"
    using r written_simps(3,4) [OF cols] by simp_all
  moreover have "config_inv db1" unfolding q(6) using free r(1) by (intro inv_replaced inv cols) auto
  moreover have "column updated ''project_id'' = p"
    using q(2,5) by (simp add: column_row written_simps(4) [OF cols])
  ultimately show ?thesis
    using audit_then_enqueue [OF t] config_inv_cong [of db' db1] flags_grow_replaced [OF r(1) cols, of db' now] q(6)
    by (auto simp: standalone_effect_def command_effect_def committed_def)
qed

section \<open>Lemmas: standalone flags\<close>

lemma plain_column_lists [simp]:
  "plain_columns (map (\<lambda>c. (c, g c)) UPDATED_COLUMNS)"
  "plain_columns [(''state'', a), (''enabled'', b), (''disabled_reason'', c), (''disabled_by'', d), (''disabled_at'', e)]"
  "plain_columns [(''state'', a), (''enabled'', b), (''archived_at'', c)]"
  by (simp_all add: plain_columns_def UPDATED_COLUMNS_def)

lemma insert_flagD:
  assumes "insert_flag py db now flag = Inr (f, db1)"
  shows "f = row_to_flag (new_flag_row now flag)" "db1 = db\<lparr>cd_flags := cd_flags db @ [new_flag_row now flag]\<rparr>"
    "\<And>r. r \<in> set (cd_flags db) \<Longrightarrow> \<not> flag_at (column flag ''project_id'') (column flag ''key'') r"
    "flag_at (column flag ''project_id'') (column flag ''key'') (new_flag_row now flag)"
proof -
  show "f = row_to_flag (new_flag_row now flag)" "db1 = db\<lparr>cd_flags := cd_flags db @ [new_flag_row now flag]\<rparr>"
    "\<And>r. r \<in> set (cd_flags db) \<Longrightarrow> \<not> flag_at (column flag ''project_id'') (column flag ''key'') r"
    using assms by (auto simp: insert_flag_def Let_def split: if_splits)
  from assms have "is_str (dget flag ''key'')" "is_str (dget flag ''project_id'')"
    by (auto simp: insert_flag_def split: if_splits)
  then obtain k p where "dget flag ''key'' = PStr k" "dget flag ''project_id'' = PStr p"
    by (auto elim!: is_str.elims)
  moreover have "dget (new_flag_row now flag) ''project_id'' = dget flag ''project_id''"
    "dget (new_flag_row now flag) ''key'' = dget flag ''key''"
    by (simp_all add: new_flag_row_def dget_def dget_default_def)
  ultimately show "flag_at (column flag ''project_id'') (column flag ''key'') (new_flag_row now flag)"
    by (simp add: flag_at_def column_def)
qed

lemma new_flag_row_live [simp]: "live (new_flag_row now flag)" "flag_version (new_flag_row now flag) = 1"
  by (simp_all add: new_flag_row_def live_def flag_version_def dget_def dget_default_def)

lemma inv_appended:
  assumes "config_inv db" "\<And>r. r \<in> set (cd_flags db) \<Longrightarrow> \<not> flag_at p k r" "flag_at p k row" "flag_version row = 1"
  shows "config_inv (db\<lparr>cd_flags := cd_flags db @ [row]\<rparr>)"
  using assms by (force simp: config_inv_def flag_at_def)

lemma create_standalone_flag_effect:
  assumes "config_inv db" "create_standalone_flag py db i now flag actor = Inr (x, db')"
  shows "command_effect db db' now (column flag ''project_id'') [i]"
proof -
  from assms(2) obtain created db1 db2 v' where c: "insert_flag py db now flag = Inr (created, db1)"
    and t: "audit_flag db1 ''flag_created'' actor ''manual'' None (Some created) '''' (PDict []) = Inr db2"
      "enqueue_flag_change py db2 i now ''flag_created'' created = Inr (v', db')"
    by (auto simp: create_standalone_flag_def bind_tx_Inr)
  note ins = insert_flagD [OF c]
  have "config_inv db1" unfolding ins(2) by (rule inv_appended [OF assms(1) ins(3) ins(4)]) simp_all
  moreover have "column created ''project_id'' = column flag ''project_id''"
    unfolding ins(1) by (rule column_row(1) [OF ins(4)])
  ultimately show ?thesis
    using audit_then_enqueue [OF t] config_inv_cong [of db' db1] flags_grow_superset [of db db'] ins(2)
    by (auto simp: command_effect_def committed_def)
qed

lemma column_dmerge_other:
  "c \<notin> fst ` set updates \<Longrightarrow> column (dmerge d updates) c = column d c"
  by (simp add: column_def dget_dmerge written_map_of)

lemma update_standalone_flag_effect:
  assumes "config_inv db" "update_standalone_flag py db i now p k v updates actor = Inr (x, db')"
    and "''key'' \<notin> fst ` set updates" "''project_id'' \<notin> fst ` set updates"
  shows "standalone_effect db db' now p k v i"
proof -
  from assms(2) obtain before updated db1 db2 v' where g: "guarded_flag db p k v = Inr before"
    and u: "update_flag py db now (dmerge before updates) v = Inr (updated, db1)"
    and t: "audit_flag db1 ''flag_updated'' actor ''manual'' (Some before) (Some updated) '''' (PDict []) = Inr db2"
      "enqueue_flag_change py db2 i now ''flag_updated'' updated = Inr (v', db')"
    by (auto simp: update_standalone_flag_def bind_tx_Inr)
  from g obtain r where "column before ''project_id'' = p" "column before ''key'' = k"
    by (rule guarded_flagD) blast
  then have "write_flag db now (column before ''project_id'') (column before ''key'') v
      (map (\<lambda>c. (c, dget (dmerge before updates) c)) UPDATED_COLUMNS) = Inr (updated, db1)"
    using u assms(3,4) by (auto simp: update_flag_def column_dmerge_other split: if_splits)
  then show ?thesis by (rule standalone_write [OF assms(1) g _ plain_column_lists(1) t])
qed

lemma transition_standalone_flag_effect:
  assumes "config_inv db" "transition_standalone_flag py db i now p k v target actor = Inr (x, db')"
  shows "standalone_effect db db' now p k v i"
proof -
  from assms(2) obtain before updated db1 db2 v' where g: "guarded_flag db p k v = Inr before"
    and u: "transition_flag db now before target = Inr (updated, db1)"
    and t: "audit_flag db1 ''flag_updated'' actor ''manual'' (Some before) (Some updated)
        (''transition_to_'' @ target) (PDict []) = Inr db2"
      "enqueue_flag_change py db2 i now ''flag_updated'' updated = Inr (v', db')"
    by (auto simp: transition_standalone_flag_def bind_tx_Inr)
  show ?thesis by (rule standalone_write [OF assms(1) g u [unfolded transition_flag_def] _ t]) simp
qed

lemma disable_standalone_flag_effect:
  assumes "config_inv db" "disable_standalone_flag py db i now p k v reason evidence actor = Inr (x, db')"
  shows "standalone_effect db db' now p k v i"
proof -
  from assms(2) obtain before where g: "guarded_flag db p k v = Inr before"
    by (auto simp: disable_standalone_flag_def bind_tx_Inr)
  show ?thesis
  proof (cases "truthy (dget_default before ''enabled'' (PBool False))")
    case False
    with assms g show ?thesis
      by (auto simp: disable_standalone_flag_def bind_tx_Inr standalone_effect_def command_effect_def flags_grow_superset)
  next
    case True
    with assms(2) g obtain updated db1 db2 v' where u: "disable_flag db now before reason actor = Inr (updated, db1)"
      and t: "audit_flag db1 ''flag_disabled'' actor ''manual'' (Some before) (Some updated) reason (PDict evidence) = Inr db2"
      "enqueue_flag_change py db2 i now ''flag_updated'' updated = Inr (v', db')"
      by (auto simp: disable_standalone_flag_def bind_tx_Inr)
    show ?thesis by (rule standalone_write [OF assms(1) g u [unfolded disable_flag_def] _ t]) simp
  qed
qed

lemma archive_write:
  assumes "config_inv db" "guarded_flag db p k v = Inr before" "archive_flag db now before = Inr (updated, db1)"
    and t: "audit_flag db1 a b c d e f g = Inr db2" "enqueue_flag_change py db2 i now action updated = Inr (x, db')"
  shows "standalone_effect db db' now p k v i"
  by (rule standalone_write [OF assms(1,2) assms(3) [unfolded archive_flag_def] _ t]) simp

lemma archive_standalone_flag_effect:
  assumes "config_inv db" "archive_standalone_flag py db i now p k v actor = Inr (x, db')"
  shows "standalone_effect db db' now p k v i"
  using assms(2) by (auto simp: archive_standalone_flag_def bind_tx_Inr intro!: archive_write [OF assms(1)])

lemma cleanup_standalone_flag_effect:
  assumes "config_inv db" "cleanup_standalone_flag py db i now p k v evidence actor = Inr (x, db')"
  shows "standalone_effect db db' now p k v i"
  using assms(2)
  by (auto simp: cleanup_standalone_flag_def bind_tx_Inr split: if_splits intro!: archive_write [OF assms(1)])

lemmas standalone_effects = update_standalone_flag_effect transition_standalone_flag_effect
  disable_standalone_flag_effect archive_standalone_flag_effect cleanup_standalone_flag_effect

section \<open>Lemmas: experiments and their flags\<close>

lemma committedI:
  "commit_changes (cd_outbox db) now p changes = Inr (cd_outbox db') \<Longrightarrow> map fst changes = ids \<Longrightarrow>
   list_all (\<lambda>(_, k, _, _). is_config_kind k) changes \<Longrightarrow> committed db db' now p ids"
  unfolding committed_def by blast

text \<open>The common end of the commands on an experiment and its flag.\<close>

lemma bundle_tail:
  assumes x: "audit_experiment db a b c d = Inr db1" and a: "audit_flag db1 a' b' c' d' e' f' g' = Inr db2"
    and q: "enqueue_flag_change py db2 i now action flag = Inr (v, db3)"
    and y: "enqueue_experiment_change db3 j now action' e v = Inr (w, db')"
    and p: "column flag ''project_id'' = ex_project_id e"
  shows "cd_flags db' = cd_flags db" "cd_experiments db' = cd_experiments db"
    "committed db db' now (ex_project_id e) [i, j]"
proof -
  note aud = audit_experiment_Inr [OF x] audit_flag_Inr [OF a] and fl = enqueue_flag_change_Inr [OF q, unfolded p]
  from fl(3) obtain data where
    c: "commit_changes (cd_outbox db2) now (ex_project_id e)
          [(i, ''flag_change'', dedup_key_of (column flag ''key'') (flag_version flag) action, data)] = Inr (cd_outbox db3)" by blast
  note ex = enqueue_experiment_change_Inr [OF y c fl(4)]
  show "cd_flags db' = cd_flags db" "cd_experiments db' = cd_experiments db" using aud fl(1,2) ex(1,2) by simp_all
  have "committed db2 db' now (ex_project_id e) [i, j]" by (rule committedI [OF ex(3)]) simp_all
  then show "committed db db' now (ex_project_id e) [i, j]" using aud by (simp add: committed_def)
qed

abbreviation experiment_keys :: "config_db \<Rightarrow> (string \<times> string) list" where
  "experiment_keys db \<equiv> map (\<lambda>e. (ex_project_id e, ex_key e)) (cd_experiments db)"

lemma same_key_same_experiment:
  "distinct (experiment_keys db) \<Longrightarrow> e \<in> set (cd_experiments db) \<Longrightarrow> x \<in> set (cd_experiments db) \<Longrightarrow>
   experiment_at p k e \<Longrightarrow> experiment_at p k x \<Longrightarrow> x = e"
  by (auto simp: distinct_map inj_on_def experiment_at_def)

lemma same_flag_same_experiment:
  "config_inv db \<Longrightarrow> e \<in> set (cd_experiments db) \<Longrightarrow> x \<in> set (cd_experiments db) \<Longrightarrow>
   flag_at (ex_project_id e) (ex_flag_key e) r \<Longrightarrow> flag_at (ex_project_id x) (ex_flag_key x) r \<Longrightarrow> x = e"
  by (auto simp: config_inv_def distinct_map inj_on_def flag_at_def)

lemma locked_experimentD:
  assumes "locked_experiment db p k = Inr e"
  shows "e \<in> set (cd_experiments db)" "ex_project_id e = p" "ex_key e = k"
  using assms by (auto simp: locked_experiment_def find_Some_iff experiment_at_def split: option.splits)

definition swapped :: "experiment_row \<Rightarrow> experiment_row \<Rightarrow> experiment_row list \<Rightarrow> experiment_row list" where
  "swapped e e' rows = map (\<lambda>x. if x = e then e' else x) rows"

lemma set_swapped: "e \<in> set rows \<Longrightarrow> set (swapped e e' rows) = insert e' (set rows - {e})"
  by (auto simp: swapped_def)

lemma swapped_keys:
  assumes "g e' = g e" shows "map g (swapped e e' rows) = map g rows"
  unfolding swapped_def map_map by (rule map_cong [OF refl]) (simp add: assms)

lemma write_experimentD:
  assumes "write_experiment db P f key v = Inr (e', db')" "distinct (experiment_keys db)"
    and "\<And>x. P x \<Longrightarrow> experiment_at p k x"
  obtains e where "e \<in> set (cd_experiments db)" "P e" "e' = f e"
    "db' = db\<lparr>cd_experiments := swapped e (f e) (cd_experiments db)\<rparr>"
proof -
  from assms(1) obtain e where e: "find P (cd_experiments db) = Some e" "e' = f e"
    and d: "db' = db\<lparr>cd_experiments := map (\<lambda>x. if P x then f x else x) (cd_experiments db)\<rparr>"
    by (auto simp: write_experiment_def split: option.splits)
  then have ee: "e \<in> set (cd_experiments db)" "P e" by (auto simp: find_Some_iff)
  have "P x \<longleftrightarrow> x = e" if "x \<in> set (cd_experiments db)" for x
  proof
    assume "P x"
    then show "x = e" by (rule same_key_same_experiment [OF assms(2) ee(1) that assms(3) [OF ee(2)] assms(3)])
  qed (simp add: ee)
  then have "map (\<lambda>x. if P x then f x else x) (cd_experiments db) = swapped e (f e) (cd_experiments db)"
    unfolding swapped_def by (intro map_cong [OF refl]) (metis (no_types, lifting))
  with ee e(2) d show thesis by (intro that) simp_all
qed

lemma inv_bundle:
  assumes inv: "config_inv db" and r: "r \<in> set (cd_flags db)" "plain_columns cols"
    and before: "before \<in> set (cd_experiments db)" "flag_at (ex_project_id before) (ex_flag_key before) r"
    and keys: "distinct (map (\<lambda>e. (ex_project_id e, ex_key e)) rows)"
      "distinct (map (\<lambda>e. (ex_project_id e, ex_flag_key e)) rows)"
    and rows: "\<And>e. e \<in> set rows \<Longrightarrow> ex_archived_at e = None \<Longrightarrow>
        e \<in> set (cd_experiments db) \<and> e \<noteq> before \<or> serves_status (written now cols r) e"
  shows "config_inv (db\<lparr>cd_flags := replaced r (written now cols r) (cd_flags db), cd_experiments := rows\<rparr>)"
proof -
  let ?flags = "replaced r (written now cols r) (cd_flags db)"
  note fk = replaced_keys [OF written_simps(2) [OF r(2)] written_simps(1) [OF r(2)]]
  have v: "1 \<le> flag_version q" if "q \<in> set ?flags" for q
    using that inv r written_simps(3) [OF r(2), of now r] by (auto simp: set_replaced config_inv_def)
  have s: "\<exists>q \<in> set ?flags. serves_status q e" if e: "e \<in> set rows" "ex_archived_at e = None" for e
    using rows [OF e]
  proof
    assume o: "e \<in> set (cd_experiments db) \<and> e \<noteq> before"
    with e(2) inv obtain q where q: "q \<in> set (cd_flags db)" "serves_status q e" by (auto simp: config_inv_def)
    have "q \<noteq> r"
    proof
      assume "q = r"
      then have "flag_at (ex_project_id e) (ex_flag_key e) r" using q(2) by (simp add: serves_status_def)
      then have "e = before" using o by (intro same_flag_same_experiment [OF inv before(1) _ before(2)]) simp_all
      with o show False by simp
    qed
    with q r(1) show ?thesis by (auto simp: set_replaced)
  next
    assume "serves_status (written now cols r) e"
    with r(1) show ?thesis by (auto simp: set_replaced)
  qed
  show ?thesis using inv v s keys by (simp add: config_inv_def fk)
qed

lemma inv_inserted:
  assumes inv: "config_inv db" and f: "\<And>r. r \<in> set (cd_flags db) \<Longrightarrow> \<not> flag_at p k r"
    and row: "flag_at p k row" "flag_version row = 1" "serves_status row e"
    and e: "\<And>x. x \<in> set (cd_experiments db) \<Longrightarrow> ex_project_id x = ex_project_id e \<Longrightarrow>
              ex_key x \<noteq> ex_key e \<and> ex_flag_key x \<noteq> ex_flag_key e"
  shows "config_inv (db\<lparr>cd_flags := cd_flags db @ [row], cd_experiments := cd_experiments db @ [e]\<rparr>)"
proof -
  have "config_inv (db\<lparr>cd_flags := cd_flags db @ [row]\<rparr>)" by (rule inv_appended [OF inv f row(1,2)])
  moreover have "(ex_project_id e, ex_key e) \<notin> (\<lambda>e. (ex_project_id e, ex_key e)) ` set (cd_experiments db)"
    "(ex_project_id e, ex_flag_key e) \<notin> (\<lambda>e. (ex_project_id e, ex_flag_key e)) ` set (cd_experiments db)"
    using e by (fastforce simp del: ex_simps)+
  ultimately show ?thesis using row(3) by (simp add: config_inv_def)
qed

lemma insert_experimentD:
  assumes "insert_experiment db now e = Inr (row, db')"
  shows "db' = db\<lparr>cd_experiments := cd_experiments db @ [row]\<rparr>"
    "ex_project_id row = ex_project_id e" "ex_key row = ex_key e" "ex_flag_key row = ex_flag_key e"
    "ex_status row = ex_status e" "ex_archived_at row = None" "ex_version row = 1"
    "\<And>x. x \<in> set (cd_experiments db) \<Longrightarrow> ex_project_id x = ex_project_id row \<Longrightarrow>
       ex_key x \<noteq> ex_key row \<and> ex_flag_key x \<noteq> ex_flag_key row"
  using assms by (auto simp: insert_experiment_def Let_def split: if_splits)

text \<open>The flag an experiment is served through, in both derivations.\<close>

lemma projection_fields:
  assumes "build_flag_projection key name description status vs dv traffic rules b = Some d"
  obtains state enabled where "status_to_flag_state status = Some (state, enabled)"
    "map_of (rev d) ''state'' = Some (PStr state)" "map_of (rev d) ''enabled'' = Some (PBool enabled)"
    "map_of d ''state'' = Some (PStr state)" "map_of d ''enabled'' = Some (PBool enabled)"
    "map_of (rev d) ''key'' = None" "map_of (rev d) ''project_id'' = None" "map_of (rev d) ''archived_at'' = None"
  using assms
  by (auto simp: build_flag_projection_def Let_def bind_eq_Some_conv simp del: status_to_flag_state.simps split: if_splits)

lemma request_fields:
  assumes "experiment_flag_request salt e variants rules = Some flag"
  obtains state enabled where "status_to_flag_state (ex_status e) = Some (state, enabled)"
    "map_of flag ''state'' = Some (PStr state)" "map_of flag ''enabled'' = Some (PBool enabled)"
    "column flag ''key'' = ex_flag_key e" "column flag ''project_id'' = ex_project_id e"
proof -
  from assms obtain d c where
    d: "build_flag_projection (ex_flag_key e) (ex_key e) (ex_description e) (ex_status e) variants
          (ex_default_variant e) (ex_traffic_percentage e) rules (ex_bucket_by e) = Some d"
    and c: "c = dmerge (dset d ''key'' (PStr (ex_flag_key e)))
       [(''owners'', PList []), (''guardrails'', PList []),
        (''rules'', map_list (omit_in ''conditions'' omit_condition) (dget d ''rules''))]"
    and f: "flag = dmerge c [(''project_id'', PStr (ex_project_id e)), (''salt'', PStr salt)]"
    by (auto simp: experiment_flag_request_def build_flag_create_def bind_eq_Some_conv)
  from d obtain state enabled where s: "status_to_flag_state (ex_status e) = Some (state, enabled)"
    "map_of d ''state'' = Some (PStr state)" "map_of d ''enabled'' = Some (PBool enabled)"
    by (rule projection_fields)
  show thesis
    by (rule that [OF s(1)]) (simp_all add: f c s map_of_dmerge map_of_dset column_def dget_def dget_default_def)
qed

lemma create_experiment_effect:
  assumes inv: "config_inv db" and f: "experiment_flag_request salt e variants rules = Some flag"
    and c: "create_experiment_bundle py db (i, j) now e flag actor = Inr (x, db')"
  shows "command_effect db db' now (ex_project_id e) [i, j]"
proof -
  define e1 where "e1 = (if ex_status e \<noteq> ''draft''
     then e\<lparr>ex_minimum_exposure_config_version := Some (flag_version (row_to_flag (new_flag_row now flag)))\<rparr> else e)"
  from c obtain created db1 row db2 db3 db4 v db5 w where
    n: "insert_flag py db now flag = Inr (created, db1)" "insert_experiment db1 now e1 = Inr (row, db2)"
    and t: "audit_experiment db2 ''experiment_created'' actor None (Some row) = Inr db3"
      "audit_flag db3 ''flag_created'' actor ''experiment'' None (Some created) (''experiment:'' @ ex_key row) (PDict []) = Inr db4"
      "enqueue_flag_change py db4 i now ''flag_created'' created = Inr (v, db5)"
      "enqueue_experiment_change db5 j now ''experiment_created'' row v = Inr (w, db')"
    unfolding e1_def using insert_flagD(1)
    by (fastforce simp: create_experiment_bundle_def bind_tx_Inr)
  note fi = insert_flagD [OF n(1)] and xi = insert_experimentD [OF n(2)]
  from f obtain state enabled where s: "status_to_flag_state (ex_status e) = Some (state, enabled)"
    "map_of flag ''state'' = Some (PStr state)" "map_of flag ''enabled'' = Some (PBool enabled)"
    "column flag ''key'' = ex_flag_key e" "column flag ''project_id'' = ex_project_id e" by (rule request_fields)
  have same: "ex_project_id e1 = ex_project_id e" "ex_flag_key e1 = ex_flag_key e" "ex_status e1 = ex_status e"
    by (simp_all add: e1_def)
  have st: "dget (new_flag_row now flag) ''state'' = PStr state" "dget (new_flag_row now flag) ''enabled'' = PBool enabled"
    using s(2,3) by (simp_all add: new_flag_row_def dget_def dget_default_def)
  have "serves_status (new_flag_row now flag) row"
    using fi(4) s(1,4,5) st xi(2,4,5) same by (simp add: serves_status_def del: status_to_flag_state.simps)
  then have "config_inv (db\<lparr>cd_flags := cd_flags db @ [new_flag_row now flag],
      cd_experiments := cd_experiments db @ [row]\<rparr>)"
    using xi(8) fi(2) by (intro inv_inserted [OF inv fi(3) fi(4)]) simp_all
  moreover have "column created ''project_id'' = ex_project_id row"
    unfolding fi(1) column_row(1) [OF fi(4)] using s(5) xi(2) same by simp
  note tail = bundle_tail [OF t this]
  ultimately show ?thesis
    using tail fi(2) xi(1,2) same config_inv_cong [of db' db2] flags_grow_superset [of db db']
    by (auto simp: command_effect_def committed_def)
qed

text \<open>The update derives the flag's fields and leaves its key and its archive mark.\<close>

lemma derived_fields:
  assumes "derived_experiment_flag py e backing = Some flag"
  obtains state enabled where "status_to_flag_state (ex_status e) = Some (state, enabled)"
    "dget flag ''state'' = PStr state" "dget flag ''enabled'' = PBool enabled"
    "column flag ''key'' = column backing ''key''" "column flag ''project_id'' = column backing ''project_id''"
proof -
  from assms obtain key name vs rs d where
    d: "build_flag_projection key name (ex_description e) (ex_status e) vs
          (ex_default_variant e) (ex_traffic_percentage e) rs (ex_bucket_by e) = Some d"
    and f: "flag = dmerge backing d"
    by (auto simp: derived_experiment_flag_def Let_def bind_eq_Some_conv split: if_splits)
  from d obtain state enabled where s: "status_to_flag_state (ex_status e) = Some (state, enabled)"
    "map_of (rev d) ''state'' = Some (PStr state)" "map_of (rev d) ''enabled'' = Some (PBool enabled)"
    "map_of (rev d) ''key'' = None" "map_of (rev d) ''project_id'' = None"
    by (rule projection_fields)
  show thesis by (rule that [OF s(1)]) (simp_all add: f s column_def dget_dmerge)
qed

lemma finalize_fields:
  assumes "finalize_terminal_analysis_window before desired t = Inr (d, ok)"
  shows "ex_project_id d = ex_project_id desired" "ex_key d = ex_key desired" "ex_flag_key d = ex_flag_key desired"
    "ex_status d = ex_status desired"
  using assms by (auto simp: finalize_terminal_analysis_window_def Let_def split: if_splits option.splits)

lemma update_flagD:
  assumes "update_flag py db now flag v = Inr (f, db')" "config_inv db"
  obtains r where "r \<in> set (cd_flags db)" "flag_at (column flag ''project_id'') (column flag ''key'') r" "live r"
    "flag_version r = v"
    "f = row_to_flag (written now (map (\<lambda>c. (c, dget flag c)) UPDATED_COLUMNS) r)"
    "db' = db\<lparr>cd_flags := replaced r (written now (map (\<lambda>c. (c, dget flag c)) UPDATED_COLUMNS) r) (cd_flags db)\<rparr>"
proof -
  have "write_flag db now (column flag ''project_id'') (column flag ''key'') v
      (map (\<lambda>c. (c, dget flag c)) UPDATED_COLUMNS) = Inr (f, db')"
    using assms(1) by (simp add: update_flag_def split: if_splits)
  then show thesis using assms(2) by (rule write_flagD) (rule that)
qed

lemma written_updated:
  assumes "c \<in> set UPDATED_COLUMNS"
  shows "dget (written now (map (\<lambda>c. (c, dget flag c)) UPDATED_COLUMNS) r) c = dget flag c"
  by (rule dget_written) (use assms in \<open>auto simp: UPDATED_COLUMNS_def comp_def\<close>)

lemma written_state:
  "dget (written now (map (\<lambda>c. (c, dget flag c)) UPDATED_COLUMNS) r) ''state'' = dget flag ''state''"
  "dget (written now (map (\<lambda>c. (c, dget flag c)) UPDATED_COLUMNS) r) ''enabled'' = dget flag ''enabled''"
  by (rule written_updated, simp add: UPDATED_COLUMNS_def)+

lemma updated_live: "live (written now (map (\<lambda>c. (c, dget flag c)) UPDATED_COLUMNS) r) = live r"
  unfolding live_def by (subst dget_written_other) (simp_all add: UPDATED_COLUMNS_def)

lemma update_experimentD:
  assumes "update_experiment db now d v = Inr (e', db')" "distinct (experiment_keys db)"
  obtains e where "e \<in> set (cd_experiments db)" "experiment_at (ex_project_id d) (ex_key d) e" "ex_version e = v"
    "db' = db\<lparr>cd_experiments := swapped e e' (cd_experiments db)\<rparr>"
    "ex_project_id e' = ex_project_id e" "ex_key e' = ex_key e" "ex_flag_key e' = ex_flag_key e"
    "ex_status e' = ex_status d" "ex_version e' = v + 1" "ex_archived_at e' = ex_archived_at e"
    "ex_start_date e' = ex_start_date d" "ex_end_date e' = ex_end_date d"
proof -
  let ?P = "\<lambda>e. experiment_at (ex_project_id d) (ex_key d) e \<and> ex_version e = v"
  from assms(1) obtain f where w: "write_experiment db ?P f (ex_key d) v = Inr (e', db')"
    and f: "\<And>e. ex_project_id (f e) = ex_project_id e \<and> ex_key (f e) = ex_key e \<and> ex_flag_key (f e) = ex_flag_key e
      \<and> ex_status (f e) = ex_status d \<and> ex_version (f e) = ex_version e + 1 \<and> ex_archived_at (f e) = ex_archived_at e
      \<and> ex_start_date (f e) = ex_start_date d \<and> ex_end_date (f e) = ex_end_date d"
    unfolding update_experiment_def by (simp split: if_splits)
  from w assms(2) obtain e where e: "e \<in> set (cd_experiments db)" "?P e" "e' = f e"
    "db' = db\<lparr>cd_experiments := swapped e (f e) (cd_experiments db)\<rparr>"
    by (rule write_experimentD [where p = "ex_project_id d" and k = "ex_key d"]) blast+
  with f [of e] show thesis by (intro that [of e]) auto
qed

lemma update_bundleD:
  assumes "update_experiment_bundle py db (i, j) now wall d0 v actor origin = Inr ((x, y), db')"
  obtains before d ok backing merged db1 d' db2 a db3 b db4 u db5 w where
    "locked_experiment db (ex_project_id d0) (ex_key d0) = Inr before" "ex_version before = v"
    "ex_archived_at before = None" "ex_flag_key d0 = ex_flag_key before"
    "finalize_terminal_analysis_window before d0 wall = Inr (d, ok)"
    "ensure_experiment_analysis_fields_immutable before d ok = Inr ()"
    "locked_flag db (ex_project_id d) (ex_flag_key before) = Inr backing"
    "derived_experiment_flag py d backing = Some merged"
    "update_flag py db now merged (flag_version backing) = Inr (y, db1)"
    "d' = (if ex_status before = ''draft'' \<and> ex_status d \<noteq> ''draft''
           then d\<lparr>ex_minimum_exposure_config_version := Some (flag_version y)\<rparr> else d)"
    "update_experiment db1 now d' v = Inr (x, db2)"
    "audit_experiment db2 a actor (Some before) (Some x) = Inr db3"
    "audit_flag db3 ''flag_updated'' actor origin (Some backing) (Some y) b (PDict []) = Inr db4"
    "enqueue_flag_change py db4 i now ''flag_updated'' y = Inr (u, db5)"
    "enqueue_experiment_change db5 j now ''experiment_updated'' x u = Inr (w, db')"
proof -
  from assms obtain before where b: "locked_experiment db (ex_project_id d0) (ex_key d0) = Inr before"
    "ex_version before = v" "ex_archived_at before = None" "ex_flag_key d0 = ex_flag_key before"
    by (auto simp: update_experiment_bundle_def bind_tx_Inr split: if_splits)
  with assms obtain d ok where f: "finalize_terminal_analysis_window before d0 wall = Inr (d, ok)"
    "ensure_experiment_analysis_fields_immutable before d ok = Inr ()"
    by (auto simp: update_experiment_bundle_def bind_tx_Inr)
  with assms b obtain backing merged where m: "locked_flag db (ex_project_id d) (ex_flag_key before) = Inr backing"
    "derived_experiment_flag py d backing = Some merged"
    by (auto simp: update_experiment_bundle_def bind_tx_Inr split: option.splits)
  show thesis
    using assms b f m by (auto simp: update_experiment_bundle_def bind_tx_Inr intro!: that [OF b f m _ refl])
qed

lemma update_experiment_bundle_effect:
  assumes inv: "config_inv db"
    and c: "update_experiment_bundle py db (i, j) now wall d0 v actor origin = Inr ((x, y), db')"
  shows "command_effect db db' now (ex_project_id d0) [i, j]"
proof -
  from c obtain before d ok backing merged db1 d' db2 a db3 b db4 u db5 w where
    l: "locked_experiment db (ex_project_id d0) (ex_key d0) = Inr before" "ex_archived_at before = None"
      "ex_flag_key d0 = ex_flag_key before" "finalize_terminal_analysis_window before d0 wall = Inr (d, ok)"
    and m: "locked_flag db (ex_project_id d) (ex_flag_key before) = Inr backing"
      "derived_experiment_flag py d backing = Some merged"
      "update_flag py db now merged (flag_version backing) = Inr (y, db1)"
    and d': "d' = (if ex_status before = ''draft'' \<and> ex_status d \<noteq> ''draft''
           then d\<lparr>ex_minimum_exposure_config_version := Some (flag_version y)\<rparr> else d)"
    and n: "update_experiment db1 now d' v = Inr (x, db2)"
    and t: "audit_experiment db2 a actor (Some before) (Some x) = Inr db3"
      "audit_flag db3 ''flag_updated'' actor origin (Some backing) (Some y) b (PDict []) = Inr db4"
      "enqueue_flag_change py db4 i now ''flag_updated'' y = Inr (u, db5)"
      "enqueue_experiment_change db5 j now ''experiment_updated'' x u = Inr (w, db')"
    by (rule update_bundleD)
  let ?cols = "map (\<lambda>c. (c, dget merged c)) UPDATED_COLUMNS"
  note before = locked_experimentD [OF l(1)] and fin = finalize_fields [OF l(4)]
  have same: "ex_project_id d' = ex_project_id d0" "ex_key d' = ex_key d0" "ex_status d' = ex_status d"
    using fin by (simp_all add: d')
  from m(1) obtain r0 where r0: "column backing ''project_id'' = ex_project_id d0"
    "column backing ''key'' = ex_flag_key before" using fin(1) by (auto elim: locked_flagD)
  from m(2) obtain state enabled where s: "status_to_flag_state (ex_status d) = Some (state, enabled)"
    "dget merged ''state'' = PStr state" "dget merged ''enabled'' = PBool enabled"
    "column merged ''key'' = ex_flag_key before" "column merged ''project_id'' = ex_project_id d0"
    by (rule derived_fields) (simp add: r0)
  from m(3) inv obtain r where r: "r \<in> set (cd_flags db)" "flag_at (ex_project_id d0) (ex_flag_key before) r" "live r"
    "y = row_to_flag (written now ?cols r)" "db1 = db\<lparr>cd_flags := replaced r (written now ?cols r) (cd_flags db)\<rparr>"
    by (rule update_flagD) (simp add: s)
  have keys: "distinct (experiment_keys db)" "distinct (experiment_keys db1)"
    using inv r(5) by (simp_all add: config_inv_def)
  from n keys(2) obtain e where e: "e \<in> set (cd_experiments db1)" "experiment_at (ex_project_id d') (ex_key d') e"
    "db2 = db1\<lparr>cd_experiments := swapped e x (cd_experiments db1)\<rparr>"
    "ex_project_id x = ex_project_id e" "ex_key x = ex_key e" "ex_flag_key x = ex_flag_key e"
    "ex_status x = ex_status d'" "ex_archived_at x = ex_archived_at e" by (rule update_experimentD)
  have eb: "e = before"
    using before e(1,2) r(5) same by (intro same_key_same_experiment [OF keys(1)]) (simp_all add: experiment_at_def)
  have "serves_status (written now ?cols r) x"
    using r(2,3) e(4,6,7) same(3) before(2) s(1-3)
    by (simp add: eb serves_status_def written_simps(4) updated_live written_state
        del: status_to_flag_state.simps)
  then have "config_inv (db\<lparr>cd_flags := replaced r (written now ?cols r) (cd_flags db),
      cd_experiments := swapped before x (cd_experiments db)\<rparr>)"
    using before(1,2) r(1,2) inv e(4-6)
    by (intro inv_bundle [OF inv _ _ before(1)])
      (simp_all add: swapped_keys eb set_swapped config_inv_def, auto)
  moreover have "column y ''project_id'' = ex_project_id x"
    unfolding r(4) using r(2) e(4) eb before(2) by (simp add: column_row(1) written_simps(4))
  note tail = bundle_tail [OF t this]
  ultimately show ?thesis
    using tail e(3,4) r(5) eb before(2) config_inv_cong [of db' db2] flags_grow_replaced [OF r(1) plain_column_lists(1), of db' now]
    by (simp add: command_effect_def committed_def)
qed

lemma archive_flagD:
  assumes "archive_flag db now before = Inr (f, db')" "config_inv db" "before = row_to_flag r0" "flag_at p k r0"
    "r0 \<in> set (cd_flags db)"
  shows "f = row_to_flag (written now [(''state'', PStr ''archived''), (''enabled'', PBool False), (''archived_at'', stamp now)] r0)"
    "db' = db\<lparr>cd_flags := replaced r0 (written now
        [(''state'', PStr ''archived''), (''enabled'', PBool False), (''archived_at'', stamp now)] r0) (cd_flags db)\<rparr>"
proof -
  let ?cols = "[(''state'', PStr ''archived''), (''enabled'', PBool False), (''archived_at'', stamp now)]"
  have "write_flag db now p k (flag_version before) ?cols = Inr (f, db')"
    using assms(1,3,4) by (simp add: archive_flag_def column_row)
  then obtain r where r: "r \<in> set (cd_flags db)" "flag_at p k r" "f = row_to_flag (written now ?cols r)"
    "db' = db\<lparr>cd_flags := replaced r (written now ?cols r) (cd_flags db)\<rparr>"
    using assms(2) by (rule write_flagD)
  have "r = r0" by (rule same_key_same_flag [OF assms(2,5) r(1) assms(4) r(2)])
  with r(3,4) show "f = row_to_flag (written now ?cols r0)"
    "db' = db\<lparr>cd_flags := replaced r0 (written now ?cols r0) (cd_flags db)\<rparr>" by simp_all
qed

text \<open>A removed experiment is gone, or archived with its keys.\<close>

lemma archive_experimentD:
  assumes "archive_experiment db now t before actor = Inr (e', db')" "distinct (experiment_keys db)"
    "before \<in> set (cd_experiments db)"
  shows "db' = db\<lparr>cd_experiments := swapped before e' (cd_experiments db)\<rparr>"
    "ex_project_id e' = ex_project_id before" "ex_key e' = ex_key before" "ex_flag_key e' = ex_flag_key before"
    "ex_archived_at e' = Some t"
proof -
  let ?P = "\<lambda>e. experiment_at (ex_project_id before) (ex_key before) e \<and> ex_version e = ex_version before
             \<and> ex_status e \<noteq> ''draft'' \<and> ex_archived_at e = None"
  from assms(1) obtain f where w: "write_experiment db ?P f (ex_key before) (ex_version before) = Inr (e', db')"
    and f: "\<And>e. ex_project_id (f e) = ex_project_id e \<and> ex_key (f e) = ex_key e \<and> ex_flag_key (f e) = ex_flag_key e
      \<and> ex_archived_at (f e) = Some t"
    by (auto simp: archive_experiment_def bind_tx_Inr)
  from w assms(2) obtain e where e: "e \<in> set (cd_experiments db)" "?P e" "e' = f e"
    "db' = db\<lparr>cd_experiments := swapped e (f e) (cd_experiments db)\<rparr>"
    by (rule write_experimentD [where p = "ex_project_id before" and k = "ex_key before"]) blast+
  have "before = e"
    using e(2) by (intro same_key_same_experiment [OF assms(2) e(1) assms(3)]) (auto simp: experiment_at_def)
  with e f [of e] show "db' = db\<lparr>cd_experiments := swapped before e' (cd_experiments db)\<rparr>"
    "ex_project_id e' = ex_project_id before" "ex_key e' = ex_key before" "ex_flag_key e' = ex_flag_key before"
    "ex_archived_at e' = Some t" by simp_all
qed

lemma delete_draftD:
  assumes "delete_draft_experiment db before = Inr db'" "ex_status before = ''draft''" "ex_archived_at before = None"
  obtains P where "db' = db\<lparr>cd_experiments := filter (\<lambda>e. \<not> P e) (cd_experiments db)\<rparr>" "P before"
proof -
  let ?P = "\<lambda>e. experiment_at (ex_project_id before) (ex_key before) e \<and> ex_version e = ex_version before
                 \<and> ex_status e = ''draft'' \<and> ex_archived_at e = None"
  from assms(1) have "db' = db\<lparr>cd_experiments := filter (\<lambda>e. \<not> ?P e) (cd_experiments db)\<rparr>"
    by (auto simp: delete_draft_experiment_def Let_def split: if_splits)
  moreover have "?P before" using assms(2,3) by (simp add: experiment_at_def)
  ultimately show thesis by (rule that)
qed

lemma removal:
  assumes m: "(if ex_status before = ''draft''
        then bind_tx (delete_draft_experiment db before) (\<lambda>db.
               Inr ((before\<lparr>ex_version := v + 1\<rparr>, ''experiment_deleted'', None), db))
        else bind_tx (archive_experiment db now wall before actor) (\<lambda>(removed, db).
               Inr ((removed, ''experiment_archived'', Some removed), db))) = Inr ((removed, action, after), db')"
    and before: "before \<in> set (cd_experiments db)" "ex_archived_at before = None"
    and keys: "distinct (experiment_keys db)" "distinct (map (\<lambda>e. (ex_project_id e, ex_flag_key e)) (cd_experiments db))"
  obtains rows where "db' = db\<lparr>cd_experiments := rows\<rparr>" "ex_project_id removed = ex_project_id before"
    "distinct (map (\<lambda>e. (ex_project_id e, ex_key e)) rows)" "distinct (map (\<lambda>e. (ex_project_id e, ex_flag_key e)) rows)"
    "\<And>e. e \<in> set rows \<Longrightarrow> ex_archived_at e = None \<Longrightarrow> e \<in> set (cd_experiments db) \<and> e \<noteq> before"
proof (cases "ex_status before = ''draft''")
  case True
  with m have d: "delete_draft_experiment db before = Inr db'" and p: "ex_project_id removed = ex_project_id before"
    by (auto simp: bind_tx_Inr)
  from d True before(2) obtain P where P: "db' = db\<lparr>cd_experiments := filter (\<lambda>e. \<not> P e) (cd_experiments db)\<rparr>" "P before"
    by (rule delete_draftD)
  show thesis by (rule that [OF P(1) p]) (use P(2) keys in \<open>auto simp: distinct_map_filter\<close>)
next
  case False
  with m have d: "archive_experiment db now wall before actor = Inr (removed, db')" by (auto simp: bind_tx_Inr)
  note a = archive_experimentD [OF d keys(1) before(1)]
  show thesis by (rule that [OF a(1,2)]) (use a keys before in \<open>auto simp: swapped_keys set_swapped\<close>)
qed

lemma delete_experiment_bundle_effect:
  assumes inv: "config_inv db"
    and c: "delete_experiment_bundle py db (i, j) now wall p k v actor = Inr (x, db')"
  shows "command_effect db db' now p [i, j]"
proof -
  let ?cols = "[(''state'', PStr ''archived''), (''enabled'', PBool False), (''archived_at'', stamp now)]"
  from c obtain before backing archived db1 where
    l: "locked_experiment db p k = Inr before" "ex_archived_at before = None" "ex_version before = v"
      "locked_flag db p (ex_flag_key before) = Inr backing" "archive_flag db now backing = Inr (archived, db1)"
    by (auto simp: delete_experiment_bundle_def bind_tx_Inr simp del: append_Cons append_Nil split: if_splits)
  define rm where "rm = (if ex_status before = ''draft''
        then bind_tx (delete_draft_experiment db1 before) (\<lambda>db.
               Inr ((before\<lparr>ex_version := v + 1\<rparr>, ''experiment_deleted'', None), db))
        else bind_tx (archive_experiment db1 now wall before actor) (\<lambda>(removed, db).
               Inr ((removed, ''experiment_archived'', Some removed), db)))"
  have "bind_tx rm (\<lambda>((removed, action, after), db).
     bind_tx (audit_experiment db action actor (Some before) after) (\<lambda>db.
     bind_tx (audit_flag db ''flag_archived'' actor ''experiment'' (Some backing) (Some archived)
                (action @ '':'' @ k) (PDict [])) (\<lambda>db.
     bind_tx (enqueue_flag_change py db i now ''flag_archived'' archived) (\<lambda>(u, db).
     bind_tx (enqueue_experiment_change db j now action removed u) (\<lambda>(_, db).
     Inr ((removed, archived), db)))))) = Inr (x, db')"
    using c l unfolding delete_experiment_bundle_def rm_def by (simp split del: if_split)
  then obtain removed action after db2 db3 db4 db5 u w where m: "rm = Inr ((removed, action, after), db2)"
    and t: "audit_experiment db2 action actor (Some before) after = Inr db3"
     "audit_flag db3 ''flag_archived'' actor ''experiment'' (Some backing) (Some archived) (action @ '':'' @ k) (PDict []) = Inr db4"
     "enqueue_flag_change py db4 i now ''flag_archived'' archived = Inr (u, db5)"
     "enqueue_experiment_change db5 j now action removed u = Inr (w, db')"
    by (auto simp: bind_tx_Inr)
  note before = locked_experimentD [OF l(1)]
  from l(4) obtain r where r: "r \<in> set (cd_flags db)" "flag_at p (ex_flag_key before) r" "backing = row_to_flag r"
    by (rule locked_flagD)
  note arch = archive_flagD [OF l(5) inv r(3,2,1)]
  from m [unfolded rm_def] obtain rows where e: "db2 = db1\<lparr>cd_experiments := rows\<rparr>" "ex_project_id removed = ex_project_id before"
      "distinct (map (\<lambda>e. (ex_project_id e, ex_key e)) rows)" "distinct (map (\<lambda>e. (ex_project_id e, ex_flag_key e)) rows)"
      "\<And>e. e \<in> set rows \<Longrightarrow> ex_archived_at e = None \<Longrightarrow> e \<in> set (cd_experiments db1) \<and> e \<noteq> before"
    by (rule removal) (use before(1) l(2) arch(2) inv in \<open>auto simp: config_inv_def\<close>)
  have "config_inv (db\<lparr>cd_flags := replaced r (written now ?cols r) (cd_flags db), cd_experiments := rows\<rparr>)"
    using before(2) r(1,2) e(3-5) arch(2) by (intro inv_bundle [OF inv _ _ before(1)]) auto
  moreover have "column archived ''project_id'' = ex_project_id removed"
    unfolding arch(1) using r(2) e(2) before(2) by (simp add: column_row(1) written_simps(4))
  note tail = bundle_tail [OF t this]
  ultimately show ?thesis
    using tail e(1,2) arch(2) before(2) config_inv_cong [of db' db2] flags_grow_replaced [OF r(1) plain_column_lists(3), of db' now]
    by (simp add: command_effect_def committed_def)
qed

section \<open>Lemmas: every command\<close>

text \<open>What the scheduler does with a candidate: nothing, or one step of the lifecycle that is due.\<close>

lemma transition_dueD:
  assumes "transition_due_experiment lib py db ids now wall p k v due = Inr (res, db')"
  obtains (skip) "res = None" "db' = db"
    | (advance) current target r where "locked_experiment db p k = Inr current" "ex_version current = v"
        "res = Some r" "due_transition current due target"
        "update_experiment_bundle py db ids now wall (current\<lparr>ex_status := target\<rparr>) v
           ''system:experiment-scheduler'' ''scheduler'' = Inr (r, db')"
        "target = ''running'' \<Longrightarrow> launch_plan_ok lib py current"
proof -
  from assms obtain current where c: "locked_experiment db p k = Inr current"
    by (auto simp: transition_due_experiment_def bind_tx_Inr)
  show thesis
  proof (cases "res")
    case None
    with assms c show thesis
      by (intro skip) (auto simp: transition_due_experiment_def bind_tx_Inr Let_def split: if_splits option.splits)
  next
    case (Some r)
    have "\<exists>target. ex_version current = v \<and> due_transition current due target
       \<and> update_experiment_bundle py db ids now wall (current\<lparr>ex_status := target\<rparr>) v
           ''system:experiment-scheduler'' ''scheduler'' = Inr (r, db')
       \<and> (target = ''running'' \<longrightarrow> launch_plan_ok lib py current)"
      using assms c Some
      by (auto simp: transition_due_experiment_def due_transition_def bind_tx_Inr Let_def split: if_splits option.splits)
    with c Some show thesis using advance by blast
  qed
qed

lemma transition_due_effect:
  assumes inv: "config_inv db"
    and c: "transition_due_experiment lib py db (i, j) now wall p k v due = Inr (x, db')"
  shows "command_effect db db' now p [i, j]"
  using c
proof (cases rule: transition_dueD)
  case skip
  with inv show ?thesis by (simp add: command_effect_def flags_grow_superset)
next
  case (advance current target r)
  then show ?thesis
    using update_experiment_bundle_effect [OF inv, of py i j now wall "current\<lparr>ex_status := target\<rparr>" v _ _ "fst r" "snd r"]
      locked_experimentD(2) [OF advance(1)] by simp
qed

lemma run_command_effect:
  assumes inv: "config_inv db" and ok: "request_ok c" and run: "run_command lib py db c = Inr db'"
  shows "command_effect db db' (command_now c) (command_project c) (command_ids c)"
proof (cases c)
  case (CreateExperiment ids now salt e variants rules actor)
  with run inv show ?thesis
    by (cases ids) (auto simp: tx_state_Inr split: option.splits intro: create_experiment_effect)
next
  case (UpdateExperiment ids now wall d v actor)
  with run inv show ?thesis by (cases ids) (auto simp: tx_state_Inr intro: update_experiment_bundle_effect)
next
  case (DeleteExperiment ids now wall p k v actor)
  with run inv show ?thesis by (cases ids) (auto simp: tx_state_Inr intro: delete_experiment_bundle_effect)
next
  case (DueExperiment ids now wall p k v due)
  with run inv show ?thesis by (cases ids) (auto simp: tx_state_Inr intro: transition_due_effect)
qed (use run inv ok in \<open>auto simp: tx_state_Inr dest!: standalone_effects [OF inv] intro: create_standalone_flag_effect
      simp: standalone_effect_def\<close>)

lemma run_commands_Nil [simp]: "run_commands lib py db [] = db"
  by (simp add: run_commands_def)

lemma run_commands_Cons [simp]:
  "run_commands lib py db (c # cmds) =
   run_commands lib py (case run_command lib py db c of Inl _ \<Rightarrow> db | Inr db' \<Rightarrow> db') cmds"
  by (simp add: run_commands_def)

lemma run_commands_effect:
  assumes "config_inv db" "list_all request_ok cmds"
  shows "config_inv (run_commands lib py db cmds) \<and> flags_grow db (run_commands lib py db cmds)"
  using assms
proof (induction cmds arbitrary: db)
  case Nil
  then show ?case by (simp add: flags_grow_superset)
next
  case (Cons c cmds)
  show ?case
  proof (cases "run_command lib py db c")
    case (Inl _)
    then show ?thesis using Cons by simp
  next
    case (Inr db')
    have e: "command_effect db db' (command_now c) (command_project c) (command_ids c)"
      using Cons.prems Inr by (intro run_command_effect) simp_all
    then have "config_inv (run_commands lib py db' cmds) \<and> flags_grow db' (run_commands lib py db' cmds)"
      using Cons.prems by (intro Cons.IH) (simp_all add: command_effect_def)
    then show ?thesis using e Inr by (auto simp: command_effect_def intro: flags_grow_trans)
  qed
qed

lemma config_inv_empty: "config_inv config_db_empty"
  by (simp add: config_inv_def config_db_empty_def)

section \<open>A sample history\<close>

definition sample_experiment :: experiment_row where
  "sample_experiment = \<lparr>ex_key = ''exp'', ex_project_id = ''demo'', ex_status = ''draft'', ex_description = '''',
     ex_flag_key = ''exp_flag'', ex_default_variant = ''control'',
     ex_variants_json = JsonOf (PList [PDict [(''key'', PStr ''control''), (''weight'', PInt 1)],
                                       PDict [(''key'', PStr ''treatment''), (''weight'', PInt 1)]]),
     ex_targeting_rules_json = JsonOf (PList []),
     ex_primary_metric_json = JsonOf (PDict [(''event'', PStr ''buy'')]), ex_statistical_plan = PNone,
     ex_traffic_percentage = 100, ex_bucket_by = ''user_id'', ex_minimum_exposure_config_version = None,
     ex_start_date = Some 10, ex_end_date = Some 20, ex_version = 0, ex_creation_idempotency_key = None,
     ex_creation_idempotency_request_sha256 = None, ex_created_at = 0, ex_updated_at = 0,
     ex_archived_at = None, ex_archived_by = None\<rparr>"

definition sample_variants :: "variant_config list" where
  "sample_variants = [\<lparr>vc_key = ''control'', vc_weight = 1\<rparr>, \<lparr>vc_key = ''treatment'', vc_weight = 1\<rparr>]"

definition sample_flag :: dict where
  "sample_flag = [(''key'', PStr ''f''), (''project_id'', PStr ''demo''), (''name'', PStr ''F''),
     (''default_variant'', PStr ''control''),
     (''variants'', PList [PDict [(''key'', PStr ''control''), (''weight'', PInt 1)],
                           PDict [(''key'', PStr ''treatment''), (''weight'', PInt 1)]]),
     (''rules'', PList []), (''salt'', PStr ''s''),
     (''fallthrough'', PDict [(''rollout'', PDict [(''percentage'', PFloat (Fin 100)), (''bucket_by'', PStr ''user_id'')])])]"

definition sample_lib :: float_library where
  "sample_lib = \<lparr>inv_cdf = (\<lambda>_. 1), fsqrt = (\<lambda>x. x), fsquare = (\<lambda>x. x * x)\<rparr>"

definition sample_history :: "config_cmd list" where
  "sample_history =
     [CreateFlag 1 1 sample_flag ''ann'',
      CreateExperiment (2, 3) 2 ''salt'' sample_experiment sample_variants [] ''ann'',
      UpdateExperiment (4, 5) 3 11 (sample_experiment\<lparr>ex_status := ''running''\<rparr>) 1 ''ann'']"

abbreviation sample_db :: config_db where
  "sample_db \<equiv> run_commands sample_lib plain_pydantic config_db_empty sample_history"

section \<open>Every command is one commit of the outbox\<close>




section \<open>Experiments are served through their flags\<close>

text \<open>
  C4. In every state the commands reach, an experiment that is not archived has exactly one
  flag row that serves it: the live row of its flag key, in the state and with the enabled mark
  that \<open>status_to_flag_state\<close> gives for the experiment's status. A standalone command cannot
  come between them, and the scheduler and the update endpoint move both in one transaction.
\<close>

theorem experiment_served_by_its_flag:
  assumes "list_all request_ok cmds"
    and "e \<in> set (cd_experiments (run_commands lib py config_db_empty cmds))" "ex_archived_at e = None"
  shows "\<exists>!r. r \<in> set (cd_flags (run_commands lib py config_db_empty cmds)) \<and> serves_status r e"
proof -
  have inv: "config_inv (run_commands lib py config_db_empty cmds)"
    using run_commands_effect [OF config_inv_empty assms(1)] by blast
  with assms(2,3) obtain r where r: "r \<in> set (cd_flags (run_commands lib py config_db_empty cmds))" "serves_status r e"
    by (auto simp: config_inv_def)
  show ?thesis
  proof (rule ex1I [of _ r])
    fix q assume q: "q \<in> set (cd_flags (run_commands lib py config_db_empty cmds)) \<and> serves_status q e"
    have "flag_at (ex_project_id e) (ex_flag_key e) r" "flag_at (ex_project_id e) (ex_flag_key e) q"
      using q r(2) by (simp_all add: serves_status_def)
    then show "q = r" by (rule same_key_same_flag [OF inv r(1) conjunct1 [OF q]])
  qed (use r in blast)
qed

theorem experiment_served_by_its_flag_witness:
  "\<exists>e. e \<in> set (cd_experiments sample_db) \<and> ex_status e = ''running''
     \<and> (\<exists>!r. r \<in> set (cd_flags sample_db) \<and> serves_status r e)"
proof -
  have "list_all request_ok sample_history" by (simp add: sample_history_def)
  moreover have "\<exists>e \<in> set (cd_experiments sample_db). ex_status e = ''running'' \<and> ex_archived_at e = None" by code_simp
  ultimately show ?thesis using experiment_served_by_its_flag [of sample_history] by blast
qed

section \<open>Versions guard concurrent writers\<close>

lemma flag_target_guarded:
  assumes "flag_target c = Some (p, k, v)" "guarded_flag db p k v = Inl err"
  shows "run_command lib py db c = Inl err"
  using assms
  by (cases c) (simp_all add: update_standalone_flag_def transition_standalone_flag_def disable_standalone_flag_def
      archive_standalone_flag_def cleanup_standalone_flag_def tx_state_def)

lemma flag_target_effect:
  assumes "config_inv db" "request_ok c" "flag_target c = Some (p, k, v)" "run_command lib py db c = Inr db'" "db' \<noteq> db"
  shows "\<exists>q \<in> set (cd_flags db'). flag_at p k q \<and> flag_version q = v + 1"
  using assms by (cases c) (auto simp: tx_state_Inr standalone_effect_def dest!: standalone_effects [OF assms(1)])

text \<open>
  C22. A write to a standalone flag consumes the version it expects: once a command on a flag has
  changed the state, every later command on that flag that expects the same version fails, whatever
  commands (of this or other writers, or of the scheduler) ran in between. So of the concurrent
  writers that read one version of a flag at most one succeeds, and no update is lost.
\<close>

theorem stale_flag_write_refused:
  assumes "list_all request_ok cmds" "request_ok c" "list_all request_ok later"
    and "flag_target c = Some (p, k, v)" "flag_target c' = Some (p, k, v)"
    and "run_command lib py (run_commands lib py config_db_empty cmds) c = Inr db'"
    and "db' \<noteq> run_commands lib py config_db_empty cmds"
  shows "\<exists>err. run_command lib py (run_commands lib py db' later) c' = Inl err"
proof -
  have inv: "config_inv (run_commands lib py config_db_empty cmds)"
    using run_commands_effect [OF config_inv_empty assms(1)] by blast
  have "config_inv db'" using run_command_effect [OF inv assms(2,6)] by (simp add: command_effect_def)
  with assms(3) have later: "config_inv (run_commands lib py db' later)" "flags_grow db' (run_commands lib py db' later)"
    using run_commands_effect by blast+
  from flag_target_effect [OF inv assms(2,4,6,7)] later(2) obtain q where
    q: "q \<in> set (cd_flags (run_commands lib py db' later))" "flag_at p k q" "v + 1 \<le> flag_version q"
    by (fastforce simp: flags_grow_def)
  show ?thesis
  proof (cases "guarded_flag (run_commands lib py db' later) p k v")
    case (Inl err)
    then show ?thesis using flag_target_guarded [OF assms(5)] by blast
  next
    case (Inr before)
    then obtain r where r: "r \<in> set (cd_flags (run_commands lib py db' later))" "flag_at p k r"
      "before = row_to_flag r" "flag_version before = v" by (rule guarded_flagD)
    have "q = r" by (rule same_key_same_flag [OF later(1) r(1) q(1) r(2) q(2)])
    with q(3) r(3,4) show ?thesis by simp
  qed
qed

theorem stale_flag_write_refused_witness:
  "\<exists>db' err. run_command sample_lib plain_pydantic
       (run_commands sample_lib plain_pydantic config_db_empty [CreateFlag 1 1 sample_flag ''ann'']) (TransitionFlag 6 4 ''demo'' ''f'' 1 ''active'' ''ann'') = Inr db'
     \<and> run_command sample_lib plain_pydantic db' (DisableFlag 7 5 ''demo'' ''f'' 1 ''r'' [] ''bob'') = Inl err"
proof -
  let ?c = "TransitionFlag 6 4 ''demo'' ''f'' 1 ''active'' ''ann''"
  let ?db = "run_commands sample_lib plain_pydantic config_db_empty [CreateFlag 1 1 sample_flag ''ann'']"
  have ok: "list_all request_ok [CreateFlag 1 1 sample_flag ''ann'']" by simp
  have "(case run_command sample_lib plain_pydantic ?db ?c of
      Inl _ \<Rightarrow> False | Inr db' \<Rightarrow> length (cd_flag_audit db') \<noteq> length (cd_flag_audit ?db))" by code_simp
  then obtain db' where d: "run_command sample_lib plain_pydantic ?db ?c = Inr db'" "db' \<noteq> ?db"
    by (auto split: sum.splits simp del: run_command.simps run_commands_Cons)
  from stale_flag_write_refused [OF ok _ _ _ _ d, of "[]" "''demo''" "''f''" 1 "DisableFlag 7 5 ''demo'' ''f'' 1 ''r'' [] ''bob''"]
  obtain err where "run_command sample_lib plain_pydantic db' (DisableFlag 7 5 ''demo'' ''f'' 1 ''r'' [] ''bob'') = Inl err"
    by (auto simp del: run_command.simps run_commands_Cons)
  with d(1) show ?thesis by blast
qed

end
