(* ===== verification/ExperimentLaws.thy ===== *)
theory ExperimentLaws
  imports MutationLaws
begin

text \<open>
  Properties of the experiment lifecycle: the analysis fields an experiment keeps once it has left
  draft, the transitions of the scheduler and what one pass leaves due, and two cases in which
  the commands cannot succeed.
\<close>

section \<open>The analysis fields are frozen after draft\<close>

lemma update_experiment_fields:
  assumes "update_experiment db now d v = Inr (x, db')"
  shows "ex_status x = ex_status d" "ex_default_variant x = ex_default_variant d"
    "ex_variants_json x = ex_variants_json d" "ex_targeting_rules_json x = ex_targeting_rules_json d"
    "ex_primary_metric_json x = ex_primary_metric_json d" "ex_statistical_plan x = ex_statistical_plan d"
    "ex_traffic_percentage x = ex_traffic_percentage d" "ex_bucket_by x = ex_bucket_by d"
    "ex_start_date x = ex_start_date d" "ex_end_date x = ex_end_date d" "ex_version x = v + 1"
  using assms by (auto simp: update_experiment_def write_experiment_def find_Some_iff split: if_splits option.splits)

lemma immutable_ok:
  assumes "ensure_experiment_analysis_fields_immutable before d ok = Inr ()" "ex_status before \<noteq> ''draft''"
  shows "changed_frozen_fields before d ok = []"
  using assms by (auto simp: ensure_experiment_analysis_fields_immutable_def split: list.splits)

text \<open>What the end of the analysis window may become, by the transition.\<close>

definition window_end_ok :: "experiment_row \<Rightarrow> experiment_row \<Rightarrow> int \<Rightarrow> bool" where
  "window_end_ok before x wall \<longleftrightarrow>
     (if ex_status before = ''scheduled'' \<and> ex_status x = ''stopped'' then ex_end_date x = None
      else if ex_status before = ''running'' \<and> ex_status x = ''stopped''
      then (\<exists>s t. ex_start_date before = Some s \<and> ex_end_date before = Some t
              \<and> ex_end_date x = Some (min wall t) \<and> s < min wall t)
      else ex_end_date x = ex_end_date before
        \<and> (ex_status before = ''running'' \<and> ex_status x = ''completed'' \<longrightarrow>
             (\<exists>t. ex_end_date before = Some t \<and> t \<le> wall)))"

lemma finalize_window:
  assumes "finalize_terminal_analysis_window before d0 wall = Inr (d, ok)"
    "changed_frozen_fields before d ok = []" "ex_status before \<noteq> ''draft''"
  shows "window_end_ok before d wall"
proof (cases "ok")
  case True
  with assms(1,3) show ?thesis
    by (auto simp: finalize_terminal_analysis_window_def window_end_ok_def Let_def split: if_splits option.splits)
next
  case False
  with assms(2) have "ex_end_date d = ex_end_date before" by (simp add: changed_frozen_fields_def split: if_splits)
  with False assms(1,3) show ?thesis
    by (auto simp: finalize_terminal_analysis_window_def window_end_ok_def Let_def split: if_splits option.splits)
qed

text \<open>
  C23. An experiment that has left draft keeps what its analysis rests on: an update that succeeds
  leaves its bucketing attribute, control variant, start date, targeting, traffic share, metric,
  statistical plan and variants as they were (documents up to Python equality). Its end date moves
  only with the transition to stopped, to none if it never ran and else to the earlier of the
  current time and the planned end, after the start; and it completes only at or after its planned end.
\<close>

theorem experiment_analysis_frozen:
  assumes "update_experiment_bundle py db ids now wall desired v actor origin = Inr ((x, y), db')"
    and "locked_experiment db (ex_project_id desired) (ex_key desired) = Inr before"
    and "ex_status before \<noteq> ''draft''"
  shows "ex_bucket_by x = ex_bucket_by before \<and> ex_default_variant x = ex_default_variant before
    \<and> ex_start_date x = ex_start_date before \<and> ex_targeting_rules_json x = ex_targeting_rules_json before
    \<and> ex_traffic_percentage x = ex_traffic_percentage before
    \<and> json_text_eq (ex_primary_metric_json before) (ex_primary_metric_json x)
    \<and> py_eq (ex_statistical_plan before) (ex_statistical_plan x)
    \<and> json_text_eq (ex_variants_json before) (ex_variants_json x)
    \<and> window_end_ok before x wall"
proof -
  obtain i j where ids: "ids = (i, j)" by fastforce
  from assms(1) [unfolded ids] obtain d ok d' db1 db2 where
    f: "finalize_terminal_analysis_window before desired wall = Inr (d, ok)"
    and m: "ensure_experiment_analysis_fields_immutable before d ok = Inr ()"
    and d': "d' = (if ex_status before = ''draft'' \<and> ex_status d \<noteq> ''draft''
           then d\<lparr>ex_minimum_exposure_config_version := Some (flag_version y)\<rparr> else d)"
    and u: "update_experiment db1 now d' v = Inr (x, db2)"
    by (rule update_bundleD) (use assms(2) in auto)
  have "d' = d" using d' assms(3) by simp
  note x = update_experiment_fields [OF u [unfolded this]]
  note c = immutable_ok [OF m assms(3)]
  have "window_end_ok before d wall" by (rule finalize_window [OF f c assms(3)])
  then have "window_end_ok before x wall" by (simp only: window_end_ok_def x)
  then show ?thesis using c x by (simp add: changed_frozen_fields_def split: if_splits)
qed

text \<open>A running experiment with its flag, for concrete evaluations.\<close>

definition running_db :: config_db where
  "running_db = \<lparr>cd_flags = [new_flag_row 2 (dmerge sample_flag [(''key'', PStr ''exp_flag''),
       (''state'', PStr ''active''), (''enabled'', PBool True)])],
     cd_experiments = [sample_experiment\<lparr>ex_status := ''running'', ex_version := 2\<rparr>],
     cd_flag_audit = [], cd_experiment_audit = [], cd_outbox = outbox_db_empty\<rparr>"

theorem experiment_analysis_frozen_witness:
  "\<exists>x y db'. update_experiment_bundle plain_pydantic running_db (6, 7) 4 15
         (sample_experiment\<lparr>ex_status := ''stopped''\<rparr>) 2 ''ann'' ''experiment'' = Inr ((x, y), db')
     \<and> ex_start_date x = Some 10 \<and> window_end_ok (sample_experiment\<lparr>ex_status := ''running'', ex_version := 2\<rparr>) x 15"
proof -
  have l: "locked_experiment running_db ''demo'' ''exp'' = Inr (sample_experiment\<lparr>ex_status := ''running'', ex_version := 2\<rparr>)"
    by (simp add: locked_experiment_def running_db_def experiment_at_def sample_experiment_def)
  have "(case update_experiment_bundle plain_pydantic running_db (6, 7) 4 15
         (sample_experiment\<lparr>ex_status := ''stopped''\<rparr>) 2 ''ann'' ''experiment'' of Inl _ \<Rightarrow> False | Inr _ \<Rightarrow> True)"
    by code_simp
  then obtain x y db' where u: "update_experiment_bundle plain_pydantic running_db (6, 7) 4 15
         (sample_experiment\<lparr>ex_status := ''stopped''\<rparr>) 2 ''ann'' ''experiment'' = Inr ((x, y), db')"
    by (cases "update_experiment_bundle plain_pydantic running_db (6, 7) 4 15
         (sample_experiment\<lparr>ex_status := ''stopped''\<rparr>) 2 ''ann'' ''experiment''") auto
  have k: "ex_project_id (sample_experiment\<lparr>ex_status := ''stopped''\<rparr>) = ''demo''"
    "ex_key (sample_experiment\<lparr>ex_status := ''stopped''\<rparr>) = ''exp''" by (simp_all add: sample_experiment_def)
  note f = experiment_analysis_frozen [OF u, unfolded k, OF l]
  have "ex_start_date x = Some 10" using f by (simp add: sample_experiment_def)
  moreover have "window_end_ok (sample_experiment\<lparr>ex_status := ''running'', ex_version := 2\<rparr>) x 15" using f by simp
  ultimately show ?thesis using u by blast
qed

section \<open>The scheduler\<close>













section \<open>Commands that cannot succeed\<close>





lemma enqueue_flag_change_keeps:
  "enqueue_flag_change py db i now action flag = Inr (v, db') \<Longrightarrow>
   set (db_outbox (cd_outbox db)) \<subseteq> set (db_outbox (cd_outbox db'))"
  by (auto simp: enqueue_flag_change_def next_project_version_def insert_outbox_def Let_def bind_tx_Inr
      split: option.splits if_splits)

text \<open>
  C35. A key whose creation is still recorded in the outbox cannot be created again: the row of
  an earlier \<open>experiment_created\<close> for the key, delivered or not, has the deduplication key
  the new experiment's row needs, since a new experiment always starts at version 1. So after
  a draft is deleted its key is refused until the outbox cleanup has removed the old row.
\<close>

theorem recreated_key_refused:
  assumes "q \<in> set (db_outbox (cd_outbox db))" "ob_project_id q = ex_project_id e" "ob_kind q = ''experiment_change''"
    and "ob_dedup_key q = dedup_key_of (ex_key e) 1 ''experiment_created''"
  shows "\<exists>err. run_command lib py db (CreateExperiment ids now salt e variants rules actor) = Inl err"
proof (rule ccontr)
  obtain i j where ids: "ids = (i, j)" by fastforce
  assume "\<nexists>err. run_command lib py db (CreateExperiment ids now salt e variants rules actor) = Inl err"
  then obtain db' where "run_command lib py db (CreateExperiment ids now salt e variants rules actor) = Inr db'"
    by (metis sum.exhaust)
  then obtain flag x where c: "create_experiment_bundle py db (i, j) now e flag actor = Inr (x, db')"
    by (auto simp: ids tx_state_Inr split: option.splits)
  then obtain created db1 e1 row db2 db3 db4 v db5 w where
    n: "insert_flag py db now flag = Inr (created, db1)" "insert_experiment db1 now e1 = Inr (row, db2)"
    and k: "ex_project_id e1 = ex_project_id e" "ex_key e1 = ex_key e"
    and a: "audit_experiment db2 ''experiment_created'' actor None (Some row) = Inr db3"
      "audit_flag db3 ''flag_created'' actor ''experiment'' None (Some created) (''experiment:'' @ ex_key row) (PDict []) = Inr db4"
    and t: "enqueue_flag_change py db4 i now ''flag_created'' created = Inr (v, db5)"
      "enqueue_experiment_change db5 j now ''experiment_created'' row v = Inr (w, db')"
    by (fastforce simp: create_experiment_bundle_def bind_tx_Inr split: if_splits)
  note xi = insert_experimentD [OF n(2)]
  have "cd_outbox db4 = cd_outbox db"
    using audit_experiment_Inr [OF a(1)] audit_flag_Inr [OF a(2)] xi(1) insert_flagD(2) [OF n(1)] by simp
  then have "q \<in> set (db_outbox (cd_outbox db5))" using enqueue_flag_change_keeps [OF t(1)] assms(1) by auto
  then show False using t(2) assms(2-4) xi(2,3,7) k
    by (auto simp: enqueue_experiment_change_def bind_tx_Inr insert_outbox_def split: if_splits)
qed

theorem recreated_key_refused_witness:
  "\<exists>err. run_command sample_lib plain_pydantic
     (config_db_empty\<lparr>cd_outbox := outbox_db_empty\<lparr>db_outbox :=
        [new_outbox_row 3 2 ''demo'' ''experiment_change'' (dedup_key_of ''exp'' 1 ''experiment_created'') PNone]\<rparr>\<rparr>)
     (CreateExperiment (6, 7) 9 ''salt'' sample_experiment sample_variants [] ''ann'') = Inl err"
  by (rule recreated_key_refused
      [of "new_outbox_row 3 2 ''demo'' ''experiment_change'' (dedup_key_of ''exp'' 1 ''experiment_created'') PNone"])
    (simp_all add: new_outbox_row_def sample_experiment_def)

end
