(* ===== verification/CanonicalJson.thy ===== *)
theory CanonicalJson
  imports Prelude
begin

text \<open>
  JSON texts as the ingestion service and the ClickHouse writer read them. Both call
  \<open>json.loads\<close> with an \<open>object_pairs_hook\<close> that refuses a repeated key and a \<open>parse_constant\<close>
  that refuses \<open>NaN\<close> and the infinities. A text is given by what the parser finds in it: it is
  not JSON, or it is a tree whose objects still have all their pairs and whose constants are
  still there. A number text beyond the range of floats (such as \<open>1e999\<close>) is not a constant:
  the parser makes it an infinite float.
\<close>

datatype json_tree =
    JNull
  | JBool bool
  | JInt int
  | JFloat pyfloat
  | JStr string
  | JConstant string
  | JArray "json_tree list"
  | JObject "(string \<times> json_tree) list"

datatype json_source = Malformed | Tree json_tree

datatype json_refusal = InvalidJson | DuplicateJsonKey string | NonFiniteJson string

text \<open>\<open>object_from_pairs\<close>, on the pairs of an object that have been read.\<close>

fun object_from_pairs :: "dict \<Rightarrow> dict \<Rightarrow> (json_refusal, dict) result" where
  "object_from_pairs [] d = Inr d"
| "object_from_pairs ((k, v) # pairs) d =
     (if has_key d k then Inl (DuplicateJsonKey k) else object_from_pairs pairs (d @ [(k, v)]))"

fun read_tree :: "json_tree \<Rightarrow> (json_refusal, pyval) result"
  and read_trees :: "json_tree list \<Rightarrow> (json_refusal, pyval list) result"
  and read_pairs :: "(string \<times> json_tree) list \<Rightarrow> (json_refusal, dict) result" where
  "read_tree JNull = Inr PNone"
| "read_tree (JBool b) = Inr (PBool b)"
| "read_tree (JInt i) = Inr (PInt i)"
| "read_tree (JFloat f) = Inr (PFloat f)"
| "read_tree (JStr s) = Inr (PStr s)"
| "read_tree (JConstant c) = Inl (NonFiniteJson c)"
| "read_tree (JArray ts) = (case read_trees ts of Inl e \<Rightarrow> Inl e | Inr vs \<Rightarrow> Inr (PList vs))"
| "read_tree (JObject ps) =
     (case read_pairs ps of
        Inl e \<Rightarrow> Inl e
      | Inr kvs \<Rightarrow> (case object_from_pairs kvs [] of Inl e \<Rightarrow> Inl e | Inr d \<Rightarrow> Inr (PDict d)))"
| "read_trees [] = Inr []"
| "read_trees (t # ts) =
     (case read_tree t of
        Inl e \<Rightarrow> Inl e
      | Inr v \<Rightarrow> (case read_trees ts of Inl e \<Rightarrow> Inl e | Inr vs \<Rightarrow> Inr (v # vs)))"
| "read_pairs [] = Inr []"
| "read_pairs ((k, t) # ps) =
     (case read_tree t of
        Inl e \<Rightarrow> Inl e
      | Inr v \<Rightarrow> (case read_pairs ps of Inl e \<Rightarrow> Inl e | Inr kvs \<Rightarrow> Inr ((k, v) # kvs)))"

definition parse_canonical_json :: "json_source \<Rightarrow> (json_refusal, pyval) result" where
  "parse_canonical_json raw = (case raw of Malformed \<Rightarrow> Inl InvalidJson | Tree t \<Rightarrow> read_tree t)"

text \<open>The entries of an object; the callers have checked that the value is one.\<close>

definition as_dict :: "pyval \<Rightarrow> dict" where
  "as_dict v = (case v of PDict d \<Rightarrow> d | _ \<Rightarrow> [])"

section \<open>Written texts\<close>

text \<open>The tree of the text \<open>json.dumps\<close> writes for a value without infinities and NaN.\<close>

fun tree_of :: "pyval \<Rightarrow> json_tree" where
  "tree_of PNone = JNull"
| "tree_of (PBool b) = JBool b"
| "tree_of (PInt i) = JInt i"
| "tree_of (PFloat f) = JFloat f"
| "tree_of (PStr s) = JStr s"
| "tree_of (PList xs) = JArray (map tree_of xs)"
| "tree_of (PDict d) = JObject (map (\<lambda>(k, v). (k, tree_of v)) d)"

text \<open>Values as the parser builds them: no object has a key twice.\<close>

fun unique_keys_in :: "pyval \<Rightarrow> bool" where
  "unique_keys_in (PList xs) = list_all unique_keys_in xs"
| "unique_keys_in (PDict d) = (distinct (map fst d) \<and> list_all (\<lambda>(k, v). unique_keys_in v) d)"
| "unique_keys_in v = True"

lemma object_from_pairs_distinct:
  "object_from_pairs ps d = Inr r \<Longrightarrow> distinct (map fst d) \<Longrightarrow> distinct (map fst r) \<and> r = d @ ps"
proof (induction ps d rule: object_from_pairs.induct)
  case (2 k v pairs d)
  from 2(2) have new: "\<not> has_key d k" and rest: "object_from_pairs pairs (d @ [(k, v)]) = Inr r"
    by (simp_all split: if_splits)
  have "distinct (map fst (d @ [(k, v)]))" using new 2(3) by (simp add: has_key_iff)
  note step = 2(1) [OF new rest this]
  from conjunct2 [OF step] have "r = d @ (k, v) # pairs" by simp
  with conjunct1 [OF step] show ?case by blast
qed simp

lemma object_from_pairs_unique:
  "distinct (map fst (d @ ps)) \<Longrightarrow> object_from_pairs ps d = Inr (d @ ps)"
  by (induction ps d rule: object_from_pairs.induct) (auto simp: has_key_iff)

lemma read_tree_unique:
  "read_tree t = Inr v \<Longrightarrow> unique_keys_in v"
  "read_trees ts = Inr vs \<Longrightarrow> list_all unique_keys_in vs"
  "read_pairs ps = Inr d \<Longrightarrow> list_all (\<lambda>(k, x). unique_keys_in x) d"
  by (induction t and ts and ps arbitrary: v and vs and d rule: read_tree_read_trees_read_pairs.induct)
     (auto split: sum.splits dest!: object_from_pairs_distinct)

lemma read_tree_of:
  "unique_keys_in v \<Longrightarrow> read_tree (tree_of v) = Inr v"
  and read_trees_of: "list_all unique_keys_in vs \<Longrightarrow> read_trees (map tree_of vs) = Inr vs"
  and read_pairs_of: "list_all (\<lambda>(k, x). unique_keys_in x) d \<Longrightarrow>
     read_pairs (map (\<lambda>(k, x). (k, tree_of x)) d) = Inr d"
proof -
  have "(unique_keys_in v \<longrightarrow> read_tree (tree_of v) = Inr v)" for v
  proof (induction v rule: unique_keys_in.induct)
    case (1 xs)
    have "list_all unique_keys_in xs \<Longrightarrow> read_trees (map tree_of xs) = Inr xs"
      using 1 by (induction xs) auto
    then show ?case by simp
  next
    case (2 d)
    have "list_all (\<lambda>(k, x). unique_keys_in x) d \<Longrightarrow>
        read_pairs (map (\<lambda>(k, x). (k, tree_of x)) d) = Inr d"
      using 2 by (induction d) (auto, force)
    then show ?case by (simp add: object_from_pairs_unique [where d = "[]", simplified])
  qed simp_all
  then have main: "unique_keys_in v \<Longrightarrow> read_tree (tree_of v) = Inr v" for v by blast
  then show "unique_keys_in v \<Longrightarrow> read_tree (tree_of v) = Inr v" .
  show "list_all unique_keys_in vs \<Longrightarrow> read_trees (map tree_of vs) = Inr vs"
    by (induction vs) (auto simp: main)
  show "list_all (\<lambda>(k, x). unique_keys_in x) d \<Longrightarrow>
     read_pairs (map (\<lambda>(k, x). (k, tree_of x)) d) = Inr d"
    by (induction d) (auto simp: main)
qed

end
