(* ===== verification/Timestamps.thy ===== *)
theory Timestamps
  imports RedisCache
begin

text \<open>
  UTC datetimes as the ingestion service and the ClickHouse writer handle them: the fields of a
  Python \<open>datetime\<close>, their position on the time line in microseconds, the canonical RFC 3339
  texts both services accept, and the text the ingestion endpoint stamps on an event. The
  pattern's \<open>\d\<close> is an ASCII digit.
\<close>

section \<open>Datetimes\<close>

record datetime =
  dt_year :: int
  dt_month :: int
  dt_day :: int
  dt_hour :: int
  dt_minute :: int
  dt_second :: int
  dt_microsecond :: int

definition leap_year :: "int \<Rightarrow> bool" where
  "leap_year y \<longleftrightarrow> y mod 4 = 0 \<and> (y mod 100 \<noteq> 0 \<or> y mod 400 = 0)"

definition days_in_month :: "int \<Rightarrow> int \<Rightarrow> int" where
  "days_in_month y m =
     (if m = 2 then (if leap_year y then 29 else 28) else if m \<in> {4, 6, 9, 11} then 30 else 31)"

text \<open>The ranges the constructor of \<open>datetime\<close> checks.\<close>

definition datetime_ok :: "datetime \<Rightarrow> bool" where
  "datetime_ok d \<longleftrightarrow> 1 \<le> dt_year d \<and> dt_year d \<le> 9999 \<and> 1 \<le> dt_month d \<and> dt_month d \<le> 12
     \<and> 1 \<le> dt_day d \<and> dt_day d \<le> days_in_month (dt_year d) (dt_month d)
     \<and> 0 \<le> dt_hour d \<and> dt_hour d \<le> 23 \<and> 0 \<le> dt_minute d \<and> dt_minute d \<le> 59
     \<and> 0 \<le> dt_second d \<and> dt_second d \<le> 59 \<and> 0 \<le> dt_microsecond d \<and> dt_microsecond d \<le> 999999"

definition days_before_year :: "int \<Rightarrow> int" where
  "days_before_year y = (let p = y - 1 in p * 365 + p div 4 - p div 100 + p div 400)"

definition days_before_month :: "int \<Rightarrow> int \<Rightarrow> int" where
  "days_before_month y m =
     sum_list (map (\<lambda>k. days_in_month y (int k)) [1..<nat m])"

text \<open>The order and the differences of UTC datetimes, in microseconds.\<close>

definition micros :: "datetime \<Rightarrow> int" where
  "micros d = ((((days_before_year (dt_year d) + days_before_month (dt_year d) (dt_month d) + dt_day d) * 24
      + dt_hour d) * 60 + dt_minute d) * 60 + dt_second d) * 1000000 + dt_microsecond d"

section \<open>Canonical texts\<close>

definition lit :: "char \<Rightarrow> string \<Rightarrow> string option" where
  "lit c s = (case s of [] \<Rightarrow> None | x # r \<Rightarrow> if x = c then Some r else None)"

definition digits :: "nat \<Rightarrow> string \<Rightarrow> (int \<times> string) option" where
  "digits k s = (if k \<le> length s \<and> list_all is_digit (take k s)
                 then Some (digits_val (take k s), drop k s) else None)"

text \<open>The optional fraction, padded to microseconds, and the final \<open>Z\<close>.\<close>

definition fraction :: "string \<Rightarrow> int option" where
  "fraction r =
     (case r of
        [] \<Rightarrow> None
      | c # t \<Rightarrow>
          if c = CHR ''Z'' then (if t = [] then Some 0 else None)
          else if c = CHR ''.''
          then (let ds = takeWhile is_digit t
                in if 1 \<le> length ds \<and> length ds \<le> 6 \<and> dropWhile is_digit t = ''Z''
                   then Some (digits_val ds * 10 ^ (6 - length ds)) else None)
          else None)"

definition match_rfc3339 :: "string \<Rightarrow> datetime option" where
  "match_rfc3339 s = do {
     (y, r) \<leftarrow> digits 4 s; r \<leftarrow> lit (CHR ''-'') r;
     (mo, r) \<leftarrow> digits 2 r; r \<leftarrow> lit (CHR ''-'') r;
     (da, r) \<leftarrow> digits 2 r; r \<leftarrow> lit (CHR ''T'') r;
     (h, r) \<leftarrow> digits 2 r; r \<leftarrow> lit (CHR '':'') r;
     (mi, r) \<leftarrow> digits 2 r; r \<leftarrow> lit (CHR '':'') r;
     (se, r) \<leftarrow> digits 2 r; us \<leftarrow> fraction r;
     Some \<lparr>dt_year = y, dt_month = mo, dt_day = da, dt_hour = h, dt_minute = mi, dt_second = se,
           dt_microsecond = us\<rparr> }"

definition parse_timestamp :: "string \<Rightarrow> datetime option" where
  "parse_timestamp s = do {
     d \<leftarrow> match_rfc3339 s;
     if 1000 \<le> dt_year d \<and> datetime_ok d then Some d else None }"

definition MAX_EVENT_AGE_SECONDS :: int where "MAX_EVENT_AGE_SECONDS = 7 * 24 * 60 * 60"
definition MAX_EVENT_FUTURE_SKEW_SECONDS :: int where "MAX_EVENT_FUTURE_SKEW_SECONDS = 5 * 60"

text \<open>
  The window around the receipt. The sums and differences of \<open>datetime\<close> raise beyond the years
  1 to 9999, which a receipt between the years 1000 and 9998 stays clear of.
\<close>

definition timestamp_window_ok :: "datetime \<Rightarrow> datetime \<Rightarrow> bool" where
  "timestamp_window_ok t received \<longleftrightarrow>
     micros received - MAX_EVENT_AGE_SECONDS * 1000000 \<le> micros t
     \<and> micros t \<le> micros received + MAX_EVENT_FUTURE_SKEW_SECONDS * 1000000"

text \<open>The receipt is cut to milliseconds and written with three digits of them.\<close>

fun pad :: "nat \<Rightarrow> int \<Rightarrow> string" where
  "pad 0 n = []"
| "pad (Suc k) n = pad k (n div 10) @ [char_of (48 + nat (n mod 10))]"

definition truncate_millis :: "datetime \<Rightarrow> datetime" where
  "truncate_millis d = d\<lparr>dt_microsecond := dt_microsecond d div 1000 * 1000\<rparr>"

definition server_timestamp :: "datetime \<Rightarrow> string" where
  "server_timestamp d = pad 4 (dt_year d) @ ''-'' @ pad 2 (dt_month d) @ ''-'' @ pad 2 (dt_day d) @ ''T''
     @ pad 2 (dt_hour d) @ '':'' @ pad 2 (dt_minute d) @ '':'' @ pad 2 (dt_second d) @ ''.''
     @ pad 3 (dt_microsecond d div 1000) @ ''Z''"

section \<open>Lemmas\<close>

lemma length_pad [simp]: "length (pad k n) = k"
  by (induction k n rule: pad.induct) simp_all

lemma pad_digits [simp]: "list_all is_digit (pad k n)"
proof (induction k n rule: pad.induct)
  case (2 k n)
  have "nat (n mod 10) < 10" by simp
  from dec_char [OF this] 2 show ?case by simp
qed simp

lemma digits_val_pad: "0 \<le> n \<Longrightarrow> digits_val (pad k n) = n mod 10 ^ k"
proof (induction k n rule: pad.induct)
  case (2 k n)
  have c: "digit_val (char_of (48 + nat (n mod 10))) = n mod 10"
    using dec_char [of "nat (n mod 10)"] by simp
  have "n div 10 mod 10 ^ k * 10 + n mod 10 = n mod (10 * 10 ^ k)"
    by (simp add: zmod_zmult2_eq algebra_simps)
  with 2 c show ?case by (simp add: digits_val_snoc)
qed simp

lemma digits_pad: "0 \<le> n \<Longrightarrow> n < 10 ^ k \<Longrightarrow> digits k (pad k n @ r) = Some (n, r)"
  by (simp add: digits_def digits_val_pad)

lemma lit_Cons [simp]: "lit c (c # r) = Some r"
  by (simp add: lit_def)

lemma takeWhile_pad: "takeWhile is_digit (pad k n @ ''Z'') = pad k n" "dropWhile is_digit (pad k n @ ''Z'') = ''Z''"
proof -
  have "\<forall>c \<in> set (pad k n). is_digit c" using pad_digits by (simp add: list_all_iff)
  moreover have "\<not> is_digit (CHR ''Z'')" by (simp add: is_digit_def)
  ultimately show "takeWhile is_digit (pad k n @ ''Z'') = pad k n" "dropWhile is_digit (pad k n @ ''Z'') = ''Z''"
    by (simp_all add: takeWhile_append2 dropWhile_append2)
qed

lemma fraction_pad:
  "0 \<le> n \<Longrightarrow> n < 1000 \<Longrightarrow> fraction (''.'' @ pad 3 n @ ''Z'') = Some (n * 1000)"
  by (simp add: fraction_def Let_def takeWhile_pad digits_val_pad)

text \<open>The text a receipt is stamped with reads back as the receipt, cut to milliseconds.\<close>

lemma server_timestamp_reads_back:
  assumes "datetime_ok d" "1000 \<le> dt_year d"
  shows "parse_timestamp (server_timestamp (truncate_millis d)) = Some (truncate_millis d)"
proof -
  let ?d = "truncate_millis d"
  have ok: "datetime_ok ?d" using assms(1) by (auto simp: datetime_ok_def truncate_millis_def)
  then have dim: "dt_day ?d \<le> 31" by (auto simp: datetime_ok_def days_in_month_def split: if_splits)
  have us: "0 \<le> dt_microsecond ?d div 1000" "dt_microsecond ?d div 1000 < 1000"
    "dt_microsecond ?d div 1000 * 1000 = dt_microsecond ?d"
    using assms(1) by (auto simp: datetime_ok_def truncate_millis_def)
  have "match_rfc3339 (server_timestamp ?d) = Some ?d"
    unfolding match_rfc3339_def server_timestamp_def append_assoc
    using ok dim us
    by (simp add: digits_pad fraction_pad [simplified] datetime_ok_def)
  then show ?thesis using ok assms(2) by (simp add: parse_timestamp_def truncate_millis_def)
qed

end
