(* ===== verification/WriterRows.thy ===== *)
theory WriterRows
  imports CanonicalJson Timestamps
begin

text \<open>
  What the ClickHouse writer (\<open>pipeline/redis/clickhouse_writer.py\<close>) reads from a stream entry:
  stream keys and stream ids, boundary markers, and the row an event becomes. The fields of an
  entry are texts; \<open>loads\<close> is what the JSON parser finds in a text. A check that fails gives the
  class of the exception it raises, which is all that the dead-letter stream keeps of it.
\<close>

datatype row_error = TypeE | ValueE | JsonDecodeE | OverflowE

definition error_type :: "row_error \<Rightarrow> string" where
  "error_type e = (case e of TypeE \<Rightarrow> ''TypeError'' | ValueE \<Rightarrow> ''ValueError''
     | JsonDecodeE \<Rightarrow> ''JSONDecodeError'' | OverflowE \<Rightarrow> ''OverflowError'')"

text \<open>A sequence of checks raises at the first that fails.\<close>

definition failing :: "bool \<Rightarrow> row_error \<Rightarrow> row_error option" where
  "failing bad e = (if bad then Some e else None)"

fun first_failure :: "row_error option list \<Rightarrow> row_error option" where
  "first_failure [] = None"
| "first_failure (c # cs) = (case c of Some e \<Rightarrow> Some e | None \<Rightarrow> first_failure cs)"

type_synonym fields = "(string \<times> string) list"

section \<open>Stream keys\<close>

definition STREAM_PREFIX :: string where "STREAM_PREFIX = ''events:raw:''"
definition DLQ_STREAM_PREFIX :: string where "DLQ_STREAM_PREFIX = ''events:dlq:''"

definition is_alnum :: "char \<Rightarrow> bool" where
  "is_alnum c \<longleftrightarrow> is_digit c \<or> (65 \<le> (of_char c :: nat) \<and> (of_char c :: nat) \<le> 90)
     \<or> (97 \<le> (of_char c :: nat) \<and> (of_char c :: nat) \<le> 122)"

definition project_id_ok :: "string \<Rightarrow> bool" where
  "project_id_ok p \<longleftrightarrow> 1 \<le> length p \<and> length p \<le> 64 \<and> list_all is_alnum p"

definition project_id_from_stream :: "string \<Rightarrow> (row_error, string) result" where
  "project_id_from_stream stream_key =
     (if \<not> starts_with stream_key STREAM_PREFIX then Inl ValueE
      else let p = drop (length STREAM_PREFIX) stream_key
           in if project_id_ok p then Inr p else Inl ValueE)"

definition stream_key_for_project :: "string \<Rightarrow> (row_error, string) result" where
  "stream_key_for_project p = (if project_id_ok p then Inr (STREAM_PREFIX @ p) else Inl ValueE)"

definition dlq_stream_for_project :: "string \<Rightarrow> (row_error, string) result" where
  "dlq_stream_for_project p =
     (case stream_key_for_project p of Inl e \<Rightarrow> Inl e | Inr _ \<Rightarrow> Inr (DLQ_STREAM_PREFIX @ p))"

section \<open>Stream ids\<close>

type_synonym stream_id = "nat \<times> nat"

text \<open>\<open>stream_id.split("-", 1)\<close>; a text without a dash has one part and does not unpack.\<close>

definition split_dash :: "string \<Rightarrow> (string \<times> string) option" where
  "split_dash s = (case dropWhile (\<lambda>c. c \<noteq> CHR ''-'') s of
     [] \<Rightarrow> None | _ # r \<Rightarrow> Some (takeWhile (\<lambda>c. c \<noteq> CHR ''-'') s, r))"

text \<open>A text with \<open>str(int(text)) == text\<close> and a value that is not negative.\<close>

definition canonical_nat :: "string \<Rightarrow> nat option" where
  "canonical_nat s =
     (if s \<noteq> [] \<and> list_all is_digit s \<and> dec (nat (digits_val s)) = s then Some (nat (digits_val s)) else None)"

definition stream_id_parts :: "string \<Rightarrow> (row_error, stream_id) result" where
  "stream_id_parts s =
     (case split_dash s of
        None \<Rightarrow> Inl ValueE
      | Some (ms_text, seq_text) \<Rightarrow>
          (case (canonical_nat ms_text, canonical_nat seq_text) of
             (Some ms, Some sq) \<Rightarrow> if 2 ^ 64 \<le> ms \<or> 2 ^ 64 \<le> sq then Inl ValueE else Inr (ms, sq)
           | _ \<Rightarrow> Inl ValueE))"

definition id_text :: "stream_id \<Rightarrow> string" where
  "id_text i = dec (fst i) @ ''-'' @ dec (snd i)"

text \<open>The ids the group reports are decimal numerals; other texts \<open>int\<close> reads are left out.\<close>

definition next_stream_id :: "string \<Rightarrow> (row_error, string) result" where
  "next_stream_id s =
     (case split_dash s of
        None \<Rightarrow> Inl ValueE
      | Some (ms_text, seq_text) \<Rightarrow>
          (case (int_of_text ms_text, int_of_text seq_text) of
             (Some ms, Some sq) \<Rightarrow>
               if 2 ^ 64 - 1 \<le> sq then Inr (dec (nat (ms + 1)) @ ''-0'')
               else Inr (dec (nat ms) @ ''-'' @ dec (nat (sq + 1)))
           | _ \<Rightarrow> Inl ValueE))"

definition id_less :: "stream_id \<Rightarrow> stream_id \<Rightarrow> bool" where
  "id_less i j \<longleftrightarrow> fst i < fst j \<or> (fst i = fst j \<and> snd i < snd j)"

section \<open>Boundary markers\<close>

definition BOUNDARY_MARKER_KIND :: string where
  "BOUNDARY_MARKER_KIND = ''experiment_analysis_boundary''"

definition is_hex :: "char \<Rightarrow> bool" where
  "is_hex c \<longleftrightarrow> is_digit c \<or> (97 \<le> (of_char c :: nat) \<and> (of_char c :: nat) \<le> 102)"

definition boundary_token_ok :: "string \<Rightarrow> bool" where
  "boundary_token_ok t \<longleftrightarrow> length t = 64 \<and> list_all is_hex t"

definition parse_boundary_marker :: "fields \<Rightarrow> (row_error, string option) result" where
  "parse_boundary_marker data =
     (if \<not> has_key data ''message_kind'' then Inr None
      else if fst ` set data \<noteq> {''message_kind'', ''boundary_token''} then Inl ValueE
      else if map_of data ''message_kind'' \<noteq> Some BOUNDARY_MARKER_KIND then Inl ValueE
      else (case map_of data ''boundary_token'' of
              Some t \<Rightarrow> if boundary_token_ok t then Inr (Some t) else Inl ValueE
            | None \<Rightarrow> Inl ValueE))"

section \<open>Context\<close>

definition CANONICAL_EVENT_TYPES :: "string list" where
  "CANONICAL_EVENT_TYPES = [''track'', ''identify'', ''group'', ''page'']"
definition CANONICAL_CONTEXT_FIELDS :: "string list" where
  "CANONICAL_CONTEXT_FIELDS = [''library'', ''browser'', ''os'', ''device'', ''screen'', ''viewport'', ''page'',
     ''locale'', ''timezone'', ''referrer'']"
definition CANONICAL_EVENT_FIELDS :: "string list" where
  "CANONICAL_EVENT_FIELDS = [''event'', ''type'', ''user_id'', ''anonymous_id'', ''group_id'', ''timestamp'',
     ''properties'', ''traits'', ''context'', ''message_id'', ''session_id'', ''project_id'',
     ''server_timestamp'', ''ip'']"
definition CANONICAL_REQUIRED_EVENT_FIELDS :: "string list" where
  "CANONICAL_REQUIRED_EVENT_FIELDS =
     [''event'', ''type'', ''timestamp'', ''server_timestamp'', ''context'', ''message_id'']"

definition reject_unknown_object_fields :: "dict \<Rightarrow> string list \<Rightarrow> row_error option" where
  "reject_unknown_object_fields d allowed = failing (\<not> keys_within d allowed) ValueE"

definition validate_nested_object :: "pyval \<Rightarrow> string list \<Rightarrow> row_error option list" where
  "validate_nested_object v names =
     [failing (\<not> is_dict v) TypeE, reject_unknown_object_fields (as_dict v) names,
      failing (\<not> list_all (has_key (as_dict v)) names) ValueE]"

definition require_string :: "pyval \<Rightarrow> nat \<Rightarrow> bool \<Rightarrow> row_error option list" where
  "require_string v maximum non_empty =
     [failing (\<not> is_str v) TypeE, failing (non_empty \<and> v = PStr []) ValueE,
      failing (case v of PStr s \<Rightarrow> maximum < length s | _ \<Rightarrow> False) ValueE]"

definition require_dimension :: "pyval \<Rightarrow> row_error option list" where
  "require_dimension v = [failing (\<not> (case v of PInt i \<Rightarrow> 0 \<le> i \<and> i \<le> 100000 | _ \<Rightarrow> False)) ValueE]"

definition when_present :: "dict \<Rightarrow> string \<Rightarrow> (pyval \<Rightarrow> row_error option list) \<Rightarrow> row_error option list" where
  "when_present c field check = (if has_key c field then check (dget c field) else [])"

definition validate_context :: "dict \<Rightarrow> row_error option list" where
  "validate_context c =
     [reject_unknown_object_fields c CANONICAL_CONTEXT_FIELDS]
     @ concat (map (\<lambda>field. when_present c field (\<lambda>v. validate_nested_object v [''name'', ''version'']
          @ require_string (dget (as_dict v) ''name'') 128 True
          @ require_string (dget (as_dict v) ''version'') 128 True)) [''library'', ''browser'', ''os''])
     @ when_present c ''device'' (\<lambda>v. validate_nested_object v [''type'']
          @ require_string (dget (as_dict v) ''type'') 64 True)
     @ concat (map (\<lambda>field. when_present c field (\<lambda>v. validate_nested_object v [''width'', ''height'']
          @ require_dimension (dget (as_dict v) ''width'') @ require_dimension (dget (as_dict v) ''height'')))
         [''screen'', ''viewport''])
     @ when_present c ''page'' (\<lambda>v. validate_nested_object v [''url'', ''title'', ''path'', ''search'']
          @ concat (map (\<lambda>(field, maximum). require_string (dget (as_dict v) field) maximum False)
              [(''url'', 4096), (''title'', 1024), (''path'', 2048), (''search'', 2048)]))
     @ concat (map (\<lambda>(field, maximum). when_present c field (\<lambda>v. require_string v maximum False))
         [(''locale'', 128), (''timezone'', 128), (''referrer'', 4096)])"

section \<open>Rows\<close>

record event_row =
  er_project_id :: string
  er_message_id :: string
  er_event_type :: string
  er_event_name :: string
  er_user_id :: string
  er_anonymous_id :: string
  er_group_id :: string
  er_session_id :: string
  er_timestamp :: datetime
  er_received_at :: datetime
  er_properties :: json_tree
  er_traits :: json_tree
  er_context :: json_tree
  er_ip :: string
  er_country :: string
  er_device_type :: string
  er_browser :: string
  er_source_stream :: string
  er_source_stream_id :: string
  er_source_stream_id_ms :: nat
  er_source_stream_id_seq :: nat

text \<open>\<open>json.dumps(v, allow_nan=False)\<close> raises on a float that is not finite.\<close>

fun json_writable :: "pyval \<Rightarrow> bool" where
  "json_writable (PFloat f) = is_finite f"
| "json_writable (PList xs) = list_all json_writable xs"
| "json_writable (PDict d) = list_all (\<lambda>(k, v). json_writable v) d"
| "json_writable v = True"

definition MAX_MICROS :: int where
  "MAX_MICROS = micros \<lparr>dt_year = 9999, dt_month = 12, dt_day = 31, dt_hour = 23, dt_minute = 59, dt_second = 59,
     dt_microsecond = 999999\<rparr>"

definition validate_event_timestamp_window :: "datetime \<Rightarrow> datetime \<Rightarrow> row_error option list" where
  "validate_event_timestamp_window timestamp received_at =
     [failing (micros timestamp < micros received_at - MAX_EVENT_AGE_SECONDS * 1000000) ValueE,
      failing (MAX_MICROS < micros received_at + MAX_EVENT_FUTURE_SKEW_SECONDS * 1000000) OverflowE,
      failing (micros received_at + MAX_EVENT_FUTURE_SKEW_SECONDS * 1000000 < micros timestamp) ValueE]"

definition read_timestamp :: "pyval \<Rightarrow> (row_error, datetime) result" where
  "read_timestamp v = (case v of
     PStr s \<Rightarrow> (case parse_timestamp s of None \<Rightarrow> Inl ValueE | Some d \<Rightarrow> Inr d) | _ \<Rightarrow> Inl TypeE)"

text \<open>\<open>_optional_string\<close> and \<open>_identity_string\<close>: a missing field or a null is the empty text.\<close>

definition optional_string :: "dict \<Rightarrow> string \<Rightarrow> (row_error, string) result" where
  "optional_string d field = (case dget d field of PNone \<Rightarrow> Inr [] | PStr s \<Rightarrow> Inr s | _ \<Rightarrow> Inl TypeE)"

definition event_name :: "dict \<Rightarrow> (row_error, string) result" where
  "event_name d = (case dget d ''event'' of PStr s \<Rightarrow> if s = [] then Inl TypeE else Inr s | _ \<Rightarrow> Inl TypeE)"

definition check_of :: "(row_error, 'a) result \<Rightarrow> row_error option" where
  "check_of r = (case r of Inl e \<Rightarrow> Some e | Inr _ \<Rightarrow> None)"

definition result_or :: "'a \<Rightarrow> (row_error, 'a) result \<Rightarrow> 'a" where
  "result_or d r = (case r of Inl _ \<Rightarrow> d | Inr x \<Rightarrow> x)"

definition source_parts :: "string \<Rightarrow> string \<Rightarrow> string \<Rightarrow> (row_error, stream_id) result" where
  "source_parts project_id source_stream source_stream_id =
     (if source_stream \<noteq> []
      then (case stream_key_for_project project_id of
              Inl e \<Rightarrow> Inl e
            | Inr key \<Rightarrow> if source_stream \<noteq> key then Inl ValueE else stream_id_parts source_stream_id)
      else if source_stream_id \<noteq> [] then Inl ValueE else Inr (0, 0))"

text \<open>The checks on the envelope of a decoded event, up to its timestamps.\<close>

definition envelope_checks :: "fields \<Rightarrow> dict \<Rightarrow> string \<Rightarrow> row_error option list" where
  "envelope_checks data e project_id =
     [failing (\<not> keys_within e CANONICAL_EVENT_FIELDS) ValueE,
      failing (\<not> list_all (has_key e) CANONICAL_REQUIRED_EVENT_FIELDS) ValueE]
     @ map (\<lambda>field. failing (map_of e field = Some PNone) ValueE)
         [''user_id'', ''anonymous_id'', ''group_id'', ''properties'', ''traits'', ''session_id'']
     @ [failing (case map_of data ''project_id'' of None \<Rightarrow> False | Some p \<Rightarrow> p \<noteq> project_id) ValueE,
        failing (dget e ''project_id'' \<noteq> PNone \<and> dget e ''project_id'' \<noteq> PStr project_id) ValueE,
        check_of (event_name e),
        failing (is_list (dget e ''type'') \<or> is_dict (dget e ''type'')) TypeE,
        failing (\<not> (case dget e ''type'' of PStr t \<Rightarrow> t \<in> set CANONICAL_EVENT_TYPES | _ \<Rightarrow> False)) ValueE,
        failing (\<exists>t \<in> {''identify'', ''group'', ''page''}. dget e ''type'' = PStr t \<and> dget e ''event'' \<noteq> PStr t) ValueE,
        failing (\<not> truthy (dget e ''user_id'') \<and> \<not> truthy (dget e ''anonymous_id'')) ValueE,
        failing (dget e ''type'' = PStr ''identify'' \<and> \<not> truthy (dget e ''user_id'')) ValueE,
        failing (dget e ''type'' = PStr ''group'' \<and> \<not> truthy (dget e ''group_id'')) ValueE,
        failing (\<not> (case dget e ''message_id'' of PStr m \<Rightarrow> m \<noteq> [] | _ \<Rightarrow> False)) ValueE]"

text \<open>An absent object of properties or traits is the empty one.\<close>

definition object_or_empty :: "dict \<Rightarrow> string \<Rightarrow> pyval" where
  "object_or_empty e field = (if dget e field = PNone then PDict [] else dget e field)"

definition context_checks :: "dict \<Rightarrow> row_error option list" where
  "context_checks e =
     [failing (\<not> is_dict (dget e ''context'')) TypeE] @ validate_context (as_dict (dget e ''context''))
     @ [failing (\<not> is_dict (object_or_empty e ''properties'')) TypeE,
        failing (\<not> is_dict (object_or_empty e ''traits'')) TypeE]"

text \<open>\<open>context.get(field) or {}\<close>.\<close>

definition nested_of :: "dict \<Rightarrow> string \<Rightarrow> dict" where
  "nested_of e field = as_dict (dget (as_dict (dget e ''context'')) field)"

definition row_checks :: "dict \<Rightarrow> row_error option list" where
  "row_checks e =
     map (\<lambda>field. check_of (optional_string e field))
       [''message_id'', ''user_id'', ''anonymous_id'', ''group_id'', ''session_id'']
     @ map (\<lambda>v. failing (\<not> json_writable v) ValueE)
         [object_or_empty e ''properties'', object_or_empty e ''traits'', dget e ''context'']
     @ [check_of (optional_string e ''ip''), check_of (optional_string (nested_of e ''device'') ''type''),
        check_of (optional_string (nested_of e ''browser'') ''name'')]"

definition row_of :: "dict \<Rightarrow> string \<Rightarrow> string \<Rightarrow> string \<Rightarrow> stream_id \<Rightarrow> datetime \<Rightarrow> datetime \<Rightarrow> event_row" where
  "row_of e project_id source_stream source_stream_id parts timestamp received_at =
     \<lparr>er_project_id = project_id, er_message_id = result_or [] (optional_string e ''message_id''),
      er_event_type = (case dget e ''type'' of PStr t \<Rightarrow> t | _ \<Rightarrow> []), er_event_name = result_or [] (event_name e),
      er_user_id = result_or [] (optional_string e ''user_id''),
      er_anonymous_id = result_or [] (optional_string e ''anonymous_id''),
      er_group_id = result_or [] (optional_string e ''group_id''),
      er_session_id = result_or [] (optional_string e ''session_id''),
      er_timestamp = timestamp, er_received_at = received_at,
      er_properties = tree_of (object_or_empty e ''properties''), er_traits = tree_of (object_or_empty e ''traits''),
      er_context = tree_of (dget e ''context''), er_ip = result_or [] (optional_string e ''ip''), er_country = [],
      er_device_type = result_or [] (optional_string (nested_of e ''device'') ''type''),
      er_browser = result_or [] (optional_string (nested_of e ''browser'') ''name''),
      er_source_stream = source_stream, er_source_stream_id = source_stream_id,
      er_source_stream_id_ms = fst parts, er_source_stream_id_seq = snd parts\<rparr>"

text \<open>\<open>_validate_clickhouse_row\<close>: the types of the record leave the bounds of the source id.\<close>

definition validate_clickhouse_row :: "event_row \<Rightarrow> row_error option" where
  "validate_clickhouse_row r =
     failing (2 ^ 64 \<le> er_source_stream_id_ms r \<or> 2 ^ 64 \<le> er_source_stream_id_seq r) TypeE"

definition event_of_json :: "fields \<Rightarrow> dict \<Rightarrow> string \<Rightarrow> string \<Rightarrow> string \<Rightarrow> (row_error, event_row) result" where
  "event_of_json data e project_id source_stream source_stream_id =
     (case first_failure (envelope_checks data e project_id) of
        Some x \<Rightarrow> Inl x
      | None \<Rightarrow>
          (case read_timestamp (dget e ''server_timestamp'') of
             Inl x \<Rightarrow> Inl x
           | Inr received_at \<Rightarrow>
               (case read_timestamp (dget e ''timestamp'') of
                  Inl x \<Rightarrow> Inl x
                | Inr timestamp \<Rightarrow>
                    (case first_failure (validate_event_timestamp_window timestamp received_at) of
                       Some x \<Rightarrow> Inl x
                     | None \<Rightarrow>
                         (case source_parts project_id source_stream source_stream_id of
                            Inl x \<Rightarrow> Inl x
                          | Inr parts \<Rightarrow>
                              (case first_failure (context_checks e @ row_checks e) of
                                 Some x \<Rightarrow> Inl x
                               | None \<Rightarrow>
                                   let row = row_of e project_id source_stream source_stream_id parts timestamp received_at
                                   in (case validate_clickhouse_row row of Some x \<Rightarrow> Inl x | None \<Rightarrow> Inr row)))))))"

definition parse_event ::
    "(string \<Rightarrow> json_source) \<Rightarrow> fields \<Rightarrow> string \<Rightarrow> string \<Rightarrow> string \<Rightarrow> (row_error, event_row) result" where
  "parse_event loads data project_id source_stream source_stream_id =
     (case map_of data ''event_json'' of
        None \<Rightarrow> Inl TypeE
      | Some text \<Rightarrow>
          (case parse_canonical_json (loads text) of
             Inl InvalidJson \<Rightarrow> Inl JsonDecodeE
           | Inl _ \<Rightarrow> Inl ValueE
           | Inr (PDict e) \<Rightarrow> event_of_json data e project_id source_stream source_stream_id
           | Inr _ \<Rightarrow> Inl ValueE))"


section \<open>Stream ids and their texts\<close>

lemma canonical_nat_dec [simp]: "canonical_nat (dec n) = Some n"
  using dec_numeral [of n] by (simp add: canonical_nat_def numeral_text_def)

lemma canonical_nat_iff: "canonical_nat s = Some n \<longleftrightarrow> s = dec n"
  using canonical_nat_dec [of n] by (auto simp: canonical_nat_def split: if_splits)

lemma dec_no_dash: "CHR ''-'' \<notin> set (dec n)"
  using dec_numeral [of n] by (auto simp: numeral_text_def list_all_iff is_digit_def)

lemma split_dash_append: "CHR ''-'' \<notin> set a \<Longrightarrow> split_dash (a @ ''-'' @ b) = Some (a, b)"
  by (simp add: split_dash_def dropWhile_append takeWhile_append)

lemma split_dash_Some: "split_dash s = Some (a, b) \<Longrightarrow> s = a @ ''-'' @ b"
proof -
  assume a: "split_dash s = Some (a, b)"
  then obtain c r where d: "dropWhile (\<lambda>c. c \<noteq> CHR ''-'') s = c # r" and "b = r"
    and "a = takeWhile (\<lambda>c. c \<noteq> CHR ''-'') s" by (auto simp: split_dash_def split: list.splits)
  moreover have "c = CHR ''-''" using d by (auto simp: dropWhile_eq_Cons_conv)
  ultimately show ?thesis using takeWhile_dropWhile_id [of "\<lambda>c. c \<noteq> CHR ''-''" s] by simp
qed

lemma stream_id_parts_iff:
  "stream_id_parts s = Inr i \<longleftrightarrow> s = id_text i \<and> fst i < 2 ^ 64 \<and> snd i < 2 ^ 64"
proof
  assume "stream_id_parts s = Inr i"
  then obtain a b where sp: "split_dash s = Some (a, b)" and "canonical_nat a = Some (fst i)"
    and "canonical_nat b = Some (snd i)" and "fst i < 2 ^ 64" "snd i < 2 ^ 64"
    by (auto simp: stream_id_parts_def split: option.splits prod.splits if_splits)
  then show "s = id_text i \<and> fst i < 2 ^ 64 \<and> snd i < 2 ^ 64"
    using split_dash_Some [OF sp] by (simp add: canonical_nat_iff id_text_def)
next
  assume "s = id_text i \<and> fst i < 2 ^ 64 \<and> snd i < 2 ^ 64"
  then show "stream_id_parts s = Inr i"
    using split_dash_append [OF dec_no_dash, of "fst i"] by (simp add: stream_id_parts_def id_text_def)
qed

lemma dec_0: "dec 0 = ''0''"
  by code_simp

lemma int_of_text_dec [simp]: "int_of_text (dec n) = Some (int n)"
  using dec_numeral [of n] by (simp add: int_of_text_def numeral_text_def)

lemma next_stream_id_text:
  "next_stream_id (id_text i) =
     Inr (id_text (if 2 ^ 64 - 1 \<le> snd i then (fst i + 1, 0) else (fst i, snd i + 1)))"
  using split_dash_append [OF dec_no_dash, of "fst i" "dec (snd i)"]
  by (simp add: next_stream_id_def id_text_def nat_add_distrib dec_0)

lemma project_stream_inverse: "project_id_from_stream key = Inr p \<longleftrightarrow> stream_key_for_project p = Inr key"
  by (auto simp: project_id_from_stream_def stream_key_for_project_def Let_def starts_with_iff_prefix
      prefix_def STREAM_PREFIX_def split: if_splits)

end
