(* ===== verification/WriterState.thy ===== *)
theory WriterState
  imports WriterRows "HOL-Library.List_Lexorder" "HOL-Library.Char_ord"
begin

text \<open>
  The state the ClickHouse writer works on and its operations
  (\<open>pipeline/redis/clickhouse_writer.py\<close>). Outside the process: the Redis streams with their
  consumer group, the dead-letter streams, the rows in ClickHouse, and the watermark and boundary
  tables of PostgreSQL. Inside: the buffer, the deliveries that are durable and wait for their
  acknowledgement, and the bookkeeping of finalization. Ids that Redis hands out are kept as the
  pairs of numbers their canonical texts denote. Every call to a store has an outcome: it works,
  it fails before its effect, or its reply is lost after its effect.
\<close>

section \<open>Redis streams\<close>

record redis_stream =
  rs_entries :: "(stream_id \<times> fields) list"
  rs_last_generated :: stream_id
  rs_last_delivered :: stream_id
  rs_entries_read :: nat
  rs_pending :: "stream_id list"

definition empty_stream :: redis_stream where
  "empty_stream = \<lparr>rs_entries = [], rs_last_generated = (0, 0), rs_last_delivered = (0, 0), rs_entries_read = 0,
     rs_pending = []\<rparr>"

definition xadd :: "stream_id \<Rightarrow> fields \<Rightarrow> redis_stream \<Rightarrow> redis_stream" where
  "xadd i data r = r\<lparr>rs_entries := rs_entries r @ [(i, data)], rs_last_generated := i\<rparr>"

text \<open>\<open>XREADGROUP ... COUNT n ... >\<close>: the next entries after the group's position.\<close>

definition unread :: "redis_stream \<Rightarrow> (stream_id \<times> fields) list" where
  "unread r = filter (\<lambda>(i, _). id_less (rs_last_delivered r) i) (rs_entries r)"

definition xreadgroup :: "nat \<Rightarrow> redis_stream \<Rightarrow> (stream_id \<times> fields) list \<times> redis_stream" where
  "xreadgroup n r =
     (let batch = take n (unread r)
      in (batch, if batch = [] then r
                 else r\<lparr>rs_last_delivered := fst (last batch), rs_entries_read := rs_entries_read r + length batch,
                        rs_pending := rs_pending r @ map fst batch\<rparr>))"

text \<open>
  \<open>XAUTOCLAIM\<close> over the pending ids \<open>stale\<close>: those whose entry is still there are delivered
  again, the others leave the pending list and are reported.
\<close>

definition xautoclaim ::
    "stream_id list \<Rightarrow> redis_stream \<Rightarrow> (stream_id \<times> fields) list \<times> stream_id list \<times> redis_stream" where
  "xautoclaim stale r =
     (let claimed = filter (\<lambda>i. i \<in> set (rs_pending r)) stale;
          deleted = filter (\<lambda>i. map_of (rs_entries r) i = None) claimed
      in (List.map_filter (\<lambda>i. map_option (Pair i) (map_of (rs_entries r) i)) claimed, deleted,
          r\<lparr>rs_pending := filter (\<lambda>i. i \<notin> set deleted) (rs_pending r)\<rparr>))"

definition xack :: "stream_id list \<Rightarrow> redis_stream \<Rightarrow> nat \<times> redis_stream" where
  "xack ids r = (length (filter (\<lambda>i. i \<in> set ids) (rs_pending r)),
     r\<lparr>rs_pending := filter (\<lambda>i. i \<notin> set ids) (rs_pending r)\<rparr>)"

definition xdel :: "stream_id list \<Rightarrow> redis_stream \<Rightarrow> nat \<times> redis_stream" where
  "xdel ids r = (length (filter (\<lambda>(i, _). i \<in> set ids) (rs_entries r)),
     r\<lparr>rs_entries := filter (\<lambda>(i, _). i \<notin> set ids) (rs_entries r)\<rparr>)"

definition xtrim_minid :: "stream_id \<Rightarrow> redis_stream \<Rightarrow> redis_stream" where
  "xtrim_minid bound r = r\<lparr>rs_entries := filter (\<lambda>(i, _). \<not> id_less i bound) (rs_entries r)\<rparr>"

section \<open>Stores\<close>

record watermark =
  wm_stream_key :: string
  wm_start :: stream_id
  wm_contiguous :: stream_id
  wm_entries_read :: nat
  wm_status :: string
  wm_reason :: "string option"

record boundary =
  bd_project :: string
  bd_stream_key :: string
  bd_token :: string
  bd_state :: string
  bd_stream_id :: "stream_id option"
  bd_observed :: "stream_id option"

record dlq_record =
  dl_source_stream :: string
  dl_source_id :: stream_id
  dl_reason_code :: string
  dl_error_type :: string

record pipe =
  pi_streams :: "string \<Rightarrow> redis_stream"
  pi_dlq :: "string \<Rightarrow> dlq_record list"
  pi_rows :: "event_row list"
  pi_watermarks :: "string \<Rightarrow> watermark option"
  pi_boundaries :: "boundary list"

text \<open>
  \<open>pi_dlq\<close> holds every record ever added to a dead-letter stream; with \<open>MAXLEN\<close> Redis keeps
  the last of them.
\<close>

definition keep_last :: "nat \<Rightarrow> 'a list \<Rightarrow> 'a list" where
  "keep_last n xs = drop (length xs - n) xs"

definition dlq_contents :: "nat \<Rightarrow> pipe \<Rightarrow> string \<Rightarrow> dlq_record list" where
  "dlq_contents maxlen px dlq = keep_last maxlen (pi_dlq px dlq)"

section \<open>The writer\<close>

record buffered_event =
  be_stream :: string
  be_id :: stream_id
  be_row :: "event_row option"
  be_token :: "string option"

record writer_stats =
  st_consumed :: nat
  st_flushed :: nat
  st_rejected :: nat
  st_dead_lettered :: nat
  st_lost :: nat
  st_errors :: nat

record writer =
  wr_buffer :: "buffered_event list"
  wr_pending_ack :: "(string \<times> stream_id list) list"
  wr_tokens :: "((string \<times> stream_id) \<times> string) list"
  wr_uncertain :: "string set"
  wr_finalized :: "(string \<times> stream_id list) list"
  wr_retry_count :: nat
  wr_next_retry_at :: rat
  wr_last_flush :: rat
  wr_stats :: writer_stats

record writer_config =
  wc_buffer_size :: nat
  wc_dlq_maxlen :: nat
  wc_authority :: bool

definition initial_stats :: writer_stats where
  "initial_stats = \<lparr>st_consumed = 0, st_flushed = 0, st_rejected = 0, st_dead_lettered = 0, st_lost = 0, st_errors = 0\<rparr>"

definition initial_writer :: "rat \<Rightarrow> writer" where
  "initial_writer now = \<lparr>wr_buffer = [], wr_pending_ack = [], wr_tokens = [], wr_uncertain = {}, wr_finalized = [],
     wr_retry_count = 0, wr_next_retry_at = 0, wr_last_flush = now, wr_stats = initial_stats\<rparr>"

type_synonym wstate = "writer \<times> pipe"

definition count_error :: "writer \<Rightarrow> writer" where
  "count_error wr = wr\<lparr>wr_stats := (wr_stats wr)\<lparr>st_errors := st_errors (wr_stats wr) + 1\<rparr>\<rparr>"

definition count_rejected :: "writer \<Rightarrow> writer" where
  "count_rejected wr = wr\<lparr>wr_stats := (wr_stats wr)\<lparr>st_rejected := st_rejected (wr_stats wr) + 1\<rparr>\<rparr>"

definition count_dead_lettered :: "writer \<Rightarrow> writer" where
  "count_dead_lettered wr =
     wr\<lparr>wr_stats := (wr_stats wr)\<lparr>st_dead_lettered := st_dead_lettered (wr_stats wr) + 1\<rparr>\<rparr>"

section \<open>Backpressure and retries\<close>

definition FLUSH_RETRY_BASE_SECONDS :: rat where "FLUSH_RETRY_BASE_SECONDS = 1"
definition FLUSH_RETRY_MAX_SECONDS :: rat where "FLUSH_RETRY_MAX_SECONDS = 30"

definition remaining_capacity :: "writer_config \<Rightarrow> writer \<Rightarrow> nat" where
  "remaining_capacity cfg wr = wc_buffer_size cfg - length (wr_buffer wr)"

definition stream_is_backpressured :: "writer \<Rightarrow> string \<Rightarrow> bool" where
  "stream_is_backpressured wr key = has_key (wr_pending_ack wr) key"

definition delivery_is_backpressured :: "writer_config \<Rightarrow> writer \<Rightarrow> bool" where
  "delivery_is_backpressured cfg wr \<longleftrightarrow> wc_buffer_size cfg \<le> length (wr_buffer wr)"

definition flush_retry_delay :: "writer \<Rightarrow> rat" where
  "flush_retry_delay wr =
     (let exponent = min (wr_retry_count wr - 1) 5
      in min (FLUSH_RETRY_BASE_SECONDS * 2 ^ exponent) FLUSH_RETRY_MAX_SECONDS)"

definition flush_retry_is_due :: "rat \<Rightarrow> writer \<Rightarrow> bool" where
  "flush_retry_is_due now wr \<longleftrightarrow> wr_next_retry_at wr \<le> now"

definition record_flush_failure :: "rat \<Rightarrow> writer \<Rightarrow> writer" where
  "record_flush_failure now wr =
     (let wr1 = wr\<lparr>wr_retry_count := wr_retry_count wr + 1\<rparr>
      in wr1\<lparr>wr_next_retry_at := fl (now + flush_retry_delay wr1)\<rparr>)"

definition reset_flush_retry :: "writer \<Rightarrow> writer" where
  "reset_flush_retry wr = wr\<lparr>wr_retry_count := 0, wr_next_retry_at := 0\<rparr>"

text \<open>\<open>_rotated_stream_keys\<close>: the keys in order from the cursor, and the cursor's next value.\<close>

definition rotated_stream_keys :: "string list \<Rightarrow> nat \<Rightarrow> string list \<times> nat" where
  "rotated_stream_keys stream_keys cursor =
     (let ordered = sort (remdups stream_keys)
      in if ordered = [] then ([], cursor)
         else let start = cursor mod length ordered
              in (drop start ordered @ take start ordered, (start + 1) mod length ordered))"

section \<open>Durable acknowledgements\<close>

definition queue_one :: "writer \<Rightarrow> buffered_event \<Rightarrow> writer" where
  "queue_one wr ev =
     (let ids = (case map_of (wr_pending_ack wr) (be_stream ev) of None \<Rightarrow> [] | Some ids \<Rightarrow> ids);
          ids' = (if be_id ev \<in> set ids then ids else ids @ [be_id ev]);
          wr1 = wr\<lparr>wr_pending_ack := dset (wr_pending_ack wr) (be_stream ev) ids'\<rparr>
      in case be_token ev of
           None \<Rightarrow> wr1
         | Some t \<Rightarrow> wr1\<lparr>wr_tokens := dset (wr_tokens wr1) (be_stream ev, be_id ev) t\<rparr>)"

definition queue_durable_ack :: "buffered_event list \<Rightarrow> writer \<Rightarrow> writer" where
  "queue_durable_ack events wr = foldl queue_one wr events"

definition degraded_row :: "string \<Rightarrow> string \<Rightarrow> watermark option \<Rightarrow> watermark option" where
  "degraded_row stream_key reason row = (case row of
     None \<Rightarrow> Some \<lparr>wm_stream_key = stream_key, wm_start = (0, 0), wm_contiguous = (0, 0), wm_entries_read = 0,
               wm_status = ''degraded'', wm_reason = Some reason\<rparr>
   | Some w \<Rightarrow>
       if wm_stream_key w \<noteq> stream_key then Some w
       else Some (w\<lparr>wm_status := ''degraded'',
                    wm_reason := if wm_status w = ''degraded'' then wm_reason w else Some reason\<rparr>))"

text \<open>The first component is whether the call returned normally.\<close>

definition degrade_pipeline_authority ::
    "writer_config \<Rightarrow> string \<Rightarrow> string \<Rightarrow> call \<Rightarrow> pipe \<Rightarrow> bool \<times> pipe" where
  "degrade_pipeline_authority cfg stream_key reason outcome px =
     (if \<not> wc_authority cfg then (True, px)
      else case project_id_from_stream stream_key of
             Inl _ \<Rightarrow> (False, px)
           | Inr p \<Rightarrow>
               let row = degraded_row stream_key reason (pi_watermarks px p);
                   px1 = px\<lparr>pi_watermarks := (pi_watermarks px)(p := row)\<rparr>
               in (case outcome of
                     CallFails \<Rightarrow> (False, px)
                   | CallLost \<Rightarrow> (False, px1)
                   | CallOk \<Rightarrow> (case row of
                        None \<Rightarrow> (False, px1)
                      | Some w \<Rightarrow> (wm_stream_key w = stream_key \<and> wm_status w = ''degraded'', px1))))"

text \<open>
  \<open>_initialize_pipeline_authority\<close> for a group whose reported position is \<open>frontier\<close> with
  \<open>entries_read\<close> deliveries; \<open>max_deleted\<close> is the greatest id ever deleted from the stream.
\<close>

definition initialize_pipeline_authority ::
    "writer_config \<Rightarrow> string \<Rightarrow> bool \<Rightarrow> stream_id \<Rightarrow> nat \<Rightarrow> stream_id \<Rightarrow> call \<times> call \<Rightarrow> pipe \<Rightarrow> bool \<times> pipe" where
  "initialize_pipeline_authority cfg stream_key created frontier entries_read max_deleted calls px =
     (if \<not> wc_authority cfg then (True, px)
      else case project_id_from_stream stream_key of
             Inl _ \<Rightarrow> (False, px)
           | Inr p \<Rightarrow>
               if fst calls \<noteq> CallOk then (False, px)
               else (case pi_watermarks px p of
                  Some w \<Rightarrow>
                    if wm_stream_key w \<noteq> stream_key then (False, px)
                    else if created
                            \<or> (wm_status w = ''healthy'' \<and> (frontier \<noteq> wm_contiguous w \<or> entries_read \<noteq> wm_entries_read w))
                    then degrade_pipeline_authority cfg stream_key ''stream_state_unverifiable'' (snd calls) px
                    else (True, px)
                | None \<Rightarrow>
                    let safe_genesis = (frontier = (0, 0) \<and> max_deleted = (0, 0) \<and> entries_read = 0);
                        row = \<lparr>wm_stream_key = stream_key, wm_start = (0, 0), wm_contiguous = (0, 0),
                               wm_entries_read = entries_read,
                               wm_status = (if safe_genesis then ''healthy'' else ''degraded''),
                               wm_reason = (if safe_genesis then None else Some ''legacy_state_unverifiable'')\<rparr>;
                        px1 = px\<lparr>pi_watermarks := (pi_watermarks px)(p := Some row)\<rparr>
                    in (case snd calls of CallFails \<Rightarrow> (False, px) | CallLost \<Rightarrow> (False, px1) | CallOk \<Rightarrow> (True, px1))))"

text \<open>\<open>_reconcile_acknowledged_history\<close>: the id before which every entry is acknowledged.\<close>

fun least_id :: "stream_id list \<Rightarrow> stream_id option" where
  "least_id [] = None"
| "least_id (i # is) = (case least_id is of None \<Rightarrow> Some i | Some j \<Rightarrow> if id_less j i then Some j else Some i)"

definition next_id :: "stream_id \<Rightarrow> stream_id" where
  "next_id i = (if 2 ^ 64 - 1 \<le> snd i then (fst i + 1, 0) else (fst i, snd i + 1))"

definition trim_boundary :: "redis_stream \<Rightarrow> stream_id option" where
  "trim_boundary r =
     (if rs_last_delivered r = (0, 0) then None
      else if rs_pending r \<noteq> [] then least_id (rs_pending r)
      else Some (next_id (rs_last_delivered r)))"

section \<open>Dead letters\<close>

definition dead_letter_delivery ::
    "writer_config \<Rightarrow> string \<Rightarrow> stream_id \<Rightarrow> string \<Rightarrow> string \<Rightarrow> row_error \<Rightarrow> call \<times> call \<Rightarrow> wstate
     \<Rightarrow> bool \<times> wstate" where
  "dead_letter_delivery cfg stream_key message_id project_id reason_code err calls s =
     (case s of (wr0, px) \<Rightarrow>
        let wr = count_rejected wr0;
            entry = \<lparr>dl_source_stream = stream_key, dl_source_id = message_id, dl_reason_code = reason_code,
                     dl_error_type = error_type err\<rparr>
        in case dlq_stream_for_project project_id of
             Inl _ \<Rightarrow> (False, count_error wr, px)
           | Inr dlq \<Rightarrow>
               let px1 = px\<lparr>pi_dlq := (pi_dlq px)(dlq := pi_dlq px dlq @ [entry])\<rparr>
               in (case fst calls of
                     CallFails \<Rightarrow> (False, count_error wr, px)
                   | CallLost \<Rightarrow> (False, count_error wr, px1)
                   | CallOk \<Rightarrow>
                       (case degrade_pipeline_authority cfg stream_key ''dead_lettered_event'' (snd calls) px1 of
                          (False, px2) \<Rightarrow> (False, count_error wr, px2)
                        | (True, px2) \<Rightarrow>
                            (True, queue_durable_ack
                               [\<lparr>be_stream = stream_key, be_id = message_id, be_row = None, be_token = None\<rparr>]
                               (count_dead_lettered wr), px2))))"

section \<open>Reading\<close>

text \<open>What a delivered message is: a boundary marker, an event, or neither.\<close>

definition read_message ::
    "(string \<Rightarrow> json_source) \<Rightarrow> string \<Rightarrow> string \<Rightarrow> stream_id \<Rightarrow> fields
     \<Rightarrow> (row_error, string option \<times> event_row option) result" where
  "read_message loads project_id stream_key message_id data =
     (case parse_boundary_marker data of
        Inl e \<Rightarrow> Inl e
      | Inr (Some token) \<Rightarrow> Inr (Some token, None)
      | Inr None \<Rightarrow>
          (case parse_event loads data project_id stream_key (id_text message_id) of
             Inl e \<Rightarrow> Inl e | Inr row \<Rightarrow> Inr (None, Some row)))"

datatype progress = NextMessage | LeavePending

text \<open>
  One message of \<open>_process_messages\<close>. A readable message that finds the buffer full ends the
  call, once a flush has not made room: it and the later ones stay pending.
\<close>

definition accept_message ::
    "writer_config \<Rightarrow> (string \<Rightarrow> json_source) \<Rightarrow> string \<Rightarrow> stream_id \<times> fields \<Rightarrow> call \<times> call \<Rightarrow> wstate
     \<Rightarrow> progress \<times> wstate" where
  "accept_message cfg loads stream_key message calls s =
     (case s of (wr, px) \<Rightarrow>
        case project_id_from_stream stream_key of
          Inl _ \<Rightarrow> (NextMessage, count_error wr, px)
        | Inr project_id \<Rightarrow>
            (case read_message loads project_id stream_key (fst message) (snd message) of
               Inl e \<Rightarrow> (NextMessage, snd (dead_letter_delivery cfg stream_key (fst message) project_id
                           ''invalid_event_schema'' e calls (count_error wr, px)))
             | Inr (token, row) \<Rightarrow>
                 if remaining_capacity cfg wr = 0 then (LeavePending, s)
                 else (NextMessage,
                       wr\<lparr>wr_buffer := wr_buffer wr @ [\<lparr>be_stream = stream_key, be_id = fst message, be_row = row,
                            be_token = token\<rparr>],
                          wr_stats := (wr_stats wr)\<lparr>st_consumed := st_consumed (wr_stats wr) + 1\<rparr>\<rparr>, px)))"

text \<open>\<open>_claimed_messages\<close> and the sweep of one stream: lost entries degrade its authority.\<close>

definition claim_pending ::
    "writer_config \<Rightarrow> string \<Rightarrow> stream_id list \<Rightarrow> call \<Rightarrow> wstate
     \<Rightarrow> (stream_id \<times> fields) list option \<times> wstate" where
  "claim_pending cfg stream_key stale outcome s =
     (case s of (wr, px) \<Rightarrow>
        case xautoclaim stale (pi_streams px stream_key) of
          (messages, deleted, stream) \<Rightarrow>
            let px1 = px\<lparr>pi_streams := (pi_streams px)(stream_key := stream)\<rparr>
            in if deleted = [] then (Some messages, wr, px1)
               else let wr1 = wr\<lparr>wr_stats := (wr_stats wr)\<lparr>st_lost := st_lost (wr_stats wr) + length deleted\<rparr>\<rparr>
                    in (case degrade_pipeline_authority cfg stream_key ''lost_pending_entry'' outcome px1 of
                          (ok, px2) \<Rightarrow> (if ok then Some messages else None, wr1, px2)))"

end
