(* ===== verification/WriterFlush.thy ===== *)
theory WriterFlush
  imports WriterState
begin

text \<open>
  Flushing and finalization of the ClickHouse writer: the batched insert that isolates rows the
  driver cannot serialize, the verification of boundary markers, the acknowledgement of durable
  deliveries, and the completeness frontier in PostgreSQL.
\<close>

section \<open>Boundary deliveries\<close>

definition expected_tokens :: "writer \<Rightarrow> string \<Rightarrow> stream_id list \<Rightarrow> (stream_id \<times> string) list" where
  "expected_tokens wr stream_key ids =
     List.map_filter (\<lambda>i. map_option (Pair i) (map_of (wr_tokens wr) (stream_key, i))) ids"

definition selected_boundary :: "string \<Rightarrow> string \<Rightarrow> (stream_id \<times> string) list \<Rightarrow> boundary \<Rightarrow> bool" where
  "selected_boundary project_id stream_key expected b \<longleftrightarrow>
     bd_project b = project_id \<and> bd_stream_key b = stream_key
     \<and> (bd_token b \<in> snd ` set expected \<or> (\<exists>i \<in> fst ` set expected. bd_observed b = Some i))"

text \<open>The delivery a row accounts for, and whether it does so as a quarantined one.\<close>

definition observed_delivery :: "(stream_id \<times> string) list \<Rightarrow> boundary \<Rightarrow> ((stream_id \<times> string) \<times> bool) option" where
  "observed_delivery expected b =
     (if bd_state b = ''published''
      then (case bd_stream_id b of
              Some i \<Rightarrow> if map_of expected i = Some (bd_token b) then Some ((i, bd_token b), False) else None
            | None \<Rightarrow> None)
      else if bd_state b = ''quarantined''
      then (case bd_observed b of
              Some i \<Rightarrow> map_option (\<lambda>t. ((i, t), True)) (map_of expected i)
            | None \<Rightarrow> None)
      else None)"

definition verify_boundary_deliveries ::
    "writer_config \<Rightarrow> string \<Rightarrow> stream_id list \<Rightarrow> call \<times> call \<Rightarrow> wstate \<Rightarrow> bool \<times> pipe" where
  "verify_boundary_deliveries cfg stream_key ids calls s =
     (case s of (wr, px) \<Rightarrow>
        let expected = expected_tokens wr stream_key ids
        in if expected = [] then (True, px)
           else if \<not> wc_authority cfg then (False, px)
           else case project_id_from_stream stream_key of
                  Inl _ \<Rightarrow> (False, px)
                | Inr p \<Rightarrow>
                    if fst calls \<noteq> CallOk then (False, px)
                    else let rows = filter (selected_boundary p stream_key expected) (pi_boundaries px);
                             observed = List.map_filter (observed_delivery expected) rows
                         in if \<not> list_all (\<lambda>e. e \<in> set (map fst observed)) expected then (False, px)
                            else if list_ex snd observed
                            then degrade_pipeline_authority cfg stream_key ''stream_state_unverifiable'' (snd calls) px
                            else (True, px))"

section \<open>The frontier\<close>

text \<open>What \<open>XINFO GROUPS\<close> reports; a lag that Redis cannot prove is absent.\<close>

record group_info =
  gi_pending :: nat
  gi_lag_known :: bool
  gi_last_delivered :: stream_id
  gi_entries_read :: nat

definition group_info_of :: "bool \<Rightarrow> redis_stream \<Rightarrow> group_info" where
  "group_info_of lag_known r = \<lparr>gi_pending = length (rs_pending r), gi_lag_known = lag_known,
     gi_last_delivered = rs_last_delivered r, gi_entries_read = rs_entries_read r\<rparr>"

definition id_le :: "stream_id \<Rightarrow> stream_id \<Rightarrow> bool" where
  "id_le i j \<longleftrightarrow> i = j \<or> id_less i j"

definition idempotent_commit :: "watermark \<Rightarrow> group_info \<Rightarrow> stream_id set \<Rightarrow> bool" where
  "idempotent_commit w g fresh \<longleftrightarrow>
     gi_last_delivered g = wm_contiguous w \<and> gi_entries_read g = wm_entries_read w \<and> fresh = {}"

definition exact_advance :: "watermark \<Rightarrow> group_info \<Rightarrow> stream_id set \<Rightarrow> bool" where
  "exact_advance w g fresh \<longleftrightarrow>
     fresh \<noteq> {} \<and> id_less (wm_contiguous w) (gi_last_delivered g)
     \<and> gi_last_delivered g \<in> fresh \<and> (\<forall>i \<in> fresh. id_le i (gi_last_delivered g))
     \<and> gi_entries_read g = wm_entries_read w + card fresh"

definition invalid_authority :: "watermark \<Rightarrow> group_info \<Rightarrow> stream_id set \<Rightarrow> bool" where
  "invalid_authority w g fresh \<longleftrightarrow>
     id_less (gi_last_delivered g) (wm_start w) \<or> id_less (gi_last_delivered g) (wm_contiguous w)
     \<or> gi_entries_read g < wm_entries_read w
     \<or> \<not> (idempotent_commit w g fresh \<or> exact_advance w g fresh)"

definition advanced_row :: "watermark \<Rightarrow> group_info \<Rightarrow> stream_id set \<Rightarrow> watermark" where
  "advanced_row w g fresh =
     (if invalid_authority w g fresh
      then w\<lparr>wm_status := ''degraded'', wm_reason := Some ''stream_state_unverifiable''\<rparr>
      else if exact_advance w g fresh
      then w\<lparr>wm_contiguous := gi_last_delivered g, wm_entries_read := gi_entries_read g\<rparr>
      else w)"

definition finalized_ids :: "writer \<Rightarrow> string \<Rightarrow> stream_id list" where
  "finalized_ids wr key = (case map_of (wr_finalized wr) key of None \<Rightarrow> [] | Some ids \<Rightarrow> ids)"

record frontier_calls =
  fc_info :: call
  fc_lag_known :: bool
  fc_degrade :: call
  fc_commit :: call

definition advance_pipeline_frontier ::
    "writer_config \<Rightarrow> string \<Rightarrow> stream_id list \<Rightarrow> frontier_calls \<Rightarrow> wstate \<Rightarrow> bool \<times> wstate" where
  "advance_pipeline_frontier cfg stream_key ids calls s =
     (case s of (wr0, px) \<Rightarrow>
        if \<not> wc_authority cfg then (True, s)
        else if ids = [] then (False, s)
        else
          let finalized = remdups (finalized_ids wr0 stream_key @ ids);
              wr = wr0\<lparr>wr_finalized := dset (wr_finalized wr0) stream_key finalized\<rparr>;
              g = group_info_of (fc_lag_known calls) (pi_streams px stream_key)
          in if fc_info calls \<noteq> CallOk \<or> \<not> gi_lag_known g
             then (False, wr, snd (degrade_pipeline_authority cfg stream_key ''stream_state_unverifiable''
                                     (fc_degrade calls) px))
             else if 0 < gi_pending g then (True, wr, px)
             else case project_id_from_stream stream_key of
                    Inl _ \<Rightarrow> (False, wr, px)
                  | Inr p \<Rightarrow>
                      (case pi_watermarks px p of
                         None \<Rightarrow> (False, wr, px)
                       | Some w \<Rightarrow>
                           if wm_stream_key w \<noteq> stream_key then (False, wr, px)
                           else if wm_status w \<noteq> ''degraded'' \<and> wm_status w \<noteq> ''healthy'' then (False, wr, px)
                           else
                             let fresh = {i \<in> set finalized. id_less (wm_contiguous w) i};
                                 row = (if wm_status w = ''degraded'' then w else advanced_row w g fresh);
                                 px1 = px\<lparr>pi_watermarks := (pi_watermarks px)(p := Some row)\<rparr>
                             in (case fc_commit calls of
                                   CallFails \<Rightarrow> (False, wr, px)
                                 | CallLost \<Rightarrow> (False, wr, px1)
                                 | CallOk \<Rightarrow> (True, wr\<lparr>wr_finalized := dpop (wr_finalized wr) stream_key\<rparr>, px1))))"

section \<open>Finalization\<close>

record finalize_calls =
  fz_verify :: "call \<times> call"
  fz_exec :: call
  fz_degrade :: call
  fz_frontier :: frontier_calls

definition mark_uncertain :: "string \<Rightarrow> writer \<Rightarrow> writer" where
  "mark_uncertain key wr = wr\<lparr>wr_uncertain := insert key (wr_uncertain wr)\<rparr>"

text \<open>The transaction \<open>XACK\<close>, \<open>XDEL\<close>; its result is the pair of their counts.\<close>

definition ack_and_delete :: "stream_id list \<Rightarrow> redis_stream \<Rightarrow> (nat \<times> nat) \<times> redis_stream" where
  "ack_and_delete ids r = (case xack ids r of (a, r1) \<Rightarrow> (case xdel ids r1 of (d, r2) \<Rightarrow> ((a, d), r2)))"

definition finalize_durable_stream ::
    "writer_config \<Rightarrow> string \<Rightarrow> stream_id list \<Rightarrow> finalize_calls \<Rightarrow> wstate \<Rightarrow> bool \<times> wstate" where
  "finalize_durable_stream cfg stream_key ids calls s =
     (case s of (wr, px) \<Rightarrow>
        case verify_boundary_deliveries cfg stream_key ids (fz_verify calls) s of
          (False, px1) \<Rightarrow> (False, wr, px1)
        | (True, px1) \<Rightarrow>
            (case ack_and_delete ids (pi_streams px1 stream_key) of
               (counts, stream) \<Rightarrow>
                 let px2 = px1\<lparr>pi_streams := (pi_streams px1)(stream_key := stream)\<rparr>
                 in (case fz_exec calls of
                       CallFails \<Rightarrow> (False, mark_uncertain stream_key wr, px1)
                     | CallLost \<Rightarrow> (False, mark_uncertain stream_key wr, px2)
                     | CallOk \<Rightarrow>
                         if counts \<noteq> (length ids, length ids)
                            \<and> \<not> (stream_key \<in> wr_uncertain wr \<and> counts = (0, 0))
                         then (False, wr, snd (degrade_pipeline_authority cfg stream_key
                                  ''stream_state_unverifiable'' (fz_degrade calls) px2))
                         else advance_pipeline_frontier cfg stream_key ids (fz_frontier calls)
                                (mark_uncertain stream_key wr, px2))))"

text \<open>What \<open>_ack_durable_messages\<close> does with the result of one stream of its snapshot.\<close>

definition settle_stream :: "string \<times> stream_id list \<Rightarrow> bool \<Rightarrow> writer \<Rightarrow> writer" where
  "settle_stream snapshot ok wr =
     (case snapshot of (stream_key, ids) \<Rightarrow>
        if \<not> ok then count_error wr
        else
          let current = (case map_of (wr_pending_ack wr) stream_key of None \<Rightarrow> [] | Some c \<Rightarrow> c);
              remaining = filter (\<lambda>i. i \<notin> set ids) current;
              wr1 = wr\<lparr>wr_uncertain := wr_uncertain wr - {stream_key}\<rparr>;
              wr2 = wr1\<lparr>wr_pending_ack := if remaining \<noteq> [] then dset (wr_pending_ack wr1) stream_key remaining
                                          else dpop (wr_pending_ack wr1) stream_key\<rparr>
          in wr2\<lparr>wr_tokens := filter (\<lambda>e. \<not> (fst (fst e) = stream_key \<and> snd (fst e) \<in> set ids)) (wr_tokens wr2)\<rparr>)"

fun settle_streams :: "((string \<times> stream_id list) \<times> bool) list \<Rightarrow> writer \<Rightarrow> writer" where
  "settle_streams [] wr = wr"
| "settle_streams ((snapshot, ok) # rest) wr = settle_streams rest (settle_stream snapshot ok wr)"

text \<open>The value \<open>_ack_durable_messages\<close> returns.\<close>

definition acks_complete :: "((string \<times> stream_id list) \<times> bool) list \<Rightarrow> writer \<Rightarrow> bool" where
  "acks_complete results wr \<longleftrightarrow> list_all snd results \<and> wr_pending_ack wr = []"

section \<open>Inserting\<close>

text \<open>
  An insert of a batch works, fails before the driver could serialize a row, or fails otherwise;
  then the server may have stored the rows all the same.
\<close>

datatype insert_result = Inserted | Unserializable row_error | InsertFailed bool

record insert_outcome =
  io_durable :: "buffered_event list"
  io_retry :: "buffered_event list"
  io_transient :: bool

definition batch_rows :: "buffered_event list \<Rightarrow> event_row list" where
  "batch_rows batch = List.map_filter be_row batch"

text \<open>
  \<open>_insert_or_isolate\<close> on the events from position \<open>from\<close> of the batch: \<open>ins from n\<close> is the
  result of inserting \<open>n\<close> events from there, \<open>dl from\<close> the calls that dead-letter that event.
\<close>

function insert_or_isolate ::
    "writer_config \<Rightarrow> (nat \<Rightarrow> nat \<Rightarrow> insert_result) \<Rightarrow> (nat \<Rightarrow> call \<times> call) \<Rightarrow> nat \<Rightarrow> buffered_event list
     \<Rightarrow> wstate \<Rightarrow> insert_outcome \<times> wstate" where
  "insert_or_isolate cfg ins dl from batch s =
     (if list_all (\<lambda>ev. be_row ev = None) batch
      then (\<lparr>io_durable = batch, io_retry = [], io_transient = False\<rparr>, s)
      else case s of (wr, px) \<Rightarrow>
        (case ins from (length batch) of
           Inserted \<Rightarrow>
             (\<lparr>io_durable = batch, io_retry = [], io_transient = False\<rparr>,
              wr, px\<lparr>pi_rows := pi_rows px @ batch_rows batch\<rparr>)
         | InsertFailed stored \<Rightarrow>
             (\<lparr>io_durable = [], io_retry = batch, io_transient = True\<rparr>,
              wr, if stored then px\<lparr>pi_rows := pi_rows px @ batch_rows batch\<rparr> else px)
         | Unserializable e \<Rightarrow>
             if length batch \<le> 1
             then (case batch of
                     [] \<Rightarrow> (\<lparr>io_durable = [], io_retry = [], io_transient = False\<rparr>, s)
                   | ev # _ \<Rightarrow>
                       (\<lparr>io_durable = [], io_retry = [], io_transient = False\<rparr>,
                        (case project_id_from_stream (be_stream ev) of
                           Inl _ \<Rightarrow> (count_error wr, px)
                         | Inr p \<Rightarrow> snd (dead_letter_delivery cfg (be_stream ev) (be_id ev) p
                             ''clickhouse_row_rejected'' e (dl from) (count_error wr, px)))))
             else
               let mid = length batch div 2
               in (case insert_or_isolate cfg ins dl from (take mid batch) s of
                     (left, s1) \<Rightarrow>
                       (case insert_or_isolate cfg ins dl (from + mid) (drop mid batch) s1 of
                          (right, s2) \<Rightarrow>
                            (\<lparr>io_durable = io_durable left @ io_durable right,
                              io_retry = io_retry left @ io_retry right,
                              io_transient = io_transient left \<or> io_transient right\<rparr>, s2)))))"
  by pat_completeness auto

termination insert_or_isolate
  by (relation "measure (\<lambda>(cfg, ins, dl, from, batch, s). length batch)") auto

declare insert_or_isolate.simps [simp del]

text \<open>The rest of \<open>_flush\<close> after the insert: what is still buffered, queued and counted.\<close>

definition after_insert :: "rat \<Rightarrow> buffered_event list \<Rightarrow> insert_outcome \<Rightarrow> writer \<Rightarrow> writer" where
  "after_insert now batch out wr =
     (let wr1 = wr\<lparr>wr_buffer := io_retry out @ drop (length batch) (wr_buffer wr)\<rparr>;
          wr2 = (if io_durable out \<noteq> []
                 then (queue_durable_ack (io_durable out) wr1)
                        \<lparr>wr_stats := (wr_stats wr1)\<lparr>st_flushed := st_flushed (wr_stats wr1) + length (io_durable out)\<rparr>,
                         wr_last_flush := now\<rparr>
                 else wr1)
      in if io_transient out then count_error (record_flush_failure now wr2) else wr2)"

end
