(* ===== verification/BoundaryMarkers.thy ===== *)
theory BoundaryMarkers
  imports WriterFlush "HOL-Library.Product_Lexorder"
begin

text \<open>
  The publication of experiment boundary markers by the ClickHouse writer: the due rows of
  PostgreSQL, the script that adds a marker to its stream once, and the bounded retries that end
  in \<open>published\<close> or \<open>quarantined\<close>. An observed stream id in the table satisfies the table's check
  that it is a canonical id, so rows hold ids as pairs of numbers; what Redis replies is text.
\<close>

section \<open>Rows and failures\<close>

definition MARKER_STREAM_MAX_ENTRIES :: nat where "MARKER_STREAM_MAX_ENTRIES = 1000000"
definition BOUNDARY_MARKER_MAX_PUBLISH_ATTEMPTS :: nat where "BOUNDARY_MARKER_MAX_PUBLISH_ATTEMPTS = 5"
definition BOUNDARY_MARKER_RETRY_BASE_SECONDS :: nat where "BOUNDARY_MARKER_RETRY_BASE_SECONDS = 1"
definition BOUNDARY_MARKER_RETRY_MAX_SECONDS :: nat where "BOUNDARY_MARKER_RETRY_MAX_SECONDS = 30"

record marker_row =
  mr_project :: string
  mr_experiment :: string
  mr_version :: int
  mr_stream_key :: string
  mr_token :: string
  mr_requested_at :: rat
  mr_state :: string
  mr_attempts :: nat
  mr_next_attempt_at :: "rat option"
  mr_failure_code :: "string option"
  mr_stream_id :: "stream_id option"
  mr_observed :: "stream_id option"

definition boundary_of :: "marker_row \<Rightarrow> boundary" where
  "boundary_of r = \<lparr>bd_project = mr_project r, bd_stream_key = mr_stream_key r, bd_token = mr_token r,
     bd_state = mr_state r, bd_stream_id = mr_stream_id r, bd_observed = mr_observed r\<rparr>"

record pending_marker =
  pm_project :: string
  pm_experiment :: string
  pm_version :: int
  pm_stream_key :: string
  pm_token :: string
  pm_attempts :: nat
  pm_observed :: "stream_id option"

definition TRANSIENT_FAILURE_CODES :: "string list" where
  "TRANSIENT_FAILURE_CODES = [''event_stream_capacity'', ''redis_publish_failed'',
     ''boundary_authority_update_failed'', ''unexpected_publish_failure'']"

definition TERMINAL_FAILURE_CODES :: "string list" where
  "TERMINAL_FAILURE_CODES = [''invalid_redis_marker_id'', ''boundary_authority_update_invalid'',
     ''invalid_boundary_marker_dedup'', ''invalid_stream_authority'', ''invalid_marker_token'']"

record publish_error =
  pe_code :: string
  pe_terminal :: bool
  pe_observed :: "stream_id option"

text \<open>\<open>BoundaryMarkerPublishError\<close>: its constructor refuses a code of the wrong class.\<close>

definition marker_failure :: "string \<Rightarrow> stream_id option \<Rightarrow> publish_error" where
  "marker_failure code observed =
     \<lparr>pe_code = code, pe_terminal = (code \<in> set TERMINAL_FAILURE_CODES), pe_observed = observed\<rparr>"

definition pending_boundary_marker :: "marker_row \<Rightarrow> pending_marker option" where
  "pending_boundary_marker r =
     (if \<not> project_id_ok (mr_project r) \<or> mr_experiment r = [] \<or> mr_version r \<le> 0
         \<or> BOUNDARY_MARKER_MAX_PUBLISH_ATTEMPTS \<le> mr_attempts r
         \<or> (case mr_observed r of None \<Rightarrow> False | Some i \<Rightarrow> fst i = 0)
      then None
      else Some \<lparr>pm_project = mr_project r, pm_experiment = mr_experiment r, pm_version = mr_version r,
                 pm_stream_key = mr_stream_key r, pm_token = mr_token r, pm_attempts = mr_attempts r,
                 pm_observed = mr_observed r\<rparr>)"

section \<open>The script\<close>

datatype dedup_value = DedupText string | DedupOther

datatype marker_reply = ReplyId string | ReplyDedupInvalid string | ReplyCapacity

text \<open>The loop over the fields of the entry: each of the two fields once, in any order.\<close>

fun scan_fields :: "fields \<Rightarrow> string option \<Rightarrow> string option \<Rightarrow> (string option \<times> string option) option" where
  "scan_fields [] kind token = Some (kind, token)"
| "scan_fields ((name, v) # rest) kind token =
     (if name = ''message_kind'' \<and> kind = None then scan_fields rest (Some v) token
      else if name = ''boundary_token'' \<and> token = None then scan_fields rest kind (Some v)
      else None)"

definition entry_at :: "redis_stream \<Rightarrow> string \<Rightarrow> (stream_id \<times> fields) option" where
  "entry_at r existing = find (\<lambda>(i, _). id_text i = existing) (rs_entries r)"

definition marker_fields :: "string \<Rightarrow> fields" where
  "marker_fields token = [(''message_kind'', BOUNDARY_MARKER_KIND), (''boundary_token'', token)]"

definition boundary_marker_lua ::
    "string \<Rightarrow> string \<Rightarrow> stream_id \<Rightarrow> redis_stream \<Rightarrow> dedup_value option
     \<Rightarrow> marker_reply \<times> redis_stream \<times> dedup_value option" where
  "boundary_marker_lua token observed new_id r dedup = (case dedup of
     Some DedupOther \<Rightarrow> (ReplyDedupInvalid [], r, dedup)
   | Some (DedupText existing) \<Rightarrow>
       if observed \<noteq> [] \<and> existing \<noteq> observed then (ReplyDedupInvalid existing, r, dedup)
       else (case entry_at r existing of
               None \<Rightarrow> (ReplyDedupInvalid existing, r, dedup)
             | Some (_, data) \<Rightarrow>
                 if length data = 2 \<and> scan_fields data None None = Some (Some BOUNDARY_MARKER_KIND, Some token)
                 then (ReplyId existing, r, dedup)
                 else (ReplyDedupInvalid existing, r, dedup))
   | None \<Rightarrow>
       if observed \<noteq> [] then (ReplyDedupInvalid [], r, None)
       else if MARKER_STREAM_MAX_ENTRIES \<le> length (rs_entries r) then (ReplyCapacity, r, None)
       else (ReplyId (id_text new_id), xadd new_id (marker_fields token) r, Some (DedupText (id_text new_id))))"

section \<open>One publication\<close>

text \<open>
  \<open>ms_added\<close> is the history of the markers the script has added. The calls of a publication:
  the script, with the id Redis would give a new entry, and the update of the row.
\<close>

record markers =
  ms_streams :: "string \<Rightarrow> redis_stream"
  ms_dedup :: "string \<Rightarrow> dedup_value option"
  ms_rows :: "marker_row list"
  ms_added :: "(string \<times> stream_id \<times> string) list"

record publish_calls =
  pc_script :: call
  pc_new_id :: stream_id
  pc_update :: call

definition run_script :: "pending_marker \<Rightarrow> stream_id \<Rightarrow> markers \<Rightarrow> marker_reply \<times> markers" where
  "run_script m new_id s =
     (let key = pm_stream_key m;
          observed = (case pm_observed m of None \<Rightarrow> [] | Some i \<Rightarrow> id_text i)
      in case boundary_marker_lua (pm_token m) observed new_id (ms_streams s key) (ms_dedup s (pm_token m)) of
           (reply, r, d) \<Rightarrow>
             (reply, s\<lparr>ms_streams := (ms_streams s)(key := r), ms_dedup := (ms_dedup s)(pm_token m := d),
                      ms_added := if rs_entries r = rs_entries (ms_streams s key) then ms_added s
                                  else ms_added s @ [(key, new_id, pm_token m)]\<rparr>))"

definition marker_key :: "marker_row \<Rightarrow> string \<times> string \<times> int" where
  "marker_key r = (mr_project r, mr_experiment r, mr_version r)"

definition pending_key :: "pending_marker \<Rightarrow> string \<times> string \<times> int" where
  "pending_key m = (pm_project m, pm_experiment m, pm_version m)"

text \<open>The table's constraint: no two rows of a project with the same observed id.\<close>

definition observed_unique :: "marker_row list \<Rightarrow> bool" where
  "observed_unique rows \<longleftrightarrow> distinct (map (\<lambda>r. (mr_project r, mr_observed r)) (filter (\<lambda>r. mr_observed r \<noteq> None) rows))"

definition update_rows :: "(marker_row \<Rightarrow> bool) \<Rightarrow> (marker_row \<Rightarrow> marker_row) \<Rightarrow> marker_row list \<Rightarrow> marker_row list option" where
  "update_rows sel f rows =
     (let rows' = map (\<lambda>r. if sel r then f r else r) rows
      in if observed_unique rows' then Some rows' else None)"

definition marks :: "pending_marker \<Rightarrow> marker_row \<Rightarrow> bool" where
  "marks m r \<longleftrightarrow> marker_key r = pending_key m \<and> mr_stream_key r = pm_stream_key m \<and> mr_token r = pm_token m
     \<and> mr_state r = ''pending'' \<and> mr_attempts r = pm_attempts m \<and> mr_stream_id r = None"

definition published_row :: "stream_id \<Rightarrow> marker_row \<Rightarrow> marker_row" where
  "published_row i r = r\<lparr>mr_stream_id := Some i, mr_state := ''published'', mr_next_attempt_at := None, mr_observed := Some i\<rparr>"

text \<open>The update transaction; the result is the row it returns or reads back.\<close>

definition store_marker :: "pending_marker \<Rightarrow> stream_id \<Rightarrow> marker_row list \<Rightarrow> (marker_row option \<times> marker_row list) option" where
  "store_marker m i rows =
     (if list_ex (marks m) rows
      then map_option (\<lambda>rows'. (find (\<lambda>r. marker_key r = pending_key m) rows', rows'))
             (update_rows (marks m) (published_row i) rows)
      else Some (find (\<lambda>r. marker_key r = pending_key m) rows, rows))"

definition record_marker :: "pending_marker \<Rightarrow> stream_id \<Rightarrow> call \<Rightarrow> markers \<Rightarrow> publish_error option \<times> markers" where
  "record_marker m i outcome s =
     (case store_marker m i (ms_rows s) of
        None \<Rightarrow> (Some (marker_failure ''boundary_authority_update_failed'' (Some i)), s)
      | Some (stored, rows) \<Rightarrow>
          (case outcome of
             CallFails \<Rightarrow> (Some (marker_failure ''boundary_authority_update_failed'' (Some i)), s)
           | CallLost \<Rightarrow> (Some (marker_failure ''boundary_authority_update_failed'' (Some i)), s\<lparr>ms_rows := rows\<rparr>)
           | CallOk \<Rightarrow>
               ((case stored of
                   None \<Rightarrow> Some (marker_failure ''boundary_authority_update_invalid'' (Some i))
                 | Some r \<Rightarrow>
                     if mr_state r = ''published'' \<and> mr_stream_id r = Some i \<and> mr_observed r = Some i then None
                     else Some (marker_failure ''boundary_authority_update_invalid'' (Some i))),
                s\<lparr>ms_rows := rows\<rparr>)))"

definition invalid_observation :: "pending_marker \<Rightarrow> string \<Rightarrow> stream_id option" where
  "invalid_observation m candidate = (case pm_observed m of
     Some i \<Rightarrow> Some i
   | None \<Rightarrow> (case stream_id_parts candidate of Inr i \<Rightarrow> if 0 < fst i then Some i else None | Inl _ \<Rightarrow> None))"

definition publish_one_boundary_marker :: "pending_marker \<Rightarrow> publish_calls \<Rightarrow> markers \<Rightarrow> publish_error option \<times> markers" where
  "publish_one_boundary_marker m calls s =
     (if stream_key_for_project (pm_project m) \<noteq> Inr (pm_stream_key m)
      then (Some (marker_failure ''invalid_stream_authority'' None), s)
      else if \<not> boundary_token_ok (pm_token m) then (Some (marker_failure ''invalid_marker_token'' None), s)
      else if pc_script calls = CallFails then (Some (marker_failure ''redis_publish_failed'' None), s)
      else case run_script m (pc_new_id calls) s of (reply, s1) \<Rightarrow>
        if pc_script calls = CallLost then (Some (marker_failure ''redis_publish_failed'' None), s1)
        else (case reply of
           ReplyCapacity \<Rightarrow> (Some (marker_failure ''event_stream_capacity'' None), s1)
         | ReplyDedupInvalid candidate \<Rightarrow>
             (Some (marker_failure ''invalid_boundary_marker_dedup'' (invalid_observation m candidate)), s1)
         | ReplyId t \<Rightarrow>
             (case stream_id_parts t of
                Inl _ \<Rightarrow> (Some (marker_failure ''invalid_redis_marker_id'' None), s1)
              | Inr i \<Rightarrow>
                  if fst i = 0 then (Some (marker_failure ''invalid_redis_marker_id'' None), s1)
                  else if pm_observed m \<noteq> None \<and> pm_observed m \<noteq> Some i
                  then (Some (marker_failure ''invalid_boundary_marker_dedup'' None), s1)
                  else record_marker m i (pc_update calls) s1)))"

section \<open>Failures\<close>

definition boundary_marker_retry_delay :: "nat \<Rightarrow> nat option" where
  "boundary_marker_retry_delay new_attempt =
     (if new_attempt = 0 \<or> BOUNDARY_MARKER_MAX_PUBLISH_ATTEMPTS \<le> new_attempt then None
      else Some (min (BOUNDARY_MARKER_RETRY_BASE_SECONDS * 2 ^ (new_attempt - 1)) BOUNDARY_MARKER_RETRY_MAX_SECONDS))"

definition failure_matches :: "pending_marker \<Rightarrow> stream_id option \<Rightarrow> marker_row \<Rightarrow> bool" where
  "failure_matches m observed r \<longleftrightarrow> marker_key r = pending_key m \<and> mr_state r = ''pending''
     \<and> mr_attempts r = pm_attempts m \<and> mr_stream_id r = None
     \<and> (mr_observed r = None \<or> observed = None \<or> mr_observed r = observed)"

definition failed_row :: "rat \<Rightarrow> publish_error \<Rightarrow> bool \<Rightarrow> nat \<Rightarrow> stream_id option \<Rightarrow> marker_row \<Rightarrow> marker_row" where
  "failed_row now failure quarantined delay observed r =
     (let last = (quarantined \<or> BOUNDARY_MARKER_MAX_PUBLISH_ATTEMPTS \<le> mr_attempts r + 1)
      in r\<lparr>mr_attempts := mr_attempts r + 1,
           mr_state := if last then ''quarantined'' else ''pending'',
           mr_next_attempt_at := if last then None else Some (now + of_nat delay),
           mr_failure_code := Some (pe_code failure),
           mr_observed := case mr_observed r of None \<Rightarrow> observed | Some i \<Rightarrow> Some i\<rparr>)"

definition update_boundary_marker_failure ::
    "rat \<Rightarrow> pending_marker \<Rightarrow> publish_error \<Rightarrow> bool \<Rightarrow> nat \<Rightarrow> stream_id option \<Rightarrow> marker_row list
     \<Rightarrow> marker_row list option" where
  "update_boundary_marker_failure now m failure quarantined delay observed rows =
     update_rows (failure_matches m observed) (failed_row now failure quarantined delay observed) rows"

text \<open>
  \<open>_record_boundary_marker_failure\<close>: the state it returns, or nothing when it raises. An
  observed id that another row owns is dropped only for an invalid deduplication key.
\<close>

definition record_boundary_marker_failure ::
    "rat \<Rightarrow> pending_marker \<Rightarrow> publish_error \<Rightarrow> call \<Rightarrow> markers \<Rightarrow> string option \<times> markers" where
  "record_boundary_marker_failure now m failure outcome s =
     (let new_attempt = pm_attempts m + 1;
          observed = (case pe_observed failure of Some i \<Rightarrow> Some i | None \<Rightarrow> pm_observed m);
          quarantined = (pe_terminal failure \<or> BOUNDARY_MARKER_MAX_PUBLISH_ATTEMPTS \<le> new_attempt);
          delay = (if quarantined then 0 else case boundary_marker_retry_delay new_attempt of None \<Rightarrow> 0 | Some d \<Rightarrow> d);
          discard = (quarantined \<and> pe_code failure = ''invalid_boundary_marker_dedup'' \<and> pm_observed m = None \<and> observed \<noteq> None);
          attempt = (case update_boundary_marker_failure now m failure quarantined delay observed (ms_rows s) of
                       Some rows \<Rightarrow> Some (observed, rows)
                     | None \<Rightarrow> if discard
                               then map_option (Pair None)
                                      (update_boundary_marker_failure now m failure quarantined delay None (ms_rows s))
                               else None)
      in if pm_observed m \<noteq> None \<and> observed \<noteq> pm_observed m then (None, s)
         else case attempt of
                None \<Rightarrow> (None, s)
              | Some (persisted, rows) \<Rightarrow>
                  (case outcome of
                     CallFails \<Rightarrow> (None, s)
                   | CallLost \<Rightarrow> (None, s\<lparr>ms_rows := rows\<rparr>)
                   | CallOk \<Rightarrow>
                       ((case find (\<lambda>r. marker_key r = pending_key m) rows of
                           None \<Rightarrow> None
                         | Some r \<Rightarrow>
                             if mr_state r = ''published'' then Some (mr_state r)
                             else if mr_state r = (if quarantined then ''quarantined'' else ''pending'')
                                     \<and> mr_attempts r = new_attempt \<and> mr_observed r = persisted
                             then Some (mr_state r) else None),
                        s\<lparr>ms_rows := rows\<rparr>)))"

section \<open>The pass\<close>

text \<open>
  The due rows, the first of each project. \<open>collate\<close> ranks texts in the database's collation,
  which decides between rows that are due and requested at the same times.
\<close>

definition due :: "rat \<Rightarrow> string list option \<Rightarrow> marker_row \<Rightarrow> bool" where
  "due now projects r \<longleftrightarrow> mr_state r = ''pending'' \<and> mr_stream_id r = None
     \<and> (case mr_next_attempt_at r of None \<Rightarrow> False | Some t \<Rightarrow> t \<le> now)
     \<and> (case projects of None \<Rightarrow> True | Some ps \<Rightarrow> mr_project r \<in> set ps)"

definition project_order :: "(string \<Rightarrow> nat) \<Rightarrow> marker_row \<Rightarrow> rat \<times> rat \<times> nat \<times> int" where
  "project_order collate r = (case mr_next_attempt_at r of None \<Rightarrow> 0 | Some t \<Rightarrow> t, mr_requested_at r,
     collate (mr_experiment r), mr_version r)"

definition pass_order :: "(string \<Rightarrow> nat) \<Rightarrow> marker_row \<Rightarrow> rat \<times> rat \<times> nat \<times> nat \<times> int" where
  "pass_order collate r = (case mr_next_attempt_at r of None \<Rightarrow> 0 | Some t \<Rightarrow> t, mr_requested_at r,
     collate (mr_project r), collate (mr_experiment r), mr_version r)"

definition first_of_project :: "(string \<Rightarrow> nat) \<Rightarrow> marker_row list \<Rightarrow> marker_row \<Rightarrow> bool" where
  "first_of_project collate rows r \<longleftrightarrow>
     list_all (\<lambda>q. mr_project q = mr_project r \<longrightarrow> project_order collate r \<le> project_order collate q) rows"

definition due_markers :: "(string \<Rightarrow> nat) \<Rightarrow> rat \<Rightarrow> string list option \<Rightarrow> marker_row list \<Rightarrow> marker_row list" where
  "due_markers collate now projects rows =
     (let candidates = filter (due now projects) rows
      in take 100 (sort_key (pass_order collate) (filter (first_of_project collate candidates) candidates)))"

record marker_stats =
  sm_published :: nat
  sm_retried :: nat
  sm_quarantined :: nat
  sm_errors :: nat

definition count_state :: "string \<Rightarrow> marker_stats \<Rightarrow> marker_stats" where
  "count_state state st =
     (if state = ''published'' then st\<lparr>sm_published := sm_published st + 1\<rparr>
      else if state = ''quarantined'' then st\<lparr>sm_quarantined := sm_quarantined st + 1\<rparr>
      else st\<lparr>sm_retried := sm_retried st + 1\<rparr>)"

text \<open>
  One row of the pass: \<open>calls\<close> are the publication's, \<open>rec\<close> the call that records a failure; a row
  whose failure cannot be recorded is left to a later pass.
\<close>

definition publish_row :: "rat \<Rightarrow> publish_calls \<Rightarrow> call \<Rightarrow> marker_row \<Rightarrow> markers \<times> marker_stats \<Rightarrow> markers \<times> marker_stats" where
  "publish_row now calls rec r st =
     (case st of (s, stats) \<Rightarrow>
        case pending_boundary_marker r of
          None \<Rightarrow> (s, stats\<lparr>sm_errors := sm_errors stats + 1\<rparr>)
        | Some m \<Rightarrow>
            (case publish_one_boundary_marker m calls s of
               (None, s1) \<Rightarrow> (s1, count_state ''published'' stats)
             | (Some failure, s1) \<Rightarrow>
                 let stats1 = stats\<lparr>sm_errors := sm_errors stats + 1\<rparr>
                 in (case record_boundary_marker_failure now m failure rec s1 of
                       (None, s2) \<Rightarrow> (s2, stats1)
                     | (Some state, s2) \<Rightarrow> (s2, count_state state stats1))))"

fun publish_rows ::
    "rat \<Rightarrow> (nat \<Rightarrow> publish_calls \<times> call) \<Rightarrow> nat \<Rightarrow> marker_row list \<Rightarrow> markers \<times> marker_stats \<Rightarrow> markers \<times> marker_stats" where
  "publish_rows now calls n [] st = st"
| "publish_rows now calls n (r # rows) st =
     publish_rows now calls (n + 1) rows (publish_row now (fst (calls n)) (snd (calls n)) r st)"

definition publish_pending_boundary_markers ::
    "(string \<Rightarrow> nat) \<Rightarrow> rat \<Rightarrow> string list option \<Rightarrow> (nat \<Rightarrow> publish_calls \<times> call) \<Rightarrow> markers \<times> marker_stats
     \<Rightarrow> markers \<times> marker_stats" where
  "publish_pending_boundary_markers collate now projects calls st =
     publish_rows now calls 0 (due_markers collate now projects (ms_rows (fst st))) st"

end
