(* ===== verification/Completeness.thy ===== *)
theory Completeness
  imports BoundaryMarkers Experiments Outbox
begin

text \<open>
  The completeness authority of the query service (\<open>services/query/app/completeness.py\<close>): the
  boundary a finished experiment is analysed up to, its coverage by the writer's frontier, and the
  snapshot that freezes the decision. The tables are the ones the ClickHouse writer works on; the
  window columns of a boundary are kept beside its marker columns, by primary key. Instants are in
  microseconds, as \<open>micros\<close> counts them; \<open>sha\<close> is SHA-256 in hexadecimal digits.
\<close>

section \<open>Instants\<close>

fun month_of_day :: "int \<Rightarrow> nat \<Rightarrow> int \<Rightarrow> int \<times> int" where
  "month_of_day y 0 n = (12, n + 1)"
| "month_of_day y (Suc k) n =
     (let m = 12 - int k; d = days_in_month y m in if n < d \<or> k = 0 then (m, n + 1) else month_of_day y k (n - d))"

text \<open>The date of a day number, day 1 being the first day of year 1.\<close>

definition date_of_ordinal :: "int \<Rightarrow> int \<times> int \<times> int" where
  "date_of_ordinal ordinal =
     (let n = ordinal - 1; n400 = n div 146097; n = n mod 146097; n100 = n div 36524; n = n mod 36524;
          n4 = n div 1461; n = n mod 1461; n1 = n div 365; n = n mod 365;
          y = n400 * 400 + n100 * 100 + n4 * 4 + n1 + 1
      in if n1 = 4 \<or> n100 = 4 then (y - 1, 12, 31)
         else case month_of_day y 12 n of (m, d) \<Rightarrow> (y, m, d))"

definition datetime_at :: "int \<Rightarrow> datetime" where
  "datetime_at t =
     (let secs = t div 1000000; rest = secs mod 86400
      in case date_of_ordinal (secs div 86400) of
           (y, m, d) \<Rightarrow> \<lparr>dt_year = y, dt_month = m, dt_day = d, dt_hour = rest div 3600,
             dt_minute = rest mod 3600 div 60, dt_second = rest mod 60, dt_microsecond = t mod 1000000\<rparr>)"

definition utc_iso :: "int \<Rightarrow> string" where
  "utc_iso t =
     (let d = datetime_at t
      in pad 4 (dt_year d) @ ''-'' @ pad 2 (dt_month d) @ ''-'' @ pad 2 (dt_day d) @ ''T''
         @ pad 2 (dt_hour d) @ '':'' @ pad 2 (dt_minute d) @ '':'' @ pad 2 (dt_second d) @ ''.''
         @ pad 6 (dt_microsecond d) @ ''+00:00'')"

section \<open>Snapshots\<close>

record arm_result =
  ar_variant :: string
  ar_sample_size :: int
  ar_conversions :: int
  ar_conversion_rate :: rat

record arm_comparison =
  co_control_variant :: string
  co_treatment_variant :: string
  co_control_rate :: rat
  co_treatment_rate :: rat
  co_rate_difference :: rat
  co_confidence_interval :: "rat \<times> rat"
  co_raw_p_value :: rat
  co_adjusted_p_value :: rat
  co_significant :: bool

record analysis_base =
  an_experiment_key :: string
  an_flag_key :: string
  an_experiment_status :: string
  an_control_variant :: string
  an_metric_event :: string
  an_metric_direction :: metric_direction
  an_statistical_plan :: statistical_plan
  an_start_date :: int
  an_end_date :: int
  an_config_version :: int
  an_arms :: "arm_result list"
  an_crossover_actors :: int
  an_unknown_variant_actors :: int
  an_identity_conflict_actors :: int
  an_identity_quality :: string

record decision_snapshot = analysis_base +
  an_comparisons :: "arm_comparison list"

text \<open>
  What the service uses of its libraries: pydantic's text of a datetime, the printer of floats,
  the validation of a stored payload as a snapshot, the text of a JSON document after a round
  trip through a \<open>jsonb\<close> column, and SHA-256.
\<close>

record codec =
  cd_datetime :: "int \<Rightarrow> string"
  cd_float :: "rat \<Rightarrow> string"
  cd_validate :: "string \<Rightarrow> decision_snapshot option"
  cd_jsonb :: "string \<Rightarrow> string"
  cd_sha :: "string \<Rightarrow> string"

definition direction_text :: "metric_direction \<Rightarrow> string" where
  "direction_text d = (case d of Increase \<Rightarrow> ''increase'' | Decrease \<Rightarrow> ''decrease'')"

definition arm_dict :: "arm_result \<Rightarrow> dict" where
  "arm_dict a = [(''conversion_rate'', PFloat (Fin (ar_conversion_rate a))), (''conversions'', PInt (ar_conversions a)),
     (''sample_size'', PInt (ar_sample_size a)), (''variant'', PStr (ar_variant a))]"

definition comparison_dict :: "arm_comparison \<Rightarrow> dict" where
  "comparison_dict c = [(''adjusted_p_value'', PFloat (Fin (co_adjusted_p_value c))),
     (''confidence_interval'', PList [PFloat (Fin (fst (co_confidence_interval c))), PFloat (Fin (snd (co_confidence_interval c)))]),
     (''control_rate'', PFloat (Fin (co_control_rate c))), (''control_variant'', PStr (co_control_variant c)),
     (''is_statistically_significant'', PBool (co_significant c)),
     (''rate_difference'', PFloat (Fin (co_rate_difference c))), (''raw_p_value'', PFloat (Fin (co_raw_p_value c))),
     (''treatment_rate'', PFloat (Fin (co_treatment_rate c))), (''treatment_variant'', PStr (co_treatment_variant c))]"

definition plan_dict :: "statistical_plan \<Rightarrow> dict" where
  "plan_dict p = [(''baseline_conversion_rate'', PFloat (Fin (sp_baseline_conversion_rate p))),
     (''data_settlement_seconds'', PInt (sp_data_settlement_seconds p)),
     (''minimum_detectable_effect'', PFloat (Fin (sp_minimum_detectable_effect p))),
     (''nominal_power'', PFloat (Fin (sp_nominal_power p))), (''protocol'', PStr EXPERIMENT_STATISTICAL_PROTOCOL),
     (''required_sample_size_per_arm'', PInt (sp_required_sample_size_per_arm p)),
     (''significance_level'', PFloat (Fin (sp_significance_level p)))]"

text \<open>The dumped model with its keys sorted.\<close>

definition snapshot_dict :: "codec \<Rightarrow> decision_snapshot \<Rightarrow> dict" where
  "snapshot_dict cd s = [(''analysis_status'', PStr ''decision_snapshot''),
     (''arms'', PList (map (PDict \<circ> arm_dict) (an_arms s))),
     (''comparisons'', PList (map (PDict \<circ> comparison_dict) (an_comparisons s))),
     (''config_version'', PInt (an_config_version s)), (''control_variant'', PStr (an_control_variant s)),
     (''correction'', PStr ''bonferroni''), (''crossover_actors'', PInt (an_crossover_actors s)),
     (''data_completeness'', PStr ''verified''), (''deployment_readiness'', PStr ''not_assessed''),
     (''end_date'', PStr (cd_datetime cd (an_end_date s))), (''experiment_key'', PStr (an_experiment_key s)),
     (''experiment_status'', PStr (an_experiment_status s)), (''flag_key'', PStr (an_flag_key s)),
     (''identity_conflict_actors'', PInt (an_identity_conflict_actors s)),
     (''identity_quality'', PStr (an_identity_quality s)), (''inference_method'', PStr ''fisher_exact_two_sided''),
     (''interval_method'', PStr ''newcombe_wilson''), (''metric_direction'', PStr (direction_text (an_metric_direction s))),
     (''metric_event'', PStr (an_metric_event s)), (''start_date'', PStr (cd_datetime cd (an_start_date s))),
     (''statistical_plan'', PDict (plan_dict (an_statistical_plan s))),
     (''unknown_variant_actors'', PInt (an_unknown_variant_actors s))]"

definition canonical_snapshot_json :: "codec \<Rightarrow> decision_snapshot \<Rightarrow> string" where
  "canonical_snapshot_json cd s = the (json_dumps (cd_float cd) (PDict (snapshot_dict cd s)))"

section \<open>Tables\<close>

type_synonym boundary_key = "string \<times> string \<times> int"

record snapshot_row =
  sn_boundary :: stream_id
  sn_payload :: string
  sn_sha256 :: string

record analysis_tables =
  tb_rows :: "marker_row list"
  tb_windows :: "boundary_key \<Rightarrow> (int \<times> int) option"
  tb_snapshots :: "boundary_key \<Rightarrow> snapshot_row option"

datatype completeness_error = CheckViolation | RuntimeE string | InvalidId | InvalidSnapshot

datatype authority_state = APending | ACovered | ADegraded | AQuarantined

record boundary_authority =
  au_state :: authority_state
  au_marker_stream_id :: "string option"
  au_marker_parts :: "stream_id option"
  au_snapshot :: "decision_snapshot option"
  au_failure_reason :: "string option"

definition parse_stream_id :: "string \<Rightarrow> (completeness_error, stream_id) result" where
  "parse_stream_id s =
     (case split_dash s of
        None \<Rightarrow> Inl InvalidId
      | Some (ms_text, seq_text) \<Rightarrow>
          (case (canonical_nat ms_text, canonical_nat seq_text) of
             (Some ms, Some sq) \<Rightarrow> if 2 ^ 64 - 1 < ms \<or> 2 ^ 64 - 1 < sq then Inl InvalidId else Inr (ms, sq)
           | _ \<Rightarrow> Inl InvalidId))"

definition boundary_token :: "codec \<Rightarrow> string \<Rightarrow> string \<Rightarrow> int \<Rightarrow> int \<Rightarrow> int \<Rightarrow> string" where
  "boundary_token cd project_id experiment_key config_version window_start window_end =
     cd_sha cd (the (json_dumps (cd_float cd) (PDict
       [(''config_version'', PInt config_version), (''experiment_key'', PStr experiment_key),
        (''project_id'', PStr project_id), (''window_end'', PStr (utc_iso window_end)),
        (''window_start'', PStr (utc_iso window_start))])))"

definition validate_snapshot_payload :: "codec \<Rightarrow> snapshot_row \<Rightarrow> (completeness_error, decision_snapshot) result" where
  "validate_snapshot_payload cd row =
     (if \<not> boundary_token_ok (sn_sha256 row) then Inl (RuntimeE ''experiment snapshot digest is invalid'')
      else case cd_validate cd (sn_payload row) of
             None \<Rightarrow> Inl InvalidSnapshot
           | Some s \<Rightarrow>
               if cd_sha cd (canonical_snapshot_json cd s) \<noteq> sn_sha256 row
               then Inl (RuntimeE ''experiment snapshot digest does not match its payload'') else Inr s)"

section \<open>The boundary\<close>

definition stream_of_project :: "string \<Rightarrow> string" where
  "stream_of_project p = ''events:raw:'' @ p"

definition requested_marker :: "rat \<Rightarrow> string \<Rightarrow> string \<Rightarrow> int \<Rightarrow> string \<Rightarrow> marker_row" where
  "requested_marker now p key version token =
     \<lparr>mr_project = p, mr_experiment = key, mr_version = version, mr_stream_key = stream_of_project p, mr_token = token,
      mr_requested_at = now, mr_state = ''pending'', mr_attempts = 0, mr_next_attempt_at = Some now,
      mr_failure_code = None, mr_stream_id = None, mr_observed = None\<rparr>"

text \<open>
  The insert: the checks of the table come first, a row with the same primary key is left as it
  is, and a token that another row has violates its constraint.
\<close>

definition insert_boundary ::
    "rat \<Rightarrow> string \<Rightarrow> string \<Rightarrow> int \<Rightarrow> int \<times> int \<Rightarrow> string \<Rightarrow> analysis_tables \<Rightarrow> (completeness_error, analysis_tables) result" where
  "insert_boundary now p key version window token tb =
     (if \<not> (project_id_ok p \<and> resource_key key \<and> 0 < version \<and> fst window < snd window \<and> boundary_token_ok token)
      then Inl CheckViolation
      else if (p, key, version) \<in> set (map marker_key (tb_rows tb)) then Inr tb
      else if token \<in> set (map mr_token (tb_rows tb)) then Inl CheckViolation
      else Inr (tb\<lparr>tb_rows := tb_rows tb @ [requested_marker now p key version token],
                   tb_windows := (tb_windows tb)((p, key, version) := Some window)\<rparr>))"

definition authority :: "authority_state \<Rightarrow> stream_id option \<Rightarrow> string option \<Rightarrow> boundary_authority" where
  "authority state marker reason =
     \<lparr>au_state = state, au_marker_stream_id = map_option id_text marker, au_marker_parts = marker,
      au_snapshot = None, au_failure_reason = reason\<rparr>"

text \<open>A published boundary against the watermark of its project.\<close>

definition frontier_authority :: "string \<Rightarrow> stream_id \<Rightarrow> watermark option \<Rightarrow> (completeness_error, boundary_authority) result" where
  "frontier_authority stream_key marker watermark =
     (case watermark of
        None \<Rightarrow> Inr (authority APending (Some marker) None)
      | Some w \<Rightarrow>
          if wm_stream_key w \<noteq> stream_key then Inl (RuntimeE ''pipeline watermark stream authority is invalid'')
          else if wm_status w = ''degraded'' then Inr (authority ADegraded (Some marker) (wm_reason w))
          else if wm_status w \<noteq> ''healthy'' then Inl (RuntimeE ''pipeline watermark status is invalid'')
          else case (parse_stream_id (id_text (wm_start w)), parse_stream_id (id_text (wm_contiguous w))) of
                 (Inr start, Inr contiguous) \<Rightarrow>
                   if id_less marker start
                   then Inr (authority ADegraded (Some marker) (Some ''pipeline_provenance_unavailable''))
                   else Inr (authority (if id_less contiguous marker then APending else ACovered) (Some marker) None)
               | _ \<Rightarrow> Inl InvalidId)"

definition read_boundary ::
    "codec \<Rightarrow> string \<Rightarrow> marker_row \<Rightarrow> snapshot_row option \<Rightarrow> watermark option \<Rightarrow> (completeness_error, boundary_authority) result" where
  "read_boundary cd stream_key b snapshot watermark =
     (case snapshot of
        Some row \<Rightarrow>
          (case mr_stream_id b of
             None \<Rightarrow> Inl (RuntimeE ''experiment snapshot conflicts with its stream boundary'')
           | Some marker \<Rightarrow>
               if mr_state b \<noteq> ''published'' \<or> sn_boundary row \<noteq> marker
               then Inl (RuntimeE ''experiment snapshot conflicts with its stream boundary'')
               else case validate_snapshot_payload cd row of
                      Inl e \<Rightarrow> Inl e
                    | Inr s \<Rightarrow>
                        (case parse_stream_id (id_text marker) of
                           Inl e \<Rightarrow> Inl e
                         | Inr parts \<Rightarrow> Inr ((authority ACovered (Some parts) None)\<lparr>au_snapshot := Some s\<rparr>)))
      | None \<Rightarrow>
          if mr_state b = ''quarantined''
          then (if mr_stream_id b \<noteq> None \<or> mr_failure_code b = None \<or> mr_failure_code b = Some []
                then Inl (RuntimeE ''quarantined experiment boundary authority is invalid'')
                else Inr (authority AQuarantined None (mr_failure_code b)))
          else if mr_state b = ''pending''
          then (if mr_stream_id b \<noteq> None then Inl (RuntimeE ''pending experiment boundary has a stream marker'')
                else Inr (authority APending None None))
          else if mr_state b \<noteq> ''published'' then Inl (RuntimeE ''experiment boundary publication state is invalid'')
          else case mr_stream_id b of
                 None \<Rightarrow> Inl (RuntimeE ''experiment boundary publication state is invalid'')
               | Some marker \<Rightarrow>
                   (case parse_stream_id (id_text marker) of
                      Inl e \<Rightarrow> Inl e
                    | Inr parts \<Rightarrow> frontier_authority stream_key parts watermark))"

text \<open>The transaction; when it raises, nothing of it remains.\<close>

definition get_or_create_experiment_boundary ::
    "codec \<Rightarrow> rat \<Rightarrow> string \<Rightarrow> string \<Rightarrow> int \<Rightarrow> int \<times> int \<Rightarrow> (string \<Rightarrow> watermark option) \<Rightarrow> analysis_tables
     \<Rightarrow> (completeness_error, boundary_authority \<times> analysis_tables) result" where
  "get_or_create_experiment_boundary cd now p key version window watermarks tb =
     (let stream_key = stream_of_project p;
          token = boundary_token cd p key version (fst window) (snd window)
      in case insert_boundary now p key version window token tb of
           Inl e \<Rightarrow> Inl e
         | Inr tb' \<Rightarrow>
             (case find (\<lambda>r. marker_key r = (p, key, version)) (tb_rows tb') of
                None \<Rightarrow> Inl (RuntimeE ''experiment boundary insert was not observable'')
              | Some b \<Rightarrow>
                  if mr_stream_key b \<noteq> stream_key \<or> tb_windows tb' (p, key, version) \<noteq> Some window \<or> mr_token b \<noteq> token
                  then Inl (RuntimeE ''experiment metadata conflicts with its immutable boundary'')
                  else case read_boundary cd stream_key b (tb_snapshots tb' (p, key, version)) (watermarks p) of
                         Inl e \<Rightarrow> Inl e
                       | Inr a \<Rightarrow> Inr (a, tb')))"

section \<open>Freezing a snapshot\<close>

text \<open>The rows the insert selects: the boundary with this marker, covered by a healthy frontier.\<close>

definition covered_boundary :: "boundary_key \<Rightarrow> stream_id \<Rightarrow> (string \<Rightarrow> watermark option) \<Rightarrow> marker_row \<Rightarrow> bool" where
  "covered_boundary k boundary watermarks b \<longleftrightarrow>
     marker_key b = k \<and> mr_stream_id b = Some boundary
     \<and> (case watermarks (mr_project b) of
          None \<Rightarrow> False
        | Some w \<Rightarrow> wm_stream_key w = mr_stream_key b \<and> wm_status w = ''healthy''
            \<and> (fst boundary < fst (wm_contiguous w)
               \<or> (fst (wm_contiguous w) = fst boundary \<and> snd boundary \<le> snd (wm_contiguous w))))"

definition new_snapshot_row :: "codec \<Rightarrow> stream_id \<Rightarrow> decision_snapshot \<Rightarrow> snapshot_row" where
  "new_snapshot_row cd boundary s =
     \<lparr>sn_boundary = boundary, sn_payload = cd_jsonb cd (canonical_snapshot_json cd s),
      sn_sha256 = cd_sha cd (canonical_snapshot_json cd s)\<rparr>"

definition persist_experiment_snapshot ::
    "codec \<Rightarrow> string \<Rightarrow> string \<Rightarrow> int \<Rightarrow> string \<Rightarrow> decision_snapshot \<Rightarrow> (string \<Rightarrow> watermark option) \<Rightarrow> analysis_tables
     \<Rightarrow> (completeness_error, decision_snapshot \<times> analysis_tables) result" where
  "persist_experiment_snapshot cd p key version boundary_stream_id s watermarks tb =
     (case parse_stream_id boundary_stream_id of
        Inl e \<Rightarrow> Inl e
      | Inr boundary \<Rightarrow>
          let k = (p, key, version); row = new_snapshot_row cd boundary s;
              selected = list_ex (covered_boundary k boundary watermarks) (tb_rows tb)
          in if selected \<and> \<not> (an_experiment_key s = key \<and> an_config_version s = version \<and> boundary_token_ok (sn_sha256 row))
             then Inl CheckViolation
             else
               let tb' = (if selected \<and> tb_snapshots tb k = None
                          then tb\<lparr>tb_snapshots := (tb_snapshots tb)(k := Some row)\<rparr> else tb)
               in (case tb_snapshots tb' k of
                     None \<Rightarrow> Inl (RuntimeE ''verified snapshot was not persisted'')
                   | Some stored \<Rightarrow>
                       if id_text (sn_boundary stored) \<noteq> boundary_stream_id
                       then Inl (RuntimeE ''stored snapshot uses a different boundary'')
                       else case validate_snapshot_payload cd stored of
                              Inl e \<Rightarrow> Inl e
                            | Inr s' \<Rightarrow> Inr (s', tb')))"

end
