(* ===== verification/AnalysisEndpoint.thy ===== *)
theory AnalysisEndpoint
  imports Completeness
begin

text \<open>
  The experiment endpoint of the query service (\<open>services/query/app/routers/experiments.py\<close>, with
  the metadata of \<open>config_client.py\<close>): from the experiment's metadata and the aggregates that
  ClickHouse returns to a non-final answer or a decision snapshot. A request works in three parts
  that other work may separate: it opens the analysis at the completeness authority, reads
  ClickHouse and decides, and freezes the decision. Rates, intervals and p-values are finite
  floats, kept as rationals; \<open>fl\<close> rounds each operation, counts fit in 64 bits, and \<open>lib\<close> and
  \<open>fisher\<close> are the functions of \<open>math\<close>, \<open>statistics\<close> and \<open>scipy\<close> the code calls.
\<close>

section \<open>Metadata\<close>

datatype fetch_error = ExperimentNotFound | ExperimentNotAnalyzable | ConfigServiceUnavailable

text \<open>A reply is a status and what the validation of its body gives.\<close>

definition fetch_experiment_analysis ::
    "string set \<Rightarrow> (nat \<times> experiment_analysis option) option \<Rightarrow> string \<Rightarrow> (fetch_error, experiment_analysis) result" where
  "fetch_experiment_analysis delegated_headers reply experiment_key =
     (if delegated_headers \<notin> {{''X-API-Key''}, {''X-APDL-Internal-Capability''}} then Inl ConfigServiceUnavailable
      else case reply of
             None \<Rightarrow> Inl ConfigServiceUnavailable
           | Some (status, body) \<Rightarrow>
               if status = 404 then Inl ExperimentNotFound
               else if status = 409 then Inl ExperimentNotAnalyzable
               else if \<not> (200 \<le> status \<and> status \<le> 299) then Inl ConfigServiceUnavailable
               else case body of
                      None \<Rightarrow> Inl ConfigServiceUnavailable
                    | Some md \<Rightarrow> if ea_key md \<noteq> experiment_key then Inl ConfigServiceUnavailable else Inr md)"

section \<open>Arms\<close>

datatype http_error = HttpError nat string | ServerError

definition UNIX_EPOCH :: int where "UNIX_EPOCH = 719163 * 86400 * 1000000"

definition datetime64_boundary_milliseconds :: "int \<Rightarrow> int" where
  "datetime64_boundary_milliseconds t = - ((- (t - UNIX_EPOCH)) div 1000)"

definition empty_arms :: "experiment_analysis \<Rightarrow> arm_result list" where
  "empty_arms md = map (\<lambda>v. \<lparr>ar_variant = v, ar_sample_size = 0, ar_conversions = 0, ar_conversion_rate = 0\<rparr>) (ea_variants md)"

record arm_totals =
  at_seen :: "string list"
  at_aggregates :: "(string \<times> int \<times> int) list"
  at_crossover :: int
  at_unknown :: int
  at_conflicts :: "int option"

definition invalid_aggregates :: "string \<Rightarrow> http_error" where
  "invalid_aggregates detail = HttpError 503 (''ClickHouse returned '' @ detail)"

fun exact_int :: "pyval \<Rightarrow> int option" where
  "exact_int (PInt i) = Some i"
| "exact_int _ = None"

definition aggregate_row :: "string list \<Rightarrow> dict \<Rightarrow> arm_totals \<Rightarrow> (http_error, arm_totals) result" where
  "aggregate_row declared row t =
     (case dget row ''variant'' of
        PStr variant \<Rightarrow>
          if variant = [] then Inl (invalid_aggregates ''invalid experiment aggregates'')
          else if variant \<in> set (at_seen t) then Inl (invalid_aggregates ''duplicate experiment arm aggregates'')
          else (case (exact_int (dget row ''sample_size''), exact_int (dget row ''conversions''),
                      exact_int (dget row ''crossover_actors''), exact_int (dget row ''unknown_variant_actors'')) of
                  (Some n, Some c, Some x, Some u) \<Rightarrow>
                    (case exact_int (dget row ''identity_conflict_actors'') of
                       None \<Rightarrow> Inl (invalid_aggregates ''invalid identity-conflict aggregates'')
                     | Some conflicts \<Rightarrow>
                         if conflicts < 0 then Inl (invalid_aggregates ''invalid identity-conflict aggregates'')
                         else if at_conflicts t \<noteq> None \<and> at_conflicts t \<noteq> Some conflicts
                         then Inl (invalid_aggregates ''inconsistent identity-conflict aggregates'')
                         else if n < 0 \<or> c < 0 \<or> n < c \<or> x < 0 \<or> n < x \<or> u < 0 \<or> n < u
                         then Inl (invalid_aggregates ''inconsistent experiment aggregates'')
                         else Inr (t\<lparr>at_seen := variant # at_seen t, at_conflicts := Some conflicts,
                                     at_crossover := at_crossover t + x, at_unknown := at_unknown t + u,
                                     at_aggregates := if variant \<in> set declared then (variant, n, c) # at_aggregates t
                                                      else at_aggregates t\<rparr>))
                | _ \<Rightarrow> Inl (invalid_aggregates ''invalid experiment aggregates''))
      | _ \<Rightarrow> Inl (invalid_aggregates ''invalid experiment aggregates''))"

fun aggregate_rows :: "string list \<Rightarrow> dict list \<Rightarrow> arm_totals \<Rightarrow> (http_error, arm_totals) result" where
  "aggregate_rows declared [] t = Inr t"
| "aggregate_rows declared (row # rows) t =
     (case aggregate_row declared row t of Inl e \<Rightarrow> Inl e | Inr t' \<Rightarrow> aggregate_rows declared rows t')"

definition arm_of :: "(string \<times> int \<times> int) list \<Rightarrow> string \<Rightarrow> arm_result" where
  "arm_of aggregates v =
     (case map_of aggregates v of
        None \<Rightarrow> \<lparr>ar_variant = v, ar_sample_size = 0, ar_conversions = 0, ar_conversion_rate = 0\<rparr>
      | Some (n, c) \<Rightarrow> \<lparr>ar_variant = v, ar_sample_size = n, ar_conversions = c,
                        ar_conversion_rate = if n = 0 then 0 else fl (of_int c / of_int n)\<rparr>)"

definition aggregate_arms :: "experiment_analysis \<Rightarrow> dict list \<Rightarrow> (http_error, arm_result list \<times> int \<times> int \<times> int) result" where
  "aggregate_arms md rows =
     (case aggregate_rows (ea_variants md) rows
             \<lparr>at_seen = [], at_aggregates = [], at_crossover = 0, at_unknown = 0, at_conflicts = None\<rparr> of
        Inl e \<Rightarrow> Inl e
      | Inr t \<Rightarrow> Inr (map (arm_of (at_aggregates t)) (ea_variants md), at_crossover t, at_unknown t,
                     case at_conflicts t of None \<Rightarrow> 0 | Some n \<Rightarrow> n))"

section \<open>Comparisons\<close>

definition wilson_interval :: "float_library \<Rightarrow> int \<Rightarrow> int \<Rightarrow> rat \<Rightarrow> rat \<times> rat" where
  "wilson_interval lib successes sample_size z =
     (let n = fl (of_int sample_size); proportion = fl (of_int successes / of_int sample_size);
          z_squared = fsquare lib z; denominator = fl (1 + fl (z_squared / n));
          centre = fl (fl (proportion + fl (z_squared / fl (2 * n))) / denominator);
          half_width = fl (fl (z * fsqrt lib (fl (fl (fl (proportion * fl (1 - proportion)) / n)
                              + fl (z_squared / fl (4 * fl (of_int (sample_size ^ 2))))))) / denominator)
      in (max 0 (fl (centre - half_width)), min 1 (fl (centre + half_width))))"

definition comparison_ok :: "arm_comparison \<Rightarrow> bool" where
  "comparison_ok c \<longleftrightarrow> 0 \<le> co_control_rate c \<and> co_control_rate c \<le> 1 \<and> 0 \<le> co_treatment_rate c \<and> co_treatment_rate c \<le> 1
     \<and> -1 \<le> co_rate_difference c \<and> co_rate_difference c \<le> 1 \<and> 0 \<le> co_raw_p_value c \<and> co_raw_p_value c \<le> 1
     \<and> 0 \<le> co_adjusted_p_value c \<and> co_adjusted_p_value c \<le> 1"

text \<open>
  \<open>None\<close> stands for statistics that are not finite, which only the p-value can be; an arm without
  actors, a level out of range or a value the model refuses raises.
\<close>

definition comparison ::
    "float_library \<Rightarrow> (int \<times> int \<Rightarrow> int \<times> int \<Rightarrow> pyfloat) \<Rightarrow> arm_result \<Rightarrow> arm_result \<Rightarrow> int \<Rightarrow> rat
     \<Rightarrow> (http_error, arm_comparison option) result" where
  "comparison lib fisher control treatment comparison_count significance_level =
     (let control_rate = ar_conversion_rate control; treatment_rate = ar_conversion_rate treatment;
          difference = fl (treatment_rate - control_rate);
          level = fl (1 - fl (significance_level / fl (2 * fl (of_int comparison_count))));
          p = fisher (ar_conversions treatment, ar_sample_size treatment - ar_conversions treatment)
                     (ar_conversions control, ar_sample_size control - ar_conversions control)
      in if comparison_count < 1 \<or> level \<le> 0 \<or> 1 \<le> level \<or> ar_sample_size control = 0 \<or> ar_sample_size treatment = 0
         then Inl ServerError
         else case (wilson_interval lib (ar_conversions control) (ar_sample_size control) (inv_cdf lib level),
                    wilson_interval lib (ar_conversions treatment) (ar_sample_size treatment) (inv_cdf lib level), p) of
                ((control_lower, control_upper), (treatment_lower, treatment_upper), Fin raw) \<Rightarrow>
                  let adjusted = min (fl (raw * fl (of_int comparison_count))) 1;
                      below = fsqrt lib (fl (fsquare lib (fl (treatment_rate - treatment_lower))
                                             + fsquare lib (fl (control_upper - control_rate))));
                      above = fsqrt lib (fl (fsquare lib (fl (treatment_upper - treatment_rate))
                                             + fsquare lib (fl (control_rate - control_lower))));
                      c = \<lparr>co_control_variant = ar_variant control, co_treatment_variant = ar_variant treatment,
                           co_control_rate = control_rate, co_treatment_rate = treatment_rate,
                           co_rate_difference = difference,
                           co_confidence_interval = (max (-1) (fl (difference - below)), min 1 (fl (difference + above))),
                           co_raw_p_value = raw, co_adjusted_p_value = adjusted,
                           co_significant = adjusted < significance_level\<rparr>
                  in if comparison_ok c then Inr (Some c) else Inl ServerError
              | _ \<Rightarrow> Inr None)"

fun comparisons_of ::
    "float_library \<Rightarrow> (int \<times> int \<Rightarrow> int \<times> int \<Rightarrow> pyfloat) \<Rightarrow> arm_result \<Rightarrow> arm_result list \<Rightarrow> int \<Rightarrow> rat
     \<Rightarrow> (http_error, arm_comparison option list) result" where
  "comparisons_of lib fisher control [] comparison_count level = Inr []"
| "comparisons_of lib fisher control (arm # arms) comparison_count level =
     (case comparison lib fisher control arm comparison_count level of
        Inl e \<Rightarrow> Inl e
      | Inr c \<Rightarrow> (case comparisons_of lib fisher control arms comparison_count level of
                  Inl e \<Rightarrow> Inl e | Inr cs \<Rightarrow> Inr (c # cs)))"

section \<open>The request\<close>

datatype response =
    Decision decision_snapshot
  | NonFinal analysis_base string "string list"
  | Raise http_error

definition common_response :: "experiment_analysis \<Rightarrow> arm_result list \<Rightarrow> int \<Rightarrow> int \<Rightarrow> int \<Rightarrow> analysis_base" where
  "common_response md arms crossover unknown conflicts =
     \<lparr>an_experiment_key = ea_key md, an_flag_key = ea_flag_key md, an_experiment_status = ea_status md,
      an_control_variant = ea_control_variant md, an_metric_event = ea_metric_event md,
      an_metric_direction = ea_metric_direction md, an_statistical_plan = ea_statistical_plan md,
      an_start_date = ea_start_date md, an_end_date = ea_end_date md, an_config_version = ea_version md,
      an_arms = arms, an_crossover_actors = crossover, an_unknown_variant_actors = unknown,
      an_identity_conflict_actors = conflicts,
      an_identity_quality = if conflicts \<noteq> 0 then ''degraded'' else ''unambiguous''\<rparr>"

datatype stage = Answered response | Awaiting "boundary_authority option"

definition MAX_EXPERIMENT_WINDOW :: int where "MAX_EXPERIMENT_WINDOW = 90 * 86400 * 1000000"

definition unstarted :: "experiment_analysis \<Rightarrow> string \<Rightarrow> response" where
  "unstarted md reason = NonFinal (common_response md (empty_arms md) 0 0 0) reason (ea_variants md)"

text \<open>
  The part up to the completeness authority. \<open>pool\<close> tells whether the service has one and
  \<open>outcome\<close> how its transaction ends; a failed one only costs the authority.
\<close>

definition open_analysis ::
    "codec \<Rightarrow> rat \<Rightarrow> int \<Rightarrow> bool \<Rightarrow> call \<Rightarrow> string \<Rightarrow> experiment_analysis \<Rightarrow> (string \<Rightarrow> watermark option) \<Rightarrow> analysis_tables
     \<Rightarrow> stage \<times> analysis_tables" where
  "open_analysis cd db_now current_time pool outcome p md watermarks tb =
     (if MAX_EXPERIMENT_WINDOW < ea_end_date md - ea_start_date md
      then (Answered (Raise (HttpError 422 ''Authoritative experiment window must not exceed 90 days'')), tb)
      else if ea_status md = ''completed'' \<and> current_time < ea_end_date md
      then (Answered (unstarted md ''experiment_window_open''), tb)
      else if ea_status md = ''completed''
              \<and> current_time < ea_end_date md + sp_data_settlement_seconds (ea_statistical_plan md) * 1000000
      then (Answered (unstarted md ''awaiting_data_settlement''), tb)
      else if ea_status md = ''scheduled'' then (Answered (unstarted md ''experiment_not_started''), tb)
      else if ea_status md = ''completed'' \<and> pool
      then (case get_or_create_experiment_boundary cd db_now p (ea_key md) (ea_version md)
                   (ea_start_date md, ea_end_date md) watermarks tb of
              Inl _ \<Rightarrow> (Awaiting None, tb)
            | Inr (a, tb') \<Rightarrow>
                (case outcome of
                   CallFails \<Rightarrow> (Awaiting None, tb)
                 | CallLost \<Rightarrow> (Awaiting None, tb')
                 | CallOk \<Rightarrow> (case au_snapshot a of
                                Some s \<Rightarrow> (Answered (Decision s), tb')
                              | None \<Rightarrow> (Awaiting (Some a), tb'))))
      else (Awaiting None, tb))"

record analysis_params =
  ap_project_id :: string
  ap_flag_key :: string
  ap_metric_event :: string
  ap_declared_variants :: "string list"
  ap_minimum_exposure_config_version :: int
  ap_assignment_reason :: string
  ap_start_ms :: int
  ap_end_ms :: int
  ap_boundary :: "stream_id option"
  ap_source_stream :: string

definition covered_marker :: "boundary_authority option \<Rightarrow> stream_id option" where
  "covered_marker a = (case a of None \<Rightarrow> None | Some b \<Rightarrow> if au_state b = ACovered then au_marker_parts b else None)"

definition analysis_query :: "string \<Rightarrow> experiment_analysis \<Rightarrow> boundary_authority option \<Rightarrow> analysis_params" where
  "analysis_query p md a =
     \<lparr>ap_project_id = p, ap_flag_key = ea_flag_key md, ap_metric_event = ea_metric_event md,
      ap_declared_variants = ea_variants md,
      ap_minimum_exposure_config_version = ea_minimum_exposure_config_version md,
      ap_assignment_reason = if ea_enrollment_mode md = ''targeted'' then ''rule_match'' else ''fallthrough'',
      ap_start_ms = datetime64_boundary_milliseconds (ea_start_date md),
      ap_end_ms = datetime64_boundary_milliseconds (ea_end_date md),
      ap_boundary = covered_marker a, ap_source_stream = stream_of_project p\<rparr>"

datatype outcome = Reply response | Freeze decision_snapshot string

definition unprovenanced :: "dict list \<Rightarrow> (http_error, int) result" where
  "unprovenanced rows =
     (case rows of
        [row] \<Rightarrow> (case exact_int (dget row ''unprovenanced_events'') of
                   Some n \<Rightarrow> if n < 0 then Inl (invalid_aggregates ''invalid provenance aggregates'') else Inr n
                 | None \<Rightarrow> Inl (invalid_aggregates ''invalid provenance aggregates''))
      | _ \<Rightarrow> Inl (invalid_aggregates ''invalid provenance aggregates''))"

definition make_snapshot ::
    "float_library \<Rightarrow> (int \<times> int \<Rightarrow> int \<times> int \<Rightarrow> pyfloat) \<Rightarrow> experiment_analysis \<Rightarrow> analysis_base \<Rightarrow> string \<Rightarrow> outcome" where
  "make_snapshot lib fisher md base marker =
     (let arms = an_arms base; comparison_count = int (length arms) - 1
      in case find (\<lambda>arm. ar_variant arm = ea_control_variant md) arms of
           None \<Rightarrow> Reply (Raise (HttpError 503 ''Authoritative experiment arms are invalid''))
         | Some control \<Rightarrow>
             if comparison_count < 1 then Reply (Raise (HttpError 503 ''Authoritative experiment arms are invalid''))
             else (case comparisons_of lib fisher control
                          (filter (\<lambda>arm. ar_variant arm \<noteq> ea_control_variant md) arms) comparison_count
                          (sp_significance_level (ea_statistical_plan md)) of
                     Inl e \<Rightarrow> Reply (Raise e)
                   | Inr cs \<Rightarrow>
                       (case those cs of
                          None \<Rightarrow> Reply (NonFinal base ''non_finite_statistics'' [])
                        | Some comparisons \<Rightarrow>
                            Freeze (analysis_base.extend base \<lparr>an_comparisons = comparisons\<rparr>) marker)))"

text \<open>
  The part after ClickHouse: \<open>rows\<close> are the aggregates of the arms, \<open>provenance\<close> the answer about
  events that lack their place in the stream.
\<close>

definition decide ::
    "float_library \<Rightarrow> (int \<times> int \<Rightarrow> int \<times> int \<Rightarrow> pyfloat) \<Rightarrow> experiment_analysis \<Rightarrow> boundary_authority option
     \<Rightarrow> (http_error, dict list) result \<Rightarrow> (http_error, dict list) result \<Rightarrow> outcome" where
  "decide lib fisher md a rows provenance =
     (case (case rows of Inl e \<Rightarrow> Inl e | Inr rs \<Rightarrow> aggregate_arms md rs) of
        Inl e \<Rightarrow> Reply (Raise e)
      | Inr (arms, crossover, unknown, conflicts) \<Rightarrow>
          let base = common_response md arms crossover unknown conflicts;
              underpowered = map ar_variant (filter (\<lambda>arm. ar_sample_size arm
                 < sp_required_sample_size_per_arm (ea_statistical_plan md)) arms);
              answer = (\<lambda>reason ups. Reply (NonFinal base reason ups))
          in if map_option au_state a = Some AQuarantined then answer ''pipeline_boundary_failed'' underpowered
             else if unknown \<noteq> 0 then answer ''unknown_variant_exposures'' underpowered
             else if conflicts \<noteq> 0 then answer ''identity_alias_conflicts'' underpowered
             else if ea_status md = ''running'' then answer ''experiment_running'' underpowered
             else if ea_status md = ''stopped'' then answer ''experiment_stopped'' underpowered
             else if sum_list (map ar_sample_size arms) = 0 then answer ''no_exposures'' (ea_variants md)
             else if underpowered \<noteq> [] then answer ''underpowered_arms'' underpowered
             else case a of
                    None \<Rightarrow> answer ''pipeline_provenance_unavailable'' []
                  | Some b \<Rightarrow>
                      if au_state b = APending then answer ''awaiting_pipeline_boundary'' []
                      else if au_state b = ADegraded
                      then answer (if au_failure_reason b \<in> {Some ''pipeline_provenance_unavailable'', Some ''legacy_state_unverifiable''}
                                   then ''pipeline_provenance_unavailable'' else ''pipeline_degraded'') []
                      else (case (au_marker_stream_id b, au_marker_parts b) of
                              (Some marker, Some _) \<Rightarrow>
                                (case (case provenance of Inl e \<Rightarrow> Inl e | Inr rs \<Rightarrow> unprovenanced rs) of
                                   Inl e \<Rightarrow> Reply (Raise e)
                                 | Inr n \<Rightarrow>
                                     if n \<noteq> 0 then answer ''pipeline_provenance_unavailable'' []
                                     else make_snapshot lib fisher md base marker)
                            | _ \<Rightarrow> answer ''pipeline_provenance_unavailable'' []))"

definition freeze ::
    "codec \<Rightarrow> call \<Rightarrow> string \<Rightarrow> experiment_analysis \<Rightarrow> decision_snapshot \<Rightarrow> string \<Rightarrow> (string \<Rightarrow> watermark option) \<Rightarrow> analysis_tables
     \<Rightarrow> response \<times> analysis_tables" where
  "freeze cd outcome p md s marker watermarks tb =
     (let unverified = NonFinal (analysis_base.truncate s) ''data_completeness_unverified'' []
      in case persist_experiment_snapshot cd p (ea_key md) (ea_version md) marker s watermarks tb of
           Inl _ \<Rightarrow> (unverified, tb)
         | Inr (stored, tb') \<Rightarrow>
             (case outcome of CallFails \<Rightarrow> (unverified, tb) | CallLost \<Rightarrow> (unverified, tb') | CallOk \<Rightarrow> (Decision stored, tb')))"

end
