(* ===== verification/BoundaryMarkerLaws.thy ===== *)
theory BoundaryMarkerLaws
  imports BoundaryMarkers
begin

text \<open>
  The life of a boundary marker: its row moves from \<open>pending\<close> to \<open>published\<close> or \<open>quarantined\<close>
  in at most five attempts and then stays, its entry is added to the stream at most once, and a
  published row names that entry. And what a quarantine that never saw the entry does.
\<close>

section \<open>The run\<close>

text \<open>
  Experiments request markers, the writer attempts due rows, and the streams change: events are
  added and finalized entries leave. Nothing else writes a deduplication key.
\<close>

definition requested :: "marker_row \<Rightarrow> bool" where
  "requested r \<longleftrightarrow> mr_state r = ''pending'' \<and> mr_attempts r = 0 \<and> mr_stream_id r = None \<and> mr_observed r = None
     \<and> mr_failure_code r = None \<and> mr_next_attempt_at r \<noteq> None"

definition fresh_row :: "marker_row list \<Rightarrow> marker_row \<Rightarrow> bool" where
  "fresh_row rows r \<longleftrightarrow> marker_key r \<notin> set (map marker_key rows) \<and> mr_token r \<notin> set (map mr_token rows)"

inductive mstep :: "markers \<Rightarrow> markers \<Rightarrow> bool" where
  request: "requested r \<Longrightarrow> fresh_row (ms_rows s) r \<Longrightarrow> mstep s (s\<lparr>ms_rows := ms_rows s @ [r]\<rparr>)"
| attempt: "r \<in> set (ms_rows s) \<Longrightarrow> due now projects r \<Longrightarrow> snd (pc_new_id calls) < 2 ^ 64 \<Longrightarrow> fst (pc_new_id calls) < 2 ^ 64 \<Longrightarrow>
    publish_row now calls rec r (s, stats) = (t, stats') \<Longrightarrow> mstep s t"
| streams: "mstep s (s\<lparr>ms_streams := streams\<rparr>)"

definition no_markers :: "(string \<Rightarrow> redis_stream) \<Rightarrow> markers" where
  "no_markers streams = \<lparr>ms_streams = streams, ms_dedup = (\<lambda>_. None), ms_rows = [], ms_added = []\<rparr>"

inductive mreach :: "markers \<Rightarrow> bool" where
  start: "mreach (no_markers streams)"
| step: "mreach s \<Longrightarrow> mstep s t \<Longrightarrow> mreach t"

definition marker_row_ok :: "(string \<times> stream_id \<times> string) list \<Rightarrow> marker_row \<Rightarrow> bool" where
  "marker_row_ok added r \<longleftrightarrow>
     (case mr_stream_id r of
        Some i \<Rightarrow> mr_state r = ''published'' \<and> mr_observed r = Some i \<and> (mr_stream_key r, i, mr_token r) \<in> set added
          \<and> mr_attempts r < 5
      | None \<Rightarrow> (mr_state r = ''pending'' \<and> mr_attempts r < 5)
          \<or> (mr_state r = ''quarantined'' \<and> 0 < mr_attempts r \<and> mr_attempts r \<le> 5))"

definition dedup_ok :: "markers \<Rightarrow> bool" where
  "dedup_ok s \<longleftrightarrow> distinct (map (snd \<circ> snd) (ms_added s))
     \<and> (\<forall>k i t. (k, i, t) \<in> set (ms_added s) \<longrightarrow>
          ms_dedup s t = Some (DedupText (id_text i)) \<and> fst i < 2 ^ 64 \<and> snd i < 2 ^ 64
          \<and> (\<forall>r \<in> set (ms_rows s). mr_token r = t \<longrightarrow> mr_stream_key r = k)
          \<and> t \<in> set (map mr_token (ms_rows s)))
     \<and> (\<forall>t. ms_dedup s t \<noteq> None \<longrightarrow> (\<exists>k i. (k, i, t) \<in> set (ms_added s)))"

definition markers_inv :: "markers \<Rightarrow> bool" where
  "markers_inv s \<longleftrightarrow> distinct (map marker_key (ms_rows s)) \<and> distinct (map mr_token (ms_rows s))
     \<and> observed_unique (ms_rows s) \<and> (\<forall>r \<in> set (ms_rows s). marker_row_ok (ms_added s) r) \<and> dedup_ok s"

declare split_paired_All [simp del] split_paired_Ex [simp del] split_paired_all [simp del]

lemma dedup_okD:
  assumes "markers_inv s" and "(k, i, t) \<in> set (ms_added s)"
  shows "ms_dedup s t = Some (DedupText (id_text i))" "fst i < 2 ^ 64" "snd i < 2 ^ 64"
    "r \<in> set (ms_rows s) \<Longrightarrow> mr_token r = t \<Longrightarrow> mr_stream_key r = k" "t \<in> set (map mr_token (ms_rows s))"
  using assms unfolding markers_inv_def dedup_ok_def by blast+

section \<open>Rows\<close>

text \<open>What an operation may do to a row.\<close>

definition same_identity :: "marker_row \<Rightarrow> marker_row \<Rightarrow> bool" where
  "same_identity r q \<longleftrightarrow> marker_key q = marker_key r \<and> mr_stream_key q = mr_stream_key r \<and> mr_token q = mr_token r"

lemma identity_rows [simp]:
  "same_identity r (published_row i r)" "same_identity r (failed_row now e b d obs r)" "same_identity r r"
  by (simp_all add: same_identity_def published_row_def failed_row_def marker_key_def Let_def)

lemma update_rowsD:
  assumes "update_rows sel f rows = Some rows'" and "\<And>r. same_identity r (f r)"
  shows "rows' = map (\<lambda>r. if sel r then f r else r) rows" and "map marker_key rows' = map marker_key rows"
    and "map mr_token rows' = map mr_token rows" and "map mr_stream_key rows' = map mr_stream_key rows"
  using assms by (auto simp: update_rows_def Let_def same_identity_def split: if_splits)

definition evolves :: "marker_row \<Rightarrow> marker_row \<Rightarrow> bool" where
  "evolves r q \<longleftrightarrow> same_identity r q \<and> (mr_state r \<noteq> ''pending'' \<longrightarrow> q = r) \<and> mr_attempts r \<le> mr_attempts q"

lemma evolves_refl [simp]: "evolves r r"
  by (simp add: evolves_def)

lemma evolves_trans: "evolves a b \<Longrightarrow> evolves b c \<Longrightarrow> evolves a c"
  by (auto simp: evolves_def same_identity_def)

definition rows_evolve :: "marker_row list \<Rightarrow> marker_row list \<Rightarrow> bool" where
  "rows_evolve rows rows' \<longleftrightarrow> list_all2 evolves rows rows'"

lemma rows_evolve_refl [simp]: "rows_evolve rows rows"
  by (simp add: rows_evolve_def list_all2_same)

lemma rows_evolve_trans: "rows_evolve a b \<Longrightarrow> rows_evolve b c \<Longrightarrow> rows_evolve a c"
  unfolding rows_evolve_def using list_all2_trans [of evolves evolves evolves] evolves_trans by blast

lemma rows_evolve_keys:
  "rows_evolve a b \<Longrightarrow> map marker_key b = map marker_key a \<and> map mr_token b = map mr_token a
     \<and> (\<forall>q \<in> set b. \<exists>r \<in> set a. evolves r q)"
  unfolding rows_evolve_def by (induction rule: list_all2_induct) (auto simp: evolves_def same_identity_def)

text \<open>A table update in which every selected row is pending and evolves.\<close>

lemma update_rows_evolve:
  assumes u: "update_rows sel f rows = Some rows'" and sel: "\<And>r. r \<in> set rows \<Longrightarrow> sel r \<Longrightarrow> evolves r (f r)"
    and ok: "\<And>r. r \<in> set rows \<Longrightarrow> sel r \<Longrightarrow> marker_row_ok added (f r)" and old: "\<forall>r \<in> set rows. marker_row_ok added r"
  shows "rows_evolve rows rows' \<and> observed_unique rows' \<and> (\<forall>r \<in> set rows'. marker_row_ok added r)"
proof -
  have rows': "rows' = map (\<lambda>r. if sel r then f r else r) rows" and u': "observed_unique rows'" using u by (auto simp: update_rows_def Let_def split: if_splits)
  have "list_all2 evolves rows rows'" unfolding rows' by (simp add: list_all2_map2 list_all2_same sel)
  moreover have "\<forall>r \<in> set rows'. marker_row_ok added r" using ok old by (auto simp: rows')
  ultimately show ?thesis using u' by (simp add: rows_evolve_def)
qed

lemma published_row_evolves: "marks m r \<Longrightarrow> evolves r (published_row i r)"
  by (simp add: evolves_def marks_def) (simp add: published_row_def)

lemma failed_row_evolves: "failure_matches m obs r \<Longrightarrow> evolves r (failed_row now e b d obs' r)"
  by (simp add: evolves_def failure_matches_def) (simp add: failed_row_def Let_def)

lemma published_row_ok:
  "marker_row_ok added r \<Longrightarrow> marks m r \<Longrightarrow> (pm_stream_key m, i, pm_token m) \<in> set added \<Longrightarrow> marker_row_ok added (published_row i r)"
  by (simp add: marker_row_ok_def marks_def published_row_def)

lemma failed_row_ok: "marker_row_ok added r \<Longrightarrow> failure_matches m obs r \<Longrightarrow> marker_row_ok added (failed_row now e b d obs' r)"
  by (auto simp: marker_row_ok_def failure_matches_def failed_row_def Let_def BOUNDARY_MARKER_MAX_PUBLISH_ATTEMPTS_def)

section \<open>One attempt\<close>

text \<open>Writing the rows back, whatever the outcome of the call.\<close>

lemma rows_inv:
  assumes "markers_inv s" and "rows_evolve (ms_rows s) rows" and "observed_unique rows"
    and "\<forall>r \<in> set rows. marker_row_ok (ms_added s) r"
  shows "markers_inv (s\<lparr>ms_rows := rows\<rparr>)"
proof -
  note keys = rows_evolve_keys [OF assms(2)]
  have "mr_stream_key q = k" if "(k, i, t) \<in> set (ms_added s)" "q \<in> set rows" "mr_token q = t" for k i t q
  proof -
    from keys that(2) obtain r where r: "r \<in> set (ms_rows s)" "evolves r q" by blast
    then show ?thesis using dedup_okD(4) [OF assms(1) that(1) r(1)] that(3) by (simp add: evolves_def same_identity_def)
  qed
  with assms(1) keys have "dedup_ok (s\<lparr>ms_rows := rows\<rparr>)" unfolding markers_inv_def dedup_ok_def by simp
  then show ?thesis using assms keys by (simp add: markers_inv_def)
qed

lemma store_marker_inv:
  assumes inv: "markers_inv s" and added: "(pm_stream_key m, i, pm_token m) \<in> set (ms_added s)"
    and st: "store_marker m i (ms_rows s) = Some (stored, rows)"
  shows "rows_evolve (ms_rows s) rows \<and> markers_inv (s\<lparr>ms_rows := rows\<rparr>)"
proof (cases "list_ex (marks m) (ms_rows s)")
  case True
  with st have u: "update_rows (marks m) (published_row i) (ms_rows s) = Some rows"
    by (auto simp: store_marker_def)
  have "rows_evolve (ms_rows s) rows \<and> observed_unique rows \<and> (\<forall>r \<in> set rows. marker_row_ok (ms_added s) r)"
    by (rule update_rows_evolve [OF u])
      (use inv added published_row_ok published_row_evolves in \<open>auto simp: markers_inv_def\<close>)
  then show ?thesis using rows_inv [OF inv] by blast
next
  case False
  with st have "rows = ms_rows s" by (simp add: store_marker_def)
  then show ?thesis using inv by simp
qed

lemma record_marker_inv:
  assumes "markers_inv s" and "(pm_stream_key m, i, pm_token m) \<in> set (ms_added s)"
    and "record_marker m i outcome s = (e, t)"
  shows "markers_inv t \<and> rows_evolve (ms_rows s) (ms_rows t) \<and> ms_added t = ms_added s"
proof (cases "store_marker m i (ms_rows s)")
  case (Some sr)
  obtain stored rows where sr: "sr = (stored, rows)" by (cases sr)
  with Some assms(3) have "t = s \<or> t = s\<lparr>ms_rows := rows\<rparr>" by (auto simp: record_marker_def split: call.splits)
  with store_marker_inv [OF assms(1,2) Some [unfolded sr]] assms(1) show ?thesis by auto
qed (use assms in \<open>simp add: record_marker_def\<close>)

lemma record_failure_inv:
  assumes inv: "markers_inv s" and f: "record_boundary_marker_failure now m failure outcome s = (st, t)"
  shows "markers_inv t \<and> rows_evolve (ms_rows s) (ms_rows t) \<and> ms_added t = ms_added s"
proof -
  have upd: "rows_evolve (ms_rows s) rows \<and> markers_inv (s\<lparr>ms_rows := rows\<rparr>)"
    if "update_boundary_marker_failure now m failure b d obs (ms_rows s) = Some rows" for b d obs rows
  proof -
    have "rows_evolve (ms_rows s) rows \<and> observed_unique rows \<and> (\<forall>r \<in> set rows. marker_row_ok (ms_added s) r)"
      by (rule update_rows_evolve [OF that [unfolded update_boundary_marker_failure_def]])
        (use inv failed_row_ok failed_row_evolves in \<open>auto simp: markers_inv_def\<close>)
    then show ?thesis using rows_inv [OF inv] by blast
  qed
  have "t = s \<or> (\<exists>b d obs rows. update_boundary_marker_failure now m failure b d obs (ms_rows s) = Some rows \<and> t = s\<lparr>ms_rows := rows\<rparr>)"
    using f unfolding record_boundary_marker_failure_def Let_def
    by (auto split: if_splits option.splits call.splits prod.splits)
  then show ?thesis using inv upd by auto
qed

lemma id_text_parts: "fst i < 2 ^ 64 \<Longrightarrow> snd i < 2 ^ 64 \<Longrightarrow> stream_id_parts (id_text i) = Inr i"
  by (simp add: stream_id_parts_iff)

text \<open>A marker that was made from a row of the table.\<close>

definition marker_of :: "markers \<Rightarrow> pending_marker \<Rightarrow> bool" where
  "marker_of s m \<longleftrightarrow> (\<exists>r \<in> set (ms_rows s). mr_token r = pm_token m \<and> mr_stream_key r = pm_stream_key m)"

lemma run_script_inv:
  assumes inv: "markers_inv s" and m: "marker_of s m" and new: "fst new_id < 2 ^ 64" "snd new_id < 2 ^ 64"
    and run: "run_script m new_id s = (reply, t)"
  shows "markers_inv t \<and> ms_rows t = ms_rows s
    \<and> (\<forall>text i. reply = ReplyId text \<longrightarrow> stream_id_parts text = Inr i \<longrightarrow> (pm_stream_key m, i, pm_token m) \<in> set (ms_added t))"
proof -
  let ?k = "pm_stream_key m" and ?t = "pm_token m"
  from m obtain r where r: "r \<in> set (ms_rows s)" "mr_token r = ?t" "mr_stream_key r = ?k" by (auto simp: marker_of_def)
  show ?thesis
  proof (cases "ms_dedup s ?t")
    case None
    have none: "(k, i, ?t) \<notin> set (ms_added s)" for k i using dedup_okD(1) [OF inv] None by fastforce
    let ?obs = "case pm_observed m of None \<Rightarrow> [] | Some i \<Rightarrow> id_text i"
    show ?thesis
    proof (cases "?obs \<noteq> [] \<or> MARKER_STREAM_MAX_ENTRIES \<le> length (rs_entries (ms_streams s ?k))")
      case True
      with run None have "t = s" "\<forall>text. reply \<noteq> ReplyId text"
        by (auto simp: run_script_def boundary_marker_lua_def Let_def fun_upd_idem split: if_splits)
      with inv show ?thesis by simp
    next
      case False
      with run None have reply: "reply = ReplyId (id_text new_id)"
        and t: "ms_rows t = ms_rows s" "ms_added t = ms_added s @ [(?k, new_id, ?t)]"
          "ms_dedup t = (ms_dedup s)(?t := Some (DedupText (id_text new_id)))"
        by (auto simp: run_script_def boundary_marker_lua_def Let_def xadd_def)
      have uniq: "q = r" if "q \<in> set (ms_rows s)" "mr_token q = ?t" for q
        using inv that r(1,2) by (auto simp: markers_inv_def distinct_map inj_on_def)
      have "marker_row_ok (ms_added t) q" if "q \<in> set (ms_rows s)" for q
        using inv that by (auto simp: markers_inv_def marker_row_ok_def t split: option.splits)
      moreover have "dedup_ok t" unfolding dedup_ok_def t
      proof (intro conjI allI impI)
        show "distinct (map (snd \<circ> snd) (ms_added s @ [(?k, new_id, ?t)]))"
          using inv none by (force simp: markers_inv_def dedup_ok_def)
        fix k i u assume "(k, i, u) \<in> set (ms_added s @ [(?k, new_id, ?t)])"
        then have c: "(k, i, u) \<in> set (ms_added s) \<or> (k = ?k \<and> i = new_id \<and> u = ?t)" by auto
        show "((ms_dedup s)(?t := Some (DedupText (id_text new_id)))) u = Some (DedupText (id_text i))"
          using c none [of k i] dedup_okD(1) [OF inv, of k i u] by auto
        show "fst i < 2 ^ 64" "snd i < 2 ^ 64" using c new dedup_okD(2,3) [OF inv] by blast+
        show "\<forall>q \<in> set (ms_rows s). mr_token q = u \<longrightarrow> mr_stream_key q = k"
          using c dedup_okD(4) [OF inv] uniq r(3) by blast
        show "u \<in> set (map mr_token (ms_rows s))" 
          using c
        proof
          assume "(k, i, u) \<in> set (ms_added s)"
          then show ?thesis by (rule dedup_okD(5) [OF inv])
        qed (use r in force)
      next
        fix u assume "((ms_dedup s)(?t := Some (DedupText (id_text new_id)))) u \<noteq> None"
        then have "u = ?t \<or> ms_dedup s u \<noteq> None" by (auto split: if_splits)
        then show "\<exists>k i. (k, i, u) \<in> set (ms_added s @ [(?k, new_id, ?t)])"
        proof
          assume "ms_dedup s u \<noteq> None"
          with inv have "\<exists>k i. (k, i, u) \<in> set (ms_added s)" unfolding markers_inv_def dedup_ok_def by blast
          then show ?thesis by auto
        qed auto
      qed
      ultimately have "markers_inv t" using inv t(1) by (simp add: markers_inv_def)
      then show ?thesis using reply t id_text_parts [OF new] by simp
    qed
  next
    case (Some d)
    then obtain k i where a: "(k, i, ?t) \<in> set (ms_added s)" using inv by (auto simp: markers_inv_def dedup_ok_def)
    have k: "k = ?k" using dedup_okD(4) [OF inv a r(1,2)] r(3) by simp
    have d: "ms_dedup s ?t = Some (DedupText (id_text i))" using dedup_okD(1) [OF inv a] .
    have "t = s" "\<forall>text. reply = ReplyId text \<longrightarrow> text = id_text i"
      using run d by (auto simp: run_script_def boundary_marker_lua_def Let_def fun_upd_idem split: if_splits option.splits)
    then show ?thesis using inv a k id_text_parts [OF dedup_okD(2,3) [OF inv a]] by auto
  qed
qed

lemma publish_one_inv:
  assumes inv: "markers_inv s" and m: "marker_of s m"
    and new: "fst (pc_new_id calls) < 2 ^ 64" "snd (pc_new_id calls) < 2 ^ 64"
    and run: "publish_one_boundary_marker m calls s = (e, t)"
  shows "markers_inv t \<and> rows_evolve (ms_rows s) (ms_rows t)"
proof -
  obtain reply u where script: "run_script m (pc_new_id calls) s = (reply, u)" by (metis surj_pair)
  note u = run_script_inv [OF inv m new script]
  have "t = s \<or> t = u \<or> (\<exists>text i. reply = ReplyId text \<and> stream_id_parts text = Inr i \<and> record_marker m i (pc_update calls) u = (e, t))"
    using run script by (auto simp: publish_one_boundary_marker_def split: if_splits marker_reply.splits sum.splits)
  then consider "t = s" | "t = u"
    | reply_id i where "reply = ReplyId reply_id" "stream_id_parts reply_id = Inr i" "record_marker m i (pc_update calls) u = (e, t)"
    by blast
  then show ?thesis
  proof cases
    case 3
    with u have "(pm_stream_key m, i, pm_token m) \<in> set (ms_added u)" by blast
    from record_marker_inv [OF _ this 3(3)] u show ?thesis by simp
  qed (use inv u in auto)
qed

lemma publish_row_inv:
  assumes inv: "markers_inv s" and r: "r \<in> set (ms_rows s)"
    and new: "fst (pc_new_id calls) < 2 ^ 64" "snd (pc_new_id calls) < 2 ^ 64"
    and run: "publish_row now calls rec r (s, stats) = (t, stats')"
  shows "markers_inv t \<and> rows_evolve (ms_rows s) (ms_rows t)"
proof (cases "pending_boundary_marker r")
  case None
  with run inv show ?thesis by (simp add: publish_row_def)
next
  case (Some m)
  have m: "marker_of s m" using Some r by (auto simp: pending_boundary_marker_def marker_of_def split: if_splits)
  obtain e s1 where p: "publish_one_boundary_marker m calls s = (e, s1)" by (metis surj_pair)
  note one = publish_one_inv [OF inv m new p]
  show ?thesis
  proof (cases e)
    case None
    with run Some p one show ?thesis by (simp add: publish_row_def)
  next
    case (Some failure)
    obtain st s2 where f: "record_boundary_marker_failure now m failure rec s1 = (st, s2)" by (metis surj_pair)
    from record_failure_inv [OF conjunct1 [OF one] f] one rows_evolve_trans
    have "markers_inv s2 \<and> rows_evolve (ms_rows s) (ms_rows s2)" by blast
    moreover have "t = s2" using run Some \<open>pending_boundary_marker r = Some m\<close> p f
      by (cases st) (simp_all add: publish_row_def Let_def)
    ultimately show ?thesis by simp
  qed
qed

section \<open>Every run\<close>

lemma mstep_inv:
  assumes "mstep s t" and inv: "markers_inv s"
  shows "markers_inv t \<and> (\<exists>rows new. ms_rows t = rows @ new \<and> rows_evolve (ms_rows s) rows)"
  using assms(1)
proof cases
  case (request r)
  have "marker_row_ok (ms_added s) r" using request by (simp add: requested_def marker_row_ok_def)
  moreover have "(k, i, mr_token r) \<notin> set (ms_added s)" for k i
    using dedup_okD(5) [OF inv, of k i "mr_token r"] request by (auto simp: fresh_row_def)
  ultimately have "markers_inv t" using inv request
    unfolding markers_inv_def dedup_ok_def by (simp add: fresh_row_def requested_def observed_unique_def)
  then show ?thesis using request by (intro conjI exI [of _ "ms_rows s"] exI [of _ "[r]"]) simp_all
next
  case (attempt r now projects calls rec stats stats')
  from publish_row_inv [OF inv attempt(1,4,3,5)] show ?thesis by (metis append_Nil2)
next
  case (streams f)
  then have "markers_inv t" using inv by (simp add: markers_inv_def dedup_ok_def)
  then show ?thesis using streams by (intro conjI exI [of _ "ms_rows s"] exI [of _ "[]"]) simp_all
qed

lemma mreach_inv: "mreach s \<Longrightarrow> markers_inv s"
proof (induction rule: mreach.induct)
  case (start streams)
  show ?case by (simp add: markers_inv_def dedup_ok_def no_markers_def observed_unique_def)
qed (simp add: mstep_inv)

definition markers_evolve :: "markers \<Rightarrow> markers \<Rightarrow> bool" where
  "markers_evolve s t \<longleftrightarrow> (\<forall>r \<in> set (ms_rows s). \<exists>q \<in> set (ms_rows t). evolves r q)"

lemma mstep_evolves:
  assumes "mstep s t" and "markers_inv s"
  shows "markers_evolve s t"
proof -
  from mstep_inv [OF assms] obtain rows new where
    "ms_rows t = rows @ new" "list_all2 evolves (ms_rows s) rows" by (auto simp: rows_evolve_def)
  then show ?thesis unfolding markers_evolve_def by (auto simp: in_set_conv_nth list_all2_conv_all_nth) (meson UnCI nth_mem)
qed

interpretation marker_rows: monotone_run mstep markers_inv markers_evolve
proof unfold_locales
  show "markers_evolve s s" for s unfolding markers_evolve_def using evolves_refl by blast
  show "markers_evolve s u" if "markers_evolve s t" "markers_evolve t u" for s t u
    using that evolves_trans unfolding markers_evolve_def by blast
qed (simp_all add: mstep_inv mstep_evolves)

section \<open>Failing attempts\<close>


definition publishable :: "marker_row \<Rightarrow> bool" where
  "publishable r \<longleftrightarrow> project_id_ok (mr_project r) \<and> mr_stream_key r = STREAM_PREFIX @ mr_project r
     \<and> boundary_token_ok (mr_token r) \<and> mr_experiment r \<noteq> [] \<and> 0 < mr_version r"

definition marker_for :: "marker_row \<Rightarrow> nat \<Rightarrow> pending_marker" where
  "marker_for r n = \<lparr>pm_project = mr_project r, pm_experiment = mr_experiment r, pm_version = mr_version r,
     pm_stream_key = mr_stream_key r, pm_token = mr_token r, pm_attempts = n, pm_observed = None\<rparr>"




section \<open>Theorems\<close>

text \<open>
  C16. The life of a marker row. In every run a row is pending with fewer than five failed
  attempts, published with its stream id recorded as observed, or quarantined after one to five
  attempts; no further steps remove a row, change its identity or take back an attempt, and a
  published or quarantined row never changes again.
\<close>

theorem marker_row_lifecycle:
  assumes "mreach s" and "r \<in> set (ms_rows s)"
  shows "((mr_state r = ''pending'' \<and> mr_stream_id r = None \<and> mr_attempts r < BOUNDARY_MARKER_MAX_PUBLISH_ATTEMPTS)
      \<or> (mr_state r = ''published'' \<and> mr_stream_id r \<noteq> None \<and> mr_observed r = mr_stream_id r)
      \<or> (mr_state r = ''quarantined'' \<and> mr_stream_id r = None \<and> 0 < mr_attempts r
          \<and> mr_attempts r \<le> BOUNDARY_MARKER_MAX_PUBLISH_ATTEMPTS))
    \<and> (\<forall>t. mstep\<^sup>*\<^sup>* s t \<longrightarrow> (\<exists>q \<in> set (ms_rows t). marker_key q = marker_key r \<and> mr_token q = mr_token r
        \<and> mr_stream_key q = mr_stream_key r \<and> mr_attempts r \<le> mr_attempts q
        \<and> (mr_state r \<noteq> ''pending'' \<longrightarrow> q = r)))"
proof (intro conjI allI impI)
  have "marker_row_ok (ms_added s) r" using mreach_inv [OF assms(1)] assms(2) by (simp add: markers_inv_def)
  then show "(mr_state r = ''pending'' \<and> mr_stream_id r = None \<and> mr_attempts r < BOUNDARY_MARKER_MAX_PUBLISH_ATTEMPTS)
      \<or> (mr_state r = ''published'' \<and> mr_stream_id r \<noteq> None \<and> mr_observed r = mr_stream_id r)
      \<or> (mr_state r = ''quarantined'' \<and> mr_stream_id r = None \<and> 0 < mr_attempts r
          \<and> mr_attempts r \<le> BOUNDARY_MARKER_MAX_PUBLISH_ATTEMPTS)"
    by (auto simp: marker_row_ok_def BOUNDARY_MARKER_MAX_PUBLISH_ATTEMPTS_def split: option.splits)
next
  fix t assume "mstep\<^sup>*\<^sup>* s t"
  from marker_rows.steps_forward [OF this mreach_inv [OF assms(1)]] assms(2)
  obtain q where "q \<in> set (ms_rows t)" "evolves r q" unfolding markers_evolve_def by blast
  then show "\<exists>q \<in> set (ms_rows t). marker_key q = marker_key r \<and> mr_token q = mr_token r
        \<and> mr_stream_key q = mr_stream_key r \<and> mr_attempts r \<le> mr_attempts q \<and> (mr_state r \<noteq> ''pending'' \<longrightarrow> q = r)"
    by (auto simp: evolves_def same_identity_def)
qed

text \<open>
  C13. A marker is added to its stream at most once, however often its publication is retried and
  whichever replies are lost; and a published row names the stream entry that was added for its
  token.
\<close>

theorem marker_added_once:
  assumes "mreach s"
  shows "distinct (map (\<lambda>(key, i, token). token) (ms_added s))
    \<and> (\<forall>r \<in> set (ms_rows s). mr_state r = ''published'' \<longrightarrow>
         (\<exists>i. mr_stream_id r = Some i \<and> (mr_stream_key r, i, mr_token r) \<in> set (ms_added s)
            \<and> (\<forall>key j. (key, j, mr_token r) \<in> set (ms_added s) \<longrightarrow> key = mr_stream_key r \<and> j = i)))"
proof -
  have inv: "markers_inv s" using mreach_inv [OF assms] .
  have tokens: "(\<lambda>(key, i, token). token) = (snd \<circ> snd :: string \<times> stream_id \<times> string \<Rightarrow> string)" by auto
  have d: "distinct (map (snd \<circ> snd) (ms_added s))" using inv by (simp add: markers_inv_def dedup_ok_def)
  have "\<exists>i. mr_stream_id r = Some i \<and> (mr_stream_key r, i, mr_token r) \<in> set (ms_added s)
      \<and> (\<forall>key j. (key, j, mr_token r) \<in> set (ms_added s) \<longrightarrow> key = mr_stream_key r \<and> j = i)"
    if r: "r \<in> set (ms_rows s)" "mr_state r = ''published''" for r
  proof -
    have "marker_row_ok (ms_added s) r" using inv r(1) by (simp add: markers_inv_def)
    with r(2) obtain i where i: "mr_stream_id r = Some i" "(mr_stream_key r, i, mr_token r) \<in> set (ms_added s)"
      by (auto simp: marker_row_ok_def split: option.splits)
    have "key = mr_stream_key r \<and> j = i" if "(key, j, mr_token r) \<in> set (ms_added s)" for key j
    proof -
      have "inj_on (snd \<circ> snd) (set (ms_added s))" using d by (simp add: distinct_map)
      from inj_onD [OF this _ that i(2)] show ?thesis by simp
    qed
    with i show ?thesis by blast
  qed
  with d show ?thesis unfolding tokens by blast
qed

text \<open>
  A published marker is finalized: when the writer delivers the entry that the row of its
  token names, the verification passes and leaves the authority alone.
\<close>

theorem published_marker_verifies:
  assumes "mreach ms" and "r \<in> set (ms_rows ms)" and "mr_state r = ''published''" and "mr_stream_id r = Some i"
    and "pi_boundaries px = map boundary_of (ms_rows ms)" and "wc_authority cfg"
    and "project_id_from_stream (mr_stream_key r) = Inr (mr_project r)"
    and "wr_tokens wr = [((mr_stream_key r, i), mr_token r)]"
  shows "verify_boundary_deliveries cfg (mr_stream_key r) [i] (CallOk, CallOk) (wr, px) = (True, px)"
proof -
  let ?k = "mr_stream_key r" and ?exp = "[(i, mr_token r)]"
  have inv: "markers_inv ms" using mreach_inv [OF assms(1)] .
  have exp: "expected_tokens wr ?k [i] = ?exp" by (simp add: expected_tokens_def List.map_filter_def assms(8))
  let ?sel = "filter (selected_boundary (mr_project r) ?k ?exp) (pi_boundaries px)"
  let ?obs = "List.map_filter (observed_delivery ?exp) ?sel"
  have obs: "mr_observed r = Some i" using inv assms(2-4) by (auto simp: markers_inv_def marker_row_ok_def)
  have r_in: "boundary_of r \<in> set ?sel"
    using assms(2,5) by (simp add: selected_boundary_def boundary_of_def)
  have own: "observed_delivery ?exp (boundary_of r) = Some ((i, mr_token r), False)"
    using assms(3,4) by (simp add: observed_delivery_def boundary_of_def)
  have "d = ((i, mr_token r), False)" if "d \<in> set ?obs" for d
  proof -
    from that obtain q where q: "q \<in> set (ms_rows ms)" "selected_boundary (mr_project r) ?k ?exp (boundary_of q)"
      "observed_delivery ?exp (boundary_of q) = Some d"
      using assms(5) by (auto simp: List.map_filter_def)
    show ?thesis
    proof (cases "mr_state q = ''published''")
      case True
      with q(3) show ?thesis by (auto simp: observed_delivery_def boundary_of_def split: option.splits if_splits)
    next
      case False
      with q(3) have "mr_observed q = Some i" "mr_state q = ''quarantined''"
        by (auto simp: observed_delivery_def boundary_of_def split: option.splits if_splits)
      moreover have "mr_project q = mr_project r" using q(2) by (simp add: selected_boundary_def boundary_of_def)
      ultimately have "q = r"
        using inv obs q(1) assms(2) by (auto simp: markers_inv_def observed_unique_def distinct_map inj_on_def)
      with False assms(3) show ?thesis by simp
    qed
  qed
  moreover have "((i, mr_token r), False) \<in> set ?obs"
    using r_in own by (force simp: List.map_filter_def)
  ultimately have "list_all (\<lambda>e. e \<in> set (map fst ?obs)) ?exp" "\<not> list_ex snd ?obs"
    by (force simp: list_ex_iff)+
  then show ?thesis using exp assms(6,7) by (simp add: verify_boundary_deliveries_def Let_def)
qed


section \<open>Witnesses\<close>

definition sample_marker_row :: marker_row where
  "sample_marker_row = \<lparr>mr_project = ''demo'', mr_experiment = ''checkout'', mr_version = 3, mr_stream_key = ''events:raw:demo'',
     mr_token = replicate 64 (CHR ''a''), mr_requested_at = 5, mr_state = ''pending'', mr_attempts = 0,
     mr_next_attempt_at = Some 5, mr_failure_code = None, mr_stream_id = None, mr_observed = None\<rparr>"

definition sample_marker_calls :: publish_calls where
  "sample_marker_calls = \<lparr>pc_script = CallOk, pc_new_id = (7, 0), pc_update = CallOk\<rparr>"

definition sample_published :: markers where
  "sample_published = fst (publish_row 9 sample_marker_calls CallOk sample_marker_row
     ((no_markers (\<lambda>_. empty_stream))\<lparr>ms_rows := [sample_marker_row]\<rparr>,
      \<lparr>sm_published = 0, sm_retried = 0, sm_quarantined = 0, sm_errors = 0\<rparr>))"

lemma sample_requested: "requested sample_marker_row" "publishable sample_marker_row"
proof -
  show "requested sample_marker_row" by (simp add: requested_def sample_marker_row_def)
  have "project_id_ok ''demo''" "boundary_token_ok (replicate 64 (CHR ''a''))" by code_simp+
  then show "publishable sample_marker_row" by (simp add: publishable_def sample_marker_row_def STREAM_PREFIX_def)
qed

lemma sample_published_reach: "mreach sample_published"
proof -
  let ?s0 = "no_markers (\<lambda>_. empty_stream)"
  have "mstep ?s0 (?s0\<lparr>ms_rows := ms_rows ?s0 @ [sample_marker_row]\<rparr>)"
    by (rule mstep.request [OF sample_requested(1)]) (simp add: fresh_row_def no_markers_def)
  then have r: "mreach (?s0\<lparr>ms_rows := [sample_marker_row]\<rparr>)"
    using mreach.step [OF mreach.start] by (fastforce simp: no_markers_def)
  have "mstep (?s0\<lparr>ms_rows := [sample_marker_row]\<rparr>) sample_published"
    unfolding sample_published_def
    by (rule mstep.attempt [where now = 9 and projects = None and calls = sample_marker_calls, OF _ _ _ _ prod.collapse [symmetric]])
      (simp_all add: due_def sample_marker_row_def sample_marker_calls_def)
  with r show ?thesis by (rule mreach.step)
qed

lemma sample_published_row:
  "ms_rows sample_published = [published_row (7, 0) sample_marker_row]"
proof -
  have m: "pending_boundary_marker sample_marker_row = Some (marker_for sample_marker_row 0)"
    using sample_requested by (simp add: pending_boundary_marker_def marker_for_def publishable_def requested_def
        BOUNDARY_MARKER_MAX_PUBLISH_ATTEMPTS_def)
  have "stream_id_parts (id_text (7, 0)) = Inr (7, 0)" by (simp add: id_text_parts)
  then show ?thesis
    using sample_requested
    by (simp add: sample_published_def publish_row_def m publish_one_boundary_marker_def publishable_def
        stream_key_for_project_def marker_for_def sample_marker_calls_def run_script_def boundary_marker_lua_def
        no_markers_def empty_stream_def MARKER_STREAM_MAX_ENTRIES_def record_marker_def store_marker_def update_rows_def
        observed_unique_def marks_def marker_key_def pending_key_def requested_def published_row_def Let_def count_state_def)
qed

theorem marker_row_lifecycle_witness:
  "\<exists>q \<in> set (ms_rows (sample_published\<lparr>ms_streams := (\<lambda>_. empty_stream)\<rparr>)). q = published_row (7, 0) sample_marker_row"
proof -
  have s: "mstep\<^sup>*\<^sup>* sample_published (sample_published\<lparr>ms_streams := (\<lambda>_. empty_stream)\<rparr>)"
    by (rule r_into_rtranclp, rule mstep.streams)
  have r: "published_row (7, 0) sample_marker_row \<in> set (ms_rows sample_published)" by (simp add: sample_published_row)
  from marker_row_lifecycle [OF sample_published_reach r] s show ?thesis by (auto simp: published_row_def)
qed

theorem marker_added_once_witness:
  "\<exists>i. mr_stream_id (published_row (7, 0) sample_marker_row) = Some i
     \<and> (''events:raw:demo'', i, replicate 64 (CHR ''a'')) \<in> set (ms_added sample_published)"
  using marker_added_once [OF sample_published_reach]
  by (simp add: sample_published_row published_row_def sample_marker_row_def)

theorem published_marker_verifies_witness:
  "verify_boundary_deliveries \<lparr>wc_buffer_size = 10, wc_dlq_maxlen = 10, wc_authority = True\<rparr> ''events:raw:demo'' [(7, 0)]
     (CallOk, CallOk)
     ((initial_writer 0)\<lparr>wr_tokens := [((''events:raw:demo'', (7, 0)), replicate 64 (CHR ''a''))]\<rparr>,
      \<lparr>pi_streams = (\<lambda>_. empty_stream), pi_dlq = (\<lambda>_. []), pi_rows = [], pi_watermarks = (\<lambda>_. None),
       pi_boundaries = map boundary_of (ms_rows sample_published)\<rparr>)
   = (True, \<lparr>pi_streams = (\<lambda>_. empty_stream), pi_dlq = (\<lambda>_. []), pi_rows = [], pi_watermarks = (\<lambda>_. None),
       pi_boundaries = map boundary_of (ms_rows sample_published)\<rparr>)"
proof -
  let ?r = "published_row (7, 0) sample_marker_row"
  have r: "?r \<in> set (ms_rows sample_published)" by (simp add: sample_published_row)
  have p: "project_id_from_stream (mr_stream_key ?r) = Inr (mr_project ?r)"
    using sample_requested(2)
    by (simp add: project_stream_inverse stream_key_for_project_def publishable_def published_row_def)
  show ?thesis
    using published_marker_verifies [OF sample_published_reach r _ _ _ _ p, where i = "(7, 0)"]
    by (simp add: published_row_def sample_marker_row_def)
qed


end
