(* ===== verification/WriterRun.thy ===== *)
theory WriterRun
  imports WriterFlush
begin

text \<open>
  The writer at run time. The tasks of the process interleave at every wait for a store: a task
  that reads streams and takes messages one at a time, and the flush, which one lock keeps to one
  run at a time. A step is a read or a claim, the handling of one message, the finalization of
  one stream, the insertion of one batch, an initialization, or one call of a trim, with any
  outcome of the calls it makes; the calls within one step are taken together, and a step in
  which a call fails or loses its reply, followed by \<open>crash\<close>, is a process killed in between.
  Producers add entries, the boundary table changes and the process is killed at any point.
  \<open>rn_published\<close> is the history of all entries ever added.
\<close>

datatype ack_stage = AtStart | AtEnd bool | AckOnly

datatype phase =
    Idle
  | Acking "(string \<times> stream_id list) list" "((string \<times> stream_id list) \<times> bool) list" ack_stage
  | Inserting bool "buffered_event list"

record run =
  rn_writer :: writer
  rn_pipe :: pipe
  rn_inbox :: "(string \<times> stream_id \<times> fields) list"
  rn_phase :: phase
  rn_trim :: "(string \<times> stream_id) option"
  rn_published :: "(string \<times> stream_id \<times> fields) set"

text \<open>\<open>_flush\<close> takes the lock: it acknowledges first when something is waiting.\<close>

definition copy_buffer :: "bool \<Rightarrow> writer \<Rightarrow> writer \<times> phase" where
  "copy_buffer ack_succeeded wr =
     (if wr_buffer wr = [] then (if ack_succeeded then reset_flush_retry wr else wr, Idle)
      else (wr, Inserting ack_succeeded (wr_buffer wr)))"

definition start_flush :: "writer \<Rightarrow> writer \<times> phase" where
  "start_flush wr =
     (if wr_pending_ack wr \<noteq> [] then (wr, Acking (wr_pending_ack wr) [] AtStart) else copy_buffer True wr)"

definition after_acks :: "ack_stage \<Rightarrow> ((string \<times> stream_id list) \<times> bool) list \<Rightarrow> writer \<Rightarrow> writer \<times> phase" where
  "after_acks stage results wr =
     (let wr1 = settle_streams results wr; ok = acks_complete results wr1
      in case stage of
           AtStart \<Rightarrow> copy_buffer ok wr1
         | AtEnd transient \<Rightarrow> (if \<not> transient \<and> ok then reset_flush_retry wr1 else wr1, Idle)
         | AckOnly \<Rightarrow> (wr1, Idle))"

definition finish_insert :: "rat \<Rightarrow> bool \<Rightarrow> buffered_event list \<Rightarrow> insert_outcome \<Rightarrow> writer \<Rightarrow> writer \<times> phase" where
  "finish_insert now ack_succeeded batch out wr =
     (let wr1 = after_insert now batch out wr
      in if ack_succeeded \<and> wr_pending_ack wr1 \<noteq> [] then (wr1, Acking (wr_pending_ack wr1) [] (AtEnd (io_transient out)))
         else (if \<not> io_transient out \<and> ack_succeeded then reset_flush_retry wr1 else wr1, Idle))"

definition set_stream :: "string \<Rightarrow> redis_stream \<Rightarrow> pipe \<Rightarrow> pipe" where
  "set_stream key r px = px\<lparr>pi_streams := (pi_streams px)(key := r)\<rparr>"

definition to_inbox :: "string \<Rightarrow> (stream_id \<times> fields) list \<Rightarrow> (string \<times> stream_id \<times> fields) list" where
  "to_inbox key messages = map (Pair key) messages"

definition valid_key :: "string \<Rightarrow> bool" where
  "valid_key key \<longleftrightarrow> (\<exists>p. project_id_from_stream key = Inr p)"

inductive wstep :: "writer_config \<Rightarrow> (string \<Rightarrow> json_source) \<Rightarrow> run \<Rightarrow> run \<Rightarrow> bool"
  for cfg :: writer_config and loads :: "string \<Rightarrow> json_source" where
  publish: "wstep cfg loads s (s\<lparr>rn_pipe := set_stream key (xadd i data (pi_streams (rn_pipe s) key)) (rn_pipe s),
      rn_published := insert (key, i, data) (rn_published s)\<rparr>)"
  if "valid_key key" and "id_less (rs_last_generated (pi_streams (rn_pipe s) key)) i" and "snd i < 2 ^ 64"
| read_new: "wstep cfg loads s (s\<lparr>rn_pipe := set_stream key stream (rn_pipe s), rn_inbox := to_inbox key messages\<rparr>)"
  if "rn_inbox s = []" and "valid_key key" and "\<not> stream_is_backpressured (rn_writer s) key"
    and "xreadgroup (remaining_capacity cfg (rn_writer s)) (pi_streams (rn_pipe s) key) = (messages, stream)"
| claim: "wstep cfg loads s (s\<lparr>rn_writer := wr, rn_pipe := px,
      rn_inbox := to_inbox key (case messages of Some ms \<Rightarrow> ms | None \<Rightarrow> [])\<rparr>)"
  if "rn_inbox s = []" and "valid_key key" and "\<not> stream_is_backpressured (rn_writer s) key"
    and "claim_pending cfg key stale outcome (rn_writer s, rn_pipe s) = (messages, wr, px)"
| accept: "wstep cfg loads s (s\<lparr>rn_writer := wr, rn_pipe := px, rn_inbox := rest\<rparr>)"
  if "rn_inbox s = (key, message) # rest"
    and "accept_message cfg loads key message calls (rn_writer s, rn_pipe s) = (NextMessage, wr, px)"
| leave: "wstep cfg loads s (s\<lparr>rn_inbox := []\<rparr>)"
  if "rn_inbox s = (key, message) # rest"
    and "accept_message cfg loads key message calls (rn_writer s, rn_pipe s) = (LeavePending, wr, px)"
| flush: "wstep cfg loads s (s\<lparr>rn_writer := wr, rn_phase := ph\<rparr>)"
  if "rn_phase s = Idle" and "start_flush (rn_writer s) = (wr, ph)"
| ack_only: "wstep cfg loads s (s\<lparr>rn_phase := Acking (wr_pending_ack (rn_writer s)) [] AckOnly\<rparr>)"
  if "rn_phase s = Idle" and "wr_pending_ack (rn_writer s) \<noteq> []"
| finalize: "wstep cfg loads s (s\<lparr>rn_writer := wr, rn_pipe := px,
      rn_phase := Acking (before @ after) (results @ [((key, ids), ok)]) stage\<rparr>)"
  if "rn_phase s = Acking (before @ (key, ids) # after) results stage"
    and "finalize_durable_stream cfg key ids calls (rn_writer s, rn_pipe s) = (ok, wr, px)"
| settle: "wstep cfg loads s (s\<lparr>rn_writer := wr, rn_phase := ph\<rparr>)"
  if "rn_phase s = Acking [] results stage" and "after_acks stage results (rn_writer s) = (wr, ph)"
| insert: "wstep cfg loads s (s\<lparr>rn_writer := wr, rn_pipe := px, rn_phase := ph\<rparr>)"
  if "rn_phase s = Inserting ok batch"
    and "insert_or_isolate cfg ins dl 0 batch (rn_writer s, rn_pipe s) = (out, wr1, px)"
    and "finish_insert now ok batch out wr1 = (wr, ph)"
| initialize: "wstep cfg loads s (s\<lparr>rn_pipe := px\<rparr>)"
  if "valid_key key"
    and "initialize_pipeline_authority cfg key False (rs_last_delivered (pi_streams (rn_pipe s) key))
           (rs_entries_read (pi_streams (rn_pipe s) key)) max_deleted calls (rn_pipe s) = (ok, px)"
| observe_history: "wstep cfg loads s (s\<lparr>rn_trim := Some (key, bound)\<rparr>)"
  if "valid_key key" and "trim_boundary (pi_streams (rn_pipe s) key) = Some bound"
| trim: "wstep cfg loads s (s\<lparr>rn_pipe := set_stream key (xtrim_minid bound (pi_streams (rn_pipe s) key)) (rn_pipe s),
      rn_trim := None\<rparr>)"
  if "rn_trim s = Some (key, bound)"
| boundaries: "wstep cfg loads s (s\<lparr>rn_pipe := (rn_pipe s)\<lparr>pi_boundaries := bs\<rparr>\<rparr>)"
| crash: "wstep cfg loads s (s\<lparr>rn_writer := initial_writer now, rn_inbox := [], rn_phase := Idle, rn_trim := None\<rparr>)"

definition initial_pipe :: pipe where
  "initial_pipe = \<lparr>pi_streams = (\<lambda>_. empty_stream), pi_dlq = (\<lambda>_. []), pi_rows = [], pi_watermarks = (\<lambda>_. None),
     pi_boundaries = []\<rparr>"

definition initial_run :: "rat \<Rightarrow> run" where
  "initial_run now = \<lparr>rn_writer = initial_writer now, rn_pipe = initial_pipe, rn_inbox = [], rn_phase = Idle,
     rn_trim = None, rn_published = {}\<rparr>"

inductive reachable :: "writer_config \<Rightarrow> (string \<Rightarrow> json_source) \<Rightarrow> run \<Rightarrow> bool"
  for cfg :: writer_config and loads :: "string \<Rightarrow> json_source" where
  start: "reachable cfg loads (initial_run now)"
| step: "reachable cfg loads s \<Longrightarrow> wstep cfg loads s t \<Longrightarrow> reachable cfg loads t"

end
