(* ===== verification/WriterLaws.thy ===== *)
theory WriterLaws
  imports WriterRun "HOL-Library.Product_Lexorder" "HOL-Library.Multiset"
begin

text \<open>
  What the writer guarantees in every interleaving, with any calls failing and any number of
  crashes: an entry leaves its stream only when it is durable, and a healthy watermark is a claim
  of completeness that holds.
\<close>

section \<open>Vocabulary\<close>

text \<open>
  An entry is complete when it is a boundary marker or its row is in ClickHouse, and rejected
  when the dead-letter stream got its record. A rejection counts as settled only once the
  completeness authority of the project is degraded.
\<close>

definition is_complete :: "(string \<Rightarrow> json_source) \<Rightarrow> pipe \<Rightarrow> string \<Rightarrow> stream_id \<Rightarrow> fields \<Rightarrow> bool" where
  "is_complete loads px k i f \<longleftrightarrow> (\<exists>p token row. project_id_from_stream k = Inr p
     \<and> read_message loads p k i f = Inr (token, row) \<and> (case row of None \<Rightarrow> True | Some r \<Rightarrow> r \<in> set (pi_rows px)))"

definition rejected :: "pipe \<Rightarrow> string \<Rightarrow> stream_id \<Rightarrow> bool" where
  "rejected px k i \<longleftrightarrow> (\<exists>dlq. \<exists>e \<in> set (pi_dlq px dlq). dl_source_stream e = k \<and> dl_source_id e = i)"

definition degraded :: "pipe \<Rightarrow> string \<Rightarrow> bool" where
  "degraded px p \<longleftrightarrow> (\<exists>w. pi_watermarks px p = Some w \<and> wm_status w = ''degraded'')"

definition settled :: "writer_config \<Rightarrow> (string \<Rightarrow> json_source) \<Rightarrow> pipe \<Rightarrow> string \<Rightarrow> stream_id \<Rightarrow> fields \<Rightarrow> bool" where
  "settled cfg loads px k i f \<longleftrightarrow> is_complete loads px k i f
     \<or> (rejected px k i \<and> (wc_authority cfg \<longrightarrow> (\<exists>p. project_id_from_stream k = Inr p \<and> degraded px p)))"

definition entry_ids :: "redis_stream \<Rightarrow> stream_id list" where
  "entry_ids r = map fst (rs_entries r)"

definition stream_ok :: "redis_stream \<Rightarrow> bool" where
  "stream_ok r \<longleftrightarrow> sorted_wrt (<) (entry_ids r) \<and> (\<forall>i \<in> set (entry_ids r). i \<le> rs_last_generated r)
     \<and> rs_last_delivered r \<le> rs_last_generated r \<and> distinct (rs_pending r)
     \<and> (\<forall>i. i \<in> set (rs_pending r) \<longleftrightarrow> i \<in> set (entry_ids r) \<and> i \<le> rs_last_delivered r)"

definition published_ok :: "run \<Rightarrow> bool" where
  "published_ok s \<longleftrightarrow>
     (\<forall>k i f. (k, i, f) \<in> rn_published s \<longrightarrow>
        valid_key k \<and> (0, 0) < i \<and> i \<le> rs_last_generated (pi_streams (rn_pipe s) k) \<and> snd i < 2 ^ 64
        \<and> (\<forall>g. (k, i, g) \<in> rn_published s \<longrightarrow> g = f))
     \<and> (\<forall>k i f. (i, f) \<in> set (rs_entries (pi_streams (rn_pipe s) k)) \<longrightarrow> (k, i, f) \<in> rn_published s)"

definition settled_ok :: "writer_config \<Rightarrow> (string \<Rightarrow> json_source) \<Rightarrow> run \<Rightarrow> bool" where
  "settled_ok cfg loads s \<longleftrightarrow> (\<forall>k i f. (k, i, f) \<in> rn_published s \<longrightarrow>
     i \<in> set (entry_ids (pi_streams (rn_pipe s) k)) \<or> settled cfg loads (rn_pipe s) k i f)"

definition watermark_ok :: "(string \<Rightarrow> json_source) \<Rightarrow> run \<Rightarrow> string \<Rightarrow> watermark \<Rightarrow> bool" where
  "watermark_ok loads s p w \<longleftrightarrow>
     project_id_from_stream (wm_stream_key w) = Inr p \<and> wm_status w \<in> {''healthy'', ''degraded''}
     \<and> (wm_status w = ''healthy'' \<longrightarrow>
          wm_contiguous w \<le> rs_last_delivered (pi_streams (rn_pipe s) (wm_stream_key w))
          \<and> (\<forall>i f. (wm_stream_key w, i, f) \<in> rn_published s \<longrightarrow> i \<le> wm_contiguous w \<longrightarrow>
               i \<notin> set (entry_ids (pi_streams (rn_pipe s) (wm_stream_key w)))
               \<and> is_complete loads (rn_pipe s) (wm_stream_key w) i f))"

definition delivered :: "run \<Rightarrow> string \<Rightarrow> stream_id \<Rightarrow> fields \<Rightarrow> bool" where
  "delivered s k i f \<longleftrightarrow> (k, i, f) \<in> rn_published s \<and> i \<le> rs_last_delivered (pi_streams (rn_pipe s) k)"

definition buffered_ok :: "(string \<Rightarrow> json_source) \<Rightarrow> run \<Rightarrow> buffered_event \<Rightarrow> bool" where
  "buffered_ok loads s ev \<longleftrightarrow> (\<exists>f p. delivered s (be_stream ev) (be_id ev) f
     \<and> project_id_from_stream (be_stream ev) = Inr p
     \<and> read_message loads p (be_stream ev) (be_id ev) f = Inr (be_token ev, be_row ev))"

definition ack_ok :: "writer_config \<Rightarrow> (string \<Rightarrow> json_source) \<Rightarrow> run \<Rightarrow> string \<Rightarrow> stream_id \<Rightarrow> bool" where
  "ack_ok cfg loads s k i \<longleftrightarrow> (\<exists>f. delivered s k i f \<and> settled cfg loads (rn_pipe s) k i f)"

definition snapshots_ok :: "writer_config \<Rightarrow> (string \<Rightarrow> json_source) \<Rightarrow> run \<Rightarrow> (string \<times> stream_id list) list \<Rightarrow> bool" where
  "snapshots_ok cfg loads s snaps \<longleftrightarrow> (\<forall>(k, ids) \<in> set snaps. \<forall>i \<in> set ids. ack_ok cfg loads s k i)"

definition phase_ok :: "writer_config \<Rightarrow> (string \<Rightarrow> json_source) \<Rightarrow> run \<Rightarrow> bool" where
  "phase_ok cfg loads s = (case rn_phase s of
     Idle \<Rightarrow> True
   | Acking todo results stage \<Rightarrow> snapshots_ok cfg loads s (todo @ map fst results)
   | Inserting ok batch \<Rightarrow> prefix batch (wr_buffer (rn_writer s)))"

definition trim_ok :: "run \<Rightarrow> bool" where
  "trim_ok s = (case rn_trim s of
     None \<Rightarrow> True
   | Some (k, b) \<Rightarrow> (\<forall>i \<in> set (entry_ids (pi_streams (rn_pipe s) k)). b \<le> i)
       \<and> (\<forall>i. rs_last_generated (pi_streams (rn_pipe s) k) < i \<longrightarrow> snd i < 2 ^ 64 \<longrightarrow> b \<le> i))"

definition run_inv :: "writer_config \<Rightarrow> (string \<Rightarrow> json_source) \<Rightarrow> run \<Rightarrow> bool" where
  "run_inv cfg loads s \<longleftrightarrow>
     (\<forall>k. stream_ok (pi_streams (rn_pipe s) k)) \<and> published_ok s \<and> settled_ok cfg loads s
     \<and> (\<forall>p w. pi_watermarks (rn_pipe s) p = Some w \<longrightarrow> watermark_ok loads s p w)
     \<and> (\<forall>ev \<in> set (wr_buffer (rn_writer s)). buffered_ok loads s ev)
     \<and> snapshots_ok cfg loads s (wr_pending_ack (rn_writer s))
     \<and> (\<forall>(k, i, f) \<in> set (rn_inbox s). delivered s k i f)
     \<and> phase_ok cfg loads s \<and> trim_ok s"

declare split_paired_All [simp del] split_paired_Ex [simp del] split_paired_all [simp del]

section \<open>Orders and growth\<close>

lemma id_less_iff [simp]: "id_less i j \<longleftrightarrow> i < j"
  by (cases i; cases j) (auto simp: id_less_def less_prod_def less_le)

lemma id_le_iff [simp]: "id_le i j \<longleftrightarrow> i \<le> j"
  by (auto simp: id_le_def)

text \<open>What no operation of the writer ever undoes.\<close>

definition extends :: "run \<Rightarrow> run \<Rightarrow> bool" where
  "extends s t \<longleftrightarrow> set (pi_rows (rn_pipe s)) \<subseteq> set (pi_rows (rn_pipe t))
     \<and> (\<forall>d. set (pi_dlq (rn_pipe s) d) \<subseteq> set (pi_dlq (rn_pipe t) d))
     \<and> (\<forall>p. degraded (rn_pipe s) p \<longrightarrow> degraded (rn_pipe t) p)
     \<and> rn_published s \<subseteq> rn_published t
     \<and> (\<forall>k. rs_last_delivered (pi_streams (rn_pipe s) k) \<le> rs_last_delivered (pi_streams (rn_pipe t) k))"

lemma is_complete_mono:
  "is_complete loads px k i f \<Longrightarrow> set (pi_rows px) \<subseteq> set (pi_rows qx) \<Longrightarrow> is_complete loads qx k i f"
  unfolding is_complete_def by (fastforce split: option.splits)

lemma settled_mono:
  assumes "settled cfg loads (rn_pipe s) k i f" and "extends s t"
  shows "settled cfg loads (rn_pipe t) k i f"
proof (cases "is_complete loads (rn_pipe s) k i f")
  case True
  with assms(2) show ?thesis using is_complete_mono by (auto simp: settled_def extends_def)
next
  case False
  with assms(1) have r: "rejected (rn_pipe s) k i"
    and d: "wc_authority cfg \<longrightarrow> (\<exists>p. project_id_from_stream k = Inr p \<and> degraded (rn_pipe s) p)"
    by (auto simp: settled_def)
  from r assms(2) have "rejected (rn_pipe t) k i" by (fastforce simp: rejected_def extends_def)
  with d assms(2) show ?thesis by (auto simp: settled_def extends_def)
qed

lemma delivered_mono: "delivered s k i f \<Longrightarrow> extends s t \<Longrightarrow> delivered t k i f"
  by (meson delivered_def extends_def order_trans subsetD)

lemma buffered_mono: "buffered_ok loads s ev \<Longrightarrow> extends s t \<Longrightarrow> buffered_ok loads t ev"
  unfolding buffered_ok_def using delivered_mono by blast

lemma ack_mono: "ack_ok cfg loads s k i \<Longrightarrow> extends s t \<Longrightarrow> ack_ok cfg loads t k i"
  unfolding ack_ok_def using delivered_mono settled_mono by blast

lemma snapshots_mono: "snapshots_ok cfg loads s snaps \<Longrightarrow> extends s t \<Longrightarrow> snapshots_ok cfg loads t snaps"
  unfolding snapshots_ok_def using ack_mono by fast

lemma extends_refl [simp]: "extends s s"
  by (simp add: extends_def)

lemma extends_trans: "extends s t \<Longrightarrow> extends t u \<Longrightarrow> extends s u"
  unfolding extends_def by (meson order_trans subset_trans)


text \<open>What depends on neither the writer nor the inbox nor the phase.\<close>

lemma writer_local [simp]:
  "delivered (s\<lparr>rn_writer := wr\<rparr>) = delivered s"
  "buffered_ok loads (s\<lparr>rn_writer := wr\<rparr>) = buffered_ok loads s"
  "ack_ok cfg loads (s\<lparr>rn_writer := wr\<rparr>) = ack_ok cfg loads s"
  "snapshots_ok cfg loads (s\<lparr>rn_writer := wr\<rparr>) = snapshots_ok cfg loads s"
  "published_ok (s\<lparr>rn_writer := wr\<rparr>) = published_ok s"
  "settled_ok cfg loads (s\<lparr>rn_writer := wr\<rparr>) = settled_ok cfg loads s"
  "watermark_ok loads (s\<lparr>rn_writer := wr\<rparr>) = watermark_ok loads s"
  "trim_ok (s\<lparr>rn_writer := wr\<rparr>) = trim_ok s"
  by (simp_all add: fun_eq_iff delivered_def buffered_ok_def ack_ok_def snapshots_ok_def published_ok_def
      settled_ok_def watermark_ok_def trim_ok_def split: option.splits)

lemma phase_local [simp]:
  "delivered (s\<lparr>rn_phase := ph\<rparr>) = delivered s"
  "buffered_ok loads (s\<lparr>rn_phase := ph\<rparr>) = buffered_ok loads s"
  "ack_ok cfg loads (s\<lparr>rn_phase := ph\<rparr>) = ack_ok cfg loads s"
  "snapshots_ok cfg loads (s\<lparr>rn_phase := ph\<rparr>) = snapshots_ok cfg loads s"
  "published_ok (s\<lparr>rn_phase := ph\<rparr>) = published_ok s"
  "settled_ok cfg loads (s\<lparr>rn_phase := ph\<rparr>) = settled_ok cfg loads s"
  "watermark_ok loads (s\<lparr>rn_phase := ph\<rparr>) = watermark_ok loads s"
  "trim_ok (s\<lparr>rn_phase := ph\<rparr>) = trim_ok s"
  by (simp_all add: fun_eq_iff delivered_def buffered_ok_def ack_ok_def snapshots_ok_def published_ok_def
      settled_ok_def watermark_ok_def trim_ok_def split: option.splits)

lemma inbox_local [simp]:
  "delivered (s\<lparr>rn_inbox := ms\<rparr>) = delivered s"
  "buffered_ok loads (s\<lparr>rn_inbox := ms\<rparr>) = buffered_ok loads s"
  "ack_ok cfg loads (s\<lparr>rn_inbox := ms\<rparr>) = ack_ok cfg loads s"
  "snapshots_ok cfg loads (s\<lparr>rn_inbox := ms\<rparr>) = snapshots_ok cfg loads s"
  "published_ok (s\<lparr>rn_inbox := ms\<rparr>) = published_ok s"
  "settled_ok cfg loads (s\<lparr>rn_inbox := ms\<rparr>) = settled_ok cfg loads s"
  "watermark_ok loads (s\<lparr>rn_inbox := ms\<rparr>) = watermark_ok loads s"
  "trim_ok (s\<lparr>rn_inbox := ms\<rparr>) = trim_ok s"
  "phase_ok cfg loads (s\<lparr>rn_inbox := ms\<rparr>) = phase_ok cfg loads s"
  by (simp_all add: fun_eq_iff delivered_def buffered_ok_def ack_ok_def snapshots_ok_def published_ok_def
      settled_ok_def watermark_ok_def trim_ok_def phase_ok_def split: option.splits phase.splits)

section \<open>Operations that leave the streams alone\<close>

definition side_effect :: "pipe \<Rightarrow> pipe \<Rightarrow> bool" where
  "side_effect px qx \<longleftrightarrow> pi_streams qx = pi_streams px \<and> set (pi_rows px) \<subseteq> set (pi_rows qx)
     \<and> (\<forall>d. set (pi_dlq px d) \<subseteq> set (pi_dlq qx d))
     \<and> (\<forall>p. pi_watermarks qx p = pi_watermarks px p
          \<or> (\<exists>w. pi_watermarks qx p = Some w \<and> wm_status w = ''degraded''
               \<and> project_id_from_stream (wm_stream_key w) = Inr p))"

lemma side_effect_refl [simp]: "side_effect px px"
  by (simp add: side_effect_def)

lemma side_effect_trans:
  assumes "side_effect px qx" and "side_effect qx ux"
  shows "side_effect px ux"
  unfolding side_effect_def
proof (intro conjI allI)
  fix p
  from assms have "pi_watermarks ux p = pi_watermarks qx p \<or> (\<exists>w. pi_watermarks ux p = Some w
      \<and> wm_status w = ''degraded'' \<and> project_id_from_stream (wm_stream_key w) = Inr p)"
    "pi_watermarks qx p = pi_watermarks px p \<or> (\<exists>w. pi_watermarks qx p = Some w
      \<and> wm_status w = ''degraded'' \<and> project_id_from_stream (wm_stream_key w) = Inr p)"
    unfolding side_effect_def by blast+
  then show "pi_watermarks ux p = pi_watermarks px p \<or> (\<exists>w. pi_watermarks ux p = Some w
      \<and> wm_status w = ''degraded'' \<and> project_id_from_stream (wm_stream_key w) = Inr p)" by metis
next
  show "set (pi_dlq px d) \<subseteq> set (pi_dlq ux d)" for d using assms unfolding side_effect_def by blast
qed (use assms in \<open>auto simp: side_effect_def\<close>)

lemma side_effect_extends: "side_effect (rn_pipe s) qx \<Longrightarrow> extends s (s\<lparr>rn_pipe := qx\<rparr>)"
proof -
  assume e: "side_effect (rn_pipe s) qx"
  have "degraded qx p" if "degraded (rn_pipe s) p" for p
  proof -
    from e have "pi_watermarks qx p = pi_watermarks (rn_pipe s) p
        \<or> (\<exists>w. pi_watermarks qx p = Some w \<and> wm_status w = ''degraded'')" unfolding side_effect_def by blast
    with that show ?thesis unfolding degraded_def by auto
  qed
  with e show ?thesis by (simp add: extends_def side_effect_def)
qed

lemma watermark_side_effect:
  assumes "\<forall>p w. pi_watermarks (rn_pipe s) p = Some w \<longrightarrow> watermark_ok loads s p w"
    and "side_effect (rn_pipe s) qx" and "pi_watermarks qx p = Some w"
  shows "watermark_ok loads (s\<lparr>rn_pipe := qx\<rparr>) p w"
proof (cases "pi_watermarks qx p = pi_watermarks (rn_pipe s) p")
  case True
  with assms have old: "watermark_ok loads s p w" by simp
  have "is_complete loads qx k i f" if "is_complete loads (rn_pipe s) k i f" for k i f
    using is_complete_mono [OF that] assms(2) by (simp add: side_effect_def)
  with old assms(2) show ?thesis by (auto simp: watermark_ok_def side_effect_def)
next
  case False
  with assms(2,3) have "wm_status w = ''degraded''" "project_id_from_stream (wm_stream_key w) = Inr p"
    unfolding side_effect_def by (metis option.inject)+
  then show ?thesis by (simp add: watermark_ok_def)
qed

lemma side_effect_inv:
  assumes inv: "run_inv cfg loads s" and e: "side_effect (rn_pipe s) qx"
  shows "run_inv cfg loads (s\<lparr>rn_pipe := qx\<rparr>)"
proof -
  note x = side_effect_extends [OF e]
  have streams: "pi_streams qx = pi_streams (rn_pipe s)" using e by (simp add: side_effect_def)
  have "settled_ok cfg loads (s\<lparr>rn_pipe := qx\<rparr>)"
    unfolding settled_ok_def using inv settled_mono [OF _ x]
    by (simp add: run_inv_def settled_ok_def streams) blast
  moreover have "\<forall>p w. pi_watermarks qx p = Some w \<longrightarrow> watermark_ok loads (s\<lparr>rn_pipe := qx\<rparr>) p w"
    using watermark_side_effect [OF _ e] inv by (auto simp: run_inv_def)
  moreover have "phase_ok cfg loads (s\<lparr>rn_pipe := qx\<rparr>)"
    using inv snapshots_mono [OF _ x] by (auto simp: run_inv_def phase_ok_def split: phase.splits)
  moreover have "\<forall>ev \<in> set (wr_buffer (rn_writer s)). buffered_ok loads (s\<lparr>rn_pipe := qx\<rparr>) ev"
    using inv buffered_mono [OF _ x] by (auto simp: run_inv_def)
  moreover have "snapshots_ok cfg loads (s\<lparr>rn_pipe := qx\<rparr>) (wr_pending_ack (rn_writer s))"
    using inv snapshots_mono [OF _ x] by (auto simp: run_inv_def)
  moreover have "\<forall>(k, i, f) \<in> set (rn_inbox s). delivered (s\<lparr>rn_pipe := qx\<rparr>) k i f"
    using inv delivered_mono [OF _ x] by (auto simp: run_inv_def)
  ultimately show ?thesis
    using inv by (simp add: run_inv_def published_ok_def trim_ok_def streams split: option.splits)
qed

text \<open>A writer whose buffer and queue are accounted for, in a phase that fits.\<close>

lemma writer_inv:
  assumes "run_inv cfg loads s" and "\<forall>ev \<in> set (wr_buffer wr). buffered_ok loads s ev"
    and "snapshots_ok cfg loads s (wr_pending_ack wr)"
    and "phase_ok cfg loads (s\<lparr>rn_writer := wr, rn_phase := ph\<rparr>)"
  shows "run_inv cfg loads (s\<lparr>rn_writer := wr, rn_phase := ph\<rparr>)"
  using assms by (simp add: run_inv_def)

lemma inbox_inv:
  "run_inv cfg loads s \<Longrightarrow> \<forall>(k, i, f) \<in> set ms. delivered s k i f \<Longrightarrow> run_inv cfg loads (s\<lparr>rn_inbox := ms\<rparr>)"
  by (simp add: run_inv_def)

lemma snapshots_append [simp]:
  "snapshots_ok cfg loads s (a @ b) \<longleftrightarrow> snapshots_ok cfg loads s a \<and> snapshots_ok cfg loads s b"
  by (auto simp: snapshots_ok_def)

lemma snapshots_Nil [simp]: "snapshots_ok cfg loads s []"
  by (simp add: snapshots_ok_def)

lemma snapshots_Cons [simp]:
  "snapshots_ok cfg loads s ((k, ids) # rest) \<longleftrightarrow>
     (\<forall>i \<in> set ids. ack_ok cfg loads s k i) \<and> snapshots_ok cfg loads s rest"
  by (auto simp: snapshots_ok_def)


section \<open>The operations\<close>

lemma degrade_side_effect:
  assumes "degrade_pipeline_authority cfg key reason outcome px = (ok, qx)"
  shows "side_effect px qx"
proof (cases "wc_authority cfg \<and> (\<exists>p. project_id_from_stream key = Inr p) \<and> outcome \<noteq> CallFails")
  case True
  then obtain p where p: "project_id_from_stream key = Inr p" by blast
  define row where "row = degraded_row key reason (pi_watermarks px p)"
  from True p assms have qx: "qx = px\<lparr>pi_watermarks := (pi_watermarks px)(p := row)\<rparr>"
    by (cases outcome) (auto simp: degrade_pipeline_authority_def Let_def row_def split: option.splits)
  have "row = pi_watermarks px p
      \<or> (\<exists>w. row = Some w \<and> wm_status w = ''degraded'' \<and> project_id_from_stream (wm_stream_key w) = Inr p)"
    using p by (auto simp: row_def degraded_row_def split: option.splits)
  then show ?thesis unfolding qx by (simp add: side_effect_def)
next
  case False
  then have "qx = px"
    using assms by (auto simp: degrade_pipeline_authority_def Let_def split: sum.splits call.splits if_splits)
  then show ?thesis by simp
qed

lemma degrade_done:
  assumes "degrade_pipeline_authority cfg key reason outcome px = (True, qx)" and "wc_authority cfg"
  obtains p where "project_id_from_stream key = Inr p" and "degraded qx p"
  using assms by (auto simp: degrade_pipeline_authority_def degraded_def Let_def
      split: sum.splits call.splits option.splits)

lemma degrade_pipe [simp]:
  "pi_dlq (snd (degrade_pipeline_authority cfg key reason outcome px)) = pi_dlq px"
  by (auto simp: degrade_pipeline_authority_def Let_def split: sum.splits call.splits option.splits)

text \<open>What a writer still has to finish: its buffer and the deliveries it will acknowledge.\<close>

definition queued :: "writer \<Rightarrow> string \<Rightarrow> stream_id \<Rightarrow> bool" where
  "queued wr k i \<longleftrightarrow> (\<exists>ids. (k, ids) \<in> set (wr_pending_ack wr) \<and> i \<in> set ids)"

lemma snapshots_queued: "snapshots_ok cfg loads s (wr_pending_ack wr) \<longleftrightarrow> (\<forall>k i. queued wr k i \<longrightarrow> ack_ok cfg loads s k i)"
  unfolding snapshots_ok_def queued_def by blast

lemma dset_memD: "(k, v) \<in> set (dset d a b) \<Longrightarrow> (k, v) \<in> set d \<or> (k = a \<and> v = b)"
  by (induction d a b rule: dset.induct) (auto split: if_splits)

lemma queue_one_queued:
  assumes "queued (queue_one wr ev) k i"
  shows "queued wr k i \<or> (k = be_stream ev \<and> i = be_id ev)"
proof -
  let ?ids = "case map_of (wr_pending_ack wr) (be_stream ev) of None \<Rightarrow> [] | Some ids \<Rightarrow> ids"
  let ?new = "if be_id ev \<in> set ?ids then ?ids else ?ids @ [be_id ev]"
  have "wr_pending_ack (queue_one wr ev) = dset (wr_pending_ack wr) (be_stream ev) ?new"
    by (simp add: queue_one_def Let_def split: option.splits)
  with assms obtain ids where ids: "(k, ids) \<in> set (dset (wr_pending_ack wr) (be_stream ev) ?new)" "i \<in> set ids"
    unfolding queued_def by auto
  from dset_memD [OF ids(1)] show ?thesis
  proof
    assume "(k, ids) \<in> set (wr_pending_ack wr)"
    with ids(2) show ?thesis unfolding queued_def by blast
  next
    assume a: "k = be_stream ev \<and> ids = ?new"
    then have "i \<in> set ?ids \<or> i = be_id ev" using ids(2) by (auto split: if_splits)
    then show ?thesis
      using a by (cases "map_of (wr_pending_ack wr) (be_stream ev)") (auto simp: queued_def dest: map_of_SomeD)
  qed
qed

lemma queue_durable_ack_queued:
  "queued (queue_durable_ack evs wr) k i \<Longrightarrow> queued wr k i \<or> (\<exists>ev \<in> set evs. k = be_stream ev \<and> i = be_id ev)"
proof (induction evs arbitrary: wr)
  case (Cons ev evs)
  then have "queued (queue_durable_ack evs (queue_one wr ev)) k i" by (simp add: queue_durable_ack_def)
  from Cons.IH [OF this] queue_one_queued show ?case by fastforce
qed (simp add: queue_durable_ack_def)

lemma queue_one_fields [simp]:
  "wr_buffer (queue_one wr ev) = wr_buffer wr" "wr_finalized (queue_one wr ev) = wr_finalized wr"
  "wr_uncertain (queue_one wr ev) = wr_uncertain wr" "wr_stats (queue_one wr ev) = wr_stats wr"
  by (simp_all add: queue_one_def Let_def split: option.splits)

lemma queue_durable_ack_fields [simp]:
  "wr_buffer (queue_durable_ack evs wr) = wr_buffer wr" "wr_finalized (queue_durable_ack evs wr) = wr_finalized wr"
  "wr_uncertain (queue_durable_ack evs wr) = wr_uncertain wr" "wr_stats (queue_durable_ack evs wr) = wr_stats wr"
  by (induction evs arbitrary: wr) (simp_all add: queue_durable_ack_def)

lemma count_fields [simp]:
  "wr_buffer (count_error wr) = wr_buffer wr" "wr_pending_ack (count_error wr) = wr_pending_ack wr"
  "wr_buffer (count_rejected wr) = wr_buffer wr" "wr_pending_ack (count_rejected wr) = wr_pending_ack wr"
  "wr_buffer (count_dead_lettered wr) = wr_buffer wr" "wr_pending_ack (count_dead_lettered wr) = wr_pending_ack wr"
  by (simp_all add: count_error_def count_rejected_def count_dead_lettered_def)

lemma count_queued [simp]:
  "queued (count_error wr) = queued wr" "queued (count_rejected wr) = queued wr"
  "queued (count_dead_lettered wr) = queued wr"
  by (simp_all add: queued_def fun_eq_iff)


text \<open>
  The effect of a step of the writer on deliveries: what it newly queues for acknowledgement is
  rejected and, where there is an authority, the project is degraded.
\<close>

definition rejects_only :: "writer_config \<Rightarrow> wstate \<Rightarrow> wstate \<Rightarrow> (string \<times> stream_id) set \<Rightarrow> bool" where
  "rejects_only cfg s t ids \<longleftrightarrow> side_effect (snd s) (snd t) \<and> wr_buffer (fst t) = wr_buffer (fst s)
     \<and> (\<forall>k i. queued (fst t) k i \<longrightarrow> queued (fst s) k i \<or> ((k, i) \<in> ids \<and> rejected (snd t) k i
          \<and> (wc_authority cfg \<longrightarrow> (\<exists>p. project_id_from_stream k = Inr p \<and> degraded (snd t) p))))"

lemma rejects_only_refl: "side_effect px qx \<Longrightarrow> wr_buffer wr' = wr_buffer wr \<Longrightarrow> queued wr' = queued wr \<Longrightarrow>
    rejects_only cfg (wr, px) (wr', qx) ids"
  by (simp add: rejects_only_def)

lemma rejects_only_count: "rejects_only cfg (count_error wr, px) t ids = rejects_only cfg (wr, px) t ids"
  by (simp add: rejects_only_def)

lemma rejected_mono: "rejected px k i \<Longrightarrow> side_effect px qx \<Longrightarrow> rejected qx k i"
  unfolding rejected_def side_effect_def by blast

lemma degraded_mono: "degraded px p \<Longrightarrow> side_effect px qx \<Longrightarrow> degraded qx p"
  unfolding degraded_def side_effect_def by (metis option.inject)

lemma rejects_only_trans:
  assumes "rejects_only cfg s t a" and "rejects_only cfg t u b"
  shows "rejects_only cfg s u (a \<union> b)"
proof -
  have se: "side_effect (snd t) (snd u)" using assms(2) by (simp add: rejects_only_def)
  have "queued (fst s) k i \<or> ((k, i) \<in> a \<union> b \<and> rejected (snd u) k i
      \<and> (wc_authority cfg \<longrightarrow> (\<exists>p. project_id_from_stream k = Inr p \<and> degraded (snd u) p)))"
    if q: "queued (fst u) k i" for k i
  proof (cases "queued (fst t) k i")
    case True
    with assms(1) show ?thesis using rejected_mono [OF _ se] degraded_mono [OF _ se]
      unfolding rejects_only_def by blast
  next
    case False
    with q assms(2) show ?thesis unfolding rejects_only_def by blast
  qed
  moreover have "side_effect (snd s) (snd u)"
    using assms side_effect_trans by (auto simp: rejects_only_def)
  moreover have "wr_buffer (fst u) = wr_buffer (fst s)" using assms by (simp add: rejects_only_def)
  ultimately show ?thesis unfolding rejects_only_def by blast
qed

lemma rejects_only_subset: "rejects_only cfg s t a \<Longrightarrow> a \<subseteq> b \<Longrightarrow> rejects_only cfg s t b"
  unfolding rejects_only_def by blast

lemma dead_letter_rejects:
  assumes "dead_letter_delivery cfg key i p reason err calls (wr, px) = (ok, t)"
  shows "rejects_only cfg (wr, px) t {(key, i)}"
proof (cases "\<exists>dlq. dlq_stream_for_project p = Inr dlq \<and> fst calls \<noteq> CallFails")
  case False
  with assms have "t = (count_error (count_rejected wr), px)"
    by (auto simp: dead_letter_delivery_def Let_def split: sum.splits)
  then show ?thesis by (simp add: rejects_only_def)
next
  case True
  then obtain dlq where dlq: "dlq_stream_for_project p = Inr dlq" and c: "fst calls \<noteq> CallFails" by blast
  define entry where "entry = \<lparr>dl_source_stream = key, dl_source_id = i, dl_reason_code = reason,
    dl_error_type = error_type err\<rparr>"
  define qx where "qx = px\<lparr>pi_dlq := (pi_dlq px)(dlq := pi_dlq px dlq @ [entry])\<rparr>"
  have se: "side_effect px qx" by (simp add: qx_def side_effect_def subset_insertI)
  have rej: "rejected qx key i"
    unfolding rejected_def qx_def by (rule exI [of _ dlq], rule bexI [of _ entry]) (simp_all add: entry_def)
  obtain ok' ux where dg: "degrade_pipeline_authority cfg key ''dead_lettered_event'' (snd calls) qx = (ok', ux)"
    by fastforce
  note se2 = side_effect_trans [OF se degrade_side_effect [OF dg]]
  show ?thesis
  proof (cases "fst calls = CallOk \<and> ok'")
    case False
    with assms dlq c dg have "fst t = count_error (count_rejected wr) \<and> (snd t = qx \<or> snd t = ux)"
      by (cases "fst calls") (auto simp: dead_letter_delivery_def Let_def qx_def entry_def)
    then show ?thesis using se se2 by (auto simp: rejects_only_def)
  next
    case True
    let ?ev = "\<lparr>be_stream = key, be_id = i, be_row = None, be_token = None\<rparr> :: buffered_event"
    from True assms dlq dg have t: "t = (queue_durable_ack [?ev] (count_dead_lettered (count_rejected wr)), ux)"
      by (simp add: dead_letter_delivery_def Let_def qx_def entry_def)
    have "queued wr k j \<or> ((k, j) \<in> {(key, i)} \<and> rejected ux k j
        \<and> (wc_authority cfg \<longrightarrow> (\<exists>p. project_id_from_stream k = Inr p \<and> degraded ux p)))"
      if "queued (fst t) k j" for k j
    proof -
      from queue_durable_ack_queued [OF that [unfolded t fst_conv]] have "queued wr k j \<or> (k = key \<and> j = i)" by simp
      moreover have "rejected ux key i" using rejected_mono [OF rej degrade_side_effect [OF dg]] .
      moreover have "wc_authority cfg \<longrightarrow> (\<exists>p. project_id_from_stream key = Inr p \<and> degraded ux p)"
        using True dg by (auto elim: degrade_done)
      ultimately show ?thesis by blast
    qed
    then show ?thesis using se2 by (simp add: rejects_only_def t)
  qed
qed


section \<open>Inserting\<close>

lemma batch_rows_mem: "ev \<in> set batch \<Longrightarrow> be_row ev = Some r \<Longrightarrow> r \<in> set (batch_rows batch)"
  by (force simp: batch_rows_def List.map_filter_def)

lemma insert_side_effect: "side_effect px (px\<lparr>pi_rows := pi_rows px @ rows\<rparr>)"
  by (simp add: side_effect_def)

definition delivery_of :: "buffered_event \<Rightarrow> string \<times> stream_id" where
  "delivery_of ev = (be_stream ev, be_id ev)"

definition stored :: "pipe \<Rightarrow> buffered_event \<Rightarrow> bool" where
  "stored px ev = (case be_row ev of None \<Rightarrow> True | Some r \<Rightarrow> r \<in> set (pi_rows px))"

lemma stored_mono: "stored px ev \<Longrightarrow> side_effect px qx \<Longrightarrow> stored qx ev"
  by (auto simp: stored_def side_effect_def split: option.splits)

text \<open>
  The accounting of an insert: every event of the batch is durable, kept for a retry, or was
  dead-lettered because the driver could not serialize it on its own.
\<close>

definition accounted ::
    "(nat \<Rightarrow> nat \<Rightarrow> insert_result) \<Rightarrow> buffered_event list \<Rightarrow> insert_outcome \<Rightarrow> pipe \<Rightarrow> bool" where
  "accounted ins batch out px \<longleftrightarrow>
     (\<exists>dead. mset batch = mset (io_durable out) + mset (io_retry out) + mset dead
        \<and> (dead = [] \<or> (\<exists>i e. ins i 1 = Unserializable e)))
     \<and> subseq (io_durable out) batch \<and> subseq (io_retry out) batch
     \<and> (\<forall>ev \<in> set (io_durable out). stored px ev)
     \<and> (io_transient out \<longleftrightarrow> io_retry out \<noteq> [])"

lemma accounted_durable:
  "\<forall>ev \<in> set batch. stored px ev \<Longrightarrow>
     accounted ins batch \<lparr>io_durable = batch, io_retry = [], io_transient = False\<rparr> px"
  unfolding accounted_def by (simp add: exI [of _ "[]"])

lemma accounted_retry:
  "batch \<noteq> [] \<Longrightarrow> accounted ins batch \<lparr>io_durable = [], io_retry = batch, io_transient = True\<rparr> px"
  unfolding accounted_def by (simp add: exI [of _ "[]"])

lemma accounted_append:
  assumes "accounted ins a l px" and "accounted ins b r qx" and "side_effect px qx"
  shows "accounted ins (a @ b) \<lparr>io_durable = io_durable l @ io_durable r, io_retry = io_retry l @ io_retry r,
    io_transient = io_transient l \<or> io_transient r\<rparr> qx"
proof -
  from assms obtain d1 d2 where
    "mset a = mset (io_durable l) + mset (io_retry l) + mset d1" "d1 = [] \<or> (\<exists>i e. ins i 1 = Unserializable e)"
    "mset b = mset (io_durable r) + mset (io_retry r) + mset d2" "d2 = [] \<or> (\<exists>i e. ins i 1 = Unserializable e)"
    unfolding accounted_def by blast
  then have "\<exists>dead. mset (a @ b) = mset (io_durable l @ io_durable r) + mset (io_retry l @ io_retry r) + mset dead
      \<and> (dead = [] \<or> (\<exists>i e. ins i 1 = Unserializable e))"
    by (intro exI [of _ "d1 @ d2"]) auto
  moreover have "\<forall>ev \<in> set (io_durable l). stored qx ev"
    using assms stored_mono unfolding accounted_def by blast
  ultimately show ?thesis using assms by (auto simp: accounted_def intro: list_emb_append_mono)
qed

lemma insert_or_isolate_effect:
  "insert_or_isolate cfg ins dl from batch s = (out, t) \<Longrightarrow>
     rejects_only cfg s t (delivery_of ` set batch) \<and> accounted ins batch out (snd t)"
proof (induction cfg ins dl "from" batch s arbitrary: out t rule: insert_or_isolate.induct)
  case (1 cfg ins dl "from" batch s)
  obtain wr px where s: "s = (wr, px)" by force
  note unfold = insert_or_isolate.simps [of cfg ins dl "from" batch s, unfolded s prod.case]
  show ?case
  proof (cases "list_all (\<lambda>ev. be_row ev = None) batch")
    case True
    then have "out = \<lparr>io_durable = batch, io_retry = [], io_transient = False\<rparr>" "t = s"
      using 1(3) by (simp_all add: insert_or_isolate.simps)
    moreover have "\<forall>ev \<in> set batch. stored px ev" using True by (simp add: stored_def list_all_iff)
    ultimately show ?thesis using accounted_durable s by (simp add: rejects_only_def)
  next
    case rows: False
    then have ne: "batch \<noteq> []" by auto
    show ?thesis
    proof (cases "ins from (length batch)")
      case Inserted
      then have o: "out = \<lparr>io_durable = batch, io_retry = [], io_transient = False\<rparr>"
        and t: "t = (wr, px\<lparr>pi_rows := pi_rows px @ batch_rows batch\<rparr>)"
        using 1(3) rows unfolding s unfold by simp_all
      have "\<forall>ev \<in> set batch. stored (snd t) ev"
        unfolding t by (auto simp: stored_def batch_rows_mem split: option.splits)
      with o t s show ?thesis using accounted_durable insert_side_effect by (simp add: rejects_only_def)
    next
      case (InsertFailed st)
      then have o: "out = \<lparr>io_durable = [], io_retry = batch, io_transient = True\<rparr>"
        and t: "fst t = wr" "snd t = px \<or> snd t = px\<lparr>pi_rows := pi_rows px @ batch_rows batch\<rparr>"
        using 1(3) rows unfolding s unfold by (auto split: if_splits)
      then show ?thesis using accounted_retry [OF ne] insert_side_effect s by (auto simp: rejects_only_def)
    next
      case (Unserializable e)
      show ?thesis
      proof (cases "length batch \<le> 1")
        case True
        with ne obtain ev where b: "batch = [ev]" by (cases batch) auto
        have single: "(out, t) = (\<lparr>io_durable = [], io_retry = [], io_transient = False\<rparr>,
            (case project_id_from_stream (be_stream ev) of
               Inl _ \<Rightarrow> (count_error wr, px)
             | Inr p \<Rightarrow> snd (dead_letter_delivery cfg (be_stream ev) (be_id ev) p ''clickhouse_row_rejected'' e
                 (dl from) (count_error wr, px))))"
          using 1(3) unfolding s unfold if_not_P [OF rows] Unserializable insert_result.case if_P [OF True]
          by (simp add: b)
        then have o: "out = \<lparr>io_durable = [], io_retry = [], io_transient = False\<rparr>" by simp
        have "rejects_only cfg s t {delivery_of ev}"
        proof (cases "project_id_from_stream (be_stream ev)")
          case (Inl x)
          with single have "t = (count_error wr, px)" by simp
          then show ?thesis unfolding s by (simp add: rejects_only_def)
        next
          case (Inr p)
          with single have t: "t = snd (dead_letter_delivery cfg (be_stream ev) (be_id ev) p ''clickhouse_row_rejected'' e
              (dl from) (count_error wr, px))" by simp
          obtain ok u where "dead_letter_delivery cfg (be_stream ev) (be_id ev) p ''clickhouse_row_rejected'' e
              (dl from) (count_error wr, px) = (ok, u)" by fastforce
          with dead_letter_rejects [OF this] t show ?thesis
            by (simp add: s rejects_only_count delivery_of_def)
        qed
        moreover have "accounted ins batch out (snd t)"
          using Unserializable unfolding o accounted_def b by (auto intro!: exI [of _ "[ev]"])
        ultimately show ?thesis by (simp add: b)
      next
        case False
        define mid where "mid = length batch div 2"
        obtain l s1 where l: "insert_or_isolate cfg ins dl from (take mid batch) s = (l, s1)" by fastforce
        obtain r s2 where r: "insert_or_isolate cfg ins dl (from + mid) (drop mid batch) s1 = (r, s2)" by fastforce
        have res: "out = \<lparr>io_durable = io_durable l @ io_durable r, io_retry = io_retry l @ io_retry r,
            io_transient = io_transient l \<or> io_transient r\<rparr>" "t = s2"
          using 1(3) rows Unserializable False l r unfolding s unfold by (simp_all add: mid_def Let_def)
        have ih1: "rejects_only cfg s s1 (delivery_of ` set (take mid batch))" "accounted ins (take mid batch) l (snd s1)"
          using 1(1) [OF rows s [symmetric] Unserializable False mid_def l] by simp_all
        have ih2: "rejects_only cfg s1 s2 (delivery_of ` set (drop mid batch))" "accounted ins (drop mid batch) r (snd s2)"
          using 1(2) [OF rows s [symmetric] Unserializable False mid_def l [symmetric] r] by simp_all
        have "side_effect (snd s1) (snd s2)" using ih2(1) by (simp add: rejects_only_def)
        from accounted_append [OF ih1(2) ih2(2) this] have "accounted ins batch out (snd t)" using res by simp
        moreover have "rejects_only cfg s t (delivery_of ` set batch)"
          using rejects_only_trans [OF ih1(1) ih2(1)] res(2)
          by (auto elim!: rejects_only_subset dest: in_set_takeD in_set_dropD)
        ultimately show ?thesis by simp
      qed
    qed
  qed
qed


section \<open>Streams\<close>

lemma stream_ok_empty: "stream_ok empty_stream"
  by (simp add: stream_ok_def empty_stream_def entry_ids_def)

lemma stream_ok_xadd:
  assumes "stream_ok r" and "rs_last_generated r < i"
  shows "stream_ok (xadd i data r)"
proof -
  have "\<forall>j \<in> set (entry_ids r). j < i" using assms by (auto simp: stream_ok_def intro: le_less_trans)
  moreover have "\<not> i \<le> rs_last_delivered r" using assms by (auto simp: stream_ok_def)
  ultimately show ?thesis
    using assms by (auto simp: stream_ok_def xadd_def entry_ids_def sorted_wrt_append intro: less_imp_le order_trans)
qed

lemma sorted_split:
  fixes c :: "'a :: linorder"
  shows "sorted_wrt (\<lambda>a b. fst a < fst b) xs \<Longrightarrow>
    xs = filter (\<lambda>(i, _). i \<le> c) xs @ filter (\<lambda>(i, _). c < i) xs"
proof (induction xs)
  case (Cons e es)
  show ?case
  proof (cases "fst e \<le> c")
    case True
    with Cons show ?thesis by (simp add: split_def not_less)
  next
    case False
    with Cons.prems have "filter (\<lambda>(i, _). i \<le> c) es = []" by (fastforce simp: filter_empty_conv not_le)
    with Cons False show ?thesis by (simp add: split_def not_le)
  qed
qed simp

lemma sorted_last:
  fixes xs :: "('a :: linorder \<times> 'b) list"
  shows "sorted_wrt (\<lambda>a b. fst a < fst b) xs \<Longrightarrow> e \<in> set xs \<Longrightarrow> fst e \<le> fst (last xs)"
  by (induction xs) (auto simp: less_imp_le)

lemma sorted_keys_distinct:
  fixes xs :: "('a :: linorder \<times> 'b) list"
  shows "sorted_wrt (\<lambda>a b. fst a < fst b) xs \<Longrightarrow> distinct (map fst xs)"
  by (induction xs) auto

lemma stream_sorted: "stream_ok r \<Longrightarrow> sorted_wrt (\<lambda>a b. fst a < fst b) (rs_entries r)"
  by (simp add: stream_ok_def entry_ids_def sorted_wrt_map)

lemma xreadgroup_parts:
  assumes "stream_ok r" and "xreadgroup n r = (batch, r')"
  obtains old later where "rs_entries r = old @ batch @ later" and "set (rs_pending r) = fst ` set old"
    and "\<And>e. e \<in> set batch \<Longrightarrow> rs_last_delivered r < fst e"
    and "r' = (if batch = [] then r
      else r\<lparr>rs_last_delivered := fst (last batch), rs_entries_read := rs_entries_read r + length batch,
             rs_pending := rs_pending r @ map fst batch\<rparr>)"
proof
  let ?old = "filter (\<lambda>(i, _). i \<le> rs_last_delivered r) (rs_entries r)"
  have batch: "batch = take n (unread r)" using assms(2) by (auto simp: xreadgroup_def Let_def)
  show "rs_entries r = ?old @ batch @ drop n (unread r)"
    using sorted_split [OF stream_sorted [OF assms(1)]] by (simp add: batch unread_def)
  show "set (rs_pending r) = fst ` set ?old"
    using assms(1) unfolding stream_ok_def by (force simp: entry_ids_def)
  show "rs_last_delivered r < fst e" if "e \<in> set batch" for e
    using that by (auto simp: batch unread_def dest!: in_set_takeD)
  show "r' = (if batch = [] then r
      else r\<lparr>rs_last_delivered := fst (last batch), rs_entries_read := rs_entries_read r + length batch,
             rs_pending := rs_pending r @ map fst batch\<rparr>)"
    using assms(2) by (auto simp: xreadgroup_def Let_def)
qed

lemma xreadgroup_ok:
  assumes "stream_ok r" and "xreadgroup n r = (batch, r')"
  shows "stream_ok r'" and "rs_entries r' = rs_entries r" and "rs_last_generated r' = rs_last_generated r"
    and "rs_last_delivered r \<le> rs_last_delivered r'"
    and "\<And>i f. (i, f) \<in> set batch \<Longrightarrow> (i, f) \<in> set (rs_entries r) \<and> i \<le> rs_last_delivered r'"
proof -
  from xreadgroup_parts [OF assms] obtain old later where split: "rs_entries r = old @ batch @ later"
    and pend: "set (rs_pending r) = fst ` set old"
    and fresh: "\<And>e. e \<in> set batch \<Longrightarrow> rs_last_delivered r < fst e"
    and r': "r' = (if batch = [] then r
      else r\<lparr>rs_last_delivered := fst (last batch), rs_entries_read := rs_entries_read r + length batch,
             rs_pending := rs_pending r @ map fst batch\<rparr>)" by blast
  note srt = stream_sorted [OF assms(1), unfolded split]
  have b_srt: "sorted_wrt (\<lambda>a b. fst a < fst b) batch" using srt by (simp add: sorted_wrt_append)
  show "rs_entries r' = rs_entries r" "rs_last_generated r' = rs_last_generated r" by (simp_all add: r')
  show "rs_last_delivered r \<le> rs_last_delivered r'"
    using fresh [of "last batch"] by (simp add: r' less_imp_le)
  show "(i, f) \<in> set (rs_entries r) \<and> i \<le> rs_last_delivered r'" if "(i, f) \<in> set batch" for i f
  proof -
    have "batch \<noteq> []" using that by auto
    then show ?thesis using that sorted_last [OF b_srt that] by (simp add: r' split)
  qed
  show "stream_ok r'"
  proof (cases "batch = []")
    case True
    with assms(1) show ?thesis by (simp add: r')
  next
    case False
    have "distinct (map fst old)" "distinct (map fst batch)" "fst ` set old \<inter> fst ` set batch = {}"
      using sorted_keys_distinct [OF srt] by auto
    then have dist: "distinct (rs_pending r @ map fst batch)"
      using assms(1) pend by (simp add: stream_ok_def)
    have gen: "fst (last batch) \<le> rs_last_generated r"
      using assms(1) False by (simp add: stream_ok_def entry_ids_def split)
    have "fst e < fst (last batch)" if "e \<in> set old" for e
      using srt that False by (simp add: sorted_wrt_append)
    moreover have "fst (last batch) < fst e" if "e \<in> set later" for e
      using srt that False by (simp add: sorted_wrt_append)
    moreover have "fst e \<le> fst (last batch)" if "e \<in> set batch" for e using sorted_last [OF b_srt that] .
    ultimately have "i \<in> fst ` set old \<union> fst ` set batch \<longleftrightarrow>
        i \<in> fst ` set old \<union> (fst ` set batch \<union> fst ` set later) \<and> i \<le> fst (last batch)" for i
      by (auto simp: image_iff intro: less_imp_le dest: leD)
    with dist gen show ?thesis
      using assms(1) False pend by (simp add: stream_ok_def r' entry_ids_def split)
  qed
qed


lemma ack_and_delete_stream:
  "snd (ack_and_delete ids r) = r\<lparr>rs_pending := filter (\<lambda>i. i \<notin> set ids) (rs_pending r),
     rs_entries := filter (\<lambda>(i, _). i \<notin> set ids) (rs_entries r)\<rparr>"
  by (simp add: ack_and_delete_def xack_def xdel_def)

lemma entry_ids_filter:
  "entry_ids (r\<lparr>rs_entries := filter (\<lambda>(i, _). P i) (rs_entries r)\<rparr>) = filter P (entry_ids r)"
  by (simp add: entry_ids_def filter_map comp_def split_def)

lemma entry_ids_filter_pending:
  "entry_ids (r\<lparr>rs_pending := pend, rs_entries := filter (\<lambda>(i, _). P i) (rs_entries r)\<rparr>) = filter P (entry_ids r)"
  by (simp add: entry_ids_def filter_map comp_def split_def)

lemma stream_ok_ack_and_delete: "stream_ok r \<Longrightarrow> stream_ok (snd (ack_and_delete ids r))"
  unfolding ack_and_delete_stream stream_ok_def entry_ids_filter_pending
  by (auto simp: sorted_wrt_filter entry_ids_filter_pending)

lemma xautoclaim_ok:
  assumes "stream_ok r" and "xautoclaim stale r = (messages, deleted, r')"
  shows "r' = r" and "deleted = []" and "\<And>i f. (i, f) \<in> set messages \<Longrightarrow> (i, f) \<in> set (rs_entries r) \<and> i \<le> rs_last_delivered r"
proof -
  let ?claimed = "filter (\<lambda>i. i \<in> set (rs_pending r)) stale"
  have present: "map_of (rs_entries r) i \<noteq> None" if "i \<in> set (rs_pending r)" for i
    using that assms(1) by (auto simp: stream_ok_def entry_ids_def map_of_eq_None_iff)
  have d: "deleted = filter (\<lambda>i. map_of (rs_entries r) i = None) ?claimed"
    using assms(2) by (auto simp: xautoclaim_def Let_def)
  with present show del: "deleted = []" by (auto simp: filter_empty_conv)
  have "r' = r\<lparr>rs_pending := filter (\<lambda>i. i \<notin> set deleted) (rs_pending r)\<rparr>"
    using assms(2) unfolding xautoclaim_def Let_def prod.inject d by blast
  then show "r' = r" by (simp add: del)
  have m: "messages = List.map_filter (\<lambda>i. map_option (Pair i) (map_of (rs_entries r) i)) ?claimed"
    using assms(2) by (auto simp: xautoclaim_def Let_def)
  show "(i, f) \<in> set (rs_entries r) \<and> i \<le> rs_last_delivered r" if "(i, f) \<in> set messages" for i f
    using that assms(1) unfolding m
    by (auto simp: List.map_filter_def stream_ok_def dest: map_of_SomeD)
qed

section \<open>The invariant is kept\<close>

lemma invE:
  assumes "run_inv cfg loads s"
  shows "stream_ok (pi_streams (rn_pipe s) k)" "published_ok s" "settled_ok cfg loads s"
    "pi_watermarks (rn_pipe s) p = Some w \<Longrightarrow> watermark_ok loads s p w"
    "\<forall>ev \<in> set (wr_buffer (rn_writer s)). buffered_ok loads s ev"
    "snapshots_ok cfg loads s (wr_pending_ack (rn_writer s))"
    "(k, i, f) \<in> set (rn_inbox s) \<Longrightarrow> delivered s k i f" "phase_ok cfg loads s" "trim_ok s"
  using assms by (auto simp: run_inv_def)

text \<open>A stream that only moved forward: its group position or its new entries.\<close>

lemma stream_inv:
  assumes inv: "run_inv cfg loads s" and ok: "stream_ok r"
    and gen: "rs_last_generated (pi_streams (rn_pipe s) key) \<le> rs_last_generated r"
    and del: "rs_last_delivered (pi_streams (rn_pipe s) key) \<le> rs_last_delivered r"
    and t: "t = s\<lparr>rn_pipe := set_stream key r (rn_pipe s), rn_published := pub\<rparr>"
    and pub: "rn_published s \<subseteq> pub" and new: "published_ok t"
    and kept: "settled_ok cfg loads t"
    and fresh: "\<And>i f. (key, i, f) \<in> pub - rn_published s \<Longrightarrow> rs_last_delivered (pi_streams (rn_pipe s) key) < i"
    and other: "\<And>k i f. (k, i, f) \<in> pub - rn_published s \<Longrightarrow> k = key"
    and gone: "\<And>i. i \<in> set (entry_ids r) \<Longrightarrow> i \<in> set (entry_ids (pi_streams (rn_pipe s) key))
      \<or> rs_last_delivered (pi_streams (rn_pipe s) key) < i"
    and trim: "trim_ok t"
  shows "run_inv cfg loads t"
proof -
  have x: "extends s t" using pub del by (auto simp: extends_def t set_stream_def degraded_def)
  have rows: "pi_rows (rn_pipe t) = pi_rows (rn_pipe s)" by (simp add: t set_stream_def)
  have wm: "watermark_ok loads t p w" if "pi_watermarks (rn_pipe t) p = Some w" for p w
  proof -
    have old: "watermark_ok loads s p w" using that invE(4) [OF inv] by (simp add: t set_stream_def)
    let ?k = "wm_stream_key w"
    have "i \<notin> set (entry_ids (pi_streams (rn_pipe t) ?k)) \<and> is_complete loads (rn_pipe t) ?k i f"
      if h: "wm_status w = ''healthy''" "(?k, i, f) \<in> rn_published t" "i \<le> wm_contiguous w" for i f
    proof -
      have c: "wm_contiguous w \<le> rs_last_delivered (pi_streams (rn_pipe s) ?k)" using old h(1) by (simp add: watermark_ok_def)
      have "(?k, i, f) \<in> rn_published s"
      proof (rule ccontr)
        assume "(?k, i, f) \<notin> rn_published s"
        with h(2) have n: "(?k, i, f) \<in> pub - rn_published s" by (simp add: t)
        from other [OF n] fresh n have "rs_last_delivered (pi_streams (rn_pipe s) ?k) < i" by simp
        with c h(3) show False by simp
      qed
      with old h have e: "i \<notin> set (entry_ids (pi_streams (rn_pipe s) ?k))" "is_complete loads (rn_pipe s) ?k i f"
        by (auto simp: watermark_ok_def)
      have "i \<notin> set (entry_ids (pi_streams (rn_pipe t) ?k))"
        using e(1) gone [of i] c h(3) by (auto simp: t set_stream_def)
      moreover have "is_complete loads (rn_pipe t) ?k i f" using is_complete_mono [OF e(2)] rows by simp
      ultimately show ?thesis by blast
    qed
    moreover have "wm_status w = ''healthy'' \<Longrightarrow> wm_contiguous w \<le> rs_last_delivered (pi_streams (rn_pipe t) ?k)"
      using old del by (auto simp: watermark_ok_def t set_stream_def)
    ultimately show ?thesis using old by (auto simp: watermark_ok_def)
  qed
  have "phase_ok cfg loads t"
    using invE(8) [OF inv] snapshots_mono [OF _ x] by (auto simp: phase_ok_def t split: phase.splits)
  moreover have "snapshots_ok cfg loads t (wr_pending_ack (rn_writer t))"
    using snapshots_mono [OF invE(6) [OF inv] x] by (simp add: t)
  moreover have "\<forall>ev \<in> set (wr_buffer (rn_writer t)). buffered_ok loads t ev"
    using invE(5) [OF inv] buffered_mono [OF _ x] by (simp add: t)
  moreover have "\<forall>(k, i, f) \<in> set (rn_inbox t). delivered t k i f"
    using invE(7) [OF inv] delivered_mono [OF _ x] by (auto simp: t)
  moreover have "\<forall>k. stream_ok (pi_streams (rn_pipe t) k)"
    using ok invE(1) [OF inv] by (simp add: t set_stream_def)
  ultimately show ?thesis using new kept wm trim by (simp add: run_inv_def)
qed

end
