(* ===== verification/WriterInvariant.thy ===== *)
theory WriterInvariant
  imports WriterLaws
begin

text \<open>
  The invariant of the writer's run holds in every reachable state: one lemma per kind of step.
\<close>

section \<open>Streams\<close>

lemma run_inv_phase_writer:
  assumes "run_inv cfg loads s" and "wr_buffer wr = wr_buffer (rn_writer s)"
    and "wr_pending_ack wr = wr_pending_ack (rn_writer s)"
  shows "run_inv cfg loads (s\<lparr>rn_writer := wr\<rparr>)"
  using assms by (auto simp: run_inv_def phase_ok_def split: phase.splits)

lemma pair_zero_le [simp]: "((0, 0) :: stream_id) \<le> i"
  by (cases i) (simp add: less_eq_prod_def)

lemma set_stream_settled [simp]: "settled cfg loads (set_stream key r px) = settled cfg loads px"
proof -
  have "is_complete loads (set_stream key r px) = is_complete loads px"
    by (simp add: fun_eq_iff is_complete_def set_stream_def cong: option.case_cong)
  then show ?thesis by (simp add: fun_eq_iff settled_def rejected_def degraded_def set_stream_def)
qed

lemma published_okD:
  assumes "published_ok s"
  shows "(k, i, f) \<in> rn_published s \<Longrightarrow> valid_key k" "(k, i, f) \<in> rn_published s \<Longrightarrow> (0, 0) < i"
    "(k, i, f) \<in> rn_published s \<Longrightarrow> i \<le> rs_last_generated (pi_streams (rn_pipe s) k)"
    "(k, i, f) \<in> rn_published s \<Longrightarrow> snd i < 2 ^ 64"
    "(k, i, f) \<in> rn_published s \<Longrightarrow> (k, i, g) \<in> rn_published s \<Longrightarrow> g = f"
    "(i, f) \<in> set (rs_entries (pi_streams (rn_pipe s) k)) \<Longrightarrow> (k, i, f) \<in> rn_published s"
  using assms unfolding published_ok_def by simp_all

lemma entry_published:
  assumes "published_ok s" and "i \<in> set (entry_ids (pi_streams (rn_pipe s) k))"
  obtains f where "(k, i, f) \<in> rn_published s"
  using assms published_okD(6) by (force simp: entry_ids_def)

lemma trim_forward:
  assumes ok: "trim_ok s" and same: "rn_trim t = rn_trim s"
    and new: "\<And>k i. i \<in> set (entry_ids (pi_streams (rn_pipe t) k)) \<Longrightarrow> i \<in> set (entry_ids (pi_streams (rn_pipe s) k))
      \<or> (rs_last_generated (pi_streams (rn_pipe s) k) < i \<and> snd i < 2 ^ 64)"
    and gen: "\<And>k. rs_last_generated (pi_streams (rn_pipe s) k) \<le> rs_last_generated (pi_streams (rn_pipe t) k)"
  shows "trim_ok t"
proof (cases "rn_trim s")
  case (Some kb)
  then obtain k b where kb: "rn_trim s = Some (k, b)" by (cases kb) simp
  with ok have old: "\<And>i. i \<in> set (entry_ids (pi_streams (rn_pipe s) k)) \<Longrightarrow> b \<le> i"
    "\<And>i. rs_last_generated (pi_streams (rn_pipe s) k) < i \<Longrightarrow> snd i < 2 ^ 64 \<Longrightarrow> b \<le> i"
    by (simp_all add: trim_ok_def)
  have "b \<le> i" if "i \<in> set (entry_ids (pi_streams (rn_pipe t) k))" for i using new [OF that] old by blast
  moreover have "b \<le> i" if "rs_last_generated (pi_streams (rn_pipe t) k) < i" "snd i < 2 ^ 64" for i
    using old(2) [OF le_less_trans [OF gen that(1)] that(2)] .
  ultimately show ?thesis using kb same by (simp add: trim_ok_def)
qed (use same in \<open>simp add: trim_ok_def\<close>)

lemma publish_inv:
  assumes inv: "run_inv cfg loads s" and key: "valid_key key"
    and i: "rs_last_generated (pi_streams (rn_pipe s) key) < i" "snd i < 2 ^ 64"
  shows "run_inv cfg loads (s\<lparr>rn_pipe := set_stream key (xadd i data (pi_streams (rn_pipe s) key)) (rn_pipe s),
      rn_published := insert (key, i, data) (rn_published s)\<rparr>)" (is "run_inv cfg loads ?t")
proof (rule stream_inv [OF inv, where t = ?t])
  let ?r = "pi_streams (rn_pipe s) key"
  note ok = invE(1) [OF inv, of key] and pub = invE(2) [OF inv]
  show "stream_ok (xadd i data ?r)" using stream_ok_xadd [OF ok i(1)] .
  show "rs_last_generated ?r \<le> rs_last_generated (xadd i data ?r)" "rs_last_delivered ?r \<le> rs_last_delivered (xadd i data ?r)"
    using i(1) by (simp_all add: xadd_def)
  have del: "rs_last_delivered ?r < i" using ok i(1) by (auto simp: stream_ok_def)
  then show "\<And>j f. (key, j, f) \<in> insert (key, i, data) (rn_published s) - rn_published s \<Longrightarrow> rs_last_delivered ?r < j"
    by blast
  show "\<And>j. j \<in> set (entry_ids (xadd i data ?r)) \<Longrightarrow> j \<in> set (entry_ids ?r) \<or> rs_last_delivered ?r < j"
    using del by (auto simp: entry_ids_def xadd_def)
  have old: "\<not> (key, i, f) \<in> rn_published s" for f using published_okD(3) [OF pub] i(1) leD by blast
  have pos: "(0, 0) < i" using i(1) pair_zero_le le_less_trans by blast
  show "published_ok ?t" unfolding published_ok_def
  proof (intro conjI allI impI)
    fix k j f assume "(k, j, f) \<in> rn_published ?t"
    then have c: "(k, j, f) \<in> rn_published s \<or> (k = key \<and> j = i \<and> f = data)" by auto
    show "valid_key k" "(0, 0) < j" "snd j < 2 ^ 64"
      using c published_okD [OF pub] key i(2) pos by blast+
    show "j \<le> rs_last_generated (pi_streams (rn_pipe ?t) k)"
      using c i(1) published_okD(3) [OF pub, of k j f] by (auto simp: set_stream_def xadd_def)
    show "g = f" if "(k, j, g) \<in> rn_published ?t" for g
      using c that published_okD(5) [OF pub] old by simp blast
  next
    fix k j f assume "(j, f) \<in> set (rs_entries (pi_streams (rn_pipe ?t) k))"
    then show "(k, j, f) \<in> rn_published ?t"
      using published_okD(6) [OF pub, of j f] by (auto simp: set_stream_def xadd_def split: if_splits)
  qed
  have settled: "settled cfg loads (rn_pipe ?t) = settled cfg loads (rn_pipe s)"
    by simp
  show "settled_ok cfg loads ?t"
    using invE(3) [OF inv] unfolding settled_ok_def settled by (auto simp: set_stream_def xadd_def entry_ids_def)
  show "trim_ok ?t"
    by (rule trim_forward [OF invE(9) [OF inv]])
      (use i in \<open>auto simp: set_stream_def xadd_def entry_ids_def less_imp_le split: if_splits\<close>)
qed auto


text \<open>A stream whose entries stay as they are or lose settled deliveries.\<close>

lemma shrink_inv:
  assumes inv: "run_inv cfg loads s" and ok: "stream_ok r"
    and gen: "rs_last_generated r = rs_last_generated (pi_streams (rn_pipe s) key)"
    and del: "rs_last_delivered (pi_streams (rn_pipe s) key) \<le> rs_last_delivered r"
    and sub: "set (rs_entries r) \<subseteq> set (rs_entries (pi_streams (rn_pipe s) key))"
    and gone: "\<And>i f. i \<in> set (entry_ids (pi_streams (rn_pipe s) key)) \<Longrightarrow> i \<notin> set (entry_ids r) \<Longrightarrow>
      (key, i, f) \<in> rn_published s \<Longrightarrow> settled cfg loads (rn_pipe s) key i f"
  shows "run_inv cfg loads (s\<lparr>rn_pipe := set_stream key r (rn_pipe s)\<rparr>)" (is "run_inv cfg loads ?t")
proof (rule stream_inv [OF inv ok _ del, where t = ?t and pub = "rn_published s"])
  have ids: "set (entry_ids r) \<subseteq> set (entry_ids (pi_streams (rn_pipe s) key))"
    using sub by (auto simp: entry_ids_def)
  show "published_ok ?t"
    using invE(2) [OF inv] sub gen unfolding published_ok_def set_stream_def
    by (simp add: subset_iff) blast
  have settled: "settled cfg loads (rn_pipe ?t) = settled cfg loads (rn_pipe s)"
    by simp
  show "settled_ok cfg loads ?t"
    unfolding settled_ok_def settled
  proof (intro allI impI)
    fix k i f assume "(k, i, f) \<in> rn_published ?t"
    then have p: "(k, i, f) \<in> rn_published s" by simp
    with invE(3) [OF inv] have "i \<in> set (entry_ids (pi_streams (rn_pipe s) k)) \<or> settled cfg loads (rn_pipe s) k i f"
      by (simp add: settled_ok_def)
    with gone [of i f] p show "i \<in> set (entry_ids (pi_streams (rn_pipe ?t) k)) \<or> settled cfg loads (rn_pipe s) k i f"
      by (cases "k = key") (auto simp: set_stream_def)
  qed
  show "trim_ok ?t"
    by (rule trim_forward [OF invE(9) [OF inv]]) (use ids gen in \<open>auto simp: set_stream_def split: if_splits\<close>)
  show "\<And>i. i \<in> set (entry_ids r) \<Longrightarrow> i \<in> set (entry_ids (pi_streams (rn_pipe s) key))
      \<or> rs_last_delivered (pi_streams (rn_pipe s) key) < i" using ids by blast
qed (use gen in auto)

lemma read_new_inv:
  assumes inv: "run_inv cfg loads s" and x: "xreadgroup n (pi_streams (rn_pipe s) key) = (messages, stream)"
  shows "run_inv cfg loads (s\<lparr>rn_pipe := set_stream key stream (rn_pipe s), rn_inbox := to_inbox key messages\<rparr>)"
proof -
  note ok = xreadgroup_ok [OF invE(1) [OF inv] x]
  let ?t = "s\<lparr>rn_pipe := set_stream key stream (rn_pipe s)\<rparr>"
  have "entry_ids stream = entry_ids (pi_streams (rn_pipe s) key)" by (simp add: entry_ids_def ok)
  then have "run_inv cfg loads ?t" using shrink_inv [OF inv ok(1,3,4)] ok(2) by simp
  moreover have "delivered ?t key i f" if "(i, f) \<in> set messages" for i f
    using ok(5) [OF that] published_okD(6) [OF invE(2) [OF inv]] by (simp add: delivered_def set_stream_def)
  ultimately have "run_inv cfg loads (?t\<lparr>rn_inbox := to_inbox key messages\<rparr>)"
    by (intro inbox_inv) (auto simp: to_inbox_def)
  then show ?thesis by simp
qed

lemma claim_inv:
  assumes inv: "run_inv cfg loads s"
    and c: "claim_pending cfg key stale outcome (rn_writer s, rn_pipe s) = (messages, wr, px)"
  shows "run_inv cfg loads (s\<lparr>rn_writer := wr, rn_pipe := px,
      rn_inbox := to_inbox key (case messages of Some ms \<Rightarrow> ms | None \<Rightarrow> [])\<rparr>)"
proof -
  obtain ms deleted r where x: "xautoclaim stale (pi_streams (rn_pipe s) key) = (ms, deleted, r)"
    by (metis prod_cases3)
  note ok = xautoclaim_ok [OF invE(1) [OF inv] x]
  have "messages = Some ms" "wr = rn_writer s" "px = rn_pipe s"
    using c x ok(1,2) by (auto simp: claim_pending_def Let_def)
  then have "s\<lparr>rn_writer := wr, rn_pipe := px, rn_inbox := to_inbox key (case messages of Some ms \<Rightarrow> ms | None \<Rightarrow> [])\<rparr>
      = s\<lparr>rn_inbox := to_inbox key ms\<rparr>" by simp
  moreover have "delivered s key i f" if "(i, f) \<in> set ms" for i f
    using ok(3) [OF that] published_okD(6) [OF invE(2) [OF inv]] by (simp add: delivered_def)
  then have "\<forall>(k, i, f) \<in> set (to_inbox key ms). delivered s k i f" by (auto simp: to_inbox_def)
  ultimately show ?thesis using inbox_inv [OF inv] by presburger
qed

section \<open>Messages and inserts\<close>

text \<open>An operation that only rejects deliveries keeps the invariant.\<close>

lemma rejects_ack:
  assumes inv: "run_inv cfg loads s" and r: "rejects_only cfg (rn_writer s, rn_pipe s) (wr, px) ids"
    and d: "\<And>k i. (k, i) \<in> ids \<Longrightarrow> \<exists>f. delivered s k i f"
  shows "snapshots_ok cfg loads (s\<lparr>rn_pipe := px\<rparr>) (wr_pending_ack wr)"
  unfolding snapshots_queued
proof (intro allI impI)
  let ?t = "s\<lparr>rn_pipe := px\<rparr>"
  have x: "extends s ?t" using r side_effect_extends by (simp add: rejects_only_def)
  fix k i assume "queued wr k i"
  then consider "queued (rn_writer s) k i"
    | "(k, i) \<in> ids" "rejected px k i" "wc_authority cfg \<longrightarrow> (\<exists>p. project_id_from_stream k = Inr p \<and> degraded px p)"
    using r unfolding rejects_only_def fst_conv snd_conv by blast
  then show "ack_ok cfg loads ?t k i"
  proof cases
    case 1
    with invE(6) [OF inv] have "ack_ok cfg loads s k i" unfolding snapshots_queued by blast
    then show ?thesis using ack_mono x by blast
  next
    case 2
    then have "settled cfg loads (rn_pipe ?t) k i f" for f by (simp add: settled_def)
    with d [OF 2(1)] show ?thesis using delivered_mono [OF _ x] unfolding ack_ok_def by blast
  qed
qed

lemma rejects_inv:
  assumes inv: "run_inv cfg loads s" and r: "rejects_only cfg (rn_writer s, rn_pipe s) (wr, px) ids"
    and d: "\<And>k i. (k, i) \<in> ids \<Longrightarrow> \<exists>f. delivered s k i f"
  shows "run_inv cfg loads (s\<lparr>rn_writer := wr, rn_pipe := px\<rparr>)"
proof -
  let ?t = "s\<lparr>rn_pipe := px\<rparr>"
  have t: "run_inv cfg loads ?t" using side_effect_inv [OF inv] r by (simp add: rejects_only_def)
  have b: "wr_buffer wr = wr_buffer (rn_writer s)" using r by (simp add: rejects_only_def)
  have "run_inv cfg loads (?t\<lparr>rn_writer := wr, rn_phase := rn_phase s\<rparr>)"
  proof (rule writer_inv [OF t])
    show "\<forall>ev \<in> set (wr_buffer wr). buffered_ok loads ?t ev" using invE(5) [OF t] b by simp
    show "snapshots_ok cfg loads ?t (wr_pending_ack wr)" using rejects_ack [OF assms] .
    show "phase_ok cfg loads (?t\<lparr>rn_writer := wr, rn_phase := rn_phase s\<rparr>)"
      using invE(8) [OF t] b by (auto simp: phase_ok_def split: phase.splits)
  qed
  moreover have "?t\<lparr>rn_writer := wr, rn_phase := rn_phase s\<rparr> = s\<lparr>rn_writer := wr, rn_pipe := px\<rparr>" by simp
  ultimately show ?thesis by simp
qed

lemma accept_inv:
  assumes inv: "run_inv cfg loads s" and inbox: "rn_inbox s = (key, message) # rest"
    and a: "accept_message cfg loads key message calls (rn_writer s, rn_pipe s) = (NextMessage, wr, px)"
  shows "run_inv cfg loads (s\<lparr>rn_writer := wr, rn_pipe := px, rn_inbox := rest\<rparr>)"
proof -
  obtain i f where m: "message = (i, f)" by (cases message)
  have d: "delivered s key i f" using invE(7) [OF inv] inbox m by simp
  then obtain p where p: "project_id_from_stream key = Inr p"
    using published_okD(1) [OF invE(2) [OF inv]] unfolding delivered_def valid_key_def by blast
  have main: "run_inv cfg loads (s\<lparr>rn_writer := wr, rn_pipe := px\<rparr>)"
  proof (cases "read_message loads p key i f")
    case (Inl e)
    obtain ok t where dl: "dead_letter_delivery cfg key i p ''invalid_event_schema'' e calls (count_error (rn_writer s), rn_pipe s)
        = (ok, t)" by (metis surj_pair)
    with a p m Inl have t: "t = (wr, px)" by (simp add: accept_message_def)
    have "rejects_only cfg (rn_writer s, rn_pipe s) (wr, px) {(key, i)}"
      using dead_letter_rejects [OF dl] by (simp add: t rejects_only_count)
    then show ?thesis by (rule rejects_inv [OF inv]) (use d in blast)
  next
    case (Inr tr)
    then obtain token row where r: "read_message loads p key i f = Inr (token, row)" by (cases tr) simp
    let ?ev = "\<lparr>be_stream = key, be_id = i, be_row = row, be_token = token\<rparr> :: buffered_event"
    have wr: "wr_buffer wr = wr_buffer (rn_writer s) @ [?ev]" "wr_pending_ack wr = wr_pending_ack (rn_writer s)"
      and px: "px = rn_pipe s"
      using a p m r by (auto simp: accept_message_def split: if_splits)
    have "buffered_ok loads s ?ev" using d p r by (auto simp: buffered_ok_def)
    then have "run_inv cfg loads (s\<lparr>rn_writer := wr, rn_phase := rn_phase s\<rparr>)"
      using invE(5,6,8) [OF inv]
      by (intro writer_inv [OF inv]) (auto simp: wr phase_ok_def split: phase.splits)
    moreover have "s\<lparr>rn_writer := wr, rn_phase := rn_phase s\<rparr> = s\<lparr>rn_writer := wr, rn_pipe := px\<rparr>"
      by (simp add: px)
    ultimately show ?thesis by simp
  qed
  have "\<forall>(k, i, f) \<in> set rest. delivered (s\<lparr>rn_writer := wr, rn_pipe := px\<rparr>) k i f"
    using main inbox by (simp add: run_inv_def)
  from inbox_inv [OF main this] show ?thesis by simp
qed

lemma subseq_set: "subseq a b \<Longrightarrow> x \<in> set a \<Longrightarrow> x \<in> set b"
  by (erule list_emb_set) auto

lemma after_insert_buffer [simp]:
  "wr_buffer (after_insert now batch out wr) = io_retry out @ drop (length batch) (wr_buffer wr)"
  by (simp add: after_insert_def Let_def count_error_def record_flush_failure_def)

lemma after_insert_queued:
  assumes "queued (after_insert now batch out wr) k i"
  shows "queued wr k i \<or> (\<exists>ev \<in> set (io_durable out). k = be_stream ev \<and> i = be_id ev)"
proof -
  let ?wr1 = "wr\<lparr>wr_buffer := io_retry out @ drop (length batch) (wr_buffer wr)\<rparr>"
  have "wr_pending_ack (after_insert now batch out wr) =
      wr_pending_ack (if io_durable out \<noteq> [] then queue_durable_ack (io_durable out) ?wr1 else ?wr1)"
    by (simp add: after_insert_def Let_def count_error_def record_flush_failure_def)
  with assms have "queued (if io_durable out \<noteq> [] then queue_durable_ack (io_durable out) ?wr1 else ?wr1) k i"
    by (simp add: queued_def)
  then have "queued ?wr1 k i \<or> (\<exists>ev \<in> set (io_durable out). k = be_stream ev \<and> i = be_id ev)"
    by (cases "io_durable out \<noteq> []") (use queue_durable_ack_queued in \<open>auto\<close>)
  then show ?thesis by (simp add: queued_def)
qed

lemma finish_insert_inv:
  assumes inv: "run_inv cfg loads s" and ph: "rn_phase s = Inserting ok batch"
    and acc: "accounted ins batch out (rn_pipe s)"
    and f: "finish_insert now ok batch out (rn_writer s) = (wr, ph')"
  shows "run_inv cfg loads (s\<lparr>rn_writer := wr, rn_phase := ph'\<rparr>)"
proof (rule writer_inv [OF inv])
  let ?wr = "after_insert now batch out (rn_writer s)"
  have same: "wr_buffer wr = wr_buffer ?wr" "wr_pending_ack wr = wr_pending_ack ?wr"
    and ph': "ph' = Idle \<or> ph' = Acking (wr_pending_ack ?wr) [] (AtEnd (io_transient out))"
    using f by (auto simp: finish_insert_def Let_def reset_flush_retry_def split: if_splits)
  have b: "prefix batch (wr_buffer (rn_writer s))" using invE(8) [OF inv] ph by (simp add: phase_ok_def)
  have buf: "buffered_ok loads s ev" if "ev \<in> set batch" for ev
    using invE(5) [OF inv] set_mono_prefix [OF b] that by blast
  have sub: "set (io_retry out) \<subseteq> set batch" "set (io_durable out) \<subseteq> set batch"
    using acc unfolding accounted_def by (blast intro: subseq_set)+
  show "\<forall>ev \<in> set (wr_buffer wr). buffered_ok loads s ev"
    using sub(1) buf invE(5) [OF inv] by (auto simp: same dest: in_set_dropD)
  show q: "snapshots_ok cfg loads s (wr_pending_ack wr)"
    unfolding same snapshots_queued
  proof (intro allI impI)
    fix k i assume "queued ?wr k i"
    from after_insert_queued [OF this] show "ack_ok cfg loads s k i"
    proof
      assume "queued (rn_writer s) k i"
      then show ?thesis using invE(6) [OF inv] unfolding snapshots_queued by blast
    next
      assume "\<exists>ev \<in> set (io_durable out). k = be_stream ev \<and> i = be_id ev"
      then obtain ev where ev: "ev \<in> set (io_durable out)" "k = be_stream ev" "i = be_id ev" by blast
      with sub(2) buf have "buffered_ok loads s ev" by blast
      moreover have "stored (rn_pipe s) ev" using acc ev(1) by (simp add: accounted_def)
      ultimately show ?thesis
        unfolding ack_ok_def buffered_ok_def settled_def is_complete_def stored_def ev(2,3) by blast
    qed
  qed
  show "phase_ok cfg loads (s\<lparr>rn_writer := wr, rn_phase := ph'\<rparr>)"
    using ph' q by (auto simp: phase_ok_def same)
qed

lemma insert_inv:
  assumes inv: "run_inv cfg loads s" and ph: "rn_phase s = Inserting ok batch"
    and i: "insert_or_isolate cfg ins dl 0 batch (rn_writer s, rn_pipe s) = (out, wr1, px)"
    and f: "finish_insert now ok batch out wr1 = (wr, ph')"
  shows "run_inv cfg loads (s\<lparr>rn_writer := wr, rn_pipe := px, rn_phase := ph'\<rparr>)"
proof -
  have r: "rejects_only cfg (rn_writer s, rn_pipe s) (wr1, px) (delivery_of ` set batch)"
    and acc: "accounted ins batch out px"
    using insert_or_isolate_effect [OF i] by simp_all
  have b: "prefix batch (wr_buffer (rn_writer s))" using invE(8) [OF inv] ph by (simp add: phase_ok_def)
  have "\<exists>f. delivered s k j f" if "(k, j) \<in> delivery_of ` set batch" for k j
    using that invE(5) [OF inv] set_mono_prefix [OF b] by (fastforce simp: delivery_of_def buffered_ok_def)
  from rejects_inv [OF inv r this] have "run_inv cfg loads (s\<lparr>rn_writer := wr1, rn_pipe := px\<rparr>)" by blast
  moreover have "s\<lparr>rn_writer := wr1, rn_pipe := px\<rparr>\<lparr>rn_writer := wr, rn_phase := ph'\<rparr>
      = s\<lparr>rn_writer := wr, rn_pipe := px, rn_phase := ph'\<rparr>" by simp
  ultimately show ?thesis
    using finish_insert_inv [of cfg loads "s\<lparr>rn_writer := wr1, rn_pipe := px\<rparr>" ok batch ins out now wr ph'] ph acc f
    by (metis run.select_convs(1,2,4) run.surjective run.update_convs(1,2))
qed

section \<open>Acknowledgements\<close>

lemma flush_inv:
  assumes inv: "run_inv cfg loads s" and f: "start_flush (rn_writer s) = (wr, ph)"
  shows "run_inv cfg loads (s\<lparr>rn_writer := wr, rn_phase := ph\<rparr>)"
  by (rule writer_inv [OF inv])
    (use invE(5,6) [OF inv] f in \<open>auto simp: start_flush_def copy_buffer_def reset_flush_retry_def phase_ok_def
      split: if_splits\<close>)

lemma dpop_memD: "e \<in> set (dpop d k) \<Longrightarrow> e \<in> set d"
  by (auto simp: dpop_def)

lemma settle_stream_queued: "queued (settle_stream snap ok wr) k i \<Longrightarrow> queued wr k i"
proof -
  assume q: "queued (settle_stream snap ok wr) k i"
  obtain key ids where snap: "snap = (key, ids)" by (cases snap)
  show ?thesis
  proof (cases ok)
    case True
    let ?cur = "case map_of (wr_pending_ack wr) key of None \<Rightarrow> [] | Some c \<Rightarrow> c"
    let ?rem = "filter (\<lambda>i. i \<notin> set ids) ?cur"
    have "wr_pending_ack (settle_stream snap ok wr) = (if ?rem \<noteq> [] then dset (wr_pending_ack wr) key ?rem
        else dpop (wr_pending_ack wr) key)"
      using True by (simp add: settle_stream_def snap Let_def)
    with q obtain l where l: "i \<in> set l"
      "(k, l) \<in> set (if ?rem \<noteq> [] then dset (wr_pending_ack wr) key ?rem else dpop (wr_pending_ack wr) key)"
      unfolding queued_def by auto
    then have "(k, l) \<in> set (wr_pending_ack wr) \<or> (k = key \<and> l = ?rem)"
      by (cases "?rem = []") (auto dest: dset_memD dpop_memD simp del: filter_empty_conv)
    then show ?thesis
    proof
      assume "k = key \<and> l = ?rem"
      with l(1) have "k = key" "i \<in> set ?cur" by auto
      then show ?thesis
        by (cases "map_of (wr_pending_ack wr) key") (auto simp: queued_def dest: map_of_SomeD)
    qed (use l(1) queued_def in blast)
  qed (use q in \<open>simp add: settle_stream_def snap\<close>)
qed

lemma settle_streams_queued: "queued (settle_streams results wr) k i \<Longrightarrow> queued wr k i"
  by (induction results wr rule: settle_streams.induct) (auto dest: settle_stream_queued)

lemma settle_stream_buffer [simp]: "wr_buffer (settle_stream snap ok wr) = wr_buffer wr"
  by (simp add: settle_stream_def Let_def split: prod.splits)

lemma settle_streams_buffer [simp]: "wr_buffer (settle_streams results wr) = wr_buffer wr"
  by (induction results wr rule: settle_streams.induct) auto

lemma settle_inv:
  assumes inv: "run_inv cfg loads s" and a: "after_acks stage results (rn_writer s) = (wr, ph)"
  shows "run_inv cfg loads (s\<lparr>rn_writer := wr, rn_phase := ph\<rparr>)"
proof (rule writer_inv [OF inv])
  let ?wr = "settle_streams results (rn_writer s)"
  have same: "wr_buffer wr = wr_buffer (rn_writer s)" "wr_pending_ack wr = wr_pending_ack ?wr"
    and ph: "ph = Idle \<or> (\<exists>ok. ph = Inserting ok (wr_buffer (rn_writer s)))"
    using a by (auto simp: after_acks_def copy_buffer_def reset_flush_retry_def Let_def
        split: ack_stage.splits if_splits)
  show "snapshots_ok cfg loads s (wr_pending_ack wr)"
    using invE(6) [OF inv] settle_streams_queued unfolding same snapshots_queued by blast
  show "\<forall>ev \<in> set (wr_buffer wr). buffered_ok loads s ev" using invE(5) [OF inv] same by simp
  show "phase_ok cfg loads (s\<lparr>rn_writer := wr, rn_phase := ph\<rparr>)" using ph same by (auto simp: phase_ok_def)
qed

lemma verify_side_effect:
  assumes "verify_boundary_deliveries cfg key ids calls (wr, px) = (ok, qx)"
  shows "side_effect px qx"
  using assms degrade_side_effect
  by (auto simp: verify_boundary_deliveries_def Let_def split: if_splits sum.splits)

lemma ack_and_delete_inv:
  assumes inv: "run_inv cfg loads s" and acks: "\<forall>i \<in> set ids. ack_ok cfg loads s key i"
  shows "run_inv cfg loads (s\<lparr>rn_pipe := set_stream key (snd (ack_and_delete ids (pi_streams (rn_pipe s) key))) (rn_pipe s)\<rparr>)"
proof (rule shrink_inv [OF inv stream_ok_ack_and_delete [OF invE(1) [OF inv]]])
  let ?r = "pi_streams (rn_pipe s) key"
  fix i f
  assume "i \<in> set (entry_ids ?r)" "i \<notin> set (entry_ids (snd (ack_and_delete ids ?r)))" and p: "(key, i, f) \<in> rn_published s"
  then have "i \<in> set ids" by (simp add: ack_and_delete_stream entry_ids_filter_pending)
  with acks obtain g where "(key, i, g) \<in> rn_published s" "settled cfg loads (rn_pipe s) key i g"
    unfolding ack_ok_def delivered_def by blast
  with published_okD(5) [OF invE(2) [OF inv] p] show "settled cfg loads (rn_pipe s) key i f" by blast
qed (auto simp: ack_and_delete_stream)

section \<open>Watermarks\<close>

text \<open>A watermark row may be replaced by one that is true and does not undo a degradation.\<close>

lemma watermark_extends:
  assumes "degraded (rn_pipe s) p \<Longrightarrow> wm_status w = ''degraded''"
  shows "extends s (s\<lparr>rn_pipe := (rn_pipe s)\<lparr>pi_watermarks := (pi_watermarks (rn_pipe s))(p := Some w)\<rparr>\<rparr>)"
  using assms by (simp add: extends_def degraded_def)

lemma watermark_inv:
  assumes inv: "run_inv cfg loads s" and ok: "watermark_ok loads s p w"
    and keep: "degraded (rn_pipe s) p \<Longrightarrow> wm_status w = ''degraded''"
  shows "run_inv cfg loads (s\<lparr>rn_pipe := (rn_pipe s)\<lparr>pi_watermarks := (pi_watermarks (rn_pipe s))(p := Some w)\<rparr>\<rparr>)"
    (is "run_inv cfg loads ?t")
proof -
  note x = watermark_extends [of s p w, OF keep]
  have complete: "is_complete loads (rn_pipe ?t) = is_complete loads (rn_pipe s)"
    by (simp add: fun_eq_iff is_complete_def cong: option.case_cong)
  have wm: "watermark_ok loads ?t = watermark_ok loads s" by (simp add: fun_eq_iff watermark_ok_def complete [simplified])
  have "settled_ok cfg loads ?t"
    using invE(3) [OF inv] settled_mono [OF _ x] unfolding settled_ok_def by (simp del: fun_upd_apply) blast
  moreover have "\<forall>q v. pi_watermarks (rn_pipe ?t) q = Some v \<longrightarrow> watermark_ok loads ?t q v"
    unfolding wm using invE(4) [OF inv] ok by simp
  moreover have "phase_ok cfg loads ?t"
    using invE(8) [OF inv] snapshots_mono [OF _ x] by (auto simp: phase_ok_def split: phase.splits)
  moreover have "\<forall>ev \<in> set (wr_buffer (rn_writer ?t)). buffered_ok loads ?t ev"
    using invE(5) [OF inv] buffered_mono [OF _ x] by simp
  moreover have "snapshots_ok cfg loads ?t (wr_pending_ack (rn_writer ?t))"
    using invE(6) [OF inv] snapshots_mono [OF _ x] by simp
  moreover have "\<forall>(k, i, f) \<in> set (rn_inbox ?t). delivered ?t k i f"
    using invE(7) [OF inv] delivered_mono [OF _ x] by (simp del: fun_upd_apply) blast
  moreover have "published_ok ?t" "trim_ok ?t" "\<forall>k. stream_ok (pi_streams (rn_pipe ?t) k)"
    using invE(1,2,9) [OF inv] by (simp_all add: published_ok_def trim_ok_def split: option.splits)
  ultimately show ?thesis unfolding run_inv_def by blast
qed

text \<open>
  The advance of the frontier is sound: with nothing pending, every delivery up to the group's
  position has left the stream, so it is settled; and it was not rejected, because a rejection
  would have degraded the row.
\<close>

lemma frontier_ok:
  assumes inv: "run_inv cfg loads s" and auth: "wc_authority cfg"
    and pend: "rs_pending (pi_streams (rn_pipe s) key) = []"
    and p: "project_id_from_stream key = Inr p"
    and w: "\<not> degraded (rn_pipe s) p"
    and w': "wm_stream_key w' = key" "wm_contiguous w' \<le> rs_last_delivered (pi_streams (rn_pipe s) key)"
      "wm_status w' \<in> {''healthy'', ''degraded''}"
  shows "watermark_ok loads s p w'"
proof -
  let ?r = "pi_streams (rn_pipe s) key"
  have "i \<notin> set (entry_ids ?r) \<and> is_complete loads (rn_pipe s) key i f"
    if pub: "(key, i, f) \<in> rn_published s" and i: "i \<le> wm_contiguous w'" for i f
  proof -
    have "i \<le> rs_last_delivered ?r" using i w'(2) by (rule order_trans)
    with pend invE(1) [OF inv, of key] have gone: "i \<notin> set (entry_ids ?r)" unfolding stream_ok_def by auto
    with invE(3) [OF inv] pub have "settled cfg loads (rn_pipe s) key i f" unfolding settled_ok_def by blast
    with auth w p have "is_complete loads (rn_pipe s) key i f" by (simp add: settled_def)
    with gone show ?thesis ..
  qed
  then show ?thesis using p w' by (simp add: watermark_ok_def)
qed

lemma advance_cases:
  assumes a: "advance_pipeline_frontier cfg key ids calls (wr0, px) = (ok, wr, qx)"
  obtains (same) "qx = px"
  | (degrade) ok' where "degrade_pipeline_authority cfg key ''stream_state_unverifiable'' (fc_degrade calls) px = (ok', qx)"
  | (advance) p w fresh where "wc_authority cfg" "rs_pending (pi_streams px key) = []"
      "project_id_from_stream key = Inr p" "pi_watermarks px p = Some w" "wm_stream_key w = key" "wm_status w = ''healthy''"
      "qx = px\<lparr>pi_watermarks := (pi_watermarks px)(p :=
         Some (advanced_row w (group_info_of (fc_lag_known calls) (pi_streams px key)) fresh))\<rparr>"
proof -
  let ?g = "group_info_of (fc_lag_known calls) (pi_streams px key)"
  let ?fin = "remdups (finalized_ids wr0 key @ ids)"
  show thesis
  proof (cases "wc_authority cfg \<and> ids \<noteq> []")
    case False
    with a have "qx = px" by (cases "wc_authority cfg") (simp_all add: advance_pipeline_frontier_def)
    then show thesis by (rule same)
  next
    case run: True
    show thesis
    proof (cases "fc_info calls \<noteq> CallOk \<or> \<not> gi_lag_known ?g")
      case True
      with run a have "qx = snd (degrade_pipeline_authority cfg key ''stream_state_unverifiable'' (fc_degrade calls) px)"
        by (simp add: advance_pipeline_frontier_def Let_def)
      then show thesis using degrade by (metis prod.collapse)
    next
      case info: False
      show thesis
      proof (cases "0 < gi_pending ?g \<or> \<not> valid_key key")
        case True
        with run info a have "qx = px"
          by (auto simp: advance_pipeline_frontier_def Let_def valid_key_def split: sum.splits if_splits)
        then show thesis by (rule same)
      next
        case idle: False
        then obtain p where p: "project_id_from_stream key = Inr p" by (auto simp: valid_key_def)
        show thesis
        proof (cases "\<exists>w. pi_watermarks px p = Some w \<and> wm_stream_key w = key \<and> wm_status w = ''healthy''")
          case True
          then obtain w where w: "pi_watermarks px p = Some w" "wm_stream_key w = key" "wm_status w = ''healthy''" by blast
          let ?fresh = "{i \<in> set ?fin. id_less (wm_contiguous w) i}"
          have "qx = px \<or> qx = px\<lparr>pi_watermarks := (pi_watermarks px)(p := Some (advanced_row w ?g ?fresh))\<rparr>"
            using a run info idle p w unfolding advance_pipeline_frontier_def Let_def
            by (cases "fc_commit calls") simp_all
          then show thesis using same advance [OF _ _ p w] run idle by (auto simp: group_info_of_def)
        next
          case False
          have "qx = px"
          proof (cases "pi_watermarks px p")
            case None
            with a run info idle p show ?thesis by (simp add: advance_pipeline_frontier_def Let_def)
          next
            case (Some w)
            with False have "wm_stream_key w \<noteq> key \<or> wm_status w \<noteq> ''healthy''" by blast
            with Some a run info idle p show ?thesis
              by (cases "fc_commit calls"; cases "wm_stream_key w = key"; cases "wm_status w = ''degraded''")
                (simp_all add: advance_pipeline_frontier_def Let_def fun_upd_idem)
          qed
          then show thesis by (rule same)
        qed
      qed
    qed
  qed
qed

lemma advance_writer:
  assumes "advance_pipeline_frontier cfg key ids calls (wr0, px) = (ok, wr, qx)"
  shows "wr_buffer wr = wr_buffer wr0" "wr_pending_ack wr = wr_pending_ack wr0"
  using assms by (auto simp: advance_pipeline_frontier_def Let_def split: if_splits sum.splits option.splits call.splits)

lemma advance_inv:
  assumes inv: "run_inv cfg loads s"
    and a: "advance_pipeline_frontier cfg key ids calls (wr0, rn_pipe s) = (ok, wr, px)"
  shows "run_inv cfg loads (s\<lparr>rn_pipe := px\<rparr>)"
  using a
proof (cases rule: advance_cases)
  case same
  with inv show ?thesis by simp
next
  case degrade
  from side_effect_inv [OF inv degrade_side_effect [OF this]] show ?thesis .
next
  case (advance p w fresh)
  let ?w = "advanced_row w (group_info_of (fc_lag_known calls) (pi_streams (rn_pipe s) key)) fresh"
  have nd: "\<not> degraded (rn_pipe s) p" using advance by (simp add: degraded_def)
  have c: "wm_contiguous w \<le> rs_last_delivered (pi_streams (rn_pipe s) key)"
    using invE(4) [OF inv advance(4)] advance by (simp add: watermark_ok_def)
  have "wm_stream_key ?w = key" "wm_contiguous ?w \<le> rs_last_delivered (pi_streams (rn_pipe s) key)"
    "wm_status ?w \<in> {''healthy'', ''degraded''}"
    using advance c by (simp_all add: advanced_row_def group_info_of_def)
  from frontier_ok [OF inv advance(1) _ advance(3) nd this] have "watermark_ok loads s p ?w"
    using advance(2) by blast
  from watermark_inv [OF inv this] nd show ?thesis unfolding advance(7) by blast
qed

lemma advance_extends:
  assumes "advance_pipeline_frontier cfg key ids calls (wr0, rn_pipe s) = (ok, wr, px)"
  shows "extends s (s\<lparr>rn_pipe := px\<rparr>)"
  using assms
proof (cases rule: advance_cases)
  case degrade
  show ?thesis using side_effect_extends [OF degrade_side_effect [OF degrade]] .
next
  case (advance p w fresh)
  then have "\<not> degraded (rn_pipe s) p" by (simp add: degraded_def)
  then show ?thesis using watermark_extends [of s p] advance(7) by simp
qed simp

lemma set_stream_extends:
  "rs_last_delivered r = rs_last_delivered (pi_streams (rn_pipe s) key) \<Longrightarrow>
     extends s (s\<lparr>rn_pipe := set_stream key r (rn_pipe s)\<rparr>)"
  by (simp add: extends_def set_stream_def degraded_def)

section \<open>The remaining steps\<close>

lemma finalize_inv:
  assumes inv: "run_inv cfg loads s" and acks: "\<forall>i \<in> set ids. ack_ok cfg loads s key i"
    and f: "finalize_durable_stream cfg key ids calls (rn_writer s, rn_pipe s) = (ok, wr, px)"
  shows "run_inv cfg loads (s\<lparr>rn_writer := wr, rn_pipe := px\<rparr>) \<and> extends s (s\<lparr>rn_writer := wr, rn_pipe := px\<rparr>)"
proof -
  obtain v px1 where v: "verify_boundary_deliveries cfg key ids (fz_verify calls) (rn_writer s, rn_pipe s) = (v, px1)"
    by (metis surj_pair)
  let ?s1 = "s\<lparr>rn_pipe := px1\<rparr>"
  note se = verify_side_effect [OF v]
  note inv1 = side_effect_inv [OF inv se]
  have acks1: "\<forall>i \<in> set ids. ack_ok cfg loads ?s1 key i" using acks ack_mono [OF _ side_effect_extends [OF se]] by blast
  obtain counts r where c: "ack_and_delete ids (pi_streams px1 key) = (counts, r)" by (metis surj_pair)
  let ?px2 = "set_stream key r px1"
  have inv2: "run_inv cfg loads (s\<lparr>rn_pipe := ?px2\<rparr>)" using ack_and_delete_inv [OF inv1 acks1] c by simp
  have x1: "extends s ?s1" using side_effect_extends [OF se] .
  have "rs_last_delivered r = rs_last_delivered (pi_streams (rn_pipe ?s1) key)"
    using ack_and_delete_stream [of ids "pi_streams px1 key"] c by simp
  from extends_trans [OF x1 set_stream_extends [OF this]] have x2: "extends s (s\<lparr>rn_pipe := ?px2\<rparr>)" by simp
  have writer: "run_inv cfg loads (s\<lparr>rn_writer := wr, rn_pipe := px\<rparr>) \<and> extends s (s\<lparr>rn_writer := wr, rn_pipe := px\<rparr>)"
    if "run_inv cfg loads (s\<lparr>rn_pipe := px\<rparr>) \<and> extends s (s\<lparr>rn_pipe := px\<rparr>)" "wr_buffer wr = wr_buffer (rn_writer s)"
      "wr_pending_ack wr = wr_pending_ack (rn_writer s)"
  proof -
    have "s\<lparr>rn_pipe := px, rn_writer := wr\<rparr> = s\<lparr>rn_writer := wr, rn_pipe := px\<rparr>" by simp
    moreover have "run_inv cfg loads (s\<lparr>rn_pipe := px, rn_writer := wr\<rparr>)"
      using run_inv_phase_writer [of cfg loads "s\<lparr>rn_pipe := px\<rparr>" wr] that by simp
    moreover have "extends s (s\<lparr>rn_writer := wr, rn_pipe := px\<rparr>)" using that(1) by (simp add: extends_def)
    ultimately show ?thesis by metis
  qed
  have mark: "wr_buffer (mark_uncertain key w) = wr_buffer w" "wr_pending_ack (mark_uncertain key w) = wr_pending_ack w" for w
    by (simp_all add: mark_uncertain_def)
  show ?thesis
  proof (cases "v \<and> fz_exec calls = CallOk")
    case False
    with f v c have "px = px1 \<or> px = ?px2" "wr = rn_writer s \<or> wr = mark_uncertain key (rn_writer s)"
      by (cases v; cases "fz_exec calls"; auto simp: finalize_durable_stream_def set_stream_def Let_def)+
    then show ?thesis using inv1 inv2 x1 x2 mark by (intro writer) auto
  next
    case True
    show ?thesis
    proof (cases "counts \<noteq> (length ids, length ids) \<and> \<not> (key \<in> wr_uncertain (rn_writer s) \<and> counts = (0, 0))")
      case bad: True
      with True f v c have "wr = rn_writer s"
        "px = snd (degrade_pipeline_authority cfg key ''stream_state_unverifiable'' (fz_degrade calls) ?px2)"
        by (auto simp: finalize_durable_stream_def set_stream_def Let_def)
      moreover have "side_effect ?px2 (snd (degrade_pipeline_authority cfg key ''stream_state_unverifiable'' (fz_degrade calls) ?px2))"
        by (rule degrade_side_effect [OF prod.collapse [symmetric]])
      ultimately show ?thesis
        using side_effect_inv [OF inv2] extends_trans [OF x2 side_effect_extends] by (intro writer) auto
    next
      case False
      with True f v c have a: "advance_pipeline_frontier cfg key ids (fz_frontier calls)
          (mark_uncertain key (rn_writer s), rn_pipe (s\<lparr>rn_pipe := ?px2\<rparr>)) = (ok, wr, px)"
        by (auto simp: finalize_durable_stream_def set_stream_def Let_def split: if_splits)
      show ?thesis
        using advance_inv [OF inv2 a] extends_trans [OF x2 advance_extends [OF a]] advance_writer [OF a] mark
        by (intro writer) simp_all
    qed
  qed
qed

lemma initialize_inv:
  assumes inv: "run_inv cfg loads s"
    and i: "initialize_pipeline_authority cfg key False (rs_last_delivered (pi_streams (rn_pipe s) key))
      (rs_entries_read (pi_streams (rn_pipe s) key)) max_deleted calls (rn_pipe s) = (ok, px)"
  shows "run_inv cfg loads (s\<lparr>rn_pipe := px\<rparr>)"
proof (cases "wc_authority cfg \<and> valid_key key \<and> fst calls = CallOk")
  case False
  with i have "px = rn_pipe s"
    by (auto simp: initialize_pipeline_authority_def valid_key_def split: if_splits sum.splits)
  with inv show ?thesis by simp
next
  case True
  then obtain p where p: "project_id_from_stream key = Inr p" by (auto simp: valid_key_def)
  show ?thesis
  proof (cases "pi_watermarks (rn_pipe s) p")
    case (Some w)
    with True p i have "px = rn_pipe s
        \<or> degrade_pipeline_authority cfg key ''stream_state_unverifiable'' (snd calls) (rn_pipe s) = (ok, px)"
      by (auto simp: initialize_pipeline_authority_def split: if_splits)
    then show ?thesis using inv side_effect_inv [OF inv degrade_side_effect] by auto
  next
    case None
    let ?r = "pi_streams (rn_pipe s) key"
    define safe where "safe = (rs_last_delivered ?r = (0, 0) \<and> max_deleted = (0, 0) \<and> rs_entries_read ?r = 0)"
    let ?w = "\<lparr>wm_stream_key = key, wm_start = (0, 0), wm_contiguous = (0, 0), wm_entries_read = rs_entries_read ?r,
      wm_status = (if safe then ''healthy'' else ''degraded''),
      wm_reason = (if safe then None else Some ''legacy_state_unverifiable'')\<rparr>"
    have px: "px = rn_pipe s \<or> px = (rn_pipe s)\<lparr>pi_watermarks := (pi_watermarks (rn_pipe s))(p := Some ?w)\<rparr>"
      using True p None i by (cases "snd calls") (auto simp: initialize_pipeline_authority_def Let_def safe_def)
    have "\<not> (key, j, f) \<in> rn_published s" if "j \<le> (0, 0)" for j f
      using published_okD(2) [OF invE(2) [OF inv]] that leD by blast
    then have "watermark_ok loads s p ?w" using p by (auto simp: watermark_ok_def)
    with None px show ?thesis using inv watermark_inv [OF inv, of p ?w] by (auto simp: degraded_def)
  qed
qed

lemma next_id_le: "i < j \<Longrightarrow> snd j < 2 ^ 64 \<Longrightarrow> next_id i \<le> j"
  by (cases i; cases j) (auto simp: next_id_def less_eq_prod_def less_prod_def)

lemma least_id_le: "least_id is = Some b \<Longrightarrow> i \<in> set is \<Longrightarrow> b \<le> i"
proof (induction "is" arbitrary: b)
  case (Cons j js)
  show ?case
  proof (cases "least_id js")
    case None
    with Cons.prems show ?thesis by (cases js) (auto split: option.splits if_splits)
  next
    case (Some c)
    with Cons.prems(1) have b: "b \<le> c" "b \<le> j" by (auto split: if_splits)
    from Cons.prems(2) show ?thesis using Cons.IH [OF Some] b by (auto intro: order_trans)
  qed
qed simp

lemma least_id_mem: "least_id is = Some b \<Longrightarrow> b \<in> set is"
  by (induction "is" arbitrary: b) (auto split: option.splits if_splits)

lemma trim_boundary_ok:
  assumes inv: "run_inv cfg loads s" and b: "trim_boundary (pi_streams (rn_pipe s) key) = Some bound"
  shows "trim_ok (s\<lparr>rn_trim := Some (key, bound)\<rparr>)"
proof -
  let ?r = "pi_streams (rn_pipe s) key"
  note ok = invE(1) [OF inv, of key]
  have key: "bound \<le> i" if i: "rs_last_delivered ?r < i" "snd i < 2 ^ 64" for i
  proof (cases "rs_pending ?r = []")
    case True
    with b next_id_le [OF i] show ?thesis by (auto simp: trim_boundary_def split: if_splits)
  next
    case False
    with b have "least_id (rs_pending ?r) = Some bound" by (auto simp: trim_boundary_def split: if_splits)
    from least_id_mem [OF this] ok have "bound \<le> rs_last_delivered ?r" by (simp add: stream_ok_def)
    with i(1) show ?thesis by simp
  qed
  have "bound \<le> i" if e: "i \<in> set (entry_ids ?r)" for i
  proof (cases "i \<le> rs_last_delivered ?r")
    case True
    with ok e have "i \<in> set (rs_pending ?r)" by (simp add: stream_ok_def)
    moreover from this b have "least_id (rs_pending ?r) = Some bound"
      by (auto simp: trim_boundary_def split: if_splits)
    ultimately show ?thesis using least_id_le by blast
  next
    case False
    obtain f where "(key, i, f) \<in> rn_published s" using entry_published [OF invE(2) [OF inv] e] .
    with False key published_okD(4) [OF invE(2) [OF inv]] show ?thesis by simp
  qed
  moreover have "rs_last_delivered ?r \<le> rs_last_generated ?r" using ok by (simp add: stream_ok_def)
  ultimately show ?thesis using key le_less_trans by (simp add: trim_ok_def)
qed

lemma trim_local [simp]:
  "delivered (s\<lparr>rn_trim := b\<rparr>) = delivered s"
  "buffered_ok loads (s\<lparr>rn_trim := b\<rparr>) = buffered_ok loads s"
  "snapshots_ok cfg loads (s\<lparr>rn_trim := b\<rparr>) = snapshots_ok cfg loads s"
  "published_ok (s\<lparr>rn_trim := b\<rparr>) = published_ok s"
  "settled_ok cfg loads (s\<lparr>rn_trim := b\<rparr>) = settled_ok cfg loads s"
  "watermark_ok loads (s\<lparr>rn_trim := b\<rparr>) = watermark_ok loads s"
  "phase_ok cfg loads (s\<lparr>rn_trim := b\<rparr>) = phase_ok cfg loads s"
  by (simp_all add: fun_eq_iff delivered_def buffered_ok_def ack_ok_def snapshots_ok_def published_ok_def
      settled_ok_def watermark_ok_def phase_ok_def split: phase.splits)

lemma trim_inv:
  "run_inv cfg loads s \<Longrightarrow> trim_ok (s\<lparr>rn_trim := b\<rparr>) \<Longrightarrow> run_inv cfg loads (s\<lparr>rn_trim := b\<rparr>)"
  by (simp add: run_inv_def)

text \<open>Trimming to the boundary that was observed deletes no entry.\<close>

lemma trim_noop:
  assumes "run_inv cfg loads s" and "rn_trim s = Some (key, bound)"
  shows "xtrim_minid bound (pi_streams (rn_pipe s) key) = pi_streams (rn_pipe s) key"
proof -
  have "\<forall>e \<in> set (rs_entries (pi_streams (rn_pipe s) key)). \<not> fst e < bound"
    using invE(9) [OF assms(1)] assms(2) by (simp add: trim_ok_def entry_ids_def not_less)
  then show ?thesis by (simp add: xtrim_minid_def split_def)
qed

text \<open>The boundary table has no part in the invariant, and a crash forgets only what is in memory.\<close>

lemma boundaries_inv:
  assumes "run_inv cfg loads s"
  shows "run_inv cfg loads (s\<lparr>rn_pipe := (rn_pipe s)\<lparr>pi_boundaries := bs\<rparr>\<rparr>)"
  by (rule side_effect_inv [OF assms]) (simp add: side_effect_def)

lemma crash_inv:
  assumes "run_inv cfg loads s"
  shows "run_inv cfg loads (s\<lparr>rn_writer := initial_writer now, rn_inbox := [], rn_phase := Idle, rn_trim := None\<rparr>)"
proof -
  have "run_inv cfg loads (s\<lparr>rn_inbox := []\<rparr>)" using inbox_inv [OF assms] by simp
  then have "run_inv cfg loads (s\<lparr>rn_inbox := [], rn_writer := initial_writer now, rn_phase := Idle\<rparr>)"
    using writer_inv [of cfg loads "s\<lparr>rn_inbox := []\<rparr>" "initial_writer now" Idle]
    by (simp add: initial_writer_def phase_ok_def)
  from trim_inv [OF this, of None] have "run_inv cfg loads
      (s\<lparr>rn_inbox := [], rn_writer := initial_writer now, rn_phase := Idle, rn_trim := None\<rparr>)"
    by (simp add: trim_ok_def)
  moreover have "s\<lparr>rn_inbox := [], rn_writer := initial_writer now, rn_phase := Idle, rn_trim := None\<rparr>
      = s\<lparr>rn_writer := initial_writer now, rn_inbox := [], rn_phase := Idle, rn_trim := None\<rparr>" by simp
  ultimately show ?thesis by simp
qed

section \<open>Every reachable state\<close>

lemma writer_pipe_local:
  "ack_ok cfg loads (s\<lparr>rn_writer := wr, rn_pipe := px\<rparr>) = ack_ok cfg loads (s\<lparr>rn_pipe := px\<rparr>)"
  "snapshots_ok cfg loads (s\<lparr>rn_writer := wr, rn_pipe := px\<rparr>) = snapshots_ok cfg loads (s\<lparr>rn_pipe := px\<rparr>)"
  by (simp_all add: fun_eq_iff ack_ok_def snapshots_ok_def delivered_def)

lemma initial_inv: "run_inv cfg loads (initial_run now)"
  by (simp add: run_inv_def initial_run_def initial_pipe_def initial_writer_def stream_ok_empty published_ok_def
      settled_ok_def phase_ok_def trim_ok_def) (simp add: empty_stream_def)

lemma wstep_inv:
  assumes "wstep cfg loads s t" and inv: "run_inv cfg loads s"
  shows "run_inv cfg loads t"
  using assms(1)
proof cases
  case (publish key i data)
  then show ?thesis using publish_inv [OF inv] by simp
next
  case (read_new key messages stream)
  then show ?thesis using read_new_inv [OF inv] by simp
next
  case (claim wr px key messages stale outcome)
  then show ?thesis using claim_inv [OF inv] by simp
next
  case (accept wr px rest key message calls)
  then show ?thesis using accept_inv [OF inv] by simp
next
  case leave
  then show ?thesis using inbox_inv [OF inv] by simp
next
  case flush
  then show ?thesis using flush_inv [OF inv] by simp
next
  case ack_only
  have "phase_ok cfg loads (s\<lparr>rn_writer := rn_writer s, rn_phase := Acking (wr_pending_ack (rn_writer s)) [] AckOnly\<rparr>)"
    using invE(6) [OF inv] by (simp add: phase_ok_def)
  from writer_inv [OF inv invE(5,6) [OF inv] this] show ?thesis using ack_only by simp
next
  case (finalize todo key ids rest results stage calls ok wr px)
  have snaps: "snapshots_ok cfg loads s (todo @ (key, ids) # rest @ map fst results)"
    using invE(8) [OF inv] finalize by (simp add: phase_ok_def)
  let ?u = "s\<lparr>rn_writer := wr, rn_pipe := px\<rparr>"
  have "\<forall>i \<in> set ids. ack_ok cfg loads s key i" using snaps by simp
  from finalize_inv [OF inv this finalize(3)] have i1: "run_inv cfg loads ?u" and "extends s ?u" by blast+
  then have "phase_ok cfg loads (?u\<lparr>rn_writer := wr, rn_phase := Acking (todo @ rest) (results @ [((key, ids), ok)]) stage\<rparr>)"
    using snapshots_mono [OF snaps, of ?u] by (simp add: phase_ok_def writer_pipe_local)
  from writer_inv [OF i1 _ _ this] invE(5,6) [OF i1] have "run_inv cfg loads
      (?u\<lparr>rn_writer := wr, rn_phase := Acking (todo @ rest) (results @ [((key, ids), ok)]) stage\<rparr>)" by simp
  moreover have "?u\<lparr>rn_writer := wr, rn_phase := Acking (todo @ rest) (results @ [((key, ids), ok)]) stage\<rparr> = t"
    using finalize(1) by simp
  ultimately show ?thesis by metis
next
  case settle
  then show ?thesis using settle_inv [OF inv] by simp
next
  case insert
  then show ?thesis using insert_inv [OF inv] by simp
next
  case initialize
  then show ?thesis using initialize_inv [OF inv] by simp
next
  case (observe_history key bound)
  then show ?thesis using trim_inv [OF inv trim_boundary_ok [OF inv]] by simp
next
  case (trim key bound)
  from trim_inv [OF inv, of None] have "run_inv cfg loads (s\<lparr>rn_trim := None\<rparr>)" by (simp add: trim_ok_def)
  moreover have "set_stream key (xtrim_minid bound (pi_streams (rn_pipe s) key)) (rn_pipe s) = rn_pipe s"
    using trim_noop [OF inv trim(2)] by (simp add: set_stream_def)
  ultimately show ?thesis using trim by simp
next
  case boundaries
  then show ?thesis using boundaries_inv [OF inv] by simp
next
  case crash
  then show ?thesis using crash_inv [OF inv] by simp
qed

lemma reachable_inv: "reachable cfg loads s \<Longrightarrow> run_inv cfg loads s"
  by (induction rule: reachable.induct) (simp_all add: initial_inv wstep_inv)

end
