(* ===== verification/IngestionEvents.thy ===== *)
theory IngestionEvents
  imports Outbox Timestamps "HOL-Library.List_Lexorder" "HOL-Library.Char_ord"
begin

text \<open>
  The event intake of the ingestion service: resource bounds of a JSON event
  (\<open>validation/json_contract.py\<close>), the privacy reduction of automatically captured clicks
  (\<open>privacy.py\<close>), the event model (\<open>models/schemas.py\<close>), the batch and reserved-event validators
  (\<open>validation/schema.py\<close>) and the endpoint (\<open>routers/events.py\<close>) with the publisher
  (\<open>streaming/redis_producer.py\<close>). A validator returns the list of its errors, as pairs of field
  and message, or the exception Python raises (\<open>py_exc\<close>). What pydantic reports for an event its
  model refuses is the parameter \<open>model_errors\<close>, a list of locations with messages.
\<close>

section \<open>Resource bounds of an event\<close>

definition MAX_REQUEST_BYTES :: int where "MAX_REQUEST_BYTES = 512 * 1024"
definition MAX_EVENT_BYTES :: nat where "MAX_EVENT_BYTES = 64 * 1024"
definition MAX_JSON_DEPTH :: nat where "MAX_JSON_DEPTH = 10"
definition MAX_CONTAINER_ITEMS :: nat where "MAX_CONTAINER_ITEMS = 100"
definition MAX_EVENT_NODES :: nat where "MAX_EVENT_NODES = 1000"

datatype json_error =
    NodeCount | DepthExceeded | ObjectFields | ArrayItems | NonJsonValue | SizeExceeded

text \<open>The recursive visit threads the number of nodes seen so far.\<close>

definition enter_node :: "nat \<Rightarrow> nat \<Rightarrow> (json_error, nat) result" where
  "enter_node depth nodes =
     (if MAX_EVENT_NODES < nodes + 1 then Inl NodeCount
      else if MAX_JSON_DEPTH < depth then Inl DepthExceeded else Inr (nodes + 1))"

fun visit :: "pyval \<Rightarrow> nat \<Rightarrow> nat \<Rightarrow> (json_error, nat) result"
  and visit_list :: "pyval list \<Rightarrow> nat \<Rightarrow> nat \<Rightarrow> (json_error, nat) result"
  and visit_items :: "dict \<Rightarrow> nat \<Rightarrow> nat \<Rightarrow> (json_error, nat) result" where
  "visit (PDict d) depth nodes =
     (case enter_node depth nodes of Inl e \<Rightarrow> Inl e
      | Inr n \<Rightarrow> if MAX_CONTAINER_ITEMS < length d then Inl ObjectFields else visit_items d (depth + 1) n)"
| "visit (PList xs) depth nodes =
     (case enter_node depth nodes of Inl e \<Rightarrow> Inl e
      | Inr n \<Rightarrow> if MAX_CONTAINER_ITEMS < length xs then Inl ArrayItems else visit_list xs (depth + 1) n)"
| "visit v depth nodes = enter_node depth nodes"
| "visit_list [] depth nodes = Inr nodes"
| "visit_list (x # xs) depth nodes =
     (case visit x depth nodes of Inl e \<Rightarrow> Inl e | Inr n \<Rightarrow> visit_list xs depth n)"
| "visit_items [] depth nodes = Inr nodes"
| "visit_items ((k, v) # d) depth nodes =
     (case visit v depth nodes of Inl e \<Rightarrow> Inl e | Inr n \<Rightarrow> visit_items d depth n)"

definition validate_event_json_bounds :: "(rat \<Rightarrow> string) \<Rightarrow> pyval \<Rightarrow> (json_error, unit) result" where
  "validate_event_json_bounds fr event =
     (case visit event 0 0 of
        Inl e \<Rightarrow> Inl e
      | Inr _ \<Rightarrow>
          (case json_dumps fr event of
             None \<Rightarrow> Inl NonJsonValue
           | Some text \<Rightarrow> if MAX_EVENT_BYTES < length (utf8 text) then Inl SizeExceeded else Inr ()))"

section \<open>Privacy\<close>

definition MAX_CLICK_COORDINATE :: int where "MAX_CLICK_COORDINATE = 100000"
definition MIN_RAGE_CLICK_COUNT :: int where "MIN_RAGE_CLICK_COUNT = 3"
definition MAX_RAGE_CLICK_COUNT :: int where "MAX_RAGE_CLICK_COUNT = 100"

definition lower_char :: "char \<Rightarrow> bool" where
  "lower_char c \<longleftrightarrow> 97 \<le> (of_char c :: nat) \<and> (of_char c :: nat) \<le> 122"

definition is_safe_tag :: "pyval \<Rightarrow> bool" where
  "is_safe_tag v = (case v of
     PStr (c # s) \<Rightarrow> lower_char c \<and> length s \<le> 63
       \<and> list_all (\<lambda>x. lower_char x \<or> is_digit x \<or> x = CHR ''-'') s
   | _ \<Rightarrow> False)"

definition is_safe_coordinate :: "pyval \<Rightarrow> bool" where
  "is_safe_coordinate v = (case v of
     PInt i \<Rightarrow> 0 \<le> i \<and> i \<le> MAX_CLICK_COORDINATE
   | PFloat (Fin r) \<Rightarrow> 0 \<le> r \<and> r \<le> of_int MAX_CLICK_COORDINATE
   | _ \<Rightarrow> False)"

definition is_safe_rage_click_count :: "pyval \<Rightarrow> bool" where
  "is_safe_rage_click_count v = (case v of
     PInt i \<Rightarrow> MIN_RAGE_CLICK_COUNT \<le> i \<and> i \<le> MAX_RAGE_CLICK_COUNT | _ \<Rightarrow> False)"

definition AUTO_CAPTURE_PROPERTIES :: "string \<Rightarrow> (string \<times> (pyval \<Rightarrow> bool)) list option" where
  "AUTO_CAPTURE_PROPERTIES name =
     (if name = ''$click''
      then Some [(''tag'', is_safe_tag), (''x'', is_safe_coordinate), (''y'', is_safe_coordinate)]
      else if name = ''$rage_click''
      then Some [(''tag'', is_safe_tag), (''clickCount'', is_safe_rage_click_count),
                 (''x'', is_safe_coordinate), (''y'', is_safe_coordinate)]
      else None)"

definition safe_properties :: "pyval \<Rightarrow> (string \<times> (pyval \<Rightarrow> bool)) list \<Rightarrow> dict" where
  "safe_properties properties schema = (case properties of
     PDict d \<Rightarrow> List.map_filter (\<lambda>(k, ok). case map_of d k of
                    Some v \<Rightarrow> if ok v then Some (k, v) else None | None \<Rightarrow> None) schema
   | _ \<Rightarrow> [])"

definition safe_context :: "pyval \<Rightarrow> pyval" where
  "safe_context context = (case context of
     PDict d \<Rightarrow> PDict (filter (\<lambda>(k, _). k \<noteq> ''page'' \<and> k \<noteq> ''referrer'') d) | _ \<Rightarrow> context)"

definition sanitize_event :: "pyval \<Rightarrow> pyval" where
  "sanitize_event event = (case event of
     PDict e \<Rightarrow>
       (case dget e ''event'' of
          PStr name \<Rightarrow>
            (case AUTO_CAPTURE_PROPERTIES name of
               None \<Rightarrow> event
             | Some schema \<Rightarrow>
                 let properties = dget e ''properties''; context = dget e ''context'';
                     safe = PDict (safe_properties properties schema);
                     properties_changed = \<not> py_eq properties safe;
                     context_changed = \<not> py_eq context (safe_context context)
                 in if \<not> properties_changed \<and> \<not> context_changed then event
                    else PDict (let e1 = dset e ''properties'' safe
                                in if context_changed then dset e1 ''context'' (safe_context context) else e1))
        | _ \<Rightarrow> event)
   | _ \<Rightarrow> event)"

definition sanitize_auto_capture_events :: "pyval \<Rightarrow> pyval" where
  "sanitize_auto_capture_events body = (case body of
     PDict b \<Rightarrow> (case dget b ''events'' of
       PList events \<Rightarrow> if map sanitize_event events = events then body
                       else PDict (dset b ''events'' (PList (map sanitize_event events)))
     | _ \<Rightarrow> body)
   | _ \<Rightarrow> body)"

section \<open>The event model\<close>

definition MAX_BATCH_SIZE :: nat where "MAX_BATCH_SIZE = 100"
definition MAX_EVENT_NAME_LENGTH :: nat where "MAX_EVENT_NAME_LENGTH = 256"
definition MAX_PROPERTY_KEY_LENGTH :: nat where "MAX_PROPERTY_KEY_LENGTH = 256"
definition MAX_STRING_PROPERTY_LENGTH :: nat where "MAX_STRING_PROPERTY_LENGTH = 8192"
definition VALID_EVENT_TYPES :: "string list" where
  "VALID_EVENT_TYPES = [''track'', ''identify'', ''group'', ''page'']"

text \<open>The canonical name of a typed event, for the types that fix it.\<close>

definition canonical_event_name :: "string \<Rightarrow> string option" where
  "canonical_event_name t = (if t \<in> {''identify'', ''group'', ''page''} then Some t else None)"

definition text_within :: "nat \<Rightarrow> nat \<Rightarrow> pyval \<Rightarrow> bool" where
  "text_within lo hi v = (case v of PStr s \<Rightarrow> lo \<le> length s \<and> length s \<le> hi | _ \<Rightarrow> False)"

definition present_ok :: "dict \<Rightarrow> string \<Rightarrow> (pyval \<Rightarrow> bool) \<Rightarrow> bool" where
  "present_ok d k ok = (case map_of d k of None \<Rightarrow> True | Some v \<Rightarrow> ok v)"

definition required_ok :: "dict \<Rightarrow> string \<Rightarrow> (pyval \<Rightarrow> bool) \<Rightarrow> bool" where
  "required_ok d k ok = (case map_of d k of None \<Rightarrow> False | Some v \<Rightarrow> ok v)"

definition named_version_ok :: "pyval \<Rightarrow> bool" where
  "named_version_ok v = (case v of
     PDict d \<Rightarrow> keys_within d [''name'', ''version''] \<and> required_ok d ''name'' (text_within 1 128)
       \<and> required_ok d ''version'' (text_within 1 128)
   | _ \<Rightarrow> False)"

definition device_ok :: "pyval \<Rightarrow> bool" where
  "device_ok v = (case v of
     PDict d \<Rightarrow> keys_within d [''type''] \<and> required_ok d ''type'' (text_within 1 64) | _ \<Rightarrow> False)"

definition dimension_ok :: "pyval \<Rightarrow> bool" where
  "dimension_ok v = (case v of PInt i \<Rightarrow> 0 \<le> i \<and> i \<le> 100000 | _ \<Rightarrow> False)"

definition dimensions_ok :: "pyval \<Rightarrow> bool" where
  "dimensions_ok v = (case v of
     PDict d \<Rightarrow> keys_within d [''width'', ''height''] \<and> required_ok d ''width'' dimension_ok
       \<and> required_ok d ''height'' dimension_ok
   | _ \<Rightarrow> False)"

definition page_ok :: "pyval \<Rightarrow> bool" where
  "page_ok v = (case v of
     PDict d \<Rightarrow> keys_within d [''url'', ''title'', ''path'', ''search'']
       \<and> required_ok d ''url'' (text_within 0 4096) \<and> required_ok d ''title'' (text_within 0 1024)
       \<and> required_ok d ''path'' (text_within 0 2048) \<and> required_ok d ''search'' (text_within 0 2048)
   | _ \<Rightarrow> False)"

definition EVENT_CONTEXT_FIELDS :: "string list" where
  "EVENT_CONTEXT_FIELDS = [''library'', ''browser'', ''os'', ''device'', ''screen'', ''viewport'', ''page'',
     ''locale'', ''timezone'', ''referrer'']"

text \<open>An explicit null is refused, so a field that is there has a value of its model.\<close>

definition event_context_ok :: "pyval \<Rightarrow> bool" where
  "event_context_ok v = (case v of
     PDict d \<Rightarrow> keys_within d EVENT_CONTEXT_FIELDS
       \<and> present_ok d ''library'' named_version_ok \<and> present_ok d ''browser'' named_version_ok
       \<and> present_ok d ''os'' named_version_ok \<and> present_ok d ''device'' device_ok
       \<and> present_ok d ''screen'' dimensions_ok \<and> present_ok d ''viewport'' dimensions_ok
       \<and> present_ok d ''page'' page_ok \<and> present_ok d ''locale'' (text_within 0 128)
       \<and> present_ok d ''timezone'' (text_within 0 128) \<and> present_ok d ''referrer'' (text_within 0 4096)
   | _ \<Rightarrow> False)"

definition EVENT_FIELDS :: "string list" where
  "EVENT_FIELDS = [''event'', ''type'', ''user_id'', ''anonymous_id'', ''group_id'', ''timestamp'',
     ''properties'', ''traits'', ''context'', ''message_id'', ''session_id'']"

definition validate_timestamp :: "datetime \<Rightarrow> pyval \<Rightarrow> bool" where
  "validate_timestamp received_at v = (case v of
     PStr s \<Rightarrow> (case parse_timestamp s of None \<Rightarrow> False | Some t \<Rightarrow> timestamp_window_ok t received_at)
   | _ \<Rightarrow> False)"

definition validate_properties :: "pyval \<Rightarrow> bool" where
  "validate_properties v = (case v of
     PDict d \<Rightarrow> list_all (\<lambda>(k, x). length k \<le> MAX_PROPERTY_KEY_LENGTH
       \<and> (case x of PStr s \<Rightarrow> length s \<le> MAX_STRING_PROPERTY_LENGTH | _ \<Rightarrow> True)) d
   | _ \<Rightarrow> False)"

definition validate_canonical_envelope :: "dict \<Rightarrow> bool" where
  "validate_canonical_envelope e \<longleftrightarrow>
     (truthy (dget e ''user_id'') \<or> truthy (dget e ''anonymous_id''))
     \<and> (case dget e ''type'' of
          PStr t \<Rightarrow> (case canonical_event_name t of None \<Rightarrow> True | Some n \<Rightarrow> dget e ''event'' = PStr n)
        | _ \<Rightarrow> False)
     \<and> (dget e ''type'' = PStr ''identify'' \<longrightarrow> truthy (dget e ''user_id''))
     \<and> (dget e ''type'' = PStr ''group'' \<longrightarrow> truthy (dget e ''group_id''))"

text \<open>\<open>Event.model_validate(event, strict=True)\<close> succeeds.\<close>

definition event_model_ok :: "datetime \<Rightarrow> dict \<Rightarrow> bool" where
  "event_model_ok received_at e \<longleftrightarrow>
     keys_within e EVENT_FIELDS
     \<and> required_ok e ''event'' (text_within 1 MAX_EVENT_NAME_LENGTH)
     \<and> required_ok e ''type'' (\<lambda>v. case v of PStr t \<Rightarrow> t \<in> set VALID_EVENT_TYPES | _ \<Rightarrow> False)
     \<and> present_ok e ''user_id'' (text_within 1 128) \<and> present_ok e ''anonymous_id'' (text_within 1 128)
     \<and> present_ok e ''group_id'' (text_within 1 128)
     \<and> required_ok e ''timestamp'' (validate_timestamp received_at)
     \<and> present_ok e ''properties'' validate_properties \<and> present_ok e ''traits'' is_dict
     \<and> required_ok e ''context'' event_context_ok
     \<and> required_ok e ''message_id'' (text_within 1 128) \<and> present_ok e ''session_id'' (text_within 1 128)
     \<and> validate_canonical_envelope e"

section \<open>Errors\<close>

datatype py_exc = TypeErr | OverflowErr

type_synonym field_error = "string \<times> string"

datatype loc_item = LocIndex int | LocName string

definition join_path :: "string \<Rightarrow> string \<Rightarrow> string" where
  "join_path pre field = (if pre = [] then field else pre @ ''.'' @ field)"

definition int_text :: "int \<Rightarrow> string" where
  "int_text i = (if i < 0 then ''-'' @ dec (nat (- i)) else dec (nat i))"

fun loc_parts :: "loc_item list \<Rightarrow> string list \<Rightarrow> string list" where
  "loc_parts [] parts = parts"
| "loc_parts (LocIndex i # items) parts =
     loc_parts items (if parts = [] then [''['' @ int_text i @ '']'']
                      else butlast parts @ [last parts @ ''['' @ int_text i @ '']''])"
| "loc_parts (LocName s # items) parts = loc_parts items (parts @ [s])"

fun dot_join :: "string list \<Rightarrow> string" where
  "dot_join [] = []"
| "dot_join [s] = s"
| "dot_join (s # t # ss) = s @ ''.'' @ dot_join (t # ss)"

definition loc_to_field :: "loc_item list \<Rightarrow> string" where
  "loc_to_field loc = dot_join (loc_parts loc [])"

definition format_errors :: "(loc_item list \<times> string) list \<Rightarrow> string \<Rightarrow> field_error list" where
  "format_errors errs pre = map (\<lambda>(loc, message).
     (let field = loc_to_field loc
      in if pre \<noteq> [] \<and> field \<noteq> [] then pre @ ''.'' @ field else if pre \<noteq> [] then pre else field,
      if starts_with message ''Value error, '' then drop 13 message else message)) errs"

definition is_non_empty_string :: "pyval \<Rightarrow> bool" where
  "is_non_empty_string v = (case v of PStr s \<Rightarrow> s \<noteq> [] | _ \<Rightarrow> False)"

text \<open>\<open>math.isfinite\<close> of an integer beyond the range of floats raises.\<close>

definition is_finite_number :: "pyval \<Rightarrow> (py_exc, bool) result" where
  "is_finite_number v = (case v of
     PInt i \<Rightarrow> if float_of_int i = None then Inl OverflowErr else Inr True
   | PFloat f \<Rightarrow> Inr (is_finite f)
   | _ \<Rightarrow> Inr False)"

definition is_non_negative_int :: "pyval \<Rightarrow> bool" where
  "is_non_negative_int v = (case v of PInt i \<Rightarrow> 0 \<le> i | _ \<Rightarrow> False)"

text \<open>\<open>v in frozenset\<close> hashes \<open>v\<close>, which a list or a dictionary refuses.\<close>

definition in_names :: "pyval \<Rightarrow> string list \<Rightarrow> (py_exc, bool) result" where
  "in_names v names = (case v of
     PStr s \<Rightarrow> Inr (s \<in> set names) | PList _ \<Rightarrow> Inl TypeErr | PDict _ \<Rightarrow> Inl TypeErr | _ \<Rightarrow> Inr False)"

section \<open>Property checks of the reserved events\<close>

text \<open>Each check is the list of errors it appends, or the exception it raises.\<close>

type_synonym check = "(py_exc, field_error list) result"

fun checks :: "check list \<Rightarrow> check" where
  "checks [] = Inr []"
| "checks (c # cs) = (case c of Inl x \<Rightarrow> Inl x
     | Inr es \<Rightarrow> (case checks cs of Inl x \<Rightarrow> Inl x | Inr fs \<Rightarrow> Inr (es @ fs)))"

definition prop_error :: "string \<Rightarrow> string \<Rightarrow> string \<Rightarrow> field_error" where
  "prop_error pre key message = (join_path pre (''properties.'' @ key), message)"

definition quoted :: "string \<Rightarrow> string" where
  "quoted s = [CHR 0x27] @ s @ [CHR 0x27]"

definition validate_string_property :: "dict \<Rightarrow> string \<Rightarrow> string \<Rightarrow> check" where
  "validate_string_property p pre key = Inr
     (if has_key p key \<and> \<not> is_str (dget p key)
      then [prop_error pre key (''Property '' @ quoted key @ '' must be a string'')] else [])"

definition validate_nullable_string_property :: "dict \<Rightarrow> string \<Rightarrow> string \<Rightarrow> check" where
  "validate_nullable_string_property p pre key = Inr
     (if has_key p key \<and> dget p key \<noteq> PNone \<and> \<not> is_str (dget p key)
      then [prop_error pre key (''Property '' @ quoted key @ '' must be a string or null'')] else [])"

definition number_less :: "pyval \<Rightarrow> rat \<Rightarrow> bool" where
  "number_less v m = (case v of PInt i \<Rightarrow> of_int i < m | PFloat f \<Rightarrow> flt_less f (Fin m) | _ \<Rightarrow> False)"

definition number_greater :: "pyval \<Rightarrow> rat \<Rightarrow> bool" where
  "number_greater v m = (case v of PInt i \<Rightarrow> m < of_int i | PFloat f \<Rightarrow> flt_less (Fin m) f | _ \<Rightarrow> False)"

definition validate_nullable_number_property :: "dict \<Rightarrow> string \<Rightarrow> string \<Rightarrow> (rat \<times> rat) option \<Rightarrow> check" where
  "validate_nullable_number_property p pre key bounds =
     (if \<not> has_key p key \<or> dget p key = PNone then Inr []
      else (case is_finite_number (dget p key) of
        Inl x \<Rightarrow> Inl x
      | Inr False \<Rightarrow> Inr [prop_error pre key (''Property '' @ quoted key @ '' must be a finite number or null'')]
      | Inr True \<Rightarrow> Inr (case bounds of
           None \<Rightarrow> []
         | Some (lo, hi) \<Rightarrow>
             (if number_less (dget p key) lo
              then [prop_error pre key (''Property '' @ quoted key @ '' must be greater than or equal to 0'')] else [])
             @ (if number_greater (dget p key) hi
                then [prop_error pre key (''Property '' @ quoted key @ '' must be less than or equal to 100'')] else []))))"

definition validate_number_property :: "dict \<Rightarrow> string \<Rightarrow> string \<Rightarrow> check" where
  "validate_number_property p pre key =
     (if \<not> has_key p key then Inr []
      else (case is_finite_number (dget p key) of
        Inl x \<Rightarrow> Inl x
      | Inr ok \<Rightarrow> Inr (if ok then [] else
          [prop_error pre key (''Property '' @ quoted key @ '' must be a finite number'')])))"

definition validate_name_property :: "dict \<Rightarrow> string \<Rightarrow> string \<Rightarrow> string list \<Rightarrow> string \<Rightarrow> check" where
  "validate_name_property p pre key names message =
     (if \<not> has_key p key then Inr []
      else (case in_names (dget p key) names of
        Inl x \<Rightarrow> Inl x | Inr ok \<Rightarrow> Inr (if ok then [] else [prop_error pre key message])))"

definition active_flags_items :: "dict \<Rightarrow> string \<Rightarrow> field_error list" where
  "active_flags_items flags pre = concat (map (\<lambda>(key, v).
     (if key = [] then [prop_error pre ''active_flags''
        (''Property '' @ quoted ''active_flags'' @ '' keys must be non-empty strings'')] else [])
     @ (if is_non_empty_string v then [] else
          [prop_error pre (''active_flags.'' @ key) ''Active flag values must be non-empty variant strings''])) flags)"

definition active_versions_items :: "dict \<Rightarrow> string \<Rightarrow> field_error list" where
  "active_versions_items versions pre = concat (map (\<lambda>(key, v).
     (if key = [] then [prop_error pre ''active_flag_versions''
        (''Property '' @ quoted ''active_flag_versions'' @ '' keys must be non-empty strings'')] else [])
     @ (if is_non_negative_int v then [] else
          [prop_error pre (''active_flag_versions.'' @ key) ''Active flag versions must be non-negative integers''])) versions)"

definition validate_active_flag_properties :: "dict \<Rightarrow> string \<Rightarrow> check" where
  "validate_active_flag_properties p pre = Inr
     (if has_key p ''active_flags'' \<and> \<not> is_dict (dget p ''active_flags'')
      then [prop_error pre ''active_flags'' (''Property '' @ quoted ''active_flags'' @ '' must be an object'')]
      else if has_key p ''active_flag_versions'' \<and> \<not> is_dict (dget p ''active_flag_versions'')
      then [prop_error pre ''active_flag_versions'' (''Property '' @ quoted ''active_flag_versions'' @ '' must be an object'')]
      else (case (dget p ''active_flags'', dget p ''active_flag_versions'') of
        (PDict flags, PDict versions) \<Rightarrow>
          (if fst ` set flags \<noteq> fst ` set versions
           then [prop_error pre ''active_flag_versions''
                   (''Property '' @ quoted ''active_flag_versions'' @ '' keys must match active_flags'')] else [])
          @ active_flags_items flags pre @ active_versions_items versions pre
      | _ \<Rightarrow> []))"

section \<open>Reserved events\<close>

definition ENVELOPE_KEYS :: "string list" where
  "ENVELOPE_KEYS = [''event'', ''type'', ''user_id'', ''anonymous_id'', ''group_id'', ''timestamp'',
     ''properties'', ''context'', ''message_id'', ''session_id'']"
definition REQUIRED_ENVELOPE_KEYS :: "string list" where
  "REQUIRED_ENVELOPE_KEYS = [''event'', ''type'', ''timestamp'', ''properties'', ''message_id'', ''session_id'']"
definition FEATURE_FLAG_EXPOSURE_KEYS :: "string list" where
  "FEATURE_FLAG_EXPOSURE_KEYS = [''flag_key'', ''variant'', ''reason'', ''rule_id'', ''rollout_bucket'',
     ''variant_bucket'', ''rollout_percentage'', ''bucket_by'', ''config_version'', ''source'', ''page'', ''component'']"
definition FRONTEND_ERROR_KEYS :: "string list" where
  "FRONTEND_ERROR_KEYS = [''error_type'', ''message'', ''page'', ''component'', ''slot_id'', ''source'', ''line'',
     ''column'', ''stack'', ''active_flags'', ''active_flag_versions'']"
definition WEB_VITAL_KEYS :: "string list" where
  "WEB_VITAL_KEYS = [''metric'', ''value'', ''rating'', ''delta'', ''id'', ''navigation_type'', ''page'',
     ''active_flags'', ''active_flag_versions'']"

text \<open>\<open>sorted(a - b)\<close> on sets of keys.\<close>

definition sorted_minus :: "string list \<Rightarrow> string list \<Rightarrow> string list" where
  "sorted_minus a b = sort (remdups (filter (\<lambda>k. k \<notin> set b) a))"

definition validate_envelope :: "dict \<Rightarrow> string \<Rightarrow> field_error list" where
  "validate_envelope e pre =
     map (\<lambda>k. (join_path pre k, ''Missing required feature flag exposure envelope field''))
       (sorted_minus REQUIRED_ENVELOPE_KEYS (map fst e))
     @ map (\<lambda>k. (join_path pre k, ''Unknown feature flag exposure envelope field''))
         (sorted_minus (map fst e) ENVELOPE_KEYS)
     @ (if \<not> truthy (dget e ''user_id'') \<and> \<not> truthy (dget e ''anonymous_id'')
        then [(join_path pre ''user_id'', ''Feature flag exposure requires canonical user_id or anonymous_id'')] else [])
     @ List.map_filter (\<lambda>k. if has_key e k \<and> \<not> is_non_empty_string (dget e k)
          then Some (join_path pre k, ''Envelope field '' @ quoted k @ '' must be a non-empty string'') else None)
         [''user_id'', ''anonymous_id'', ''group_id'', ''timestamp'', ''message_id'', ''session_id'']
     @ (if has_key e ''context'' \<and> \<not> is_dict (dget e ''context'')
        then [(join_path pre ''context'', ''Envelope field '' @ quoted ''context'' @ '' must be an object'')] else [])"

text \<open>The properties of a reserved event, or the error that ends its validation.\<close>

definition reserved_properties :: "dict \<Rightarrow> string \<Rightarrow> field_error + dict" where
  "reserved_properties e pre =
     (if \<not> has_key e ''properties'' then Inl (join_path pre ''properties'', ''Missing required reserved event properties'')
      else case dget e ''properties'' of PDict p \<Rightarrow> Inr p
           | _ \<Rightarrow> Inl (join_path pre ''properties'', ''Reserved event properties must be an object''))"

definition validate_reserved_type :: "dict \<Rightarrow> string \<Rightarrow> string \<Rightarrow> field_error list" where
  "validate_reserved_type e pre name =
     (if dget e ''type'' \<noteq> PStr ''track''
      then [(join_path pre ''type'', ''Reserved event '' @ quoted name @ '' must use type '' @ quoted ''track'')] else [])"

definition property_keys :: "dict \<Rightarrow> string \<Rightarrow> string list \<Rightarrow> string \<Rightarrow> field_error list" where
  "property_keys p pre allowed what =
     map (\<lambda>k. prop_error pre k (''Missing required '' @ what @ '' property'')) (sorted_minus allowed (map fst p))
     @ map (\<lambda>k. prop_error pre k (''Unknown '' @ what @ '' property'')) (sorted_minus (map fst p) allowed)"

text \<open>The frame of the three validators: type, envelope, properties, their keys, their values.\<close>

definition validate_reserved ::
    "dict \<Rightarrow> string \<Rightarrow> string \<Rightarrow> string list \<Rightarrow> string \<Rightarrow> (dict \<Rightarrow> check) \<Rightarrow> check" where
  "validate_reserved e pre name allowed what body =
     (let head = validate_reserved_type e pre name @ validate_envelope e pre
      in case reserved_properties e pre of
           Inl err \<Rightarrow> Inr (head @ [err])
         | Inr p \<Rightarrow> checks [Inr head, Inr (property_keys p pre allowed what), body p])"

definition feature_flag_exposure_types :: "string \<Rightarrow> dict \<Rightarrow> check" where
  "feature_flag_exposure_types pre p = checks
     [Inr (if has_key p ''flag_key'' \<and> \<not> is_non_empty_string (dget p ''flag_key'')
           then [prop_error pre ''flag_key'' (''Property '' @ quoted ''flag_key'' @ '' must be a non-empty string'')] else []),
      Inr (if has_key p ''variant'' \<and> \<not> is_non_empty_string (dget p ''variant'')
           then [prop_error pre ''variant'' (''Property '' @ quoted ''variant'' @ '' must be a non-empty string'')] else []),
      validate_name_property p pre ''reason'' [''rule_match'', ''fallthrough'']
        (''Property '' @ quoted ''reason'' @ '' is not a canonical assignment reason''),
      validate_nullable_string_property p pre ''rule_id'',
      validate_nullable_number_property p pre ''rollout_bucket'' None,
      validate_nullable_number_property p pre ''variant_bucket'' None,
      validate_nullable_number_property p pre ''rollout_percentage'' (Some (0, 100)),
      validate_nullable_string_property p pre ''bucket_by'',
      Inr (List.map_filter (\<lambda>k. if map_of p k = Some PNone
             then Some (prop_error pre k (''Assignment property '' @ quoted k @ '' must not be null'')) else None)
           [''rollout_bucket'', ''variant_bucket'', ''rollout_percentage'']),
      Inr (if has_key p ''bucket_by'' \<and> \<not> is_non_empty_string (dget p ''bucket_by'')
           then [prop_error pre ''bucket_by'' (''Assignment property '' @ quoted ''bucket_by'' @ '' must be a non-empty string'')] else []),
      Inr (if dget p ''reason'' = PStr ''rule_match'' \<and> \<not> is_non_empty_string (dget p ''rule_id'')
           then [prop_error pre ''rule_id'' ''Rule assignments require a non-empty rule_id''] else []),
      Inr (if dget p ''reason'' = PStr ''fallthrough'' \<and> dget p ''rule_id'' \<noteq> PNone
           then [prop_error pre ''rule_id'' ''Fallthrough assignments require a null rule_id''] else []),
      Inr (if has_key p ''config_version'' \<and> \<not> (case dget p ''config_version'' of PInt i \<Rightarrow> 1 \<le> i | _ \<Rightarrow> False)
           then [prop_error pre ''config_version'' (''Property '' @ quoted ''config_version'' @ '' must be a positive integer'')] else []),
      validate_name_property p pre ''source'' [''memory'', ''initial_fetch'', ''sse'', ''local_storage'', ''server'']
        (''Property '' @ quoted ''source'' @ '' is not a canonical gate config source''),
      validate_string_property p pre ''page'', validate_string_property p pre ''component'']"

definition validate_feature_flag_exposure_event :: "dict \<Rightarrow> string \<Rightarrow> check" where
  "validate_feature_flag_exposure_event e pre =
     validate_reserved e pre ''$feature_flag_exposure'' FEATURE_FLAG_EXPOSURE_KEYS ''feature flag exposure''
       (feature_flag_exposure_types pre)"

definition frontend_error_types :: "string \<Rightarrow> dict \<Rightarrow> check" where
  "frontend_error_types pre p = checks
     ([validate_name_property p pre ''error_type'' [''javascript_error'', ''unhandled_rejection'', ''component_render_error'']
         (''Property '' @ quoted ''error_type'' @ '' is not a canonical frontend error type'')]
      @ map (validate_string_property p pre) [''message'', ''page'', ''component'', ''slot_id'', ''source'', ''stack'']
      @ [validate_nullable_number_property p pre ''line'' None, validate_nullable_number_property p pre ''column'' None,
         validate_active_flag_properties p pre])"

definition validate_frontend_error_event :: "dict \<Rightarrow> string \<Rightarrow> check" where
  "validate_frontend_error_event e pre =
     validate_reserved e pre ''$frontend_error'' FRONTEND_ERROR_KEYS ''frontend error'' (frontend_error_types pre)"

definition web_vital_types :: "string \<Rightarrow> dict \<Rightarrow> check" where
  "web_vital_types pre p = checks
     ([validate_name_property p pre ''metric'' [''CLS'', ''INP'', ''LCP'']
         (''Property '' @ quoted ''metric'' @ '' is not a canonical web vital metric''),
       validate_name_property p pre ''rating'' [''good'', ''needs_improvement'', ''poor'']
         (''Property '' @ quoted ''rating'' @ '' is not a canonical web vital rating''),
       validate_number_property p pre ''value'', validate_number_property p pre ''delta'']
      @ map (validate_string_property p pre) [''id'', ''navigation_type'', ''page'', ''component'']
      @ [validate_active_flag_properties p pre])"

definition validate_web_vital_event :: "dict \<Rightarrow> string \<Rightarrow> check" where
  "validate_web_vital_event e pre =
     validate_reserved e pre ''$web_vital'' WEB_VITAL_KEYS ''web vital'' (web_vital_types pre)"

definition validate_reserved_event :: "dict \<Rightarrow> string \<Rightarrow> check" where
  "validate_reserved_event e pre =
     (if dget e ''event'' = PStr ''$feature_flag_exposure'' then validate_feature_flag_exposure_event e pre
      else if dget e ''event'' = PStr ''$frontend_error'' then validate_frontend_error_event e pre
      else if dget e ''event'' = PStr ''$web_vital'' then validate_web_vital_event e pre
      else Inr [])"

section \<open>Events and batches\<close>

type_synonym model_report = "dict \<Rightarrow> (loc_item list \<times> string) list"

definition validate_event :: "model_report \<Rightarrow> datetime \<Rightarrow> pyval \<Rightarrow> string \<Rightarrow> check" where
  "validate_event model_errors received_at event pre = (case event of
     PDict e \<Rightarrow> checks
       [Inr (if \<not> truthy (dget e ''user_id'') \<and> \<not> truthy (dget e ''anonymous_id'')
             then [(join_path pre ''user_id'', ''Event requires user_id or anonymous_id'')] else []),
        Inr (if event_model_ok received_at e then [] else format_errors (model_errors e) pre),
        validate_reserved_event e pre]
   | _ \<Rightarrow> Inr [(if pre = [] then ''event'' else pre, ''Event must be an object'')])"

definition event_prefix :: "nat \<Rightarrow> string" where
  "event_prefix i = ''events['' @ dec i @ '']''"

fun unique_message_ids :: "pyval list \<Rightarrow> nat \<Rightarrow> (string \<times> nat) list \<Rightarrow> field_error list" where
  "unique_message_ids [] i seen = []"
| "unique_message_ids (event # events) i seen =
     (case event of
        PDict e \<Rightarrow>
          (case dget e ''message_id'' of
             PStr m \<Rightarrow>
               (case map_of seen m of
                  None \<Rightarrow> unique_message_ids events (i + 1) (seen @ [(m, i)])
                | Some first \<Rightarrow>
                    (event_prefix i @ ''.message_id'',
                     ''Duplicate message_id; first occurrence at '' @ event_prefix first @ ''.message_id'')
                    # unique_message_ids events (i + 1) seen)
           | _ \<Rightarrow> unique_message_ids events (i + 1) seen)
      | _ \<Rightarrow> unique_message_ids events (i + 1) seen)"

definition validate_event_batch :: "model_report \<Rightarrow> datetime \<Rightarrow> pyval \<Rightarrow> check" where
  "validate_event_batch model_errors received_at body = (case body of
     PDict b \<Rightarrow>
       if \<not> has_key b ''events'' then Inr [(''events'', ''Missing required field '' @ quoted ''events'')]
       else if sorted_minus (map fst b) [''events''] \<noteq> []
       then Inr (map (\<lambda>k. (k, ''Unknown batch field'')) (sorted_minus (map fst b) [''events'']))
       else (case dget b ''events'' of
          PList events \<Rightarrow>
            if events = [] then Inr [(''events'', ''Batch must contain at least one event'')]
            else if MAX_BATCH_SIZE < length events
            then Inr [(''events'', ''Batch size exceeds maximum of '' @ dec MAX_BATCH_SIZE)]
            else checks (map (\<lambda>(i, ev). validate_event model_errors received_at ev (event_prefix i)) (enumerate 0 events)
                         @ [Inr (unique_message_ids events 0 [])])
        | _ \<Rightarrow> Inr [(''events'', ''Field '' @ quoted ''events'' @ '' must be an array'')])
   | _ \<Rightarrow> Inr [(''body'', ''Request body must be a JSON object'')])"

end
