(* ===== verification/IngestionEndpoint.thy ===== *)
theory IngestionEndpoint
  imports IngestionEvents CanonicalJson IngestionRateLimit
begin

text \<open>
  The endpoint \<open>POST /v1/events\<close> (\<open>routers/events.py\<close>) with its client address
  (\<open>client_ip.py\<close>) and the atomic publisher (\<open>streaming/redis_producer.py\<close>). The state is
  what the service keeps in Redis, the token buckets and the entries outstanding on each event
  stream, and the table that throttles its alerts. An environment holds the library functions
  the request meets (SHA-256, the parser of IP addresses, the shortest decimal of a float, what
  pydantic reports, what the JSON parser finds in a body), the clocks and the outcome of each
  Redis call.
\<close>

section \<open>Client address\<close>

definition client_ip :: "(string \<Rightarrow> string option) \<Rightarrow> (string \<Rightarrow> bool) \<Rightarrow> string \<Rightarrow> string list \<Rightarrow> string" where
  "client_ip parse_ip in_trusted_network host forwarded_values =
     (case parse_ip host of
        None \<Rightarrow> []
      | Some peer \<Rightarrow>
          if \<not> in_trusted_network peer then peer
          else (case forwarded_values of
                  [value] \<Rightarrow>
                    (let forwarded = strip value
                     in if CHR '','' \<in> set forwarded then peer
                        else (case parse_ip forwarded of None \<Rightarrow> peer | Some ip \<Rightarrow> ip))
                | _ \<Rightarrow> peer))"

section \<open>Publisher\<close>

definition EVENT_STREAM_RETRY_AFTER_SECONDS :: int where "EVENT_STREAM_RETRY_AFTER_SECONDS = 5"

record ingest_world =
  iw_buckets :: bucket_store
  iw_streams :: "string \<Rightarrow> json_source list"
  iw_last_alert_log :: "((string \<times> string) \<times> rat) list"

definition admit_batch_lua :: "int \<Rightarrow> json_source list \<Rightarrow> json_source list \<Rightarrow> xadd_reply \<times> json_source list" where
  "admit_batch_lua capacity payloads stream =
     (let count = int (length payloads); current = int (length stream)
      in if capacity < current + count
         then (\<lparr>xr_admitted = 0, xr_entries = current, xr_ids = 0\<rparr>, stream)
         else (\<lparr>xr_admitted = 1, xr_entries = current + count, xr_ids = length payloads\<rparr>, stream @ payloads))"

datatype publish_result = Published nat | StreamOverloaded string int | PublishFailed

definition log_alert :: "rat \<Rightarrow> string \<Rightarrow> string \<Rightarrow> ingest_world \<Rightarrow> ingest_world" where
  "log_alert clock event stream_key w =
     w\<lparr>iw_last_alert_log := snd (should_log_alert (iw_last_alert_log w) clock event stream_key)\<rparr>"

text \<open>A payload that is not JSON, a failed call and an incomplete reply all raise.\<close>

definition publish_batch ::
    "(rat \<Rightarrow> string) \<Rightarrow> redis_fault \<Rightarrow> rat \<Rightarrow> string \<Rightarrow> dict list \<Rightarrow> ingest_world
     \<Rightarrow> publish_result \<times> ingest_world" where
  "publish_batch fr fault clock stream_key events w =
     (case those (map (\<lambda>e. json_dumps fr (PDict e)) events) of
        None \<Rightarrow> (PublishFailed, w)
      | Some _ \<Rightarrow>
          (case admit_batch_lua EVENT_STREAM_MAX_ENTRIES (map (\<lambda>e. Tree (tree_of (PDict e))) events)
                  (iw_streams w stream_key) of
             (reply, stream) \<Rightarrow>
               let w1 = w\<lparr>iw_streams := (iw_streams w)(stream_key := stream)\<rparr>
               in (case fault of
                     RedisDown _ \<Rightarrow> (PublishFailed, w)
                   | ReplyLost _ \<Rightarrow> (PublishFailed, w1)
                   | RedisOk \<Rightarrow>
                       if xr_admitted reply = 0
                       then (StreamOverloaded stream_key (xr_entries reply),
                             log_alert clock ''event_stream_overloaded'' stream_key w1)
                       else if xr_admitted reply \<noteq> 1 \<or> xr_ids reply \<noteq> length events
                       then (PublishFailed, w1)
                       else (Published (xr_ids reply),
                             if EVENT_STREAM_ALERT_ENTRIES \<le> xr_entries reply
                             then log_alert clock ''event_stream_pressure'' stream_key w1 else w1))))"

section \<open>Endpoint\<close>

text \<open>What \<open>int(content_length)\<close> makes of the header.\<close>

datatype content_length = NoLength | BadLength | Length int

record ingest_request =
  ir_host :: string
  ir_forwarded :: "string list"
  ir_content_length :: content_length
  ir_chunks :: "int list list"
  ir_stream_fails :: bool

record ingest_env =
  ie_sha :: "string \<Rightarrow> string"
  ie_format :: "pyval \<Rightarrow> string"
  ie_parse_ip :: "string \<Rightarrow> string option"
  ie_trusted :: "string \<Rightarrow> bool"
  ie_float_repr :: "rat \<Rightarrow> string"
  ie_model_errors :: model_report
  ie_decode :: "int list \<Rightarrow> json_source"
  ie_utc_now :: datetime
  ie_request_call :: "bool \<times> int"
  ie_byte_call :: "bool \<times> int"
  ie_event_call :: "bool \<times> int"
  ie_publish_call :: redis_fault
  ie_clock :: rat

datatype body_error = RequestBodyTooLarge | BodyUnreadable

fun read_bounded_body :: "int list list \<Rightarrow> bool \<Rightarrow> int list \<Rightarrow> (body_error, int list) result" where
  "read_bounded_body [] fails body = (if fails then Inl BodyUnreadable else Inr body)"
| "read_bounded_body (chunk # chunks) fails body =
     (if MAX_REQUEST_BYTES < int (length body + length chunk) then Inl RequestBodyTooLarge
      else read_bounded_body chunks fails (body @ chunk))"

datatype ingest_reply =
    RateReply admission_response
  | ErrorReply int string string
  | BadJson json_refusal
  | BoundsExceeded json_error
  | InvalidBatch "field_error list"
  | Raised py_exc
  | MissingIdentity
  | Overloaded int
  | Accepted nat

text \<open>The first event over its bounds, in the order of the batch.\<close>

fun check_event_bounds :: "(rat \<Rightarrow> string) \<Rightarrow> pyval list \<Rightarrow> (json_error, unit) result" where
  "check_event_bounds fr [] = Inr ()"
| "check_event_bounds fr (event # events) =
     (case validate_event_json_bounds fr event of Inl e \<Rightarrow> Inl e | Inr _ \<Rightarrow> check_event_bounds fr events)"

definition check_body_bounds :: "(rat \<Rightarrow> string) \<Rightarrow> pyval \<Rightarrow> (json_error, unit) result" where
  "check_body_bounds fr body = (case body of
     PDict b \<Rightarrow> (case dget b ''events'' of PList events \<Rightarrow> check_event_bounds fr events | _ \<Rightarrow> Inr ())
   | _ \<Rightarrow> Inr ())"

definition batch_events :: "pyval \<Rightarrow> dict list" where
  "batch_events body = (case dget (as_dict body) ''events'' of PList events \<Rightarrow> map as_dict events | _ \<Rightarrow> [])"

definition enrich_event :: "string \<Rightarrow> string \<Rightarrow> string \<Rightarrow> dict \<Rightarrow> dict" where
  "enrich_event server_ts source_ip project_id event =
     dset (dset (dset event ''server_timestamp'' (PStr server_ts)) ''ip'' (PStr source_ip))
       ''project_id'' (PStr project_id)"

definition stream_key_of :: "string \<Rightarrow> string" where
  "stream_key_of project_id = ''events:raw:'' @ project_id"

text \<open>The batch once it is validated: event admission, enrichment and publication.\<close>

definition publish_events ::
    "ingest_env \<Rightarrow> rl_principal \<Rightarrow> ingest_request \<Rightarrow> datetime \<Rightarrow> dict list \<Rightarrow> ingest_world
     \<Rightarrow> ingest_reply \<times> ingest_world" where
  "publish_events env prin request received_at events w =
     (let ip = client_ip (ie_parse_ip env) (ie_trusted env) (ir_host request) (ir_forwarded request)
      in case event_buckets (ie_sha env) (ie_format env) prin ip events of
           None \<Rightarrow> (MissingIdentity, w)
         | Some buckets \<Rightarrow>
             (case admit (fst (ie_event_call env)) (iw_buckets w) (snd (ie_event_call env)) buckets of
                (response, store) \<Rightarrow>
                  let w1 = w\<lparr>iw_buckets := store\<rparr>
                  in if response \<noteq> Admitted then (RateReply response, w1)
                     else (case publish_batch (ie_float_repr env) (ie_publish_call env) (ie_clock env)
                                  (stream_key_of (pr_project prin))
                                  (map (enrich_event (server_timestamp received_at) ip (pr_project prin)) events) w1 of
                             (Published n, w2) \<Rightarrow> (Accepted (length events), w2)
                           | (StreamOverloaded _ _, w2) \<Rightarrow> (Overloaded EVENT_STREAM_RETRY_AFTER_SECONDS, w2)
                           | (PublishFailed, w2) \<Rightarrow>
                               (ErrorReply 503 ''service_unavailable'' ''Failed to atomically enqueue event batch'', w2))))"

definition process_body ::
    "ingest_env \<Rightarrow> rl_principal \<Rightarrow> ingest_request \<Rightarrow> datetime \<Rightarrow> json_source \<Rightarrow> ingest_world
     \<Rightarrow> ingest_reply \<times> ingest_world" where
  "process_body env prin request received_at raw w =
     (case parse_canonical_json raw of
        Inl e \<Rightarrow> (BadJson e, w)
      | Inr parsed \<Rightarrow>
          (case check_body_bounds (ie_float_repr env) parsed of
             Inl e \<Rightarrow> (BoundsExceeded e, w)
           | Inr _ \<Rightarrow>
               let body = sanitize_auto_capture_events parsed
               in if \<not> truthy body then (ErrorReply 400 ''bad_request'' ''Request body is empty'', w)
                  else (case validate_event_batch (ie_model_errors env) received_at body of
                          Inl x \<Rightarrow> (Raised x, w)
                        | Inr errors \<Rightarrow>
                            if errors \<noteq> [] then (InvalidBatch errors, w)
                            else publish_events env prin request received_at (batch_events body) w)))"

definition too_large :: ingest_reply where
  "too_large = ErrorReply 413 ''payload_too_large'' ''Request body exceeds the configured limit''"

definition length_refusal :: "content_length \<Rightarrow> ingest_reply option" where
  "length_refusal header = (case header of
     NoLength \<Rightarrow> None
   | BadLength \<Rightarrow> Some (ErrorReply 400 ''bad_request'' ''Invalid Content-Length'')
   | Length n \<Rightarrow> if MAX_REQUEST_BYTES < n then Some too_large else None)"

definition read_body :: "ingest_request \<Rightarrow> (ingest_reply, int list) result" where
  "read_body request =
     (case length_refusal (ir_content_length request) of
        Some reply \<Rightarrow> Inl reply
      | None \<Rightarrow>
          (case read_bounded_body (ir_chunks request) (ir_stream_fails request) [] of
             Inl RequestBodyTooLarge \<Rightarrow> Inl too_large
           | Inl BodyUnreadable \<Rightarrow> Inl (ErrorReply 400 ''bad_request'' ''Could not read request body'')
           | Inr raw \<Rightarrow> Inr raw))"

text \<open>The whole handler, for the principal \<open>require_role\<close> returned.\<close>

definition ingest_events ::
    "ingest_env \<Rightarrow> rl_principal \<Rightarrow> ingest_request \<Rightarrow> ingest_world \<Rightarrow> ingest_reply \<times> ingest_world" where
  "ingest_events env prin request w =
     (let received_at = truncate_millis (ie_utc_now env);
          ip = client_ip (ie_parse_ip env) (ie_trusted env) (ir_host request) (ir_forwarded request)
      in case admit (fst (ie_request_call env)) (iw_buckets w) (snd (ie_request_call env))
                (request_buckets (ie_sha env) prin ip) of
           (response, store) \<Rightarrow>
             let w1 = w\<lparr>iw_buckets := store\<rparr>
             in if response \<noteq> Admitted then (RateReply response, w1)
                else (case read_body request of
                        Inl reply \<Rightarrow> (reply, w1)
                      | Inr raw \<Rightarrow>
                          (case admit (fst (ie_byte_call env)) (iw_buckets w1) (snd (ie_byte_call env))
                                  (byte_buckets (ie_sha env) prin ip (int (length raw))) of
                             (response, store) \<Rightarrow>
                               let w2 = w1\<lparr>iw_buckets := store\<rparr>
                               in if response \<noteq> Admitted then (RateReply response, w2)
                                  else process_body env prin request received_at (ie_decode env raw) w2)))"

section \<open>Vocabulary of the statements\<close>

text \<open>The events of a request: those of the sanitized body, in its order.\<close>

definition request_events :: "ingest_env \<Rightarrow> ingest_request \<Rightarrow> dict list option" where
  "request_events env request =
     (case read_body request of
        Inl _ \<Rightarrow> None
      | Inr raw \<Rightarrow>
          (case parse_canonical_json (ie_decode env raw) of
             Inl _ \<Rightarrow> None | Inr parsed \<Rightarrow> Some (batch_events (sanitize_auto_capture_events parsed))))"

text \<open>The entry the endpoint writes for an event.\<close>

definition enriched :: "ingest_env \<Rightarrow> rl_principal \<Rightarrow> ingest_request \<Rightarrow> dict \<Rightarrow> dict" where
  "enriched env prin request event =
     enrich_event (server_timestamp (truncate_millis (ie_utc_now env)))
       (client_ip (ie_parse_ip env) (ie_trusted env) (ir_host request) (ir_forwarded request))
       (pr_project prin) event"

definition stream_entry :: "ingest_env \<Rightarrow> rl_principal \<Rightarrow> ingest_request \<Rightarrow> dict \<Rightarrow> json_source" where
  "stream_entry env prin request event = Tree (tree_of (PDict (enriched env prin request event)))"

text \<open>Pydantic reports an event that it refuses.\<close>

definition reports_refusals :: "ingest_env \<Rightarrow> bool" where
  "reports_refusals env \<longleftrightarrow>
     (\<forall>e. \<not> event_model_ok (truncate_millis (ie_utc_now env)) e \<longrightarrow> ie_model_errors env e \<noteq> [])"

section \<open>Samples\<close>

definition sample_receipt :: datetime where
  "sample_receipt = \<lparr>dt_year = 2025, dt_month = 6, dt_day = 15, dt_hour = 12, dt_minute = 0, dt_second = 0,
     dt_microsecond = 123456\<rparr>"

definition sample_event_tree :: json_tree where
  "sample_event_tree = JObject
     [(''event'', JStr ''$click''), (''type'', JStr ''track''), (''anonymous_id'', JStr ''a1''),
      (''timestamp'', JStr ''2025-06-15T11:59:00Z''),
      (''properties'', JObject [(''tag'', JStr ''button''), (''text'', JStr ''secret'')]),
      (''context'', JObject [(''device'', JObject [(''type'', JStr ''mobile'')]), (''referrer'', JStr ''https://x'')]),
      (''message_id'', JStr ''m1'')]"

definition sample_event :: dict where
  "sample_event =
     [(''event'', PStr ''$click''), (''type'', PStr ''track''), (''anonymous_id'', PStr ''a1''),
      (''timestamp'', PStr ''2025-06-15T11:59:00Z''),
      (''properties'', PDict [(''tag'', PStr ''button''), (''text'', PStr ''secret'')]),
      (''context'', PDict [(''device'', PDict [(''type'', PStr ''mobile'')]), (''referrer'', PStr ''https://x'')]),
      (''message_id'', PStr ''m1'')]"

definition bad_error_event :: dict where
  "bad_error_event = [(''event'', PStr ''$frontend_error''), (''properties'', PDict [(''error_type'', PList [])])]"

definition bad_error_tree :: json_tree where
  "bad_error_tree = JObject [(''events'', JArray [JObject
     [(''event'', JStr ''$frontend_error''), (''properties'', JObject [(''error_type'', JArray [])])]])]"

definition sample_ingest_env :: ingest_env where
  "sample_ingest_env = \<lparr>ie_sha = (\<lambda>s. s), ie_format = (\<lambda>_. []), ie_parse_ip = Some, ie_trusted = (\<lambda>_. False),
     ie_float_repr = (\<lambda>_. ''0''), ie_model_errors = (\<lambda>_. [([], ''refused'')]),
     ie_decode = (\<lambda>_. Tree (JObject [(''events'', JArray [sample_event_tree])])), ie_utc_now = sample_receipt,
     ie_request_call = (True, 1000), ie_byte_call = (True, 1000), ie_event_call = (True, 1000),
     ie_publish_call = RedisOk, ie_clock = 0\<rparr>"

definition sample_ingest_principal :: rl_principal where
  "sample_ingest_principal = \<lparr>pr_credential_id = ''key1'', pr_project = ''demo'', pr_credential_kind = BROWSER\<rparr>"

definition sample_ingest_request :: ingest_request where
  "sample_ingest_request = \<lparr>ir_host = ''10.0.0.1'', ir_forwarded = [], ir_content_length = NoLength,
     ir_chunks = [[123, 125]], ir_stream_fails = False\<rparr>"

definition sample_ingest_world :: ingest_world where
  "sample_ingest_world = \<lparr>iw_buckets = (\<lambda>_. None), iw_streams = (\<lambda>_. []), iw_last_alert_log = []\<rparr>"

section \<open>What an accepted batch is\<close>

lemma checks_clean: "checks cs = Inr [] \<Longrightarrow> c \<in> set cs \<Longrightarrow> c = Inr []"
  by (induction cs) (auto split: sum.splits)

lemma validate_event_clean:
  assumes "validate_event errs rcv ev pre = Inr []"
    and "\<forall>e. \<not> event_model_ok rcv e \<longrightarrow> errs e \<noteq> []"
  obtains e where "ev = PDict e" and "event_model_ok rcv e"
    and "validate_reserved_event e pre = Inr []"
proof -
  from assms(1) obtain e where ev: "ev = PDict e" by (cases ev) (simp_all add: validate_event_def)
  define model where "model = (if event_model_ok rcv e then [] else format_errors (errs e) pre)"
  obtain head where "validate_event errs rcv ev pre = checks [Inr head, Inr model, validate_reserved_event e pre]"
    unfolding ev model_def validate_event_def pyval.case by blast
  note clean = checks_clean [OF this [symmetric, unfolded assms(1)]]
  have "model = []" using clean [of "Inr model"] by simp
  then have "event_model_ok rcv e" using assms(2) by (auto simp: model_def format_errors_def split: if_splits)
  moreover have "validate_reserved_event e pre = Inr []" using clean by simp
  ultimately show ?thesis using that ev by blast
qed

lemma validate_event_batch_clean:
  assumes "validate_event_batch errs rcv body = Inr []"
    and "\<forall>e. \<not> event_model_ok rcv e \<longrightarrow> errs e \<noteq> []"
  obtains b events where "body = PDict b" and "dget b ''events'' = PList (map PDict events)"
    and "events \<noteq> []" and "length events \<le> MAX_BATCH_SIZE" and "\<forall>e \<in> set events. event_model_ok rcv e"
    and "unique_message_ids (map PDict events) 0 [] = []"
proof -
  from assms(1) obtain b where b: "body = PDict b"
    by (cases body) (simp_all add: validate_event_batch_def)
  with assms(1) obtain evs where e: "dget b ''events'' = PList evs"
    by (cases "dget b ''events''") (simp_all add: validate_event_batch_def split: if_splits)
  from assms(1) b e have ne: "evs \<noteq> []" and len: "length evs \<le> MAX_BATCH_SIZE"
    and c: "checks (map (\<lambda>(i, ev). validate_event errs rcv ev (event_prefix i)) (enumerate 0 evs)
      @ [Inr (unique_message_ids evs 0 [])]) = Inr []"
    by (simp_all add: validate_event_batch_def split: if_splits)
  note clean = checks_clean [OF c]
  have all: "\<exists>d. ev = PDict d \<and> event_model_ok rcv d" if "ev \<in> set evs" for ev
  proof -
    from that obtain i where "i < length evs" "evs ! i = ev" by (auto simp: in_set_conv_nth)
    then have "(i, ev) \<in> set (enumerate 0 evs)" by (auto simp: in_set_enumerate_eq)
    then have "validate_event errs rcv ev (event_prefix i) = Inr []" by (intro clean) force
    from validate_event_clean [OF this assms(2)] show ?thesis by blast
  qed
  define events where "events = map as_dict evs"
  have "PDict (as_dict ev) = ev" if "ev \<in> set evs" for ev using all [OF that] by (auto simp: as_dict_def)
  then have evs: "evs = map PDict events" by (simp add: events_def comp_def map_idI)
  have "unique_message_ids evs 0 [] = []" using clean [of "Inr (unique_message_ids evs 0 [])"] by simp
  moreover have "\<forall>d \<in> set events. event_model_ok rcv d" using all evs by auto
  ultimately show ?thesis using that [of b events] b e ne len unfolding evs by simp
qed


section \<open>No key is written twice\<close>

lemma unique_keys_member: "unique_keys_in (PDict d) \<Longrightarrow> map_of d k = Some v \<Longrightarrow> unique_keys_in v"
  by (auto simp: list_all_iff dest: map_of_SomeD)

lemma unique_keys_dget: "unique_keys_in (PDict d) \<Longrightarrow> unique_keys_in (dget d k)"
  using unique_keys_member [of d k] by (cases "map_of d k") (simp_all del: unique_keys_in.simps(2))

lemma set_dset_subset: "set (dset d k v) \<subseteq> insert (k, v) (set d)"
  by (induction d k v rule: dset.induct) auto

lemma unique_keys_dset:
  "unique_keys_in (PDict d) \<Longrightarrow> unique_keys_in v \<Longrightarrow> unique_keys_in (PDict (dset d k v))"
  using set_dset_subset [of d k v] by (auto simp: list_all_iff)

lemma map_filter_keys:
  assumes "\<And>e y. f e = Some y \<Longrightarrow> fst y = fst e" and "distinct (map fst s)"
  shows "distinct (map fst (List.map_filter f s)) \<and> fst ` set (List.map_filter f s) \<subseteq> fst ` set s"
  using assms(2)
proof (induction s)
  case (Cons e s)
  then have ih: "distinct (map fst (List.map_filter f s))" "fst ` set (List.map_filter f s) \<subseteq> fst ` set s"
    and e: "fst e \<notin> fst ` set s" by simp_all
  show ?case
  proof (cases "f e")
    case None
    then have "List.map_filter f (e # s) = List.map_filter f s" by (simp add: List.map_filter_def)
    with ih show ?thesis by auto
  next
    case (Some y)
    then have eq: "List.map_filter f (e # s) = y # List.map_filter f s" by (simp add: List.map_filter_def)
    show ?thesis unfolding eq using ih e assms(1) [OF Some] by auto
  qed
qed (simp add: List.map_filter_def)

lemma safe_properties_mem:
  "(k, x) \<in> set (safe_properties v schema) \<Longrightarrow>
     \<exists>d ok. v = PDict d \<and> map_of d k = Some x \<and> (k, ok) \<in> set schema \<and> ok x"
  by (cases v) (auto simp: safe_properties_def List.map_filter_def split: option.splits if_splits)

lemma AUTO_CAPTURE_distinct: "AUTO_CAPTURE_PROPERTIES n = Some schema \<Longrightarrow> distinct (map fst schema)"
  by (auto simp: AUTO_CAPTURE_PROPERTIES_def split: if_splits)

lemma unique_keys_safe_properties:
  assumes "distinct (map fst schema)" and "unique_keys_in v"
  shows "unique_keys_in (PDict (safe_properties v schema))"
proof -
  have "distinct (map fst (safe_properties v schema))"
    using assms(1)
    by (cases v) (auto simp: safe_properties_def intro!: conjunct1 [OF map_filter_keys]
        split: option.splits if_splits)
  moreover have "unique_keys_in x" if "(k, x) \<in> set (safe_properties v schema)" for k x
    using safe_properties_mem [OF that] assms(2) unique_keys_member by blast
  ultimately show ?thesis by (auto simp: list_all_iff)
qed

lemma unique_keys_safe_context: "unique_keys_in v \<Longrightarrow> unique_keys_in (safe_context v)"
  by (cases v) (auto simp: safe_context_def list_all_iff distinct_map_filter)

lemma unique_keys_sanitize_event:
  assumes "unique_keys_in v"
  shows "unique_keys_in (sanitize_event v)"
proof (cases "\<exists>e n schema. v = PDict e \<and> dget e ''event'' = PStr n \<and> AUTO_CAPTURE_PROPERTIES n = Some schema")
  case True
  then obtain e n schema where v: "v = PDict e" and n: "dget e ''event'' = PStr n"
    and s: "AUTO_CAPTURE_PROPERTIES n = Some schema" by blast
  have props: "unique_keys_in (PDict (safe_properties (dget e ''properties'') schema))"
    using unique_keys_safe_properties [OF AUTO_CAPTURE_distinct [OF s]] unique_keys_dget assms v by blast
  have ctx: "unique_keys_in (safe_context (dget e ''context''))"
    using unique_keys_safe_context unique_keys_dget assms v by blast
  show ?thesis
    using unique_keys_dset [OF _ props, of e] unique_keys_dset [OF _ ctx] assms
    by (simp add: sanitize_event_def v n s Let_def del: unique_keys_in.simps)
next
  case False
  then have "sanitize_event v = v"
    by (auto simp: sanitize_event_def split: pyval.splits option.splits)
  with assms show ?thesis by simp
qed

lemma unique_keys_sanitize:
  assumes "unique_keys_in body"
  shows "unique_keys_in (sanitize_auto_capture_events body)"
proof (cases "\<exists>b evs. body = PDict b \<and> dget b ''events'' = PList evs")
  case True
  then obtain b evs where b: "body = PDict b" and e: "dget b ''events'' = PList evs" by blast
  have "unique_keys_in (PList evs)" using unique_keys_dget [of b "''events''"] assms b e by simp
  then have "unique_keys_in (PList (map sanitize_event evs))"
    by (auto simp: list_all_iff unique_keys_sanitize_event)
  then show ?thesis using assms unique_keys_dset [of b]
    by (simp add: sanitize_auto_capture_events_def b e del: unique_keys_in.simps)
next
  case False
  then have "sanitize_auto_capture_events body = body"
    by (auto simp: sanitize_auto_capture_events_def split: pyval.splits)
  with assms show ?thesis by simp
qed

lemma unique_keys_batch_events:
  assumes "unique_keys_in body" and "e \<in> set (batch_events body)"
  shows "unique_keys_in (PDict e)"
proof -
  from assms(2) obtain evs v where d: "dget (as_dict body) ''events'' = PList evs"
    and v: "v \<in> set evs" "e = as_dict v"
    by (cases "dget (as_dict body) ''events''") (auto simp: batch_events_def)
  have "unique_keys_in (PDict (as_dict body))" using assms(1) by (cases body) (simp_all add: as_dict_def)
  then have "unique_keys_in (PList evs)" using unique_keys_dget [of _ "''events''"] d by metis
  with v(1) have "unique_keys_in v" by (auto simp: list_all_iff)
  with v(2) show ?thesis by (cases v) (simp_all add: as_dict_def)
qed

lemma unique_keys_enrich:
  "unique_keys_in (PDict e) \<Longrightarrow> unique_keys_in (PDict (enrich_event ts ip pid e))"
  unfolding enrich_event_def by (intro unique_keys_dset) simp_all


section \<open>What a request publishes\<close>

text \<open>The texts of \<open>events\<close> are appended to a stream that has room for them.\<close>

definition appended ::
    "(rat \<Rightarrow> string) \<Rightarrow> ingest_world \<Rightarrow> string \<Rightarrow> dict list \<Rightarrow> ingest_world \<Rightarrow> bool" where
  "appended fr w key events w' \<longleftrightarrow>
     iw_streams w' = (iw_streams w)(key := iw_streams w key @ map (\<lambda>e. Tree (tree_of (PDict e))) events)
     \<and> int (length (iw_streams w key) + length events) \<le> EVENT_STREAM_MAX_ENTRIES
     \<and> (\<forall>e \<in> set events. \<exists>t. json_dumps fr (PDict e) = Some t)"

lemma log_alert_streams [simp]: "iw_streams (log_alert c e k w) = iw_streams w"
  by (simp add: log_alert_def)

lemma publish_batch_effect:
  assumes "publish_batch fr fault clock key events w = (r, w')"
  shows "case r of
      Published n \<Rightarrow> n = length events \<and> fault = RedisOk
        \<and> appended fr w key events w'
    | _ \<Rightarrow> iw_streams w' = iw_streams w
        \<or> (\<exists>m. fault = ReplyLost m) \<and> appended fr w key events w'"
proof (cases "those (map (\<lambda>e. json_dumps fr (PDict e)) events)")
  case None
  with assms show ?thesis by (auto simp: publish_batch_def)
next
  case (Some texts)
  have "\<exists>t. json_dumps fr (PDict e) = Some t" if "e \<in> set events" for e
    using those_map_None [OF that, of "\<lambda>e. json_dumps fr (PDict e)"] Some by (cases "json_dumps fr (PDict e)") simp_all
  with assms Some show ?thesis
    by (auto simp: publish_batch_def admit_batch_lua_def appended_def Let_def simp del: json_dumps.simps tree_of.simps
        split: redis_fault.splits if_splits)
qed

lemma publish_events_effect:
  assumes "publish_events env prin request rcv events w = (reply, w')" and "rcv = truncate_millis (ie_utc_now env)"
  shows "case reply of
      Accepted n \<Rightarrow> n = length events
        \<and> appended (ie_float_repr env) w (stream_key_of (pr_project prin)) (map (enriched env prin request) events) w'
    | _ \<Rightarrow> iw_streams w' = iw_streams w
        \<or> (\<exists>m. ie_publish_call env = ReplyLost m)
          \<and> appended (ie_float_repr env) w (stream_key_of (pr_project prin)) (map (enriched env prin request) events) w'"
proof -
  let ?ip = "client_ip (ie_parse_ip env) (ie_trusted env) (ir_host request) (ir_forwarded request)"
  let ?es = "map (enrich_event (server_timestamp rcv) ?ip (pr_project prin)) events"
  have entries: "?es = map (enriched env prin request) events"
    by (simp add: enriched_def assms(2))
  have app: "appended fr (w\<lparr>iw_buckets := b\<rparr>) k es w2 = appended fr w k es w2" for fr b k es w2
    by (simp add: appended_def)
  show ?thesis
  proof (cases "event_buckets (ie_sha env) (ie_format env) prin ?ip events")
    case None
    with assms(1) show ?thesis by (auto simp: publish_events_def Let_def)
  next
    case (Some buckets)
    obtain response b where adm: "admit (fst (ie_event_call env)) (iw_buckets w) (snd (ie_event_call env)) buckets
      = (response, b)" by fastforce
    obtain r w2 where pub: "publish_batch (ie_float_repr env) (ie_publish_call env) (ie_clock env)
        (stream_key_of (pr_project prin)) ?es (w\<lparr>iw_buckets := b\<rparr>) = (r, w2)" by fastforce
    note eff = publish_batch_effect [OF pub, unfolded entries app]
    have "(reply, w') = (if response \<noteq> Admitted then (RateReply response, w\<lparr>iw_buckets := b\<rparr>)
        else (case r of Published n \<Rightarrow> (Accepted (length events), w2)
              | StreamOverloaded _ _ \<Rightarrow> (Overloaded EVENT_STREAM_RETRY_AFTER_SECONDS, w2)
              | PublishFailed \<Rightarrow>
                  (ErrorReply 503 ''service_unavailable'' ''Failed to atomically enqueue event batch'', w2)))"
      using assms(1) by (cases "response = Admitted"; cases r) (simp_all add: publish_events_def Some adm pub Let_def)
    with eff show ?thesis by (cases r) (auto split: if_splits)
  qed
qed


lemma unique_message_ids_distinct:
  assumes "unique_message_ids (map PDict events) i seen = []"
    and "\<forall>e \<in> set events. \<exists>m. dget e ''message_id'' = PStr m"
  shows "distinct (map (\<lambda>e. dget e ''message_id'') events)
    \<and> (\<forall>e \<in> set events. \<forall>m. dget e ''message_id'' = PStr m \<longrightarrow> map_of seen m = None)"
  using assms
proof (induction events arbitrary: i seen)
  case (Cons e events)
  obtain m where m: "dget e ''message_id'' = PStr m" using Cons.prems(2) by auto
  with Cons.prems(1) have new: "map_of seen m = None"
    and rest: "unique_message_ids (map PDict events) (i + 1) (seen @ [(m, i)]) = []"
    by (auto split: option.splits)
  from Cons.IH [OF rest] Cons.prems(2) have d: "distinct (map (\<lambda>e. dget e ''message_id'') events)"
    and s: "\<And>e' m'. e' \<in> set events \<Longrightarrow> dget e' ''message_id'' = PStr m' \<Longrightarrow> map_of (seen @ [(m, i)]) m' = None"
    by auto
  have "PStr m \<noteq> dget e' ''message_id''" if "e' \<in> set events" for e'
    using s [OF that, of m] by (auto simp: map_add_def split: option.splits)
  moreover have "map_of seen m' = None" if "e' \<in> set events" "dget e' ''message_id'' = PStr m'" for e' m'
    using s [OF that] by (auto simp: map_add_def split: option.splits)
  ultimately show ?case using d m new by auto
qed simp

lemma event_model_message_id:
  "event_model_ok rcv e \<Longrightarrow> \<exists>m. dget e ''message_id'' = PStr m \<and> 1 \<le> length m \<and> length m \<le> 128"
  by (auto simp: event_model_ok_def required_ok_def text_within_def split: option.splits pyval.splits)

text \<open>The batch a request appends to its project's stream.\<close>

definition published_batch ::
    "ingest_env \<Rightarrow> rl_principal \<Rightarrow> ingest_request \<Rightarrow> ingest_world \<Rightarrow> ingest_world \<Rightarrow> dict list \<Rightarrow> bool" where
  "published_batch env prin request w w' events \<longleftrightarrow>
     request_events env request = Some events \<and> events \<noteq> [] \<and> length events \<le> MAX_BATCH_SIZE
     \<and> (\<forall>e \<in> set events. event_model_ok (truncate_millis (ie_utc_now env)) e)
     \<and> distinct (map (\<lambda>e. dget e ''message_id'') events)
     \<and> appended (ie_float_repr env) w (stream_key_of (pr_project prin)) (map (enriched env prin request) events) w'"

definition ingest_effect ::
    "ingest_env \<Rightarrow> rl_principal \<Rightarrow> ingest_request \<Rightarrow> ingest_world \<Rightarrow> ingest_reply \<Rightarrow> ingest_world \<Rightarrow> bool" where
  "ingest_effect env prin request w reply w' = (case reply of
     Accepted n \<Rightarrow> \<exists>events. published_batch env prin request w w' events \<and> n = length events
   | _ \<Rightarrow> iw_streams w' = iw_streams w
       \<or> (\<exists>m. ie_publish_call env = ReplyLost m) \<and> (\<exists>events. published_batch env prin request w w' events))"

lemma batch_events_of: "dget b ''events'' = PList (map PDict events) \<Longrightarrow> batch_events (PDict b) = events"
  by (simp add: batch_events_def as_dict_def comp_def)

lemma process_body_effect:
  assumes "process_body env prin request (truncate_millis (ie_utc_now env)) (ie_decode env raw) w = (reply, w')"
    and "read_body request = Inr raw" and "reports_refusals env"
  shows "ingest_effect env prin request w reply w'"
proof (cases "\<exists>parsed. parse_canonical_json (ie_decode env raw) = Inr parsed
    \<and> check_body_bounds (ie_float_repr env) parsed = Inr () \<and> truthy (sanitize_auto_capture_events parsed)
    \<and> validate_event_batch (ie_model_errors env) (truncate_millis (ie_utc_now env))
        (sanitize_auto_capture_events parsed) = Inr []")
  case True
  let ?rcv = "truncate_millis (ie_utc_now env)"
  from True obtain parsed where p: "parse_canonical_json (ie_decode env raw) = Inr parsed"
    and bounds: "check_body_bounds (ie_float_repr env) parsed = Inr ()"
    and t: "truthy (sanitize_auto_capture_events parsed)"
    and v: "validate_event_batch (ie_model_errors env) ?rcv (sanitize_auto_capture_events parsed) = Inr []"
    by blast
  obtain b events where body: "sanitize_auto_capture_events parsed = PDict b"
    and evs: "dget b ''events'' = PList (map PDict events)" and ne: "events \<noteq> []"
    and len: "length events \<le> MAX_BATCH_SIZE" and ok: "\<forall>e \<in> set events. event_model_ok ?rcv e"
    and ids: "unique_message_ids (map PDict events) 0 [] = []"
    using validate_event_batch_clean [OF v] assms(3) unfolding reports_refusals_def by blast
  note be = batch_events_of [OF evs]
  have re: "request_events env request = Some events"
    by (simp add: request_events_def assms(2) p body be)
  have dist: "distinct (map (\<lambda>e. dget e ''message_id'') events)"
    using unique_message_ids_distinct [OF ids] event_model_message_id ok by blast
  have pub: "publish_events env prin request ?rcv events w = (reply, w')"
    using assms(1) t v be by (simp add: process_body_def p bounds Let_def body)
  have batch: "published_batch env prin request w w' events \<longleftrightarrow>
      appended (ie_float_repr env) w (stream_key_of (pr_project prin)) (map (enriched env prin request) events) w'"
    by (simp add: published_batch_def re ne len ok dist)
  from publish_events_effect [OF pub refl] show ?thesis
    unfolding ingest_effect_def by (cases reply) (auto simp: batch [symmetric])
next
  case False
  with assms(1) show ?thesis
    by (auto simp: process_body_def ingest_effect_def Let_def split: sum.splits if_splits)
qed

lemma ingest_effect_buckets [simp]:
  "ingest_effect env prin request (w\<lparr>iw_buckets := b\<rparr>) reply w' = ingest_effect env prin request w reply w'"
proof -
  have "published_batch env prin request (w\<lparr>iw_buckets := b\<rparr>) w' = published_batch env prin request w w'"
    by (simp add: fun_eq_iff published_batch_def appended_def)
  then show ?thesis by (cases reply) (simp_all add: ingest_effect_def)
qed

lemma read_body_refusal: "read_body request = Inl reply \<Longrightarrow> \<exists>c k m. reply = ErrorReply c k m"
  by (auto simp: read_body_def length_refusal_def too_large_def
      split: option.splits sum.splits body_error.splits content_length.splits if_splits)

lemma ingest_events_effect:
  assumes "ingest_events env prin request w = (reply, w')" and "reports_refusals env"
  shows "ingest_effect env prin request w reply w'"
proof -
  let ?ip = "client_ip (ie_parse_ip env) (ie_trusted env) (ir_host request) (ir_forwarded request)"
  obtain r1 b1 where a1: "admit (fst (ie_request_call env)) (iw_buckets w) (snd (ie_request_call env))
      (request_buckets (ie_sha env) prin ?ip) = (r1, b1)" by fastforce
  show ?thesis
  proof (cases "r1 = Admitted")
    case False
    with assms(1) show ?thesis by (auto simp: ingest_events_def a1 Let_def ingest_effect_def)
  next
    case adm1: True
    show ?thesis
    proof (cases "read_body request")
      case (Inl x)
      then have "reply = x" "w' = w\<lparr>iw_buckets := b1\<rparr>"
        using assms(1) adm1 by (simp_all add: ingest_events_def a1 Let_def)
      with read_body_refusal [OF Inl] show ?thesis by (auto simp: ingest_effect_def)
    next
      case (Inr raw)
      obtain r2 b2 where a2: "admit (fst (ie_byte_call env)) b1 (snd (ie_byte_call env))
          (byte_buckets (ie_sha env) prin ?ip (int (length raw))) = (r2, b2)" by fastforce
      show ?thesis
      proof (cases "r2 = Admitted")
        case False
        with assms(1) adm1 show ?thesis
          by (auto simp: ingest_events_def a1 Inr a2 Let_def ingest_effect_def)
      next
        case True
        with assms(1) adm1
        have "process_body env prin request (truncate_millis (ie_utc_now env)) (ie_decode env raw)
            (w\<lparr>iw_buckets := b2\<rparr>) = (reply, w')"
          by (simp add: ingest_events_def a1 Inr a2 Let_def)
        from process_body_effect [OF this Inr assms(2)] show ?thesis by simp
      qed
    qed
  qed
qed


section \<open>Privacy of captured clicks\<close>

lemma dget_dset [simp]: "dget (dset d k v) k' = (if k' = k then v else dget d k')"
  by (simp add: dget_def dget_default_def)

lemma dset_dget_dict: "dget d k = v \<Longrightarrow> v \<noteq> PNone \<Longrightarrow> dset d k v = d"
  by (cases "map_of d k") (auto intro: dset_same)

lemma py_eq_items_keys: "py_eq_items d e \<Longrightarrow> fst ` set d \<subseteq> fst ` set e"
proof (induction d)
  case (Cons a d)
  obtain k v where a: "a = (k, v)" by force
  with Cons.prems obtain w where "map_of e k = Some w" by (cases "map_of e k") simp_all
  then have "k \<in> fst ` set e" by (metis domI dom_map_of_conv_image_fst)
  with Cons a show ?case by (simp split: option.splits)
qed simp

text \<open>Properties that equal their reduction have only safe entries.\<close>

lemma safe_properties_equal:
  assumes "py_eq v (PDict (safe_properties v schema))" and "unique_keys_in v"
  obtains d where "v = PDict d" and "\<forall>(k, x) \<in> set d. \<exists>ok. (k, ok) \<in> set schema \<and> ok x"
proof -
  obtain d where v: "v = PDict d"
    using assms(1) by (cases v) (auto split: option.splits)
  have sub: "fst ` set d \<subseteq> fst ` set (safe_properties v schema)"
    using assms(1) v by (auto intro!: py_eq_items_keys)
  have "\<exists>ok. (k, ok) \<in> set schema \<and> ok x" if kx: "(k, x) \<in> set d" for k x
  proof -
    from kx sub obtain y where y: "(k, y) \<in> set (safe_properties v schema)" by force
    have "map_of d k = Some x" using kx assms(2) v by simp
    with safe_properties_mem [OF y] v show ?thesis by auto
  qed
  with v that show ?thesis by auto
qed

lemma safe_properties_idem:
  "distinct (map fst schema) \<Longrightarrow>
     safe_properties (PDict (safe_properties v schema)) schema = safe_properties v schema"
proof (cases v)
  case (PDict d)
  assume dist: "distinct (map fst schema)"
  let ?f = "\<lambda>d. \<lambda>(k, ok). case map_of d k of Some v \<Rightarrow> if ok v then Some (k, v) else None | None \<Rightarrow> None"
  have keys: "distinct (map fst (List.map_filter (?f d) schema))"
    using dist by (intro conjunct1 [OF map_filter_keys]) (auto split: option.splits if_splits)
  have "?f (List.map_filter (?f d) schema) e = ?f d e" if e: "e \<in> set schema" for e
  proof -
    obtain k ok where eq: "e = (k, ok)" by force
    show ?thesis
    proof (cases "?f d e")
      case None
      have "\<not> (ok x \<and> (k, x) \<in> set (List.map_filter (?f d) schema))" for x
        using None e eq by (auto simp: List.map_filter_def split: option.splits if_splits)
      then show ?thesis using None eq by (auto dest: map_of_SomeD split: option.splits)
    next
      case (Some y)
      then obtain x where y: "y = (k, x)" "ok x" using eq by (auto split: option.splits if_splits)
      have "(k, x) \<in> set (List.map_filter (?f d) schema)"
        using e Some y(1) by (force simp: List.map_filter_def)
      then have "map_of (List.map_filter (?f d) schema) k = Some x" using keys by simp
      then show ?thesis using Some y eq by simp
    qed
  qed
  then show ?thesis unfolding safe_properties_def PDict pyval.case
    by (auto simp: List.map_filter_def intro!: map_cong filter_cong)
qed (simp_all add: safe_properties_def List.map_filter_def split_def)


lemma safe_context_idem [simp]: "safe_context (safe_context c) = safe_context c"
  by (cases c) (simp_all add: safe_context_def)

lemma safe_context_keys: "safe_context c = PDict d \<Longrightarrow> \<not> has_key d ''page'' \<and> \<not> has_key d ''referrer''"
  by (cases c) (auto simp: safe_context_def has_key_iff)

lemma filter_same_length: "length (filter P xs) = length xs \<Longrightarrow> filter P xs = xs"
  using length_filter_less [of _ xs P] by (auto simp: filter_id_conv)

text \<open>A context that equals its reduction has lost nothing to it.\<close>

lemma safe_context_equal: "py_eq c (safe_context c) \<Longrightarrow> safe_context c = c"
proof (cases c)
  case (PDict d)
  assume "py_eq c (safe_context c)"
  then have "length (filter (\<lambda>(k, _). k \<noteq> ''page'' \<and> k \<noteq> ''referrer'') d) = length d"
    by (simp add: PDict safe_context_def)
  then have "filter (\<lambda>(k, _). k \<noteq> ''page'' \<and> k \<noteq> ''referrer'') d = d" by (rule filter_same_length)
  then show ?thesis by (simp add: PDict safe_context_def)
qed (simp_all add: safe_context_def)

lemma sanitize_event_cases:
  obtains (other) "sanitize_event v = v"
      and "\<And>e n. v = PDict e \<Longrightarrow> dget e ''event'' = PStr n \<Longrightarrow> AUTO_CAPTURE_PROPERTIES n = None"
  | (clean) e n schema where "v = PDict e" and "dget e ''event'' = PStr n"
      and "AUTO_CAPTURE_PROPERTIES n = Some schema" and "sanitize_event v = v"
      and "py_eq (dget e ''properties'') (PDict (safe_properties (dget e ''properties'') schema))"
      and "safe_context (dget e ''context'') = dget e ''context''"
  | (reduced) e n schema e' where "v = PDict e" and "dget e ''event'' = PStr n"
      and "AUTO_CAPTURE_PROPERTIES n = Some schema" and "sanitize_event v = PDict e'"
      and "dget e' ''event'' = PStr n"
      and "dget e' ''properties'' = PDict (safe_properties (dget e ''properties'') schema)"
      and "dget e' ''context'' = safe_context (dget e ''context'')"
proof (cases "\<exists>e n schema. v = PDict e \<and> dget e ''event'' = PStr n \<and> AUTO_CAPTURE_PROPERTIES n = Some schema")
  case False
  then have "sanitize_event v = v" by (auto simp: sanitize_event_def split: pyval.splits option.splits)
  with False other show thesis by fastforce
next
  case True
  then obtain e n schema where v: "v = PDict e" and n: "dget e ''event'' = PStr n"
    and s: "AUTO_CAPTURE_PROPERTIES n = Some schema" by blast
  let ?p = "py_eq (dget e ''properties'') (PDict (safe_properties (dget e ''properties'') schema))"
  let ?c = "py_eq (dget e ''context'') (safe_context (dget e ''context''))"
  show thesis
  proof (cases "?p \<and> ?c")
    case True
    then have "sanitize_event v = v" by (simp add: sanitize_event_def v n s)
    with clean [OF v n s] True safe_context_equal show thesis by blast
  next
    case False
    define e1 where "e1 = dset e ''properties'' (PDict (safe_properties (dget e ''properties'') schema))"
    define e' where "e' = (if ?c then e1 else dset e1 ''context'' (safe_context (dget e ''context'')))"
    have "sanitize_event v = PDict e'" using False by (auto simp: sanitize_event_def v n s e1_def e'_def Let_def)
    moreover have "dget e' ''event'' = PStr n" using n by (simp add: e'_def e1_def)
    moreover have "dget e' ''properties'' = PDict (safe_properties (dget e ''properties'') schema)"
      by (simp add: e'_def e1_def)
    moreover have "dget e' ''context'' = safe_context (dget e ''context'')"
      using safe_context_equal [of "dget e ''context''"] by (cases ?c) (simp_all add: e'_def e1_def)
    ultimately show thesis using reduced [OF v n s] by blast
  qed
qed

lemma sanitize_event_idem: "sanitize_event (sanitize_event v) = sanitize_event v"
proof (cases v rule: sanitize_event_cases)
  case (reduced e n schema e')
  have "dset e' ''properties'' (PDict (safe_properties (dget e' ''properties'') schema)) = e'"
    using dset_dget_dict [OF reduced(6)] safe_properties_idem [OF AUTO_CAPTURE_distinct [OF reduced(3)]]
    by (simp add: reduced(6))
  moreover have same: "safe_context (dget e' ''context'') = dget e' ''context''" by (simp add: reduced(7))
  moreover have "dset e' ''context'' (dget e' ''context'') = e' \<or> py_eq (dget e' ''context'') (dget e' ''context'')"
    using dset_dget_dict [OF refl, of e' "''context''"] by (cases "dget e' ''context'' = PNone") simp_all
  ultimately show ?thesis by (auto simp: reduced(4) sanitize_event_def [of "PDict e'"] reduced(5,3) Let_def)
qed simp_all

lemma sanitize_event_safe:
  assumes "sanitize_event v = PDict e" and "dget e ''event'' = PStr n"
    and "AUTO_CAPTURE_PROPERTIES n = Some schema" and "unique_keys_in v"
  shows "(\<exists>p. dget e ''properties'' = PDict p \<and> (\<forall>(k, x) \<in> set p. \<exists>ok. (k, ok) \<in> set schema \<and> ok x))
    \<and> (\<forall>c. dget e ''context'' = PDict c \<longrightarrow> \<not> has_key c ''page'' \<and> \<not> has_key c ''referrer'')"
proof (cases v rule: sanitize_event_cases)
  case other
  with assms show ?thesis by simp
next
  case (clean e0 n0 schema0)
  then have e: "e0 = e" "schema0 = schema" using assms by auto
  have "unique_keys_in (dget e ''properties'')" using assms(4) clean(1) e unique_keys_dget by blast
  then obtain p where "dget e ''properties'' = PDict p" "\<forall>(k, x) \<in> set p. \<exists>ok. (k, ok) \<in> set schema \<and> ok x"
    using safe_properties_equal [OF clean(5) [unfolded e]] by blast
  moreover have "\<not> has_key c ''page'' \<and> \<not> has_key c ''referrer''" if "dget e ''context'' = PDict c" for c
    using clean(6) that unfolding e by (intro safe_context_keys) simp
  ultimately show ?thesis by blast
next
  case (reduced e0 n0 schema0 e')
  then have e: "e' = e" "schema0 = schema" using assms by auto
  have "\<not> has_key c ''page'' \<and> \<not> has_key c ''referrer''" if "dget e ''context'' = PDict c" for c
    using reduced(7) that unfolding e by (intro safe_context_keys) simp
  moreover have "\<forall>(k, x) \<in> set (safe_properties (dget e0 ''properties'') schema). \<exists>ok. (k, ok) \<in> set schema \<and> ok x"
    using safe_properties_mem by fastforce
  ultimately show ?thesis using reduced(6) e by blast
qed


lemma sanitize_batch_events:
  "batch_events (sanitize_auto_capture_events (PDict b)) =
     (case dget b ''events'' of PList evs \<Rightarrow> map (\<lambda>v. as_dict (sanitize_event v)) evs | _ \<Rightarrow> [])"
  by (auto simp: sanitize_auto_capture_events_def batch_events_def as_dict_def comp_def
      split: pyval.splits dest!: map_eq_conv [THEN iffD1, of _ _ id, simplified])

section \<open>Values the reserved-event validators cannot hash\<close>

lemma checks_raise: "c \<in> set cs \<Longrightarrow> c = Inl x \<Longrightarrow> \<exists>y. checks cs = Inl y"
  by (induction cs) (auto split: sum.splits)

definition hashable :: "pyval \<Rightarrow> bool" where
  "hashable v \<longleftrightarrow> \<not> is_list v \<and> \<not> is_dict v"

text \<open>The properties that a reserved event compares with a frozen set.\<close>

definition enumerated_properties :: "string \<Rightarrow> string list" where
  "enumerated_properties name =
     (if name = ''$feature_flag_exposure'' then [''reason'', ''source'']
      else if name = ''$frontend_error'' then [''error_type'']
      else if name = ''$web_vital'' then [''metric'', ''rating''] else [])"

lemma validate_name_property_raises:
  "has_key p key \<Longrightarrow> \<not> hashable (dget p key) \<Longrightarrow> validate_name_property p pre key names message = Inl TypeErr"
  by (cases "dget p key") (simp_all add: validate_name_property_def in_names_def hashable_def)

lemma validate_reserved_raises:
  assumes "dget e ''properties'' = PDict p" and "\<exists>x. body p = Inl x"
  shows "\<exists>x. validate_reserved e pre name allowed what body = Inl x"
proof -
  have "has_key e ''properties''" using assms(1) by (cases "map_of e ''properties''") (simp_all add: has_key_def)
  then have "reserved_properties e pre = Inr p" using assms(1) by (simp add: reserved_properties_def)
  with assms(2) show ?thesis unfolding validate_reserved_def Let_def by (auto intro: checks_raise)
qed


lemma reserved_event_raises:
  assumes "dget e ''event'' = PStr name" and "dget e ''properties'' = PDict p"
    and "key \<in> set (enumerated_properties name)" and "\<not> hashable (dget p key)"
  shows "\<exists>x. validate_reserved_event e pre = Inl x"
proof -
  have "has_key p key" using assms(4) by (cases "map_of p key") (simp_all add: has_key_def hashable_def)
  note raises = validate_name_property_raises [OF this assms(4)]
  consider (exposure) "name = ''$feature_flag_exposure''" "key = ''reason'' \<or> key = ''source''"
    | (error) "name = ''$frontend_error''" "key = ''error_type''"
    | (vital) "name = ''$web_vital''" "key = ''metric'' \<or> key = ''rating''"
    using assms(3) by (auto simp: enumerated_properties_def split: if_splits)
  then show ?thesis
  proof cases
    case exposure
    have "\<exists>x. feature_flag_exposure_types pre p = Inl x"
      unfolding feature_flag_exposure_types_def using exposure(2)
      by (elim disjE; hypsubst) (rule checks_raise [OF _ raises], simp only: list.set, blast)+
    with exposure(1) assms(1) validate_reserved_raises [OF assms(2)] show ?thesis
      by (simp add: validate_reserved_event_def validate_feature_flag_exposure_event_def)
  next
    case error
    have "\<exists>x. frontend_error_types pre p = Inl x"
      unfolding frontend_error_types_def
      by (rule checks_raise [OF _ raises [unfolded error(2)]], simp only: set_append list.set, blast)
    with error(1) assms(1) validate_reserved_raises [OF assms(2)] show ?thesis
      by (simp add: validate_reserved_event_def validate_frontend_error_event_def)
  next
    case vital
    have "\<exists>x. web_vital_types pre p = Inl x"
      unfolding web_vital_types_def using vital(2)
      by (elim disjE; hypsubst) (rule checks_raise [OF _ raises], simp only: set_append list.set, blast)+
    with vital(1) assms(1) validate_reserved_raises [OF assms(2)] show ?thesis
      by (simp add: validate_reserved_event_def validate_web_vital_event_def)
  qed
qed


section \<open>Theorems\<close>

text \<open>
  C10. Admission is all or nothing. A request the endpoint accepts appends to its project's
  stream, and to no other, one entry per event of its sanitized body, in the order of the body,
  each the event with the receipt time, client address and project added; the batch is not
  empty, has at most 100 events, all valid under the event model, with distinct message ids, and
  the stream stays within its capacity. A request that is not accepted leaves every stream as it
  was, unless the reply to the publication was lost after Redis ran the script, when the whole
  batch is on the stream.\<close>

theorem batch_published_whole:
  assumes "ingest_events env prin request w = (reply, w')" and "reports_refusals env"
  shows "case reply of
      Accepted n \<Rightarrow> \<exists>events. published_batch env prin request w w' events \<and> n = length events
    | _ \<Rightarrow> iw_streams w' = iw_streams w
        \<or> (\<exists>m. ie_publish_call env = ReplyLost m) \<and> (\<exists>events. published_batch env prin request w w' events)"
  using ingest_events_effect [OF assms] unfolding ingest_effect_def .

text \<open>
  C36. Captured clicks are reduced to safe metadata. In a sanitized body a \<open>$click\<close> or
  \<open>$rage_click\<close> event has an object of properties whose every entry is in the allow list of its
  name and passes its check, and no page or referrer in its context; sanitizing again changes
  nothing.\<close>

theorem captured_clicks_reduced:
  assumes "unique_keys_in (PDict b)" and "e \<in> set (batch_events (sanitize_auto_capture_events (PDict b)))"
    and "dget e ''event'' = PStr name" and "AUTO_CAPTURE_PROPERTIES name = Some schema"
  shows "(\<exists>p. dget e ''properties'' = PDict p \<and> (\<forall>(k, x) \<in> set p. \<exists>ok. (k, ok) \<in> set schema \<and> ok x))
    \<and> (\<forall>c. dget e ''context'' = PDict c \<longrightarrow> \<not> has_key c ''page'' \<and> \<not> has_key c ''referrer'')
    \<and> sanitize_event (PDict e) = PDict e"
proof -
  obtain evs where evs: "dget b ''events'' = PList evs" and mem: "e \<in> (\<lambda>v. as_dict (sanitize_event v)) ` set evs"
    using assms(2) unfolding sanitize_batch_events by (cases "dget b ''events''") simp_all
  then obtain v where v: "v \<in> set evs" "e = as_dict (sanitize_event v)" by blast
  have s: "sanitize_event v = PDict e"
    using assms(3) v(2) by (cases "sanitize_event v") (auto simp: as_dict_def dget_def dget_default_def)
  have "unique_keys_in (PList evs)" using unique_keys_dget [OF assms(1), of "''events''"] evs by simp
  then have "unique_keys_in v" using v(1) by (simp add: list_all_iff)
  from sanitize_event_safe [OF s assms(3,4) this] sanitize_event_idem [of v] s show ?thesis by auto
qed

text \<open>
  C37. A reserved event with a list or an object where the validator expects a name makes the
  endpoint raise: \<open>in\<close> on a frozen set hashes the value. The caller gets no list of errors and
  nothing is published.\<close>

theorem unhashable_property_raises:
  assumes "parse_canonical_json raw = Inr (PDict [(''events'', PList events)])"
    and "check_body_bounds (ie_float_repr env) (PDict [(''events'', PList events)]) = Inr ()"
    and "length events \<le> MAX_BATCH_SIZE" and "PDict e \<in> set events"
    and "dget e ''event'' = PStr name" and "dget e ''properties'' = PDict p"
    and "key \<in> set (enumerated_properties name)" and "\<not> hashable (dget p key)"
  shows "\<exists>x. process_body env prin request rcv raw w = (Raised x, w)"
proof -
  let ?evs = "map sanitize_event events"
  have "AUTO_CAPTURE_PROPERTIES name = None"
    using assms(7) by (auto simp: enumerated_properties_def AUTO_CAPTURE_PROPERTIES_def split: if_splits)
  then have "sanitize_event (PDict e) = PDict e" by (simp add: sanitize_event_def assms(5))
  then have mem: "PDict e \<in> set ?evs" using assms(4) by force
  have body: "sanitize_auto_capture_events (PDict [(''events'', PList events)]) = PDict [(''events'', PList ?evs)]"
    by (simp add: sanitize_auto_capture_events_def)
  from mem obtain i where "i < length ?evs" "?evs ! i = PDict e" by (metis in_set_conv_nth)
  then have at: "(i, PDict e) \<in> set (enumerate 0 ?evs)" by (auto simp: in_set_enumerate_eq)
  obtain x where "validate_reserved_event e (event_prefix i) = Inl x"
    using reserved_event_raises [OF assms(5-8)] by blast
  then obtain y where y: "validate_event (ie_model_errors env) rcv (PDict e) (event_prefix i) = Inl y"
    unfolding validate_event_def pyval.case
    using checks_raise [of "validate_reserved_event e (event_prefix i)"] by (metis list.set_intros)
  have "\<exists>z. checks (map (\<lambda>(i, ev). validate_event (ie_model_errors env) rcv ev (event_prefix i)) (enumerate 0 ?evs)
      @ [Inr (unique_message_ids ?evs 0 [])]) = Inl z"
    using checks_raise [OF _ y] at by force
  then show ?thesis
    using assms(1,2,3) mem
    by (auto simp: process_body_def Let_def body validate_event_batch_def has_key_def sorted_minus_def)
qed


section \<open>Witnesses\<close>

lemma sample_reports: "reports_refusals sample_ingest_env"
  by (simp add: reports_refusals_def sample_ingest_env_def)

definition sample_store1 :: bucket_store where
  "sample_store1 = snd (admit True (\<lambda>_. None) 1000 (request_buckets (\<lambda>s. s) sample_ingest_principal ''10.0.0.1''))"

definition sample_store2 :: bucket_store where
  "sample_store2 = snd (admit True sample_store1 1000 (byte_buckets (\<lambda>s. s) sample_ingest_principal ''10.0.0.1'' 2))"

definition sample_click :: dict where
  "sample_click =
     [(''event'', PStr ''$click''), (''type'', PStr ''track''), (''anonymous_id'', PStr ''a1''),
      (''timestamp'', PStr ''2025-06-15T11:59:00Z''), (''properties'', PDict [(''tag'', PStr ''button'')]),
      (''context'', PDict [(''device'', PDict [(''type'', PStr ''mobile'')])]), (''message_id'', PStr ''m1'')]"

definition sample_event_buckets :: "bucket_debit list" where
  "sample_event_buckets = the (event_buckets (\<lambda>s. s) (\<lambda>_. []) sample_ingest_principal ''10.0.0.1'' [sample_click])"

definition sample_store3 :: bucket_store where
  "sample_store3 = snd (admit True sample_store2 1000 sample_event_buckets)"

lemma pair_of_fst: "fst x = a \<Longrightarrow> x = (a, snd x)"
  by (metis prod.collapse)

lemma sample_admissions:
  "admit True (\<lambda>_. None) 1000 (request_buckets (\<lambda>s. s) sample_ingest_principal ''10.0.0.1'') = (Admitted, sample_store1)"
  "admit True sample_store1 1000 (byte_buckets (\<lambda>s. s) sample_ingest_principal ''10.0.0.1'' 2) = (Admitted, sample_store2)"
  "event_buckets (\<lambda>s. s) (\<lambda>_. []) sample_ingest_principal ''10.0.0.1'' [sample_click] = Some sample_event_buckets"
  "admit True sample_store2 1000 sample_event_buckets = (Admitted, sample_store3)"
  unfolding sample_store1_def sample_store2_def sample_store3_def sample_event_buckets_def
  by ((rule pair_of_fst)?, code_simp)+

lemma sample_parsed:
  "parse_canonical_json (ie_decode sample_ingest_env raw) = Inr (PDict [(''events'', PList [PDict sample_event])])"
  by (simp add: sample_ingest_env_def sample_event_tree_def sample_event_def parse_canonical_json_def has_key_def)

lemma sample_bounds:
  "check_body_bounds (ie_float_repr sample_ingest_env) (PDict [(''events'', PList [PDict sample_event])]) = Inr ()"
  by code_simp

lemma sample_sanitized:
  "sanitize_auto_capture_events (PDict [(''events'', PList [PDict sample_event])]) =
     PDict [(''events'', PList [PDict sample_click])]"
  by code_simp

lemma sample_valid:
  "validate_event_batch (ie_model_errors sample_ingest_env) (truncate_millis sample_receipt)
     (PDict [(''events'', PList [PDict sample_click])]) = Inr []"
  by code_simp

definition sample_enriched :: dict where
  "sample_enriched = enrich_event (server_timestamp (truncate_millis sample_receipt)) ''10.0.0.1'' ''demo'' sample_click"

lemma sample_dumps: "\<exists>t. json_dumps (\<lambda>_. ''0'') (PDict sample_enriched) = Some t"
proof -
  have "json_dumps (\<lambda>_. ''0'') (PDict sample_enriched) \<noteq> None" by code_simp
  then show ?thesis by blast
qed

lemma sample_ingest_reply:
  "fst (ingest_events sample_ingest_env sample_ingest_principal sample_ingest_request sample_ingest_world) = Accepted 1"
proof -
  have env: "ie_sha sample_ingest_env = (\<lambda>s. s)" "ie_format sample_ingest_env = (\<lambda>_. [])"
    "ie_parse_ip sample_ingest_env = Some" "ie_trusted sample_ingest_env = (\<lambda>_. False)"
    "ie_float_repr sample_ingest_env = (\<lambda>_. ''0'')" "ie_utc_now sample_ingest_env = sample_receipt"
    "ie_request_call sample_ingest_env = (True, 1000)" "ie_byte_call sample_ingest_env = (True, 1000)"
    "ie_event_call sample_ingest_env = (True, 1000)" "ie_publish_call sample_ingest_env = RedisOk"
    by (simp_all add: sample_ingest_env_def)
  have ip: "client_ip Some (\<lambda>_. False) (ir_host sample_ingest_request) (ir_forwarded sample_ingest_request) = ''10.0.0.1''"
    by (simp add: client_ip_def sample_ingest_request_def)
  have body: "read_body sample_ingest_request = Inr [123, 125]"
    by (simp add: read_body_def length_refusal_def sample_ingest_request_def MAX_REQUEST_BYTES_def)
  have events: "batch_events (PDict [(''events'', PList [PDict sample_click])]) = [sample_click]"
    by (simp add: batch_events_def as_dict_def)
  have w: "iw_buckets sample_ingest_world = (\<lambda>_. None)" by (simp add: sample_ingest_world_def)
  obtain t where dumps: "json_dumps (\<lambda>_. ''0'') (PDict sample_enriched) = Some t" using sample_dumps by blast
  have proj: "pr_project sample_ingest_principal = ''demo''" by (simp add: sample_ingest_principal_def)
  have pub: "fst (publish_batch (\<lambda>_. ''0'') RedisOk c (stream_key_of ''demo'') [sample_enriched]
      (sample_ingest_world\<lparr>iw_buckets := b\<rparr>)) = Published 1" for b c
    unfolding publish_batch_def list.map dumps
    by (simp add: admit_batch_lua_def sample_ingest_world_def EVENT_STREAM_MAX_ENTRIES_def Let_def)
  have "fst (publish_events sample_ingest_env sample_ingest_principal sample_ingest_request
      (truncate_millis sample_receipt) [sample_click] (sample_ingest_world\<lparr>iw_buckets := sample_store2\<rparr>)) = Accepted 1"
    using pub [where b = sample_store3 and c = "ie_clock sample_ingest_env"]
    by (auto simp: publish_events_def env ip sample_admissions proj sample_enriched_def [symmetric] Let_def
        split: prod.split publish_result.split)
  then have "fst (process_body sample_ingest_env sample_ingest_principal sample_ingest_request
      (truncate_millis sample_receipt) (ie_decode sample_ingest_env [123, 125])
      (sample_ingest_world\<lparr>iw_buckets := sample_store2\<rparr>)) = Accepted 1"
    unfolding process_body_def sample_parsed sum.case sample_bounds Let_def sample_sanitized sample_valid events
    by simp
  then show ?thesis
    by (simp add: ingest_events_def env ip w body sample_admissions Let_def)
qed


theorem batch_published_whole_witness:
  "fst (ingest_events sample_ingest_env sample_ingest_principal sample_ingest_request sample_ingest_world) = Accepted 1
   \<and> (\<exists>events. published_batch sample_ingest_env sample_ingest_principal sample_ingest_request sample_ingest_world
        (snd (ingest_events sample_ingest_env sample_ingest_principal sample_ingest_request sample_ingest_world)) events)"
  using batch_published_whole [OF pair_of_fst [OF sample_ingest_reply] sample_reports] sample_ingest_reply by auto

theorem captured_clicks_reduced_witness:
  "dget sample_click ''context'' = PDict [(''device'', PDict [(''type'', PStr ''mobile'')])]
   \<and> sanitize_event (PDict sample_click) = PDict sample_click"
proof -
  have mem: "sample_click \<in> set (batch_events (sanitize_auto_capture_events (PDict [(''events'', PList [PDict sample_event])])))"
    by (simp add: sample_sanitized batch_events_def as_dict_def)
  have "sanitize_event (PDict sample_click) = PDict sample_click"
    using captured_clicks_reduced [OF _ mem, of "''$click''"]
    by (simp add: sample_event_def sample_click_def AUTO_CAPTURE_PROPERTIES_def)
  then show ?thesis by (simp add: sample_click_def)
qed

theorem unhashable_property_raises_witness:
  "\<exists>x. process_body sample_ingest_env sample_ingest_principal sample_ingest_request (truncate_millis sample_receipt)
     (Tree bad_error_tree) sample_ingest_world = (Raised x, sample_ingest_world)"
proof (rule unhashable_property_raises [where e = bad_error_event and name = "''$frontend_error''"
      and key = "''error_type''" and p = "[(''error_type'', PList [])]" and events = "[PDict bad_error_event]"])
  show "parse_canonical_json (Tree bad_error_tree) = Inr (PDict [(''events'', PList [PDict bad_error_event])])"
    by (simp add: bad_error_tree_def bad_error_event_def parse_canonical_json_def has_key_def)
  show "check_body_bounds (ie_float_repr sample_ingest_env) (PDict [(''events'', PList [PDict bad_error_event])]) = Inr ()"
    by code_simp
qed (simp_all add: bad_error_event_def MAX_BATCH_SIZE_def enumerated_properties_def hashable_def)

end
