(* ===== verification/PipelineLaws.thy ===== *)
theory PipelineLaws
  imports IngestionEndpoint WriterRows
begin

text \<open>
  The contract between the two ends of the event pipeline: what the ingestion endpoint accepts
  and publishes is what the ClickHouse writer turns into a row. The two services state the
  contract separately, the one with pydantic models, the other with a sequence of checks.
\<close>

section \<open>The context contract\<close>

lemma first_failure_append [simp]:
  "first_failure (a @ b) = None \<longleftrightarrow> first_failure a = None \<and> first_failure b = None"
  by (induction a) (auto split: option.splits)

lemma first_failure_concat [simp]:
  "first_failure (concat xss) = None \<longleftrightarrow> list_all (\<lambda>xs. first_failure xs = None) xss"
  by (induction xss) auto

lemma first_failure_Cons [simp]: "first_failure (c # cs) = None \<longleftrightarrow> c = None \<and> first_failure cs = None"
  by (simp split: option.splits)

declare first_failure.simps(2) [simp del]

lemma failing_None [simp]: "failing bad e = None \<longleftrightarrow> \<not> bad"
  by (simp add: failing_def)

lemma when_present_None:
  "first_failure (when_present c field check) = None \<longleftrightarrow> present_ok c field (\<lambda>v. first_failure (check v) = None)"
  by (auto simp: when_present_def present_ok_def has_key_def split: option.splits)

lemma require_string_None:
  "first_failure (require_string v maximum non_empty) = None \<longleftrightarrow> text_within (if non_empty then 1 else 0) maximum v"
  by (cases v) (auto simp: require_string_def text_within_def Suc_le_eq)

lemma require_dimension_None: "first_failure (require_dimension v) = None \<longleftrightarrow> dimension_ok v"
  by (simp add: require_dimension_def dimension_ok_def)

lemma nested_object_None:
  "first_failure (validate_nested_object v names) = None \<longleftrightarrow>
     (\<exists>d. v = PDict d \<and> keys_within d names \<and> list_all (has_key d) names)"
  by (cases v) (auto simp: validate_nested_object_def reject_unknown_object_fields_def as_dict_def)

lemma required_of_present:
  "required_ok d k ok \<longleftrightarrow> has_key d k \<and> ok (dget d k)"
  by (auto simp: required_ok_def has_key_def split: option.splits)

lemma named_version_agree:
  "first_failure (validate_nested_object v [''name'', ''version''] @ require_string (dget (as_dict v) ''name'') 128 True
     @ require_string (dget (as_dict v) ''version'') 128 True) = None \<longleftrightarrow> named_version_ok v"
  by (cases v) (auto simp: nested_object_None require_string_None named_version_ok_def required_of_present as_dict_def)

lemma device_agree:
  "first_failure (validate_nested_object v [''type''] @ require_string (dget (as_dict v) ''type'') 64 True) = None
     \<longleftrightarrow> device_ok v"
  by (cases v) (auto simp: nested_object_None require_string_None device_ok_def required_of_present as_dict_def)

lemma dimensions_agree:
  "first_failure (validate_nested_object v [''width'', ''height''] @ require_dimension (dget (as_dict v) ''width'')
     @ require_dimension (dget (as_dict v) ''height'')) = None \<longleftrightarrow> dimensions_ok v"
  by (cases v) (auto simp: nested_object_None require_dimension_None dimensions_ok_def required_of_present as_dict_def)

lemma page_agree:
  "first_failure (validate_nested_object v [''url'', ''title'', ''path'', ''search'']
     @ concat (map (\<lambda>(field, maximum). require_string (dget (as_dict v) field) maximum False)
         [(''url'', 4096), (''title'', 1024), (''path'', 2048), (''search'', 2048)])) = None \<longleftrightarrow> page_ok v"
  by (cases v) (auto simp: nested_object_None require_string_None page_ok_def required_of_present as_dict_def)

lemma present_ok_cong: "(\<And>v. p v = q v) \<Longrightarrow> present_ok d k p = present_ok d k q"
  by (simp add: present_ok_def split: option.splits)

lemma context_agree: "first_failure (validate_context c) = None \<longleftrightarrow> event_context_ok (PDict c)"
proof -
  have fields: "CANONICAL_CONTEXT_FIELDS = EVENT_CONTEXT_FIELDS"
    by (simp add: CANONICAL_CONTEXT_FIELDS_def EVENT_CONTEXT_FIELDS_def)
  show ?thesis
    unfolding validate_context_def event_context_ok_def pyval.case first_failure_append first_failure_concat
      list.map list.pred_inject prod.case
    unfolding when_present_None
    unfolding named_version_agree device_agree dimensions_agree
      page_agree [unfolded list.map prod.case] require_string_None if_False
    by (simp add: reject_unknown_object_fields_def fields)
qed


section \<open>From the endpoint to a row\<close>

lemma json_dumps_writable:
  "json_dumps fr v = Some t \<Longrightarrow> json_writable v"
  "json_items fr xs = Some ts \<Longrightarrow> list_all json_writable xs"
  "json_members fr d = Some ts \<Longrightarrow> list_all (\<lambda>(k, v). json_writable v) d"
  by (induction fr v and fr xs and fr d arbitrary: t and ts and ts rule: json_dumps_json_items_json_members.induct)
     (auto split: option.splits pyfloat.splits)

lemma json_writable_dget: "json_writable (PDict d) \<Longrightarrow> json_writable (dget d k)"
  by (cases "map_of d k") (auto simp: list_all_iff dest: map_of_SomeD)

lemma request_events_unique:
  assumes "request_events env request = Some events" and "e \<in> set events"
  shows "unique_keys_in (PDict e)"
proof -
  from assms(1) obtain raw parsed where "parse_canonical_json (ie_decode env raw) = Inr parsed"
    and ev: "events = batch_events (sanitize_auto_capture_events parsed)"
    by (auto simp: request_events_def split: sum.splits)
  then have "unique_keys_in parsed"
    using read_tree_unique(1) by (auto simp: parse_canonical_json_def split: json_source.splits)
  then show ?thesis using unique_keys_batch_events [OF unique_keys_sanitize] assms(2) ev by blast
qed

lemma dget_enriched:
  "dget (enriched env prin request e) k =
     (if k = ''project_id'' then PStr (pr_project prin)
      else if k = ''ip'' then PStr (client_ip (ie_parse_ip env) (ie_trusted env) (ir_host request) (ir_forwarded request))
      else if k = ''server_timestamp'' then PStr (server_timestamp (truncate_millis (ie_utc_now env)))
      else dget e k)"
  by (simp add: enriched_def enrich_event_def)

lemma map_of_enriched:
  "k \<noteq> ''project_id'' \<Longrightarrow> k \<noteq> ''ip'' \<Longrightarrow> k \<noteq> ''server_timestamp'' \<Longrightarrow>
     map_of (enriched env prin request e) k = map_of e k"
  by (simp add: enriched_def enrich_event_def)

lemma keys_enriched:
  "fst ` set (enriched env prin request e) = fst ` set e \<union> {''project_id'', ''ip'', ''server_timestamp''}"
  by (auto simp: enriched_def enrich_event_def)

lemma present_not_null:
  "present_ok e k ok \<Longrightarrow> \<not> ok PNone \<Longrightarrow> map_of e k \<noteq> Some PNone"
  by (auto simp: present_ok_def)

lemma optional_string_of_present:
  "present_ok e k (text_within a b) \<Longrightarrow> \<exists>s. optional_string e k = Inr s"
  by (cases "map_of e k") (auto simp: present_ok_def text_within_def optional_string_def split: pyval.splits)

lemma text_within_None [simp]: "\<not> text_within a b PNone"
  by (simp add: text_within_def)

lemma required_present: "required_ok e k ok \<Longrightarrow> present_ok e k ok"
  by (auto simp: required_ok_def present_ok_def split: option.splits)

lemmas event_model_parts = event_model_ok_def required_of_present

lemma envelope_accepted:
  assumes "event_model_ok rcv e"
  shows "first_failure (envelope_checks [(''event_json'', payload)] (enriched env prin request e) (pr_project prin)) = None"
proof -
  let ?e = "enriched env prin request e"
  have keys: "keys_within ?e CANONICAL_EVENT_FIELDS"
    using assms by (auto simp: event_model_ok_def keys_within_iff keys_enriched EVENT_FIELDS_def CANONICAL_EVENT_FIELDS_def)
  have req: "list_all (has_key ?e) CANONICAL_REQUIRED_EVENT_FIELDS"
    using assms unfolding event_model_parts by (simp add: has_key_iff keys_enriched CANONICAL_REQUIRED_EVENT_FIELDS_def)
  have nulls: "map_of ?e k \<noteq> Some PNone"
    if "k \<in> {''user_id'', ''anonymous_id'', ''group_id'', ''properties'', ''traits'', ''session_id''}" for k
    using that assms by (auto simp: map_of_enriched event_model_ok_def validate_properties_def
        dest: present_not_null)
  from assms obtain t where ty: "dget e ''type'' = PStr t" "t \<in> set VALID_EVENT_TYPES"
    and env: "validate_canonical_envelope e"
    unfolding event_model_parts by (auto split: pyval.splits)
  obtain n where n: "dget e ''event'' = PStr n" "n \<noteq> []"
    using assms unfolding event_model_parts text_within_def
    by (cases "dget e ''event''") (auto simp: Suc_le_eq)
  obtain m where m: "dget e ''message_id'' = PStr m" "m \<noteq> []"
    using event_model_message_id [OF assms] by (auto simp: Suc_le_eq)
  have ids: "truthy (dget e ''user_id'') \<or> truthy (dget e ''anonymous_id'')"
    "t = ''identify'' \<longrightarrow> truthy (dget e ''user_id'')" "t = ''group'' \<longrightarrow> truthy (dget e ''group_id'')"
    using env by (simp_all add: validate_canonical_envelope_def ty)
  have name: "s \<in> {''identify'', ''group'', ''page''} \<Longrightarrow> t = s \<Longrightarrow> n = s" for s
    using env n(1) by (auto simp: validate_canonical_envelope_def ty canonical_event_name_def)
  have t: "t \<in> set CANONICAL_EVENT_TYPES"
    using ty(2) unfolding VALID_EVENT_TYPES_def CANONICAL_EVENT_TYPES_def .
  have names: "\<not> (\<exists>s \<in> {''identify'', ''group'', ''page''}. dget ?e ''type'' = PStr s \<and> dget ?e ''event'' \<noteq> PStr s)"
    using name by (auto simp: dget_enriched ty n)
  have nulls': "first_failure (map (\<lambda>field. failing (map_of ?e field = Some PNone) ValueE)
      [''user_id'', ''anonymous_id'', ''group_id'', ''properties'', ''traits'', ''session_id'']) = None"
    using nulls by simp
  show ?thesis
    unfolding envelope_checks_def first_failure_append
    using keys req nulls' names ids n m t
    by (simp only: first_failure_Cons failing_None) (simp add: dget_enriched ty check_of_def event_name_def)
qed


lemma object_accepted:
  "present_ok e k is_dict \<Longrightarrow> is_dict (object_or_empty e k)"
  by (cases "map_of e k") (auto simp: present_ok_def object_or_empty_def)

lemma properties_are_dict: "present_ok e k validate_properties \<Longrightarrow> present_ok e k is_dict"
  by (auto simp: present_ok_def validate_properties_def split: option.splits pyval.splits)

lemma nested_strings:
  assumes "event_context_ok (PDict c)"
  shows "\<exists>s. optional_string (as_dict (dget c ''device'')) ''type'' = Inr s"
    and "\<exists>s. optional_string (as_dict (dget c ''browser'')) ''name'' = Inr s"
proof -
  have d: "present_ok c ''device'' device_ok" and b: "present_ok c ''browser'' named_version_ok"
    using assms by (simp_all add: event_context_ok_def)
  show "\<exists>s. optional_string (as_dict (dget c ''device'')) ''type'' = Inr s"
  proof (cases "map_of c ''device''")
    case (Some v)
    with d obtain x where "v = PDict x" "required_ok x ''type'' (text_within 1 64)"
      by (cases v) (simp_all add: present_ok_def device_ok_def)
    with Some show ?thesis using optional_string_of_present [OF required_present] by (simp add: as_dict_def)
  qed (simp add: as_dict_def optional_string_def)
  show "\<exists>s. optional_string (as_dict (dget c ''browser'')) ''name'' = Inr s"
  proof (cases "map_of c ''browser''")
    case (Some v)
    with b obtain x where "v = PDict x" "required_ok x ''name'' (text_within 1 128)"
      by (cases v) (simp_all add: present_ok_def named_version_ok_def)
    with Some show ?thesis using optional_string_of_present [OF required_present] by (simp add: as_dict_def)
  qed (simp add: as_dict_def optional_string_def)
qed

lemma context_and_row_accepted:
  assumes "event_model_ok rcv e" and "json_writable (PDict (enriched env prin request e))"
  shows "first_failure (context_checks (enriched env prin request e) @ row_checks (enriched env prin request e)) = None"
proof -
  let ?e = "enriched env prin request e"
  have same: "object_or_empty ?e k = object_or_empty e k" "optional_string ?e k = optional_string e k"
    if "k \<noteq> ''project_id''" "k \<noteq> ''ip''" "k \<noteq> ''server_timestamp''" for k
    using that by (simp_all add: object_or_empty_def optional_string_def dget_enriched)
  obtain c where c: "dget e ''context'' = PDict c" "event_context_ok (PDict c)"
    using assms(1) unfolding event_model_parts by (cases "dget e ''context''") (auto simp: event_context_ok_def)
  have ctx: "dget ?e ''context'' = PDict c" by (simp add: dget_enriched c)
  have objs: "is_dict (object_or_empty e ''properties'')" "is_dict (object_or_empty e ''traits'')"
    using assms(1) by (auto simp: event_model_ok_def intro!: object_accepted dest: properties_are_dict)
  have "json_writable (object_or_empty ?e k)" for k
    using json_writable_dget [OF assms(2), of k] by (simp add: object_or_empty_def)
  from this [of "''properties''"] this [of "''traits''"] json_writable_dget [OF assms(2), of "''context''"]
  have writable: "json_writable (object_or_empty e ''properties'')" "json_writable (object_or_empty e ''traits'')"
    "json_writable (PDict c)" by (simp_all add: same ctx)
  have strings: "check_of (optional_string e k) = None"
    if "k \<in> {''message_id'', ''user_id'', ''anonymous_id'', ''group_id'', ''session_id''}" for k
  proof -
    have "\<exists>a b. present_ok e k (text_within a b)"
      using that assms(1) by (auto simp: event_model_ok_def dest: required_present)
    then show ?thesis using optional_string_of_present by (fastforce simp: check_of_def)
  qed
  have nested: "check_of (optional_string (nested_of ?e ''device'') ''type'') = None"
    "check_of (optional_string (nested_of ?e ''browser'') ''name'') = None"
    using nested_strings [OF c(2)] by (auto simp: nested_of_def ctx as_dict_def check_of_def)
  have ip: "check_of (optional_string ?e ''ip'') = None"
    by (simp add: optional_string_def dget_enriched check_of_def)
  show ?thesis
    unfolding context_checks_def row_checks_def first_failure_append
    using objs writable strings nested ip context_agree [of c] c(2)
    by (simp add: ctx same as_dict_def)
qed


lemma window_accepted:
  assumes "timestamp_window_ok t rcv" and "micros rcv + MAX_EVENT_FUTURE_SKEW_SECONDS * 1000000 \<le> MAX_MICROS"
  shows "first_failure (validate_event_timestamp_window t rcv) = None"
  using assms by (simp add: timestamp_window_ok_def validate_event_timestamp_window_def not_less)

lemma source_parts_of_stream:
  assumes "project_id_ok p" and "stream_id_parts sid = Inr parts"
  shows "source_parts p (stream_key_of p) sid = Inr parts"
  using assms by (simp add: source_parts_def stream_key_of_def stream_key_for_project_def STREAM_PREFIX_def)

lemma stream_id_bounds: "stream_id_parts sid = Inr parts \<Longrightarrow> fst parts < 2 ^ 64 \<and> snd parts < 2 ^ 64"
  by (simp add: stream_id_parts_iff)

text \<open>The row the writer makes of an event the endpoint enriched.\<close>

lemma published_event_row:
  assumes model: "event_model_ok (truncate_millis (ie_utc_now env)) e" and uniq: "unique_keys_in (PDict e)"
    and dumps: "json_dumps fr (PDict (enriched env prin request e)) = Some t"
    and clock: "datetime_ok (ie_utc_now env)" "1000 \<le> dt_year (ie_utc_now env)"
      "micros (truncate_millis (ie_utc_now env)) + MAX_EVENT_FUTURE_SKEW_SECONDS * 1000000 \<le> MAX_MICROS"
    and project: "project_id_ok (pr_project prin)" and sid: "stream_id_parts sid = Inr parts"
    and entry: "loads payload = stream_entry env prin request e"
  obtains ts where "parse_event loads [(''event_json'', payload)] (pr_project prin) (stream_key_of (pr_project prin)) sid
      = Inr (row_of (enriched env prin request e) (pr_project prin) (stream_key_of (pr_project prin)) sid parts ts
               (truncate_millis (ie_utc_now env)))"
    and "timestamp_window_ok ts (truncate_millis (ie_utc_now env))"
proof -
  let ?e = "enriched env prin request e" and ?rcv = "truncate_millis (ie_utc_now env)"
  have u: "unique_keys_in (PDict ?e)" unfolding enriched_def by (rule unique_keys_enrich [OF uniq])
  have parsed: "parse_canonical_json (loads payload) = Inr (PDict ?e)"
    using read_tree_of [OF u] by (simp add: entry stream_entry_def parse_canonical_json_def del: tree_of.simps)
  obtain v where v: "dget e ''timestamp'' = PStr v" "validate_timestamp ?rcv (PStr v)"
    using model unfolding event_model_parts
    by (cases "dget e ''timestamp''") (auto simp: validate_timestamp_def)
  then obtain ts where ts: "parse_timestamp v = Some ts" "timestamp_window_ok ts ?rcv"
    by (auto simp: validate_timestamp_def split: option.splits)
  have received: "read_timestamp (dget ?e ''server_timestamp'') = Inr ?rcv"
    using server_timestamp_reads_back [OF clock(1,2)] by (simp add: read_timestamp_def dget_enriched)
  have timestamp: "read_timestamp (dget ?e ''timestamp'') = Inr ts"
    using ts(1) by (simp add: read_timestamp_def dget_enriched v)
  have row: "validate_clickhouse_row (row_of ?e (pr_project prin) (stream_key_of (pr_project prin)) sid parts ts ?rcv) = None"
    using stream_id_bounds [OF sid] by (simp add: validate_clickhouse_row_def row_of_def not_le)
  have "event_of_json [(''event_json'', payload)] ?e (pr_project prin) (stream_key_of (pr_project prin)) sid
      = Inr (row_of ?e (pr_project prin) (stream_key_of (pr_project prin)) sid parts ts ?rcv)"
    unfolding event_of_json_def Let_def envelope_accepted [OF model] received timestamp
      source_parts_of_stream [OF project sid]
      context_and_row_accepted [OF model json_dumps_writable(1) [OF dumps]]
    using window_accepted [OF ts(2) clock(3)] row by simp
  with that ts(2) show ?thesis by (simp add: parse_event_def parsed)
qed


text \<open>The row of an entry that an accepted request published.\<close>

lemma accepted_row:
  assumes "ingest_events env prin request w = (Accepted n, w')" and "reports_refusals env"
    and "datetime_ok (ie_utc_now env)" and "1000 \<le> dt_year (ie_utc_now env)"
    and "micros (truncate_millis (ie_utc_now env)) + MAX_EVENT_FUTURE_SKEW_SECONDS * 1000000 \<le> MAX_MICROS"
    and "project_id_ok (pr_project prin)"
    and "entry \<in> set (drop (length (iw_streams w (stream_key_of (pr_project prin))))
                        (iw_streams w' (stream_key_of (pr_project prin))))"
    and "loads payload = entry" and "stream_id_parts sid = Inr parts"
  shows "\<exists>events event row. request_events env request = Some events \<and> event \<in> set events
    \<and> parse_event loads [(''event_json'', payload)] (pr_project prin) (stream_key_of (pr_project prin)) sid = Inr row
    \<and> er_project_id row = pr_project prin \<and> er_received_at row = truncate_millis (ie_utc_now env)
    \<and> timestamp_window_ok (er_timestamp row) (er_received_at row)
    \<and> PStr (er_message_id row) = dget event ''message_id'' \<and> PStr (er_event_name row) = dget event ''event''
    \<and> er_source_stream_id row = sid
    \<and> (er_source_stream_id_ms row, er_source_stream_id_seq row) = parts"
proof -
  from ingest_events_effect [OF assms(1,2)] obtain events where batch: "published_batch env prin request w w' events"
    by (auto simp: ingest_effect_def)
  then have re: "request_events env request = Some events"
    and model: "\<forall>e \<in> set events. event_model_ok (truncate_millis (ie_utc_now env)) e"
    and app: "appended (ie_float_repr env) w (stream_key_of (pr_project prin)) (map (enriched env prin request) events) w'"
    by (auto simp: published_batch_def)
  from app assms(7) obtain e where e: "e \<in> set events" and entry: "entry = stream_entry env prin request e"
    by (auto simp: appended_def stream_entry_def simp del: tree_of.simps)
  obtain t where dumps: "json_dumps (ie_float_repr env) (PDict (enriched env prin request e)) = Some t"
    using app e by (auto simp: appended_def simp del: json_dumps.simps)
  obtain ts where row: "parse_event loads [(''event_json'', payload)] (pr_project prin) (stream_key_of (pr_project prin)) sid
      = Inr (row_of (enriched env prin request e) (pr_project prin) (stream_key_of (pr_project prin)) sid parts ts
               (truncate_millis (ie_utc_now env)))" and ts: "timestamp_window_ok ts (truncate_millis (ie_utc_now env))"
    using published_event_row [where loads = loads and payload = payload, OF model [rule_format, OF e] request_events_unique [OF re e] dumps assms(3,4,5,6,9)
        assms(8) [unfolded entry]] by blast
  obtain m where m: "dget e ''message_id'' = PStr m" using event_model_message_id model e by blast
  obtain k where k: "dget e ''event'' = PStr k" "k \<noteq> []"
    using model e unfolding event_model_parts text_within_def by (cases "dget e ''event''") (auto simp: Suc_le_eq)
  show ?thesis
    by (rule exI [of _ events], rule exI [of _ e], rule exI, intro conjI, rule re, rule e, rule row)
       (simp_all add: row_of_def ts result_or_def optional_string_def event_name_def dget_enriched m k)
qed

section \<open>Theorems\<close>

text \<open>
  What the endpoint accepts, the writer stores. Every entry that an accepted request adds to
  the stream of its project is read by the writer, whatever id Redis gave it, as a row of that
  project and that stream with the receipt time the endpoint stamped; none is dead-lettered. The
  rows carry the message ids, names and identities of the request's events. Hypotheses: pydantic
  reports what it refuses, the clock is a date between the year 1000 and the last five minutes of
  the year 9999, the project id is one the key service issues, and the text is one the JSON
  parser reads as the entry.\<close>

theorem accepted_events_become_rows:
  assumes "ingest_events env prin request w = (Accepted n, w')" and "reports_refusals env"
    and "datetime_ok (ie_utc_now env)" and "1000 \<le> dt_year (ie_utc_now env)"
    and "micros (truncate_millis (ie_utc_now env)) + MAX_EVENT_FUTURE_SKEW_SECONDS * 1000000 \<le> MAX_MICROS"
    and "project_id_ok (pr_project prin)"
    and "entry \<in> set (drop (length (iw_streams w (stream_key_of (pr_project prin))))
                        (iw_streams w' (stream_key_of (pr_project prin))))"
    and "loads payload = entry" and "stream_id_parts sid = Inr parts"
  shows "\<exists>events event row. request_events env request = Some events \<and> event \<in> set events
    \<and> parse_event loads [(''event_json'', payload)] (pr_project prin) (stream_key_of (pr_project prin)) sid = Inr row
    \<and> er_project_id row = pr_project prin \<and> er_received_at row = truncate_millis (ie_utc_now env)
    \<and> timestamp_window_ok (er_timestamp row) (er_received_at row)
    \<and> PStr (er_message_id row) = dget event ''message_id'' \<and> PStr (er_event_name row) = dget event ''event''
    \<and> er_source_stream_id row = sid
    \<and> (er_source_stream_id_ms row, er_source_stream_id_seq row) = parts"
  by (rule accepted_row [where loads = loads and payload = payload, OF assms])

text \<open>
  The two services state the same context contract: the writer's checks of a context object
  all pass exactly when the endpoint's model of the context accepts it.\<close>

theorem context_contracts_agree:
  "first_failure (validate_context c) = None \<longleftrightarrow> event_context_ok (PDict c)"
  by (rule context_agree)

text \<open>
  Stream ids. A text has parts exactly when it is the canonical text of two 64-bit numbers,
  and the boundary \<open>_next_stream_id\<close> computes from an id is the least id above it, across the
  carry of the sequence number into the milliseconds.\<close>

theorem stream_id_texts:
  "(stream_id_parts s = Inr i \<longleftrightarrow> s = id_text i \<and> fst i < 2 ^ 64 \<and> snd i < 2 ^ 64)
   \<and> (snd i < 2 ^ 64 \<longrightarrow> (\<exists>j. next_stream_id (id_text i) = Inr (id_text j) \<and> id_less i j
        \<and> (\<forall>k. snd k < 2 ^ 64 \<longrightarrow> id_less i k \<longrightarrow> \<not> id_less k j)))"
proof (intro conjI impI)
  let ?j = "if 2 ^ 64 - 1 \<le> snd i then (fst i + 1, 0) else (fst i, snd i + 1)"
  assume "snd i < 2 ^ 64"
  then have "id_less i ?j \<and> (\<forall>k. snd k < 2 ^ 64 \<longrightarrow> id_less i k \<longrightarrow> \<not> id_less k ?j)"
    by (auto simp: id_less_def)
  then show "\<exists>j. next_stream_id (id_text i) = Inr (id_text j) \<and> id_less i j
      \<and> (\<forall>k. snd k < 2 ^ 64 \<longrightarrow> id_less i k \<longrightarrow> \<not> id_less k j)"
    using next_stream_id_text by blast
qed (rule stream_id_parts_iff)

theorem stream_id_texts_witness:
  "\<exists>j. next_stream_id (id_text (7, 18446744073709551615)) = Inr (id_text j) \<and> id_less (7, 18446744073709551615) j"
  using stream_id_texts [of "[]" "(7, 18446744073709551615)"] by auto

lemma sample_run:
  "ingest_events sample_ingest_env sample_ingest_principal sample_ingest_request sample_ingest_world
     = (Accepted 1, snd (ingest_events sample_ingest_env sample_ingest_principal sample_ingest_request sample_ingest_world))"
  by (rule pair_of_fst [OF sample_ingest_reply])

lemma sample_project: "pr_project sample_ingest_principal = ''demo''" "stream_key_of ''demo'' = ''events:raw:demo''"
  by (simp_all add: sample_ingest_principal_def stream_key_of_def)

lemma sample_entry_published:
  "stream_entry sample_ingest_env sample_ingest_principal sample_ingest_request sample_click
     \<in> set (drop (length (iw_streams sample_ingest_world (stream_key_of ''demo'')))
         (iw_streams (snd (ingest_events sample_ingest_env sample_ingest_principal sample_ingest_request sample_ingest_world))
            (stream_key_of ''demo'')))"
proof -
  have "request_events sample_ingest_env sample_ingest_request = Some [sample_click]"
    by (simp add: request_events_def sample_parsed sample_sanitized batch_events_def as_dict_def read_body_def
        length_refusal_def sample_ingest_request_def MAX_REQUEST_BYTES_def)
  with ingest_events_effect [OF sample_run sample_reports] show ?thesis
    by (auto simp: ingest_effect_def published_batch_def appended_def stream_entry_def sample_project(1)
        simp del: tree_of.simps)
qed

lemma sample_clock:
  "ie_utc_now sample_ingest_env = sample_receipt" "datetime_ok sample_receipt" "1000 \<le> dt_year sample_receipt"
  "micros (truncate_millis sample_receipt) + MAX_EVENT_FUTURE_SKEW_SECONDS * 1000000 \<le> MAX_MICROS"
  by (simp add: sample_ingest_env_def) code_simp+

lemma sample_project_ok: "project_id_ok ''demo''"
  by code_simp

theorem accepted_events_become_rows_witness:
  "\<exists>row. parse_event (\<lambda>_. stream_entry sample_ingest_env sample_ingest_principal sample_ingest_request sample_click)
     [(''event_json'', [])] ''demo'' ''events:raw:demo'' ''5-0'' = Inr row \<and> er_project_id row = ''demo''"
proof -
  have "''5-0'' = id_text (5, 0)" by code_simp
  then have "stream_id_parts ''5-0'' = Inr (5, 0)" by (subst stream_id_parts_iff) simp
  with accepted_events_become_rows [where payload = "[]" and sid = "''5-0''" and
      loads = "\<lambda>_. stream_entry sample_ingest_env sample_ingest_principal sample_ingest_request sample_click",
      OF sample_run sample_reports, unfolded sample_clock(1) sample_project(1), OF sample_clock(2-4) sample_project_ok
      sample_entry_published refl]
  show ?thesis unfolding sample_project by blast
qed

end
