(* ===== verification/WriterGuarantees.thy ===== *)
theory WriterGuarantees
  imports WriterInvariant PipelineLaws
begin

text \<open>
  What the ClickHouse writer guarantees, over all its runs: no published event is lost, a healthy
  watermark is complete, a degraded authority stays degraded, and one delivery that Redis hands
  out twice can block its stream for good.
\<close>

declare split_paired_All [simp del] split_paired_Ex [simp del] split_paired_all [simp del]

section \<open>Nothing is lost\<close>

lemma stays_or_settles:
  assumes "reachable cfg loads s" and "(k, i, f) \<in> rn_published s"
  shows "((i, f) \<in> set (rs_entries (pi_streams (rn_pipe s) k))
      \<and> (i \<in> set (rs_pending (pi_streams (rn_pipe s) k)) \<or> rs_last_delivered (pi_streams (rn_pipe s) k) < i))
    \<or> settled cfg loads (rn_pipe s) k i f"
proof (cases "i \<in> set (entry_ids (pi_streams (rn_pipe s) k))")
  case True
  let ?r = "pi_streams (rn_pipe s) k"
  note inv = reachable_inv [OF assms(1)]
  from True obtain g where g: "(i, g) \<in> set (rs_entries ?r)" by (auto simp: entry_ids_def)
  with published_okD(5,6) [OF invE(2) [OF inv]] assms(2) have "g = f" by blast
  moreover have "i \<in> set (rs_pending ?r) \<or> rs_last_delivered ?r < i"
    using True invE(1) [OF inv, of k] unfolding stream_ok_def by force
  ultimately show ?thesis using g by blast
next
  case False
  with invE(3) [OF reachable_inv [OF assms(1)]] assms(2) show ?thesis unfolding settled_ok_def by blast
qed

lemma stream_key_project:
  "project_id_ok p \<Longrightarrow> project_id_from_stream (stream_key_of p) = Inr p"
  by (simp add: project_stream_inverse stream_key_for_project_def stream_key_of_def STREAM_PREFIX_def)

text \<open>
  C5. Whatever fails and however often the process is killed, an event that was published is
  either still in its stream, unread or pending, or it is settled: its row is in ClickHouse (or
  it was a boundary marker), or its record is in the dead-letter stream and, where the project
  has a completeness authority, that authority is degraded.
\<close>

theorem published_never_lost:
  assumes "reachable cfg loads s" and "(k, i, f) \<in> rn_published s"
  shows "((i, f) \<in> set (rs_entries (pi_streams (rn_pipe s) k))
      \<and> (i \<in> set (rs_pending (pi_streams (rn_pipe s) k)) \<or> rs_last_delivered (pi_streams (rn_pipe s) k) < i))
    \<or> is_complete loads (rn_pipe s) k i f
    \<or> (rejected (rn_pipe s) k i
        \<and> (wc_authority cfg \<longrightarrow> (\<exists>p. project_id_from_stream k = Inr p \<and> degraded (rn_pipe s) p)))"
  using stays_or_settles [OF assms] unfolding settled_def by blast


text \<open>
  C7. A healthy watermark claims completeness and is right: every event published to its stream
  up to the contiguous frontier has left the stream, and its row is in ClickHouse; none of them
  was merely dead-lettered.
\<close>

theorem healthy_frontier_complete:
  assumes "reachable cfg loads s" and "pi_watermarks (rn_pipe s) p = Some w" and "wm_status w = ''healthy''"
    and "(wm_stream_key w, i, f) \<in> rn_published s" and "i \<le> wm_contiguous w"
  shows "project_id_from_stream (wm_stream_key w) = Inr p
    \<and> i \<notin> set (entry_ids (pi_streams (rn_pipe s) (wm_stream_key w)))
    \<and> is_complete loads (rn_pipe s) (wm_stream_key w) i f"
  using invE(4) [OF reachable_inv [OF assms(1)] assms(2)] assms(3-5) by (simp add: watermark_ok_def)

text \<open>No step takes back a row, a dead letter, a degradation or a delivery.\<close>

lemma accept_side_effect:
  assumes "accept_message cfg loads key message calls (wr0, px) = (pr, wr, qx)"
  shows "side_effect px qx"
proof (cases "\<exists>p e. project_id_from_stream key = Inr p \<and> read_message loads p key (fst message) (snd message) = Inl e")
  case True
  then obtain p e where pe: "project_id_from_stream key = Inr p" "read_message loads p key (fst message) (snd message) = Inl e"
    by blast
  obtain ok t where dl: "dead_letter_delivery cfg key (fst message) p ''invalid_event_schema'' e calls (count_error wr0, px) = (ok, t)"
    by (metis surj_pair)
  with assms pe have "t = (wr, qx)" by (simp add: accept_message_def)
  with dead_letter_rejects [OF dl] show ?thesis by (simp add: rejects_only_def)
next
  case False
  show ?thesis
  proof (cases "project_id_from_stream key")
    case (Inr p)
    with False obtain tr where "read_message loads p key (fst message) (snd message) = Inr tr"
      by (cases "read_message loads p key (fst message) (snd message)") blast+
    with Inr assms show ?thesis by (cases tr) (simp add: accept_message_def split: if_splits)
  qed (use assms in \<open>simp add: accept_message_def\<close>)
qed

lemma initialize_extends:
  assumes "initialize_pipeline_authority cfg key created frontier n max_deleted calls (rn_pipe s) = (ok, px)"
  shows "extends s (s\<lparr>rn_pipe := px\<rparr>)"
proof -
  consider (same) "px = rn_pipe s"
    | (degrade) "degrade_pipeline_authority cfg key ''stream_state_unverifiable'' (snd calls) (rn_pipe s) = (ok, px)"
    | (row) p w where "pi_watermarks (rn_pipe s) p = None"
        "px = (rn_pipe s)\<lparr>pi_watermarks := (pi_watermarks (rn_pipe s))(p := Some w)\<rparr>"
  proof (cases "wc_authority cfg \<and> valid_key key \<and> fst calls = CallOk")
    case False
    with assms have "px = rn_pipe s"
      by (auto simp: initialize_pipeline_authority_def valid_key_def split: if_splits sum.splits)
    with that(1) show thesis .
  next
    case True
    then obtain p where p: "project_id_from_stream key = Inr p" by (auto simp: valid_key_def)
    show thesis
    proof (cases "pi_watermarks (rn_pipe s) p")
      case (Some w)
      with True p assms have "px = rn_pipe s
          \<or> degrade_pipeline_authority cfg key ''stream_state_unverifiable'' (snd calls) (rn_pipe s) = (ok, px)"
        by (auto simp: initialize_pipeline_authority_def split: if_splits)
      with that(1,2) show thesis by blast
    next
      case None
      with True p assms have "px = rn_pipe s \<or> (\<exists>w. px = (rn_pipe s)\<lparr>pi_watermarks := (pi_watermarks (rn_pipe s))(p := Some w)\<rparr>)"
        by (cases "snd calls") (auto simp: initialize_pipeline_authority_def Let_def)
      with None that(1,3) show thesis by blast
    qed
  qed
  then show ?thesis
  proof cases
    case degrade
    show ?thesis using side_effect_extends [OF degrade_side_effect [OF degrade]] .
  next
    case row
    then show ?thesis using watermark_extends [of s p w] by (simp add: degraded_def)
  qed simp
qed

lemma extends_pipe: "extends s (s\<lparr>rn_pipe := px\<rparr>) \<Longrightarrow> rn_pipe t = px \<Longrightarrow> rn_published t = rn_published s \<Longrightarrow> extends s t"
  by (simp add: extends_def)

lemma wstep_extends:
  assumes inv: "run_inv cfg loads s" and "wstep cfg loads s t"
  shows "extends s t"
  using assms(2)
proof cases
  case (publish key i data)
  then show ?thesis by (auto simp: extends_def set_stream_def xadd_def degraded_def)
next
  case (read_new key messages stream)
  with xreadgroup_ok(4) [OF invE(1) [OF inv]] show ?thesis by (auto simp: extends_def set_stream_def degraded_def)
next
  case (claim key stale outcome messages wr px)
  obtain ms deleted r where x: "xautoclaim stale (pi_streams (rn_pipe s) key) = (ms, deleted, r)" by (metis prod_cases3)
  from xautoclaim_ok(1,2) [OF invE(1) [OF inv] x] claim x have "rn_pipe t = rn_pipe s" "rn_published t = rn_published s"
    by (auto simp: claim_pending_def Let_def)
  then show ?thesis by (simp add: extends_def)
next
  case (accept key message rest calls wr px)
  show ?thesis
    by (rule extends_pipe [OF side_effect_extends [OF accept_side_effect [OF accept(3)]]]) (simp_all add: accept(1))
next
  case (finalize todo key ids rest results stage calls ok wr px)
  have "snapshots_ok cfg loads s (todo @ (key, ids) # rest @ map fst results)"
    using invE(8) [OF inv] finalize by (simp add: phase_ok_def)
  then have "\<forall>i \<in> set ids. ack_ok cfg loads s key i" by simp
  from finalize_inv [OF inv this finalize(3)] finalize(1) show ?thesis by (simp add: extends_def)
next
  case (insert ok batch ins dl out wr1 px now wr ph)
  from insert_or_isolate_effect [OF insert(3)] have "side_effect (rn_pipe s) px" by (simp add: rejects_only_def)
  from extends_pipe [OF side_effect_extends [OF this]] insert(1) show ?thesis by simp
next
  case (initialize key max_deleted calls ok px)
  from extends_pipe [OF initialize_extends [OF initialize(3)]] initialize(1) show ?thesis by simp
qed (simp_all add: extends_def degraded_def set_stream_def xtrim_minid_def)

interpretation pipeline: monotone_run "wstep cfg loads" "run_inv cfg loads" extends for cfg loads
  by unfold_locales (auto intro: wstep_inv wstep_extends extends_trans)

text \<open>
  C12. Degradation is permanent: no run of the writer, the producers and any restarts turns a
  degraded authority back into a healthy one.
\<close>

theorem degraded_forever:
  assumes "reachable cfg loads s" and "(wstep cfg loads)\<^sup>*\<^sup>* s t" and "degraded (rn_pipe s) p"
  shows "degraded (rn_pipe t) p"
  using pipeline.steps_forward [OF assms(2) reachable_inv [OF assms(1)]] assms(3) by (simp add: extends_def)


section \<open>A delivery that is claimed twice\<close>

text \<open>
  The states of one run on one stream, described by what matters of the writer: its buffer, its
  queue of acknowledgements and the streams whose finalization is uncertain.
\<close>

definition run_at ::
    "string \<Rightarrow> string \<Rightarrow> fields \<Rightarrow> writer \<Rightarrow> redis_stream \<Rightarrow> event_row list \<Rightarrow> watermark option
     \<Rightarrow> (string \<times> stream_id \<times> fields) list \<Rightarrow> phase \<Rightarrow> run" where
  "run_at key p f wr r rows wm inbox ph = \<lparr>rn_writer = wr,
     rn_pipe = \<lparr>pi_streams = (\<lambda>_. empty_stream)(key := r), pi_dlq = (\<lambda>_. []), pi_rows = rows,
       pi_watermarks = (\<lambda>_. None)(p := wm), pi_boundaries = []\<rparr>,
     rn_inbox = inbox, rn_phase = ph, rn_trim = None, rn_published = {(key, (1, 0), f)}\<rparr>"

definition seen ::
    "writer_config \<Rightarrow> (string \<Rightarrow> json_source) \<Rightarrow> string \<Rightarrow> string \<Rightarrow> fields \<Rightarrow> buffered_event list
     \<Rightarrow> (string \<times> stream_id list) list \<Rightarrow> string set \<Rightarrow> redis_stream \<Rightarrow> event_row list \<Rightarrow> watermark option
     \<Rightarrow> (string \<times> stream_id \<times> fields) list \<Rightarrow> phase \<Rightarrow> bool" where
  "seen cfg loads key p f buf acks uncertain r rows wm inbox ph \<longleftrightarrow>
     (\<exists>wr. reachable cfg loads (run_at key p f wr r rows wm inbox ph) \<and> wr_buffer wr = buf \<and> wr_pending_ack wr = acks
        \<and> wr_uncertain wr = uncertain \<and> wr_tokens wr = [] \<and> wr_finalized wr = [])"

definition stream_at :: "(stream_id \<times> fields) list \<Rightarrow> stream_id \<Rightarrow> nat \<Rightarrow> stream_id list \<Rightarrow> redis_stream" where
  "stream_at entries delivered_id amount pending = \<lparr>rs_entries = entries, rs_last_generated = (1, 0),
     rs_last_delivered = delivered_id, rs_entries_read = amount, rs_pending = pending\<rparr>"

definition row_at :: "string \<Rightarrow> stream_id \<Rightarrow> nat \<Rightarrow> string \<Rightarrow> string option \<Rightarrow> watermark" where
  "row_at key contiguous amount status reason = \<lparr>wm_stream_key = key, wm_start = (0, 0), wm_contiguous = contiguous,
     wm_entries_read = amount, wm_status = status, wm_reason = reason\<rparr>"

definition good_calls :: finalize_calls where
  "good_calls = \<lparr>fz_verify = (CallOk, CallOk), fz_exec = CallOk, fz_degrade = CallOk,
     fz_frontier = \<lparr>fc_info = CallOk, fc_lag_known = True, fc_degrade = CallOk, fc_commit = CallOk\<rparr>\<rparr>"

lemma seen_step:
  assumes "seen cfg loads key p f buf acks uncertain r rows wm inbox ph"
    and "\<And>wr. wr_buffer wr = buf \<Longrightarrow> wr_pending_ack wr = acks \<Longrightarrow> wr_uncertain wr = uncertain \<Longrightarrow> wr_tokens wr = [] \<Longrightarrow>
      wr_finalized wr = [] \<Longrightarrow>
      \<exists>wr'. wstep cfg loads (run_at key p f wr r rows wm inbox ph) (run_at key p f wr' r' rows' wm' inbox' ph')
        \<and> wr_buffer wr' = buf' \<and> wr_pending_ack wr' = acks' \<and> wr_uncertain wr' = uncertain' \<and> wr_tokens wr' = []
        \<and> wr_finalized wr' = []"
  shows "seen cfg loads key p f buf' acks' uncertain' r' rows' wm' inbox' ph'"
  using assms unfolding seen_def by (metis reachable.step)

lemma seen_published:
  assumes "project_id_from_stream key = Inr p" and "wc_authority cfg"
  shows "seen cfg loads key p f [] [] {} (stream_at [((1, 0), f)] (0, 0) 0 []) []
    (Some (row_at key (0, 0) 0 ''healthy'' None)) [] Idle"
proof -
  let ?w = "row_at key (0, 0) 0 ''healthy'' None"
  let ?i = "initial_run 0"
  let ?s = "?i\<lparr>rn_pipe := initial_pipe\<lparr>pi_watermarks := (\<lambda>_. None)(p := Some ?w)\<rparr>\<rparr>"
  have "wstep cfg loads ?i ?s"
    by (rule wstep.initialize [where key = key and max_deleted = "(0, 0)" and calls = "(CallOk, CallOk)" and ok = True])
      (use assms in \<open>simp_all add: valid_key_def initialize_pipeline_authority_def initial_run_def initial_pipe_def
        empty_stream_def row_at_def\<close>)
  then have "reachable cfg loads ?s" by (rule reachable.step [OF reachable.start])
  moreover have "wstep cfg loads ?s (?s\<lparr>rn_pipe := set_stream key (xadd (1, 0) f (pi_streams (rn_pipe ?s) key)) (rn_pipe ?s),
      rn_published := insert (key, (1, 0), f) (rn_published ?s)\<rparr>)"
    by (rule wstep.publish) (use assms in \<open>simp_all add: valid_key_def initial_run_def initial_pipe_def empty_stream_def\<close>)
  moreover have "?s\<lparr>rn_pipe := set_stream key (xadd (1, 0) f (pi_streams (rn_pipe ?s) key)) (rn_pipe ?s),
      rn_published := insert (key, (1, 0), f) (rn_published ?s)\<rparr>
      = run_at key p f (initial_writer 0) (stream_at [((1, 0), f)] (0, 0) 0 []) [] (Some ?w) [] Idle"
    by (simp add: run_at_def initial_run_def initial_pipe_def stream_at_def xadd_def empty_stream_def set_stream_def)
  ultimately have "reachable cfg loads (run_at key p f (initial_writer 0) (stream_at [((1, 0), f)] (0, 0) 0 []) []
      (Some ?w) [] Idle)" by (metis reachable.step)
  then show ?thesis unfolding seen_def by (intro exI [of _ "initial_writer 0"]) (simp add: initial_writer_def)
qed

lemma seen_read:
  assumes "seen cfg loads key p f buf acks {} (stream_at [((1, 0), f)] (0, 0) 0 []) rows wm [] ph"
    and "project_id_from_stream key = Inr p" and "length buf < wc_buffer_size cfg" and "\<not> has_key acks key"
  shows "seen cfg loads key p f buf acks {} (stream_at [((1, 0), f)] (1, 0) 1 [(1, 0)]) rows wm [(key, (1, 0), f)] ph"
proof (rule seen_step [OF assms(1)])
  fix wr :: writer assume wr: "wr_buffer wr = buf" "wr_pending_ack wr = acks" "wr_uncertain wr = {}" "wr_tokens wr = []"
    "wr_finalized wr = []"
  let ?s = "run_at key p f wr (stream_at [((1, 0), f)] (0, 0) 0 []) rows wm [] ph"
  obtain m where m: "wc_buffer_size cfg - length buf = Suc m" using assms(3) by (metis Suc_diff_Suc)
  have "wstep cfg loads ?s (?s\<lparr>rn_pipe := set_stream key (stream_at [((1, 0), f)] (1, 0) 1 [(1, 0)]) (rn_pipe ?s),
      rn_inbox := to_inbox key [((1, 0), f)]\<rparr>)"
    by (rule wstep.read_new)
      (use assms(2,4) wr m in \<open>simp_all add: run_at_def valid_key_def stream_is_backpressured_def remaining_capacity_def
        xreadgroup_def unread_def stream_at_def Let_def\<close>)
  then show "\<exists>wr'. wstep cfg loads ?s (run_at key p f wr' (stream_at [((1, 0), f)] (1, 0) 1 [(1, 0)]) rows wm
      [(key, (1, 0), f)] ph) \<and> wr_buffer wr' = buf \<and> wr_pending_ack wr' = acks \<and> wr_uncertain wr' = {} \<and> wr_tokens wr' = []
      \<and> wr_finalized wr' = []"
    using wr by (intro exI [of _ wr]) (simp add: run_at_def set_stream_def to_inbox_def)
qed

lemma seen_claim:
  assumes "seen cfg loads key p f buf acks {} (stream_at [((1, 0), f)] (1, 0) 1 [(1, 0)]) rows wm [] ph"
    and "project_id_from_stream key = Inr p" and "\<not> has_key acks key"
  shows "seen cfg loads key p f buf acks {} (stream_at [((1, 0), f)] (1, 0) 1 [(1, 0)]) rows wm [(key, (1, 0), f)] ph"
proof (rule seen_step [OF assms(1)])
  fix wr :: writer assume wr: "wr_buffer wr = buf" "wr_pending_ack wr = acks" "wr_uncertain wr = {}" "wr_tokens wr = []"
    "wr_finalized wr = []"
  let ?s = "run_at key p f wr (stream_at [((1, 0), f)] (1, 0) 1 [(1, 0)]) rows wm [] ph"
  have c: "claim_pending cfg key [(1, 0)] CallOk (rn_writer ?s, rn_pipe ?s) = (Some [((1, 0), f)], wr, rn_pipe ?s)"
    by (simp add: claim_pending_def xautoclaim_def run_at_def stream_at_def List.map_filter_def)
  have "wstep cfg loads ?s (?s\<lparr>rn_writer := wr, rn_pipe := rn_pipe ?s,
      rn_inbox := to_inbox key (case Some [((1, 0), f)] of Some ms \<Rightarrow> ms | None \<Rightarrow> [])\<rparr>)"
    by (rule wstep.claim [OF _ _ _ c])
      (use assms(2,3) wr in \<open>simp_all add: run_at_def valid_key_def stream_is_backpressured_def\<close>)
  then show "\<exists>wr'. wstep cfg loads ?s (run_at key p f wr' (stream_at [((1, 0), f)] (1, 0) 1 [(1, 0)]) rows wm
      [(key, (1, 0), f)] ph) \<and> wr_buffer wr' = buf \<and> wr_pending_ack wr' = acks \<and> wr_uncertain wr' = {} \<and> wr_tokens wr' = []
      \<and> wr_finalized wr' = []"
    using wr by (intro exI [of _ wr]) (simp add: run_at_def to_inbox_def)
qed

abbreviation event_at :: "string \<Rightarrow> event_row \<Rightarrow> buffered_event" where
  "event_at key row \<equiv> \<lparr>be_stream = key, be_id = (1, 0), be_row = Some row, be_token = None\<rparr>"

lemma seen_accept:
  assumes "seen cfg loads key p f buf acks {} r rows wm [(key, (1, 0), f)] ph"
    and "project_id_from_stream key = Inr p" and "length buf < wc_buffer_size cfg"
    and "read_message loads p key (1, 0) f = Inr (None, Some row)"
  shows "seen cfg loads key p f (buf @ [event_at key row]) acks {} r rows wm [] ph"
proof (rule seen_step [OF assms(1)])
  fix wr :: writer assume wr: "wr_buffer wr = buf" "wr_pending_ack wr = acks" "wr_uncertain wr = {}" "wr_tokens wr = []"
    "wr_finalized wr = []"
  let ?s = "run_at key p f wr r rows wm [(key, (1, 0), f)] ph"
  let ?wr = "wr\<lparr>wr_buffer := buf @ [event_at key row], wr_stats := (wr_stats wr)\<lparr>st_consumed := st_consumed (wr_stats wr) + 1\<rparr>\<rparr>"
  have "accept_message cfg loads key ((1, 0), f) (CallOk, CallOk) (rn_writer ?s, rn_pipe ?s) = (NextMessage, ?wr, rn_pipe ?s)"
    using assms(2-4) wr by (simp add: accept_message_def run_at_def remaining_capacity_def)
  then have "wstep cfg loads ?s (?s\<lparr>rn_writer := ?wr, rn_pipe := rn_pipe ?s, rn_inbox := []\<rparr>)"
    by (rule wstep.accept [rotated]) (simp add: run_at_def)
  then show "\<exists>wr'. wstep cfg loads ?s (run_at key p f wr' r rows wm [] ph) \<and> wr_buffer wr' = buf @ [event_at key row]
      \<and> wr_pending_ack wr' = acks \<and> wr_uncertain wr' = {} \<and> wr_tokens wr' = [] \<and> wr_finalized wr' = []"
    using wr by (intro exI [of _ ?wr]) (simp add: run_at_def)
qed

lemma seen_flush:
  assumes "seen cfg loads key p f (ev # buf) [] {} r rows wm [] Idle"
  shows "seen cfg loads key p f (ev # buf) [] {} r rows wm [] (Inserting True (ev # buf))"
proof (rule seen_step [OF assms(1)])
  fix wr :: writer assume wr: "wr_buffer wr = ev # buf" "wr_pending_ack wr = []" "wr_uncertain wr = {}" "wr_tokens wr = []"
    "wr_finalized wr = []"
  let ?s = "run_at key p f wr r rows wm [] Idle"
  have "wstep cfg loads ?s (?s\<lparr>rn_writer := wr, rn_phase := Inserting True (ev # buf)\<rparr>)"
    by (rule wstep.flush) (use wr in \<open>simp_all add: run_at_def start_flush_def copy_buffer_def\<close>)
  then show "\<exists>wr'. wstep cfg loads ?s (run_at key p f wr' r rows wm [] (Inserting True (ev # buf)))
      \<and> wr_buffer wr' = ev # buf \<and> wr_pending_ack wr' = [] \<and> wr_uncertain wr' = {} \<and> wr_tokens wr' = [] \<and> wr_finalized wr' = []"
    using wr by (intro exI [of _ wr]) (simp add: run_at_def)
qed

lemma seen_insert:
  assumes "seen cfg loads key p f (event_at key row # buf) [] {} r rows wm [] (Inserting True [event_at key row])"
  shows "seen cfg loads key p f buf [(key, [(1, 0)])] {} r (rows @ [row]) wm []
    (Acking [(key, [(1, 0)])] [] (AtEnd False))"
proof (rule seen_step [OF assms(1)])
  fix wr :: writer assume wr: "wr_buffer wr = event_at key row # buf" "wr_pending_ack wr = []" "wr_uncertain wr = {}"
    "wr_tokens wr = []" "wr_finalized wr = []"
  let ?s = "run_at key p f wr r rows wm [] (Inserting True [event_at key row])"
  let ?out = "\<lparr>io_durable = [event_at key row], io_retry = [], io_transient = False\<rparr>"
  let ?wr = "after_insert 0 [event_at key row] ?out wr"
  let ?px = "(rn_pipe ?s)\<lparr>pi_rows := rows @ [row]\<rparr>"
  have i: "insert_or_isolate cfg (\<lambda>_ _. Inserted) (\<lambda>_. (CallOk, CallOk)) 0 [event_at key row] (rn_writer ?s, rn_pipe ?s)
      = (?out, wr, ?px)"
    by (simp add: insert_or_isolate.simps run_at_def batch_rows_def List.map_filter_def)
  have w: "wr_buffer ?wr = buf" "wr_pending_ack ?wr = [(key, [(1, 0)])]" "wr_uncertain ?wr = {}" "wr_tokens ?wr = []"
    "wr_finalized ?wr = []"
    using wr by (simp_all add: after_insert_def queue_durable_ack_def queue_one_def)
  have fin: "finish_insert 0 True [event_at key row] ?out wr = (?wr, Acking [(key, [(1, 0)])] [] (AtEnd False))"
    using w by (simp add: finish_insert_def Let_def)
  have "wstep cfg loads ?s (?s\<lparr>rn_writer := ?wr, rn_pipe := ?px, rn_phase := Acking [(key, [(1, 0)])] [] (AtEnd False)\<rparr>)"
    by (rule wstep.insert [OF _ i fin]) (simp add: run_at_def)
  then show "\<exists>wr'. wstep cfg loads ?s (run_at key p f wr' r (rows @ [row]) wm [] (Acking [(key, [(1, 0)])] [] (AtEnd False)))
      \<and> wr_buffer wr' = buf \<and> wr_pending_ack wr' = [(key, [(1, 0)])] \<and> wr_uncertain wr' = {} \<and> wr_tokens wr' = []
      \<and> wr_finalized wr' = []"
    using w by (intro exI [of _ ?wr]) (simp add: run_at_def)
qed

lemma stream_at_sel [simp]:
  "rs_entries (stream_at e d n q) = e" "rs_pending (stream_at e d n q) = q"
  "rs_last_delivered (stream_at e d n q) = d" "rs_entries_read (stream_at e d n q) = n"
  by (simp_all add: stream_at_def)

lemma row_at_sel [simp]:
  "wm_stream_key (row_at k c n st re) = k" "wm_start (row_at k c n st re) = (0, 0)"
  "wm_contiguous (row_at k c n st re) = c" "wm_entries_read (row_at k c n st re) = n"
  "wm_status (row_at k c n st re) = st" "wm_reason (row_at k c n st re) = re"
  by (simp_all add: row_at_def)

lemma mark_uncertain_sel [simp]:
  "wr_finalized (mark_uncertain k wr) = wr_finalized wr" "wr_buffer (mark_uncertain k wr) = wr_buffer wr"
  "wr_pending_ack (mark_uncertain k wr) = wr_pending_ack wr" "wr_tokens (mark_uncertain k wr) = wr_tokens wr"
  "wr_uncertain (mark_uncertain k wr) = insert k (wr_uncertain wr)"
  by (simp_all add: mark_uncertain_def)

lemma ack_single:
  "ack_and_delete [(1, 0)] (stream_at [((1, 0), f)] d n [(1, 0)]) = ((1, 1), stream_at [] d n [])"
  "ack_and_delete [(1, 0)] (stream_at [] d n []) = ((0, 0), stream_at [] d n [])"
  by (simp_all add: ack_and_delete_def xack_def xdel_def) (simp_all add: stream_at_def)

lemma advance_single:
  assumes "project_id_from_stream key = Inr p" and "wc_authority cfg" and "wr_finalized wr = []"
    and "pi_streams px key = stream_at [] (1, 0) 1 []"
    and "pi_watermarks px p = Some (row_at key (0, 0) 0 ''healthy'' None)"
  shows "advance_pipeline_frontier cfg key [(1, 0)] (fz_frontier good_calls) (wr, px) =
    (True, wr, px\<lparr>pi_watermarks := (pi_watermarks px)(p := Some (row_at key (1, 0) 1 ''healthy'' None))\<rparr>)"
proof -
  let ?w = "row_at key (0, 0) 0 ''healthy'' None"
  let ?g = "group_info_of True (stream_at [] (1, 0) 1 [])"
  have fresh: "{i. i = (1, 0) \<and> (0, 0) < i} = {(1, 0) :: stream_id}" by (auto simp: less_prod_def)
  have adv: "exact_advance ?w ?g {(1, 0)}" by (simp add: exact_advance_def group_info_of_def)
  have row: "advanced_row ?w ?g {(1, 0)} = row_at key (1, 0) 1 ''healthy'' None"
    using adv by (simp add: advanced_row_def invalid_authority_def group_info_of_def row_at_def)
  have "wr\<lparr>wr_finalized := []\<rparr> = wr" using assms(3) by simp
  with assms show ?thesis
    using fresh row by (simp add: advance_pipeline_frontier_def Let_def good_calls_def finalized_ids_def dpop_def
        group_info_of_def)
qed

lemma seen_finalize:
  assumes "seen cfg loads key p f buf [(key, [(1, 0)])] {} (stream_at [((1, 0), f)] (1, 0) 1 [(1, 0)]) rows
      (Some (row_at key (0, 0) 0 ''healthy'' None)) [] (Acking [(key, [(1, 0)])] [] stage)"
    and "project_id_from_stream key = Inr p" and "wc_authority cfg"
  shows "seen cfg loads key p f buf [(key, [(1, 0)])] {key} (stream_at [] (1, 0) 1 []) rows
      (Some (row_at key (1, 0) 1 ''healthy'' None)) [] (Acking [] [((key, [(1, 0)]), True)] stage)"
proof (rule seen_step [OF assms(1)])
  fix wr :: writer assume wr: "wr_buffer wr = buf" "wr_pending_ack wr = [(key, [(1, 0)])]" "wr_uncertain wr = {}"
    "wr_tokens wr = []" "wr_finalized wr = []"
  let ?s = "run_at key p f wr (stream_at [((1, 0), f)] (1, 0) 1 [(1, 0)]) rows
      (Some (row_at key (0, 0) 0 ''healthy'' None)) [] (Acking [(key, [(1, 0)])] [] stage)"
  let ?t = "\<lambda>wr. run_at key p f wr (stream_at [] (1, 0) 1 []) rows
      (Some (row_at key (1, 0) 1 ''healthy'' None)) [] (Acking [] [((key, [(1, 0)]), True)] stage)"
  let ?wr = "mark_uncertain key wr"
  have fin: "finalize_durable_stream cfg key [(1, 0)] good_calls (rn_writer ?s, rn_pipe ?s) = (True, ?wr, rn_pipe (?t ?wr))"
    using wr assms(2,3) advance_single [OF assms(2,3)]
    by (simp add: finalize_durable_stream_def verify_boundary_deliveries_def expected_tokens_def List.map_filter_def
        run_at_def ack_single [simplified] Let_def good_calls_def)
  have "rn_phase ?s = Acking ([] @ (key, [(1, 0)]) # []) [] stage" by (simp add: run_at_def)
  from wstep.finalize [OF this fin] have "wstep cfg loads ?s (?t ?wr)" by (simp add: run_at_def)
  then show "\<exists>wr'. wstep cfg loads ?s (?t wr') \<and> wr_buffer wr' = buf \<and> wr_pending_ack wr' = [(key, [(1, 0)])]
      \<and> wr_uncertain wr' = {key} \<and> wr_tokens wr' = [] \<and> wr_finalized wr' = []"
    using wr by (intro exI [of _ ?wr]) simp
qed

lemma seen_settled:
  assumes "seen cfg loads key p f buf [(key, [(1, 0)])] {key} r rows wm [] (Acking [] [((key, [(1, 0)]), True)] (AtEnd False))"
  shows "seen cfg loads key p f buf [] {} r rows wm [] Idle"
proof (rule seen_step [OF assms])
  fix wr :: writer assume wr: "wr_buffer wr = buf" "wr_pending_ack wr = [(key, [(1, 0)])]" "wr_uncertain wr = {key}"
    "wr_tokens wr = []" "wr_finalized wr = []"
  let ?s = "run_at key p f wr r rows wm [] (Acking [] [((key, [(1, 0)]), True)] (AtEnd False))"
  let ?wr = "reset_flush_retry (settle_stream (key, [(1, 0)]) True wr)"
  have w: "wr_buffer ?wr = buf" "wr_pending_ack ?wr = []" "wr_uncertain ?wr = {}" "wr_tokens ?wr = []" "wr_finalized ?wr = []"
    using wr by (simp_all add: reset_flush_retry_def settle_stream_def Let_def dpop_def)
  have "after_acks (AtEnd False) [((key, [(1, 0)]), True)] (rn_writer ?s) = (?wr, Idle)"
    using w by (simp add: after_acks_def run_at_def Let_def acks_complete_def reset_flush_retry_def)
  then have "wstep cfg loads ?s (?s\<lparr>rn_writer := ?wr, rn_phase := Idle\<rparr>)"
    by (rule wstep.settle [rotated]) (simp add: run_at_def)
  then show "\<exists>wr'. wstep cfg loads ?s (run_at key p f wr' r rows wm [] Idle) \<and> wr_buffer wr' = buf \<and> wr_pending_ack wr' = []
      \<and> wr_uncertain wr' = {} \<and> wr_tokens wr' = [] \<and> wr_finalized wr' = []"
    using w by (intro exI [of _ ?wr]) (simp add: run_at_def)
qed


lemma seen_refused:
  assumes "seen cfg loads key p f buf [(key, [(1, 0)])] {} (stream_at [] (1, 0) 1 []) rows
      (Some (row_at key (1, 0) 1 ''healthy'' None)) [] (Acking [(key, [(1, 0)])] [] stage)"
    and "project_id_from_stream key = Inr p" and "wc_authority cfg"
  shows "seen cfg loads key p f buf [(key, [(1, 0)])] {} (stream_at [] (1, 0) 1 []) rows
      (Some (row_at key (1, 0) 1 ''degraded'' (Some ''stream_state_unverifiable''))) []
      (Acking [] [((key, [(1, 0)]), False)] stage)"
proof (rule seen_step [OF assms(1)])
  fix wr :: writer assume wr: "wr_buffer wr = buf" "wr_pending_ack wr = [(key, [(1, 0)])]" "wr_uncertain wr = {}"
    "wr_tokens wr = []" "wr_finalized wr = []"
  let ?s = "run_at key p f wr (stream_at [] (1, 0) 1 []) rows
      (Some (row_at key (1, 0) 1 ''healthy'' None)) [] (Acking [(key, [(1, 0)])] [] stage)"
  let ?t = "run_at key p f wr (stream_at [] (1, 0) 1 []) rows
      (Some (row_at key (1, 0) 1 ''degraded'' (Some ''stream_state_unverifiable''))) []
      (Acking [] [((key, [(1, 0)]), False)] stage)"
  have row: "\<And>n i. (row_at key i n ''healthy'' None)\<lparr>wm_status := ''degraded'', wm_reason := Some ''stream_state_unverifiable''\<rparr>
      = row_at key i n ''degraded'' (Some ''stream_state_unverifiable'')" by (simp add: row_at_def)
  have fin: "finalize_durable_stream cfg key [(1, 0)] good_calls (rn_writer ?s, rn_pipe ?s) = (False, wr, rn_pipe ?t)"
    using wr assms(2,3)
    by (simp add: row finalize_durable_stream_def verify_boundary_deliveries_def expected_tokens_def List.map_filter_def
        run_at_def ack_single [simplified] Let_def good_calls_def degrade_pipeline_authority_def degraded_row_def)
  have "rn_phase ?s = Acking ([] @ (key, [(1, 0)]) # []) [] stage" by (simp add: run_at_def)
  from wstep.finalize [OF this fin] have "wstep cfg loads ?s ?t" by (simp add: run_at_def)
  then show "\<exists>wr'. wstep cfg loads ?s (run_at key p f wr' (stream_at [] (1, 0) 1 []) rows
      (Some (row_at key (1, 0) 1 ''degraded'' (Some ''stream_state_unverifiable''))) []
      (Acking [] [((key, [(1, 0)]), False)] stage))
      \<and> wr_buffer wr' = buf \<and> wr_pending_ack wr' = [(key, [(1, 0)])] \<and> wr_uncertain wr' = {} \<and> wr_tokens wr' = []
      \<and> wr_finalized wr' = []"
    using wr by (intro exI [of _ wr]) simp
qed

lemma seen_kept:
  assumes "seen cfg loads key p f buf acks {} r rows wm [] (Acking [] [((key, ids), False)] (AtEnd False))"
  shows "seen cfg loads key p f buf acks {} r rows wm [] Idle"
proof (rule seen_step [OF assms])
  fix wr :: writer assume wr: "wr_buffer wr = buf" "wr_pending_ack wr = acks" "wr_uncertain wr = {}"
    "wr_tokens wr = []" "wr_finalized wr = []"
  let ?s = "run_at key p f wr r rows wm [] (Acking [] [((key, ids), False)] (AtEnd False))"
  have "after_acks (AtEnd False) [((key, ids), False)] (rn_writer ?s) = (count_error wr, Idle)"
    by (simp add: after_acks_def run_at_def Let_def acks_complete_def settle_stream_def)
  then have "wstep cfg loads ?s (?s\<lparr>rn_writer := count_error wr, rn_phase := Idle\<rparr>)"
    by (rule wstep.settle [rotated]) (simp add: run_at_def)
  then show "\<exists>wr'. wstep cfg loads ?s (run_at key p f wr' r rows wm [] Idle) \<and> wr_buffer wr' = buf \<and> wr_pending_ack wr' = acks
      \<and> wr_uncertain wr' = {} \<and> wr_tokens wr' = [] \<and> wr_finalized wr' = []"
    using wr by (intro exI [of _ "count_error wr"]) (simp add: run_at_def count_error_def)
qed

text \<open>The run up to the end of the first flush, and up to the end of the second.\<close>

lemma seen_stored:
  assumes key: "project_id_from_stream key = Inr p" and auth: "wc_authority cfg" and cap: "2 \<le> wc_buffer_size cfg"
    and msg: "read_message loads p key (1, 0) f = Inr (None, Some row)"
  shows "seen cfg loads key p f [event_at key row] [] {} (stream_at [] (1, 0) 1 []) [row]
    (Some (row_at key (1, 0) 1 ''healthy'' None)) [] Idle"
proof -
  let ?e = "event_at key row"
  have cap: "length [] < wc_buffer_size cfg" "length [?e] < wc_buffer_size cfg" using cap by simp_all
  have none: "\<not> has_key [] key" by (simp add: has_key_def)
  note s1 = seen_accept [OF seen_read [OF seen_published [OF key auth] key cap(1) none] key cap(1) msg, simplified append_Nil]
  note s2 = seen_accept [OF seen_claim [OF seen_flush [OF s1] key none] key cap(2) msg, unfolded append_Cons append_Nil]
  show ?thesis using seen_settled [OF seen_finalize [OF seen_insert [OF s2] key auth]] by simp
qed

lemma seen_blocked:
  assumes "project_id_from_stream key = Inr p" and "wc_authority cfg" and "2 \<le> wc_buffer_size cfg"
    and "read_message loads p key (1, 0) f = Inr (None, Some row)"
  shows "seen cfg loads key p f [] [(key, [(1, 0)])] {} (stream_at [] (1, 0) 1 []) [row, row]
    (Some (row_at key (1, 0) 1 ''degraded'' (Some ''stream_state_unverifiable''))) [] Idle"
  using seen_kept [OF seen_refused [OF seen_insert [OF seen_flush [OF seen_stored [OF assms]]] assms(1,2)]] by simp


section \<open>Witnesses\<close>

definition sample_loads :: "string \<Rightarrow> json_source" where
  "sample_loads = (\<lambda>_. stream_entry sample_ingest_env sample_ingest_principal sample_ingest_request sample_click)"

definition sample_writer_config :: writer_config where
  "sample_writer_config = \<lparr>wc_buffer_size = 1000, wc_dlq_maxlen = 10000, wc_authority = True\<rparr>"

abbreviation sample_fields :: fields where "sample_fields \<equiv> [(''event_json'', [])]"

lemma sample_key: "project_id_from_stream ''events:raw:demo'' = Inr ''demo''"
  using stream_key_project [OF sample_project_ok] by (simp add: sample_project)

lemma sample_config [simp]: "wc_authority sample_writer_config" "2 \<le> wc_buffer_size sample_writer_config"
  by (simp_all add: sample_writer_config_def)

lemma sample_message:
  obtains row where "read_message sample_loads ''demo'' ''events:raw:demo'' (1, 0) sample_fields = Inr (None, Some row)"
proof -
  have "stream_id_parts (id_text (1, 0)) = Inr (1, 0)" by (simp add: stream_id_parts_iff)
  with accepted_row [where payload = "[]" and sid = "id_text (1, 0)" and
      loads = "\<lambda>_. stream_entry sample_ingest_env sample_ingest_principal sample_ingest_request sample_click",
      OF sample_run sample_reports, unfolded sample_clock(1) sample_project(1), OF sample_clock(2-4) sample_project_ok
      sample_entry_published refl]
  obtain row where "parse_event sample_loads sample_fields ''demo'' ''events:raw:demo'' (id_text (1, 0)) = Inr row"
    unfolding sample_project sample_loads_def by blast
  then have "read_message sample_loads ''demo'' ''events:raw:demo'' (1, 0) sample_fields = Inr (None, Some row)"
    by (simp add: read_message_def parse_boundary_marker_def has_key_def)
  then show thesis by (rule that)
qed

lemma sample_stored:
  obtains wr row where "reachable sample_writer_config sample_loads (run_at ''events:raw:demo'' ''demo'' sample_fields wr
    (stream_at [] (1, 0) 1 []) [row] (Some (row_at ''events:raw:demo'' (1, 0) 1 ''healthy'' None)) [] Idle)"
  using sample_message seen_stored [OF sample_key sample_config] unfolding seen_def by metis

lemma sample_blocked:
  obtains wr row where "reachable sample_writer_config sample_loads (run_at ''events:raw:demo'' ''demo'' sample_fields wr
    (stream_at [] (1, 0) 1 []) [row, row]
    (Some (row_at ''events:raw:demo'' (1, 0) 1 ''degraded'' (Some ''stream_state_unverifiable''))) [] Idle)"
  using sample_message seen_blocked [OF sample_key sample_config] unfolding seen_def by metis

theorem published_never_lost_witness:
  "\<exists>s. reachable sample_writer_config sample_loads s \<and> rs_entries (pi_streams (rn_pipe s) ''events:raw:demo'') = []
     \<and> rejected (rn_pipe s) ''events:raw:demo'' (1, 0) = False
     \<and> is_complete sample_loads (rn_pipe s) ''events:raw:demo'' (1, 0) sample_fields"
proof -
  obtain wr row where r: "reachable sample_writer_config sample_loads (run_at ''events:raw:demo'' ''demo'' sample_fields wr
      (stream_at [] (1, 0) 1 []) [row] (Some (row_at ''events:raw:demo'' (1, 0) 1 ''healthy'' None)) [] Idle)"
    (is "reachable _ _ ?s") by (rule sample_stored)
  have "(''events:raw:demo'', (1, 0), sample_fields) \<in> rn_published ?s" by (simp add: run_at_def)
  from published_never_lost [OF r this] r show ?thesis
    by (intro exI [of _ ?s]) (simp add: run_at_def rejected_def)
qed

theorem healthy_frontier_complete_witness:
  "\<exists>s. reachable sample_writer_config sample_loads s
     \<and> pi_watermarks (rn_pipe s) ''demo'' = Some (row_at ''events:raw:demo'' (1, 0) 1 ''healthy'' None)
     \<and> is_complete sample_loads (rn_pipe s) ''events:raw:demo'' (1, 0) sample_fields"
proof -
  obtain wr row where r: "reachable sample_writer_config sample_loads (run_at ''events:raw:demo'' ''demo'' sample_fields wr
      (stream_at [] (1, 0) 1 []) [row] (Some (row_at ''events:raw:demo'' (1, 0) 1 ''healthy'' None)) [] Idle)"
    (is "reachable _ _ ?s") by (rule sample_stored)
  let ?w = "row_at ''events:raw:demo'' (1, 0) 1 ''healthy'' None"
  have "pi_watermarks (rn_pipe ?s) ''demo'' = Some ?w" "(wm_stream_key ?w, (1, 0), sample_fields) \<in> rn_published ?s"
    by (simp_all add: run_at_def)
  from healthy_frontier_complete [OF r this(1) _ this(2)] this r show ?thesis by auto
qed

theorem degraded_forever_witness:
  "\<exists>s t. reachable sample_writer_config sample_loads s \<and> rn_writer t = initial_writer 7
     \<and> (wstep sample_writer_config sample_loads)\<^sup>*\<^sup>* s t \<and> degraded (rn_pipe t) ''demo''"
proof -
  obtain wr row where r: "reachable sample_writer_config sample_loads (run_at ''events:raw:demo'' ''demo'' sample_fields wr
    (stream_at [] (1, 0) 1 []) [row, row]
    (Some (row_at ''events:raw:demo'' (1, 0) 1 ''degraded'' (Some ''stream_state_unverifiable''))) [] Idle)"
    (is "reachable _ _ ?s") by (rule sample_blocked)
  let ?t = "?s\<lparr>rn_writer := initial_writer 7, rn_inbox := [], rn_phase := Idle, rn_trim := None\<rparr>"
  have c: "(wstep sample_writer_config sample_loads)\<^sup>*\<^sup>* ?s ?t" by (rule r_into_rtranclp, rule wstep.crash)
  have "degraded (rn_pipe ?s) ''demo''" by (simp add: run_at_def degraded_def)
  from degraded_forever [OF r c this] r c show ?thesis by (intro exI [of _ ?s] exI [of _ ?t]) simp
qed



end
