(* ===== verification/AnalysisLaws.thy ===== *)
theory AnalysisLaws
  imports AnalysisEndpoint BoundaryMarkerLaws WriterGuarantees
begin

text \<open>
  Experiment decisions over the whole pipeline: producers, the ClickHouse writer, the publication
  of markers and the requests of the query service interleave on one set of streams and tables. A
  decision that is ever answered was computed from every event up to its boundary, and it never
  changes.
\<close>

declare split_paired_All [simp del] split_paired_Ex [simp del] split_paired_all [simp del]

section \<open>The system\<close>

text \<open>
  A request is open at its authority or has decided. \<open>sy_evidence\<close> records, for every frozen
  snapshot, the decision and the rows that ClickHouse held when it was made; \<open>sy_answers\<close> is the
  history of the decisions that were answered. \<open>qa\<close> and \<open>qp\<close> are the two queries, as functions of
  their parameters and of the stored rows.
\<close>

datatype request_stage =
    Opened "boundary_authority option"
  | Decided "boundary_authority option" decision_snapshot string "event_row list"

type_synonym evidence = "experiment_analysis \<times> boundary_authority option \<times> decision_snapshot \<times> event_row list"

type_synonym query = "analysis_params \<Rightarrow> event_row list \<Rightarrow> (http_error, dict list) result"

record analysis_system =
  sy_run :: run
  sy_dedup :: "string \<Rightarrow> dedup_value option"
  sy_added :: "(string \<times> stream_id \<times> string) list"
  sy_tables :: analysis_tables
  sy_requests :: "(string \<times> experiment_analysis \<times> request_stage) list"
  sy_evidence :: "boundary_key \<Rightarrow> evidence option"
  sy_answers :: "(string \<times> experiment_analysis \<times> decision_snapshot) list"

definition frontier :: "analysis_system \<Rightarrow> string \<Rightarrow> watermark option" where
  "frontier s = pi_watermarks (rn_pipe (sy_run s))"

definition markers_of :: "analysis_system \<Rightarrow> markers" where
  "markers_of s = \<lparr>ms_streams = pi_streams (rn_pipe (sy_run s)), ms_dedup = sy_dedup s,
     ms_rows = tb_rows (sy_tables s), ms_added = sy_added s\<rparr>"

definition show_rows :: "marker_row list \<Rightarrow> run \<Rightarrow> run" where
  "show_rows rows r = r\<lparr>rn_pipe := (rn_pipe r)\<lparr>pi_boundaries := map boundary_of rows\<rparr>\<rparr>"

definition after_marker :: "markers \<Rightarrow> analysis_system \<Rightarrow> analysis_system" where
  "after_marker m s =
     s\<lparr>sy_run := show_rows (ms_rows m) ((sy_run s)\<lparr>rn_pipe := (rn_pipe (sy_run s))\<lparr>pi_streams := ms_streams m\<rparr>,
         rn_published := rn_published (sy_run s) \<union>
           (\<lambda>(k, i, t). (k, i, marker_fields t)) ` set (drop (length (sy_added s)) (ms_added m))\<rparr>),
       sy_dedup := ms_dedup m, sy_added := ms_added m, sy_tables := (sy_tables s)\<lparr>tb_rows := ms_rows m\<rparr>\<rparr>"

definition after_open :: "string \<Rightarrow> experiment_analysis \<Rightarrow> stage \<Rightarrow> analysis_tables \<Rightarrow> analysis_system \<Rightarrow> analysis_system" where
  "after_open p md st tb s =
     s\<lparr>sy_run := show_rows (tb_rows tb) (sy_run s), sy_tables := tb,
       sy_requests := (case st of Awaiting a \<Rightarrow> (p, md, Opened a) # sy_requests s | _ \<Rightarrow> sy_requests s),
       sy_answers := (case st of Answered (Decision d) \<Rightarrow> (p, md, d) # sy_answers s | _ \<Rightarrow> sy_answers s)\<rparr>"

definition after_decide ::
    "string \<Rightarrow> experiment_analysis \<Rightarrow> boundary_authority option \<Rightarrow> outcome \<Rightarrow> analysis_system \<Rightarrow> analysis_system" where
  "after_decide p md a out s =
     s\<lparr>sy_requests := (case out of
         Reply _ \<Rightarrow> remove1 (p, md, Opened a) (sy_requests s)
       | Freeze d marker \<Rightarrow>
           (p, md, Decided a d marker (pi_rows (rn_pipe (sy_run s)))) # remove1 (p, md, Opened a) (sy_requests s))\<rparr>"

definition after_freeze ::
    "string \<Rightarrow> experiment_analysis \<Rightarrow> request_stage \<Rightarrow> evidence \<Rightarrow> response \<Rightarrow> analysis_tables \<Rightarrow> analysis_system \<Rightarrow> analysis_system" where
  "after_freeze p md st ev resp tb s =
     (let k = (p, ea_key md, ea_version md)
      in s\<lparr>sy_tables := tb, sy_requests := remove1 (p, md, st) (sy_requests s),
           sy_evidence := (if tb_snapshots tb k = tb_snapshots (sy_tables s) k then sy_evidence s
                           else (sy_evidence s)(k := Some ev)),
           sy_answers := (case resp of Decision d \<Rightarrow> (p, md, d) # sy_answers s | _ \<Rightarrow> sy_answers s)\<rparr>)"

inductive astep ::
    "writer_config \<Rightarrow> (string \<Rightarrow> json_source) \<Rightarrow> codec \<Rightarrow> float_library \<Rightarrow> (int \<times> int \<Rightarrow> int \<times> int \<Rightarrow> pyfloat)
     \<Rightarrow> query \<Rightarrow> query \<Rightarrow> analysis_system \<Rightarrow> analysis_system \<Rightarrow> bool"
  for cfg loads cd lib fisher qa qp where
  pipeline: "astep cfg loads cd lib fisher qa qp s (s\<lparr>sy_run := r\<rparr>)"
  if "wstep cfg loads (sy_run s) r" and "pi_boundaries (rn_pipe r) = pi_boundaries (rn_pipe (sy_run s))"
| marker: "astep cfg loads cd lib fisher qa qp s (after_marker m s)"
  if "row \<in> set (tb_rows (sy_tables s))" and "due now projects row"
    and "id_less (rs_last_generated (pi_streams (rn_pipe (sy_run s)) (mr_stream_key row))) (pc_new_id calls)"
    and "fst (pc_new_id calls) < 2 ^ 64" and "snd (pc_new_id calls) < 2 ^ 64"
    and "publish_row now calls rec row (markers_of s, stats) = (m, stats')"
| open_request: "astep cfg loads cd lib fisher qa qp s (after_open p md st tb s)"
  if "open_analysis cd db_now now pool call p md (frontier s) (sy_tables s) = (st, tb)"
| decide_request: "astep cfg loads cd lib fisher qa qp s (after_decide p md a out s)"
  if "(p, md, Opened a) \<in> set (sy_requests s)"
    and "decide lib fisher md a (qa (analysis_query p md a) (pi_rows (rn_pipe (sy_run s))))
           (qp (analysis_query p md a) (pi_rows (rn_pipe (sy_run s)))) = out"
| freeze_request: "astep cfg loads cd lib fisher qa qp s (after_freeze p md (Decided a d marker rows) (md, a, d, rows) resp tb s)"
  if "(p, md, Decided a d marker rows) \<in> set (sy_requests s)"
    and "freeze cd call p md d marker (frontier s) (sy_tables s) = (resp, tb)"
| drop_requests: "astep cfg loads cd lib fisher qa qp s (s\<lparr>sy_requests := filter P (sy_requests s)\<rparr>)"

definition initial_system :: "rat \<Rightarrow> analysis_system" where
  "initial_system now = \<lparr>sy_run = initial_run now, sy_dedup = (\<lambda>_. None), sy_added = [],
     sy_tables = \<lparr>tb_rows = [], tb_windows = (\<lambda>_. None), tb_snapshots = (\<lambda>_. None)\<rparr>,
     sy_requests = [], sy_evidence = (\<lambda>_. None), sy_answers = []\<rparr>"

section \<open>Completeness up to a boundary\<close>

definition in_rows :: "(string \<Rightarrow> json_source) \<Rightarrow> event_row list \<Rightarrow> string \<Rightarrow> stream_id \<Rightarrow> fields \<Rightarrow> bool" where
  "in_rows loads rows k i f \<longleftrightarrow> (\<exists>p token row. project_id_from_stream k = Inr p
     \<and> read_message loads p k i f = Inr (token, row) \<and> (case row of None \<Rightarrow> True | Some r \<Rightarrow> r \<in> set rows))"

definition complete_upto :: "(string \<Rightarrow> json_source) \<Rightarrow> run \<Rightarrow> string \<Rightarrow> stream_id \<Rightarrow> event_row list \<Rightarrow> bool" where
  "complete_upto loads r k m rows \<longleftrightarrow> m \<le> rs_last_delivered (pi_streams (rn_pipe r) k)
     \<and> (\<forall>i f. (k, i, f) \<in> rn_published r \<longrightarrow> i \<le> m \<longrightarrow> in_rows loads rows k i f)"

lemma in_rows_mono: "in_rows loads rows k i f \<Longrightarrow> set rows \<subseteq> set rows' \<Longrightarrow> in_rows loads rows' k i f"
  unfolding in_rows_def by (fastforce split: option.splits)

lemma healthy_complete_upto:
  assumes inv: "run_inv cfg loads r" and w: "pi_watermarks (rn_pipe r) p = Some w" "wm_status w = ''healthy''"
    and m: "m \<le> wm_contiguous w"
  shows "complete_upto loads r (wm_stream_key w) m (pi_rows (rn_pipe r))"
proof -
  note ok = invE(4) [OF inv w(1), unfolded watermark_ok_def]
  have "m \<le> rs_last_delivered (pi_streams (rn_pipe r) (wm_stream_key w))" using ok w(2) m by (meson order_trans)
  moreover have "in_rows loads (pi_rows (rn_pipe r)) (wm_stream_key w) i f"
    if "(wm_stream_key w, i, f) \<in> rn_published r" "i \<le> m" for i f
  proof -
    have "i \<le> wm_contiguous w" using that(2) m by (rule order_trans)
    with ok w(2) that(1) have "is_complete loads (rn_pipe r) (wm_stream_key w) i f" by blast
    then show ?thesis by (simp add: in_rows_def is_complete_def)
  qed
  ultimately show ?thesis by (simp add: complete_upto_def)
qed

text \<open>A run only adds rows, and only adds entries behind what has been delivered.\<close>

definition grows :: "run \<Rightarrow> run \<Rightarrow> bool" where
  "grows s t \<longleftrightarrow> extends s t \<and> (\<forall>k i f. (k, i, f) \<in> rn_published t \<longrightarrow>
     (k, i, f) \<in> rn_published s \<or> rs_last_delivered (pi_streams (rn_pipe s) k) < i)"

lemma grows_trans:
  assumes "grows s t" and "grows t u"
  shows "grows s u"
  unfolding grows_def
proof (intro conjI allI impI)
  show "extends s u" using assms extends_trans unfolding grows_def by blast
  fix k i f assume "(k, i, f) \<in> rn_published u"
  with assms(2) have "(k, i, f) \<in> rn_published t \<or> rs_last_delivered (pi_streams (rn_pipe t) k) < i"
    unfolding grows_def by blast
  then show "(k, i, f) \<in> rn_published s \<or> rs_last_delivered (pi_streams (rn_pipe s) k) < i"
  proof
    assume "(k, i, f) \<in> rn_published t"
    with assms(1) show ?thesis unfolding grows_def by blast
  next
    assume "rs_last_delivered (pi_streams (rn_pipe t) k) < i"
    moreover have "rs_last_delivered (pi_streams (rn_pipe s) k) \<le> rs_last_delivered (pi_streams (rn_pipe t) k)"
      using assms(1) by (simp add: grows_def extends_def)
    ultimately show ?thesis using le_less_trans by blast
  qed
qed

lemma wstep_grows:
  assumes inv: "run_inv cfg loads s" and step: "wstep cfg loads s t"
  shows "grows s t"
proof -
  have "(k, i, f) \<in> rn_published s \<or> rs_last_delivered (pi_streams (rn_pipe s) k) < i"
    if "(k, i, f) \<in> rn_published t" for k i f
    using step
  proof cases
    case (publish key j data)
    have "rs_last_delivered (pi_streams (rn_pipe s) key) \<le> rs_last_generated (pi_streams (rn_pipe s) key)"
      using invE(1) [OF inv, of key] by (simp add: stream_ok_def)
    then have "rs_last_delivered (pi_streams (rn_pipe s) key) < j" using publish(3) le_less_trans by simp
    then show ?thesis using that publish(1) by auto
  qed (use that in simp_all)
  then show ?thesis using wstep_extends [OF inv step] unfolding grows_def by blast
qed

interpretation growth: monotone_run "wstep cfg loads" "run_inv cfg loads" grows for cfg loads
proof unfold_locales
  show "grows s s" for s by (simp add: grows_def)
qed (blast intro: wstep_inv wstep_grows grows_trans)+

lemma complete_upto_grows:
  assumes "complete_upto loads s k m rows" and "grows s t"
  shows "complete_upto loads t k m rows"
  unfolding complete_upto_def
proof (intro conjI allI impI)
  have d: "rs_last_delivered (pi_streams (rn_pipe s) k) \<le> rs_last_delivered (pi_streams (rn_pipe t) k)"
    using assms(2) by (simp add: grows_def extends_def)
  then show "m \<le> rs_last_delivered (pi_streams (rn_pipe t) k)" using assms(1) order_trans unfolding complete_upto_def by blast
  fix i f assume i: "(k, i, f) \<in> rn_published t" "i \<le> m"
  have "\<not> rs_last_delivered (pi_streams (rn_pipe s) k) < i"
    using i(2) assms(1) unfolding complete_upto_def by (meson leD order_trans)
  with i assms(2) have "(k, i, f) \<in> rn_published s" unfolding grows_def by blast
  with i assms(1) show "in_rows loads rows k i f" unfolding complete_upto_def by blast
qed

lemma complete_upto_rows: "complete_upto loads s k m rows \<Longrightarrow> set rows \<subseteq> set rows' \<Longrightarrow> complete_upto loads s k m rows'"
  unfolding complete_upto_def using in_rows_mono by blast

section \<open>The run under the system\<close>

lemma run_script_streams:
  assumes "run_script m new_id s = (reply, t)"
  shows "(ms_streams t = ms_streams s \<and> ms_added t = ms_added s)
    \<or> (ms_streams t = (ms_streams s)(pm_stream_key m := xadd new_id (marker_fields (pm_token m)) (ms_streams s (pm_stream_key m)))
       \<and> ms_added t = ms_added s @ [(pm_stream_key m, new_id, pm_token m)])"
proof -
  obtain r d where lua: "boundary_marker_lua (pm_token m) (case pm_observed m of None \<Rightarrow> [] | Some i \<Rightarrow> id_text i) new_id
      (ms_streams s (pm_stream_key m)) (ms_dedup s (pm_token m)) = (reply, r, d)"
    using assms by (auto simp: run_script_def Let_def split: prod.splits)
  have "r = ms_streams s (pm_stream_key m) \<or> r = xadd new_id (marker_fields (pm_token m)) (ms_streams s (pm_stream_key m))"
    using lua by (auto simp: boundary_marker_lua_def split: option.splits dedup_value.splits if_splits)
  then show ?thesis using assms lua by (auto simp: run_script_def Let_def xadd_def)
qed

lemma record_marker_streams:
  "record_marker m i outcome s = (e, t) \<Longrightarrow> ms_streams t = ms_streams s \<and> ms_added t = ms_added s"
  by (auto simp: record_marker_def split: option.splits prod.splits call.splits)

lemma record_failure_streams:
  assumes "record_boundary_marker_failure now m failure outcome s = (st, t)"
  shows "ms_streams t = ms_streams s \<and> ms_added t = ms_added s"
proof -
  have "t = s \<or> (\<exists>rows. t = s\<lparr>ms_rows := rows\<rparr>)"
    using assms unfolding record_boundary_marker_failure_def Let_def
    by (auto split: if_splits option.splits call.splits prod.splits)
  then show ?thesis by auto
qed

definition marker_effect :: "marker_row \<Rightarrow> stream_id \<Rightarrow> markers \<Rightarrow> markers \<Rightarrow> bool" where
  "marker_effect row new_id s t \<longleftrightarrow> (ms_streams t = ms_streams s \<and> ms_added t = ms_added s)
     \<or> (valid_key (mr_stream_key row)
        \<and> ms_streams t = (ms_streams s)(mr_stream_key row := xadd new_id (marker_fields (mr_token row)) (ms_streams s (mr_stream_key row)))
        \<and> ms_added t = ms_added s @ [(mr_stream_key row, new_id, mr_token row)])"

lemma publish_one_effect:
  assumes "publish_one_boundary_marker m calls s = (e, t)" and "pm_stream_key m = mr_stream_key row" and "pm_token m = mr_token row"
  shows "marker_effect row (pc_new_id calls) s t"
proof (cases "stream_key_for_project (pm_project m) = Inr (pm_stream_key m)")
  case True
  then have key: "valid_key (mr_stream_key row)" unfolding valid_key_def project_stream_inverse using assms(2) by auto
  obtain reply u where script: "run_script m (pc_new_id calls) s = (reply, u)" by (metis surj_pair)
  have "marker_effect row (pc_new_id calls) s u"
    using run_script_streams [OF script] key assms(2,3) by (auto simp: marker_effect_def)
  moreover have "t = s \<or> (ms_streams t = ms_streams u \<and> ms_added t = ms_added u)"
    using assms(1) script True
    by (auto simp: publish_one_boundary_marker_def record_marker_streams split: if_splits marker_reply.splits sum.splits)
  ultimately show ?thesis by (auto simp: marker_effect_def)
qed (use assms in \<open>simp add: publish_one_boundary_marker_def marker_effect_def\<close>)

lemma publish_row_effect:
  assumes "publish_row now calls rec row (s, stats) = (t, stats')"
  shows "marker_effect row (pc_new_id calls) s t"
proof (cases "pending_boundary_marker row")
  case (Some m)
  then have m: "pm_stream_key m = mr_stream_key row" "pm_token m = mr_token row"
    by (auto simp: pending_boundary_marker_def split: if_splits)
  obtain e u where one: "publish_one_boundary_marker m calls s = (e, u)" by (metis surj_pair)
  have "ms_streams t = ms_streams u \<and> ms_added t = ms_added u"
    using assms Some one record_failure_streams
    by (fastforce simp: publish_row_def Let_def split: option.splits prod.splits)
  with publish_one_effect [OF one m] show ?thesis by (simp add: marker_effect_def)
qed (use assms in \<open>simp add: publish_row_def marker_effect_def\<close>)

lemma show_rows_step: "wstep cfg loads r (show_rows rows r)"
  unfolding show_rows_def by (rule wstep.boundaries)

lemma marker_run:
  assumes "publish_row now calls rec row (markers_of s, stats) = (m, stats')"
    and "id_less (rs_last_generated (pi_streams (rn_pipe (sy_run s)) (mr_stream_key row))) (pc_new_id calls)"
    and "snd (pc_new_id calls) < 2 ^ 64"
  shows "(wstep cfg loads)\<^sup>*\<^sup>* (sy_run s) (sy_run (after_marker m s))"
  using publish_row_effect [OF assms(1)] unfolding marker_effect_def
proof
  assume same: "ms_streams m = ms_streams (markers_of s) \<and> ms_added m = ms_added (markers_of s)"
  have "sy_run (after_marker m s) = show_rows (ms_rows m) (sy_run s)"
    using same by (simp add: after_marker_def markers_of_def)
  then show ?thesis using show_rows_step by auto
next
  let ?k = "mr_stream_key row" and ?i = "pc_new_id calls" and ?f = "marker_fields (mr_token row)"
  assume new: "valid_key ?k \<and> ms_streams m = (ms_streams (markers_of s))(?k := xadd ?i ?f (ms_streams (markers_of s) ?k))
      \<and> ms_added m = ms_added (markers_of s) @ [(?k, ?i, mr_token row)]"
  let ?t = "(sy_run s)\<lparr>rn_pipe := set_stream ?k (xadd ?i ?f (pi_streams (rn_pipe (sy_run s)) ?k)) (rn_pipe (sy_run s)),
      rn_published := insert (?k, ?i, ?f) (rn_published (sy_run s))\<rparr>"
  have first: "wstep cfg loads (sy_run s) ?t" by (rule wstep.publish) (use new assms(2,3) in simp_all)
  have added: "drop (length (sy_added s)) (ms_added m) = [(?k, ?i, mr_token row)]" using new by (simp add: markers_of_def)
  have streams: "ms_streams m = (pi_streams (rn_pipe (sy_run s)))(?k := xadd ?i ?f (pi_streams (rn_pipe (sy_run s)) ?k))"
    using new by (simp add: markers_of_def)
  have last: "sy_run (after_marker m s) = show_rows (ms_rows m) ?t"
    by (simp add: after_marker_def added streams set_stream_def)
  have "(wstep cfg loads)\<^sup>*\<^sup>* ?t (show_rows (ms_rows m) ?t)" by (rule r_into_rtranclp, rule show_rows_step)
  with first show ?thesis unfolding last by (rule converse_rtranclp_into_rtranclp)
qed

lemma astep_run:
  assumes "astep cfg loads cd lib fisher qa qp s t"
  shows "(wstep cfg loads)\<^sup>*\<^sup>* (sy_run s) (sy_run t)"
  using assms
proof cases
  case (marker row now projects calls rec stats m stats')
  then show ?thesis using marker_run by blast
next
  case (open_request db_now now pool call p md st tb)
  then show ?thesis using show_rows_step by (auto simp: after_open_def)
next
  case (decide_request p md a out)
  then show ?thesis by (simp add: after_decide_def)
next
  case (freeze_request p md a d marker rows call resp tb)
  then show ?thesis by (simp add: after_freeze_def Let_def)
qed auto

section \<open>Decisions\<close>

lemma parse_stream_id_iff: "parse_stream_id t = Inr i \<longleftrightarrow> t = id_text i \<and> fst i < 2 ^ 64 \<and> snd i < 2 ^ 64"
proof -
  have "parse_stream_id t = Inr i \<longleftrightarrow> stream_id_parts t = Inr i"
    by (auto simp: parse_stream_id_def stream_id_parts_def not_less not_le split: option.splits prod.splits if_splits)
  then show ?thesis by (simp add: stream_id_parts_iff)
qed

lemma id_text_inj [simp]: "id_text i = id_text j \<longleftrightarrow> i = j"
proof
  assume "id_text i = id_text j"
  then have "split_dash (id_text i) = split_dash (id_text j)" by simp
  then have "dec (fst i) = dec (fst j) \<and> dec (snd i) = dec (snd j)"
    unfolding id_text_def by (simp add: split_dash_append [simplified] dec_no_dash)
  then have "fst i = fst j \<and> snd i = snd j" by (metis canonical_nat_iff option.inject)
  then show "i = j" by (simp add: prod_eq_iff)
qed simp

lemma those_length: "those xs = Some ys \<Longrightarrow> length ys = length xs"
  by (induction xs arbitrary: ys) (auto split: option.splits)

lemma comparisons_length: "comparisons_of lib fisher control arms n level = Inr cs \<Longrightarrow> length cs = length arms"
  by (induction arms arbitrary: cs) (auto split: sum.splits)

lemma make_snapshot_Freeze:
  assumes "make_snapshot lib fisher md base marker = Freeze d t"
  shows "t = marker \<and> analysis_base.truncate d = base
    \<and> length (an_comparisons d) = length (filter (\<lambda>arm. ar_variant arm \<noteq> ea_control_variant md) (an_arms base))"
  using assms
  by (auto simp: make_snapshot_def Let_def analysis_base.truncate_def analysis_base.extend_def
      dest!: comparisons_length those_length split: option.splits if_splits sum.splits)

lemma decide_Freeze:
  assumes "decide lib fisher md a rows provenance = Freeze d t"
  obtains b rs arms crossover prov where "a = Some b" "au_state b = ACovered" "au_marker_stream_id b = Some t"
    "au_marker_parts b \<noteq> None" "rows = Inr rs" "aggregate_arms md rs = Inr (arms, crossover, 0, 0)"
    "\<forall>arm \<in> set arms. sp_required_sample_size_per_arm (ea_statistical_plan md) \<le> ar_sample_size arm"
    "ea_status md \<notin> {''running'', ''stopped''}" "provenance = Inr prov" "unprovenanced prov = Inr 0"
    "make_snapshot lib fisher md (common_response md arms crossover 0 0) t = Freeze d t"
proof -
  obtain rs where rs: "rows = Inr rs" using assms by (cases rows) (auto simp: decide_def)
  obtain arms x u c where agg: "aggregate_arms md rs = Inr (arms, x, u, c)"
    using assms rs by (cases "aggregate_arms md rs") (auto simp: decide_def)
  note d = assms [unfolded decide_def rs sum.case agg prod.case Let_def]
  have zero: "u = 0" "c = 0" "map_option au_state a \<noteq> Some AQuarantined" "ea_status md \<notin> {''running'', ''stopped''}"
    and power: "\<forall>arm \<in> set arms. sp_required_sample_size_per_arm (ea_statistical_plan md) \<le> ar_sample_size arm"
    using d by (auto split: if_splits simp: filter_empty_conv not_less)
  obtain b where b: "a = Some b" using d zero by (cases a) (auto split: if_splits)
  have state: "au_state b = ACovered" using d zero b by (cases "au_state b") (auto split: if_splits)
  obtain marker m where marker: "au_marker_stream_id b = Some marker" "au_marker_parts b = Some m"
    using d zero b state
    by (cases "au_marker_stream_id b"; cases "au_marker_parts b") (auto split: if_splits)
  obtain prov n where prov: "provenance = Inr prov" "unprovenanced prov = Inr n"
    using d zero b state marker by (cases provenance) (auto split: if_splits sum.splits)
  have "n = 0" "make_snapshot lib fisher md (common_response md arms x 0 0) marker = Freeze d t"
    using d zero b state marker prov by (auto split: if_splits)
  moreover from make_snapshot_Freeze [OF this(2)] have "t = marker" by simp
  ultimately show thesis using that [OF b state] marker rs agg zero power prov by simp
qed

section \<open>The invariant\<close>

definition covers :: "(string \<Rightarrow> json_source) \<Rightarrow> run \<Rightarrow> string \<Rightarrow> boundary_authority \<Rightarrow> event_row list \<Rightarrow> bool" where
  "covers loads r p b rows \<longleftrightarrow> au_marker_stream_id b = map_option id_text (au_marker_parts b)
     \<and> (au_state b = ACovered \<longrightarrow> (\<forall>m. au_marker_parts b = Some m \<longrightarrow> complete_upto loads r (stream_of_project p) m rows))"

definition decided_from ::
    "float_library \<Rightarrow> (int \<times> int \<Rightarrow> int \<times> int \<Rightarrow> pyfloat) \<Rightarrow> query \<Rightarrow> query \<Rightarrow> string \<Rightarrow> evidence \<Rightarrow> string \<Rightarrow> bool" where
  "decided_from lib fisher qa qp p ev t = (case ev of (md, a, d, rows) \<Rightarrow>
     decide lib fisher md a (qa (analysis_query p md a) rows) (qp (analysis_query p md a) rows) = Freeze d t)"

fun request_holds where
  "request_holds loads lib fisher qa qp r (p, md, Opened a) = (\<forall>b. a = Some b \<longrightarrow> covers loads r p b (pi_rows (rn_pipe r)))"
| "request_holds loads lib fisher qa qp r (p, md, Decided a d t rows) =
     ((\<forall>b. a = Some b \<longrightarrow> covers loads r p b rows) \<and> decided_from lib fisher qa qp p (md, a, d, rows) t)"

definition frozen_ok where
  "frozen_ok loads cd lib fisher qa qp r k row ev \<longleftrightarrow> (case (k, ev) of ((p, key, version), (md, a, d, rows)) \<Rightarrow>
     ea_key md = key \<and> ea_version md = version \<and> covered_marker a = Some (sn_boundary row) \<and> row = new_snapshot_row cd (sn_boundary row) d
     \<and> complete_upto loads r (stream_of_project p) (sn_boundary row) rows
     \<and> decided_from lib fisher qa qp p ev (id_text (sn_boundary row)))"

definition answer_ok :: "codec \<Rightarrow> analysis_tables \<Rightarrow> string \<times> experiment_analysis \<times> decision_snapshot \<Rightarrow> bool" where
  "answer_ok cd tb x = (case x of (p, md, d) \<Rightarrow>
     \<exists>row. tb_snapshots tb (p, ea_key md, ea_version md) = Some row \<and> validate_snapshot_payload cd row = Inr d)"

definition system_inv where
  "system_inv cfg loads cd lib fisher qa qp s \<longleftrightarrow> run_inv cfg loads (sy_run s)
     \<and> (\<forall>x \<in> set (sy_requests s). request_holds loads lib fisher qa qp (sy_run s) x)
     \<and> (\<forall>k row. tb_snapshots (sy_tables s) k = Some row \<longrightarrow>
          (\<exists>ev. sy_evidence s k = Some ev \<and> frozen_ok loads cd lib fisher qa qp (sy_run s) k row ev))
     \<and> (\<forall>x \<in> set (sy_answers s). answer_ok cd (sy_tables s) x)"

lemma covers_grows: "covers loads r p b rows \<Longrightarrow> grows r t \<Longrightarrow> covers loads t p b rows"
  unfolding covers_def using complete_upto_grows by blast

lemma covers_rows: "covers loads r p b rows \<Longrightarrow> set rows \<subseteq> set rows' \<Longrightarrow> covers loads r p b rows'"
  unfolding covers_def using complete_upto_rows by blast

lemma request_grows:
  assumes "request_holds loads lib fisher qa qp r x" and "grows r t"
  shows "request_holds loads lib fisher qa qp t x"
proof -
  obtain p md st where x: "x = (p, md, st)" by (metis surj_pair)
  have sub: "set (pi_rows (rn_pipe r)) \<subseteq> set (pi_rows (rn_pipe t))" using assms(2) by (simp add: grows_def extends_def)
  show ?thesis
  proof (cases st)
    case (Opened a)
    with assms(1) x show ?thesis using covers_grows [OF _ assms(2)] covers_rows [OF _ sub] by auto
  next
    case (Decided a d m rows)
    with assms(1) x show ?thesis using covers_grows [OF _ assms(2)] by auto
  qed
qed

lemma frozen_grows:
  "frozen_ok loads cd lib fisher qa qp r k row ev \<Longrightarrow> grows r t \<Longrightarrow> frozen_ok loads cd lib fisher qa qp t k row ev"
  unfolding frozen_ok_def by (cases k, cases ev) (use complete_upto_grows in \<open>simp, blast\<close>)

text \<open>Moving the run forward keeps what the invariant says of requests, snapshots and answers.\<close>

lemma system_forward:
  assumes inv: "system_inv cfg loads cd lib fisher qa qp s" and run: "(wstep cfg loads)\<^sup>*\<^sup>* (sy_run s) r"
  shows "system_inv cfg loads cd lib fisher qa qp (s\<lparr>sy_run := r\<rparr>)"
proof -
  have r: "run_inv cfg loads (sy_run s)" using inv by (simp add: system_inv_def)
  note g = growth.steps_forward [OF run r]
  have "run_inv cfg loads r" using growth.steps_keep [OF run r] .
  with inv show ?thesis
    using request_grows [OF _ g] frozen_grows [OF _ g] unfolding system_inv_def by simp blast
qed

text \<open>What the authority answers holds of the run whose tables it reads.\<close>

lemma frontier_covers:
  assumes inv: "run_inv cfg loads r" and a: "frontier_authority (stream_of_project p) m (pi_watermarks (rn_pipe r) p) = Inr b"
  shows "covers loads r p b (pi_rows (rn_pipe r)) \<and> au_snapshot b = None"
proof (cases "pi_watermarks (rn_pipe r) p")
  case None
  with a show ?thesis by (auto simp: frontier_authority_def authority_def covers_def)
next
  case (Some w)
  show ?thesis
  proof (cases "au_state b = ACovered")
    case True
    from a Some True have w: "wm_stream_key w = stream_of_project p" "wm_status w = ''healthy''" "m \<le> wm_contiguous w"
      "au_marker_parts b = Some m"
      by (auto simp: frontier_authority_def authority_def parse_stream_id_iff not_less split: if_splits sum.splits)
    from healthy_complete_upto [OF inv Some w(2,3)] w show ?thesis
      using a Some by (auto simp: covers_def frontier_authority_def authority_def split: if_splits sum.splits)
  next
    case False
    with a Some show ?thesis by (auto simp: covers_def frontier_authority_def authority_def split: if_splits sum.splits)
  qed
qed

lemma read_boundary_cases:
  assumes inv: "run_inv cfg loads r" and b: "read_boundary cd (stream_of_project p) row snapshot (pi_watermarks (rn_pipe r) p) = Inr a"
  shows "(\<exists>d sn. snapshot = Some sn \<and> au_snapshot a = Some d \<and> validate_snapshot_payload cd sn = Inr d)
    \<or> (au_snapshot a = None \<and> covers loads r p a (pi_rows (rn_pipe r)))"
proof (cases snapshot)
  case (Some sn)
  with b show ?thesis by (auto simp: read_boundary_def split: option.splits if_splits sum.splits)
next
  case None
  show ?thesis
  proof (cases "mr_state row = ''published''")
    case True
    with b None obtain m where "frontier_authority (stream_of_project p) m (pi_watermarks (rn_pipe r) p) = Inr a"
      by (auto simp: read_boundary_def split: option.splits sum.splits)
    with frontier_covers [OF inv] show ?thesis by blast
  next
    case False
    with b None show ?thesis by (auto simp: read_boundary_def authority_def covers_def split: if_splits)
  qed
qed

lemma insert_boundary_snapshots:
  "insert_boundary now p key version window token tb = Inr tb' \<Longrightarrow> tb_snapshots tb' = tb_snapshots tb"
  by (auto simp: insert_boundary_def split: if_splits)

lemma boundary_authority_ok:
  assumes "run_inv cfg loads r"
    and "get_or_create_experiment_boundary cd now p key version window (pi_watermarks (rn_pipe r)) tb = Inr (a, tb')"
  shows "tb_snapshots tb' = tb_snapshots tb
    \<and> ((\<exists>d sn. tb_snapshots tb (p, key, version) = Some sn \<and> au_snapshot a = Some d \<and> validate_snapshot_payload cd sn = Inr d)
       \<or> (au_snapshot a = None \<and> covers loads r p a (pi_rows (rn_pipe r))))"
proof -
  let ?token = "boundary_token cd p key version (fst window) (snd window)"
  obtain tb1 where ins: "insert_boundary now p key version window ?token tb = Inr tb1"
    using assms(2) by (cases "insert_boundary now p key version window ?token tb")
      (auto simp: get_or_create_experiment_boundary_def Let_def)
  note g = assms(2) [unfolded get_or_create_experiment_boundary_def Let_def ins sum.case]
  obtain b where find: "find (\<lambda>q. marker_key q = (p, key, version)) (tb_rows tb1) = Some b"
    using g by (cases "find (\<lambda>q. marker_key q = (p, key, version)) (tb_rows tb1)") simp_all
  note g1 = g [unfolded find option.case]
  have "read_boundary cd (stream_of_project p) b (tb_snapshots tb1 (p, key, version)) (pi_watermarks (rn_pipe r) p) = Inr a \<and> tb' = tb1"
    using g1 by (auto split: if_splits sum.splits)
  with read_boundary_cases [OF assms(1)] insert_boundary_snapshots [OF ins] show ?thesis by metis
qed

lemma system_update:
  assumes inv: "system_inv cfg loads cd lib fisher qa qp s" and run: "sy_run t = sy_run s"
    and tables: "tb_snapshots (sy_tables t) = tb_snapshots (sy_tables s)" and evidence: "sy_evidence t = sy_evidence s"
    and requests: "\<And>x. x \<in> set (sy_requests t) \<Longrightarrow> x \<in> set (sy_requests s) \<or> request_holds loads lib fisher qa qp (sy_run s) x"
    and answers: "\<And>x. x \<in> set (sy_answers t) \<Longrightarrow> x \<in> set (sy_answers s) \<or> answer_ok cd (sy_tables s) x"
  shows "system_inv cfg loads cd lib fisher qa qp t"
proof -
  have a: "answer_ok cd (sy_tables t) = answer_ok cd (sy_tables s)" by (rule ext) (simp add: answer_ok_def tables)
  have "request_holds loads lib fisher qa qp (sy_run s) x" if "x \<in> set (sy_requests t)" for x
    using requests [OF that] inv unfolding system_inv_def by blast
  moreover have "answer_ok cd (sy_tables s) x" if "x \<in> set (sy_answers t)" for x
    using answers [OF that] inv unfolding system_inv_def by blast
  ultimately show ?thesis using inv unfolding system_inv_def run tables evidence a by blast
qed

lemma open_analysis_ok:
  assumes inv: "run_inv cfg loads (sy_run s)"
    and o: "open_analysis cd db_now now pool call p md (frontier s) (sy_tables s) = (st, tb)"
  shows "tb_snapshots tb = tb_snapshots (sy_tables s)
    \<and> (case st of
         Awaiting a \<Rightarrow> request_holds loads lib fisher qa qp (sy_run s) (p, md, Opened a)
       | Answered (Decision d) \<Rightarrow> answer_ok cd (sy_tables s) (p, md, d)
       | _ \<Rightarrow> True)"
proof (cases "st = Awaiting None \<or> (\<exists>x. st = Answered x \<and> (\<forall>d. x \<noteq> Decision d))")
  case True
  have "tb = sy_tables s \<or> (\<exists>a. get_or_create_experiment_boundary cd db_now p (ea_key md) (ea_version md)
      (ea_start_date md, ea_end_date md) (frontier s) (sy_tables s) = Inr (a, tb))"
    using o unfolding open_analysis_def by (auto split: if_splits sum.splits prod.splits call.splits option.splits)
  then have "tb_snapshots tb = tb_snapshots (sy_tables s)"
    using boundary_authority_ok [OF inv] unfolding frontier_def by blast
  with True show ?thesis by (auto split: response.splits)
next
  case False
  with o obtain a where g: "get_or_create_experiment_boundary cd db_now p (ea_key md) (ea_version md)
      (ea_start_date md, ea_end_date md) (frontier s) (sy_tables s) = Inr (a, tb)"
    and st: "st = (case au_snapshot a of Some d \<Rightarrow> Answered (Decision d) | None \<Rightarrow> Awaiting (Some a))"
    unfolding open_analysis_def unstarted_def by (auto split: if_splits sum.splits prod.splits call.splits option.splits)
  from boundary_authority_ok [OF inv g [unfolded frontier_def]] st show ?thesis
    by (auto simp: answer_ok_def)
qed

lemma open_request_inv:
  assumes inv: "system_inv cfg loads cd lib fisher qa qp s"
    and o: "open_analysis cd db_now now pool call p md (frontier s) (sy_tables s) = (st, tb)"
  shows "system_inv cfg loads cd lib fisher qa qp (after_open p md st tb s)"
proof -
  let ?r = "show_rows (tb_rows tb) (sy_run s)"
  have step: "(wstep cfg loads)\<^sup>*\<^sup>* (sy_run s) ?r" by (rule r_into_rtranclp, rule show_rows_step)
  have r: "run_inv cfg loads (sy_run s)" using inv by (simp add: system_inv_def)
  note g = growth.steps_forward [OF step r]
  note ok = open_analysis_ok [OF r o, where lib = lib and fisher = fisher and qa = qa and qp = qp]
  show ?thesis
  proof (rule system_update [OF system_forward [OF inv step]])
    fix x assume "x \<in> set (sy_requests (after_open p md st tb s))"
    then show "x \<in> set (sy_requests (s\<lparr>sy_run := ?r\<rparr>))
        \<or> request_holds loads lib fisher qa qp (sy_run (s\<lparr>sy_run := ?r\<rparr>)) x"
      using ok request_grows [OF _ g] by (cases st) (auto simp: after_open_def simp del: request_holds.simps)
  next
    fix x assume "x \<in> set (sy_answers (after_open p md st tb s))"
    then show "x \<in> set (sy_answers (s\<lparr>sy_run := ?r\<rparr>)) \<or> answer_ok cd (sy_tables (s\<lparr>sy_run := ?r\<rparr>)) x"
      using ok by (auto simp: after_open_def split: stage.splits response.splits)
  qed (use ok in \<open>simp_all add: after_open_def\<close>)
qed

lemma decide_request_inv:
  assumes inv: "system_inv cfg loads cd lib fisher qa qp s" and mem: "(p, md, Opened a) \<in> set (sy_requests s)"
    and out: "decide lib fisher md a (qa (analysis_query p md a) (pi_rows (rn_pipe (sy_run s))))
           (qp (analysis_query p md a) (pi_rows (rn_pipe (sy_run s)))) = out"
  shows "system_inv cfg loads cd lib fisher qa qp (after_decide p md a out s)"
proof (rule system_update [OF inv])
  have "request_holds loads lib fisher qa qp (sy_run s) (p, md, Opened a)" using inv mem unfolding system_inv_def by blast
  then have new: "request_holds loads lib fisher qa qp (sy_run s) (p, md, Decided a d t (pi_rows (rn_pipe (sy_run s))))"
    if "out = Freeze d t" for d t using out that by (simp add: decided_from_def)
  fix x assume "x \<in> set (sy_requests (after_decide p md a out s))"
  then show "x \<in> set (sy_requests s) \<or> request_holds loads lib fisher qa qp (sy_run s) x"
    using new set_remove1_subset [of "(p, md, Opened a)" "sy_requests s"]
    by (cases out) (auto simp: after_decide_def simp del: request_holds.simps)
qed (simp_all add: after_decide_def)

lemma persist_cases:
  assumes "persist_experiment_snapshot cd p key version t d watermarks tb = Inr (d', tb')"
  obtains m row where "t = id_text m" "tb_snapshots tb' (p, key, version) = Some row" "validate_snapshot_payload cd row = Inr d'"
    "tb' = tb \<or> (tb_snapshots tb (p, key, version) = None \<and> row = new_snapshot_row cd m d
       \<and> tb' = tb\<lparr>tb_snapshots := (tb_snapshots tb)((p, key, version) := Some row)\<rparr>)"
proof -
  obtain m where m: "parse_stream_id t = Inr m" using assms
    by (cases "parse_stream_id t") (auto simp: persist_experiment_snapshot_def)
  let ?new = "tb\<lparr>tb_snapshots := (tb_snapshots tb)((p, key, version) := Some (new_snapshot_row cd m d))\<rparr>"
  note q = assms [unfolded persist_experiment_snapshot_def m sum.case Let_def]
  define tb1 where "tb1 = (if list_ex (covered_boundary (p, key, version) m watermarks) (tb_rows tb) \<and> tb_snapshots tb (p, key, version) = None
      then ?new else tb)"
  have "tb' = tb1 \<and> (\<exists>row. tb_snapshots tb1 (p, key, version) = Some row \<and> validate_snapshot_payload cd row = Inr d')"
    using q unfolding tb1_def [symmetric] by (auto split: if_splits option.splits sum.splits)
  then obtain row where row: "tb' = tb1" "tb_snapshots tb1 (p, key, version) = Some row" "validate_snapshot_payload cd row = Inr d'"
    by blast
  show thesis
    by (rule that [of m row]) (use row m in \<open>auto simp: tb1_def parse_stream_id_iff split: if_splits\<close>)
qed

lemma freeze_cases:
  assumes "freeze cd call p md d t watermarks tb = (resp, tb')"
  obtains (same) "tb' = tb" "\<forall>d'. resp \<noteq> Decision d'"
  | (stored) d' where "persist_experiment_snapshot cd p (ea_key md) (ea_version md) t d watermarks tb = Inr (d', tb')"
      "resp = Decision d' \<or> (\<forall>d''. resp \<noteq> Decision d'')"
  using assms that(1) that(2) by (auto simp: freeze_def Let_def split: sum.splits prod.splits call.splits)

lemma freeze_request_inv:
  assumes inv: "system_inv cfg loads cd lib fisher qa qp s"
    and mem: "(p, md, Decided a d t rows) \<in> set (sy_requests s)"
    and f: "freeze cd call p md d t (frontier s) (sy_tables s) = (resp, tb)"
  shows "system_inv cfg loads cd lib fisher qa qp (after_freeze p md (Decided a d t rows) (md, a, d, rows) resp tb s)"
    (is "system_inv _ _ _ _ _ _ _ ?t")
  using f
proof (cases rule: freeze_cases)
  case same
  show ?thesis
    by (rule system_update [OF inv])
      (use same set_remove1_subset in \<open>fastforce simp: after_freeze_def Let_def split: response.splits\<close>)+
next
  case (stored d')
  let ?k = "(p, ea_key md, ea_version md)"
  have rq: "request_holds loads lib fisher qa qp (sy_run s) (p, md, Decided a d t rows)" using inv mem unfolding system_inv_def by blast
  from stored(1) obtain m row where t: "t = id_text m" and row: "tb_snapshots tb ?k = Some row"
    "validate_snapshot_payload cd row = Inr d'"
    and new: "tb = sy_tables s \<or> (tb_snapshots (sy_tables s) ?k = None \<and> row = new_snapshot_row cd m d
       \<and> tb = (sy_tables s)\<lparr>tb_snapshots := (tb_snapshots (sy_tables s))(?k := Some row)\<rparr>)"
    by (rule persist_cases)
  have frozen: "frozen_ok loads cd lib fisher qa qp (sy_run s) ?k (new_snapshot_row cd m d) (md, a, d, rows)"
  proof -
    have dec: "decided_from lib fisher qa qp p (md, a, d, rows) (id_text m)" using rq t by simp
    then obtain b where b: "a = Some b" "au_state b = ACovered" "au_marker_stream_id b = Some (id_text m)"
      unfolding decided_from_def by (auto elim: decide_Freeze)
    then have "covers loads (sy_run s) p b rows" using rq by simp
    with b have "complete_upto loads (sy_run s) (stream_of_project p) m rows" "covered_marker a = Some m"
      by (cases "au_marker_parts b"; simp add: covers_def covered_marker_def)+
    with dec show ?thesis by (simp add: frozen_ok_def new_snapshot_row_def)
  qed
  have keep: "tb_snapshots (sy_tables s) k = Some q \<Longrightarrow> tb_snapshots tb k = Some q" for k q using new by auto
  have "\<exists>ev. sy_evidence ?t k = Some ev \<and> frozen_ok loads cd lib fisher qa qp (sy_run s) k q ev"
    if q: "tb_snapshots tb k = Some q" for k q
  proof (cases "tb_snapshots (sy_tables s) k = Some q")
    case True
    with inv obtain ev where ev: "sy_evidence s k = Some ev" "frozen_ok loads cd lib fisher qa qp (sy_run s) k q ev"
      unfolding system_inv_def by blast
    have "sy_evidence ?t k = sy_evidence s k" using keep True row by (auto simp: after_freeze_def Let_def)
    with ev show ?thesis by simp
  next
    case False
    with q new have "k = ?k" "q = new_snapshot_row cd m d" "tb_snapshots (sy_tables s) ?k = None" using row by (auto split: if_splits)
    with frozen row show ?thesis by (simp add: after_freeze_def Let_def)
  qed
  moreover have "answer_ok cd tb x" if "x \<in> set (sy_answers ?t)" for x
  proof -
    have "x \<in> set (sy_answers s) \<or> x = (p, md, d')" using that stored(2) by (auto simp: after_freeze_def Let_def split: response.splits)
    then show ?thesis
    proof
      assume "x \<in> set (sy_answers s)"
      with inv have "answer_ok cd (sy_tables s) x" unfolding system_inv_def by blast
      with keep show ?thesis by (cases x) (auto simp: answer_ok_def)
    qed (use row in \<open>simp add: answer_ok_def\<close>)
  qed
  moreover have "\<forall>x \<in> set (sy_requests ?t). request_holds loads lib fisher qa qp (sy_run s) x"
    using inv set_remove1_subset unfolding system_inv_def by (fastforce simp: after_freeze_def Let_def)
  ultimately show ?thesis using inv by (simp add: system_inv_def after_freeze_def Let_def)
qed

lemma astep_inv:
  assumes inv: "system_inv cfg loads cd lib fisher qa qp s" and step: "astep cfg loads cd lib fisher qa qp s t"
  shows "system_inv cfg loads cd lib fisher qa qp t"
  using step
proof cases
  case (pipeline r)
  then show ?thesis using system_forward [OF inv] by blast
next
  case (marker row now projects calls rec stats m stats')
  have "(wstep cfg loads)\<^sup>*\<^sup>* (sy_run s) (sy_run t)" using marker_run marker by blast
  from system_update [OF system_forward [OF inv this], of t] marker(1) show ?thesis by (simp add: after_marker_def)
next
  case (open_request db_now now pool call p md st tb)
  with open_request_inv [OF inv] show ?thesis by blast
next
  case (decide_request p md a out)
  with decide_request_inv [OF inv] show ?thesis by blast
next
  case (freeze_request p md a d marker rows call resp tb)
  with freeze_request_inv [OF inv] show ?thesis by blast
next
  case (drop_requests P)
  with system_update [OF inv, of t] show ?thesis by simp
qed

lemma initial_system_inv: "system_inv cfg loads cd lib fisher qa qp (initial_system now)"
  by (simp add: system_inv_def initial_system_def initial_inv)

text \<open>A snapshot that is stored stays as it is.\<close>

definition snapshots_kept :: "analysis_system \<Rightarrow> analysis_system \<Rightarrow> bool" where
  "snapshots_kept s t \<longleftrightarrow> (\<forall>k row. tb_snapshots (sy_tables s) k = Some row \<longrightarrow> tb_snapshots (sy_tables t) k = Some row)"

lemma astep_snapshots:
  assumes inv: "system_inv cfg loads cd lib fisher qa qp s" and step: "astep cfg loads cd lib fisher qa qp s t"
  shows "snapshots_kept s t"
  using step
proof cases
  case (open_request db_now now pool call p md st tb)
  have "run_inv cfg loads (sy_run s)" using inv by (simp add: system_inv_def)
  from open_analysis_ok [OF this open_request(2)] open_request(1) show ?thesis by (simp add: snapshots_kept_def after_open_def)
next
  case (freeze_request p md a d marker rows call resp tb)
  from freeze_request(3) show ?thesis
  proof (cases rule: freeze_cases)
    case (stored d')
    from stored(1) show ?thesis
      by (rule persist_cases) (use freeze_request(1) in \<open>auto simp: snapshots_kept_def after_freeze_def Let_def\<close>)
  qed (use freeze_request(1) in \<open>simp add: snapshots_kept_def after_freeze_def Let_def\<close>)
qed (simp_all add: snapshots_kept_def after_marker_def after_decide_def)

interpretation decisions: monotone_run "astep cfg loads cd lib fisher qa qp" "system_inv cfg loads cd lib fisher qa qp" snapshots_kept
  for cfg loads cd lib fisher qa qp
proof unfold_locales
  show "snapshots_kept s u" if "snapshots_kept s t" "snapshots_kept t u" for s t u using that unfolding snapshots_kept_def by blast
qed (simp_all add: astep_inv astep_snapshots, simp add: snapshots_kept_def)

section \<open>Theorems\<close>

text \<open>
  C8. Every decision snapshot that the endpoint has ever answered rests on complete data. The
  stored snapshot of its experiment version has a boundary in the project's stream; it was
  decided, under the rules of the endpoint, from what ClickHouse held at that moment, restricted
  to the boundary, and that included the row of every event published up to the boundary. The
  answer is the stored payload, with the digest of the decision.
\<close>

theorem decision_on_complete_data:
  assumes "(astep cfg loads cd lib fisher qa qp)\<^sup>*\<^sup>* (initial_system now) s" and "(p, md, d) \<in> set (sy_answers s)"
  shows "\<exists>m md0 a d0 rows. tb_snapshots (sy_tables s) (p, ea_key md, ea_version md) = Some (new_snapshot_row cd m d0)
    \<and> cd_validate cd (cd_jsonb cd (canonical_snapshot_json cd d0)) = Some d
    \<and> cd_sha cd (canonical_snapshot_json cd d) = cd_sha cd (canonical_snapshot_json cd d0)
    \<and> ea_key md0 = ea_key md \<and> ea_version md0 = ea_version md \<and> ap_boundary (analysis_query p md0 a) = Some m
    \<and> decide lib fisher md0 a (qa (analysis_query p md0 a) rows) (qp (analysis_query p md0 a) rows) = Freeze d0 (id_text m)
    \<and> (\<forall>i f. (stream_of_project p, i, f) \<in> rn_published (sy_run s) \<longrightarrow> i \<le> m \<longrightarrow>
         in_rows loads rows (stream_of_project p) i f)"
proof -
  note inv = decisions.steps_keep [OF assms(1) initial_system_inv]
  let ?k = "(p, ea_key md, ea_version md)"
  from inv assms(2) obtain row where row: "tb_snapshots (sy_tables s) ?k = Some row" "validate_snapshot_payload cd row = Inr d"
    unfolding system_inv_def answer_ok_def by fast
  from inv row(1) obtain md0 a d0 rows where ev: "frozen_ok loads cd lib fisher qa qp (sy_run s) ?k row (md0, a, d0, rows)"
    unfolding system_inv_def by (metis surj_pair)
  let ?m = "sn_boundary row"
  from ev have new: "row = new_snapshot_row cd ?m d0" and md0: "ea_key md0 = ea_key md" "ea_version md0 = ea_version md"
    and up: "complete_upto loads (sy_run s) (stream_of_project p) ?m rows"
    and dec: "decide lib fisher md0 a (qa (analysis_query p md0 a) rows) (qp (analysis_query p md0 a) rows) = Freeze d0 (id_text ?m)"
    by (simp_all add: frozen_ok_def decided_from_def)
  have bound: "ap_boundary (analysis_query p md0 a) = Some ?m" using ev by (simp add: frozen_ok_def analysis_query_def)
  have "cd_validate cd (sn_payload row) = Some d" "cd_sha cd (canonical_snapshot_json cd d) = sn_sha256 row"
    using row(2) by (auto simp: validate_snapshot_payload_def split: if_splits option.splits)
  moreover have "sn_payload row = cd_jsonb cd (canonical_snapshot_json cd d0)" "sn_sha256 row = cd_sha cd (canonical_snapshot_json cd d0)"
    using arg_cong [OF new, of sn_payload] arg_cong [OF new, of sn_sha256] by (simp_all add: new_snapshot_row_def)
  ultimately show ?thesis
    using row(1) new md0 dec bound up unfolding complete_upto_def
    by (intro exI [of _ ?m] exI [of _ md0] exI [of _ a] exI [of _ d0] exI [of _ rows]) simp
qed

text \<open>
  C9. A decision never changes: whatever happens in between, and however many requests race, all
  answers for one version of an experiment are the same snapshot.
\<close>

theorem decisions_never_change:
  assumes "(astep cfg loads cd lib fisher qa qp)\<^sup>*\<^sup>* (initial_system now) s" and "(astep cfg loads cd lib fisher qa qp)\<^sup>*\<^sup>* s t"
    and "(p, md, d) \<in> set (sy_answers s)" and "(p, md', d') \<in> set (sy_answers t)"
    and "ea_key md' = ea_key md" and "ea_version md' = ea_version md"
  shows "d' = d"
proof -
  note inv = decisions.steps_keep [OF assms(1) initial_system_inv]
  note inv' = decisions.steps_keep [OF assms(2) inv]
  from inv assms(3) obtain row where row: "tb_snapshots (sy_tables s) (p, ea_key md, ea_version md) = Some row"
    "validate_snapshot_payload cd row = Inr d" unfolding system_inv_def answer_ok_def by fast
  from inv' assms(4) obtain row' where "tb_snapshots (sy_tables t) (p, ea_key md, ea_version md) = Some row'"
    "validate_snapshot_payload cd row' = Inr d'" unfolding system_inv_def answer_ok_def assms(5,6) [symmetric] by fast
  with row decisions.steps_forward [OF assms(2) inv] show ?thesis by (simp add: snapshots_kept_def)
qed

text \<open>
  C14. A decision is made only for an experiment that is neither running nor stopped, with a
  covered boundary, aggregates without unknown variants and identity conflicts, every arm at its
  planned size and no event of unknown provenance; it carries exactly these arms and one
  comparison for each treatment.
\<close>

theorem decision_requires:
  assumes "decide lib fisher md a rows provenance = Freeze d t"
  shows "\<exists>b rs arms crossover prov. a = Some b \<and> au_state b = ACovered \<and> au_marker_stream_id b = Some t
    \<and> rows = Inr rs \<and> aggregate_arms md rs = Inr (arms, crossover, 0, 0) \<and> ea_status md \<notin> {''running'', ''stopped''}
    \<and> (\<forall>arm \<in> set arms. sp_required_sample_size_per_arm (ea_statistical_plan md) \<le> ar_sample_size arm)
    \<and> provenance = Inr prov \<and> unprovenanced prov = Inr 0
    \<and> analysis_base.truncate d = common_response md arms crossover 0 0
    \<and> length (an_comparisons d) = length (filter (\<lambda>v. v \<noteq> ea_control_variant md) (ea_variants md))"
  using assms
proof (rule decide_Freeze)
  fix b rs arms crossover prov
  assume agg: "aggregate_arms md rs = Inr (arms, crossover, 0, 0)"
    and make: "make_snapshot lib fisher md (common_response md arms crossover 0 0) t = Freeze d t"
    and rest: "a = Some b" "au_state b = ACovered" "au_marker_stream_id b = Some t" "au_marker_parts b \<noteq> None" "rows = Inr rs"
      "\<forall>arm \<in> set arms. sp_required_sample_size_per_arm (ea_statistical_plan md) \<le> ar_sample_size arm"
      "ea_status md \<notin> {''running'', ''stopped''}" "provenance = Inr prov" "unprovenanced prov = Inr 0"
  have "map ar_variant arms = ea_variants md"
    using agg by (auto simp: aggregate_arms_def arm_of_def comp_def split: sum.splits option.splits intro!: map_idI)
  then have "length (filter (\<lambda>arm. ar_variant arm \<noteq> ea_control_variant md) arms)
      = length (filter (\<lambda>v. v \<noteq> ea_control_variant md) (ea_variants md))"
    by (metis (mono_tags, lifting) comp_apply filter_cong filter_map length_map)
  with make_snapshot_Freeze [OF make] agg rest show ?thesis
    by (intro exI [of _ b] exI [of _ rs] exI [of _ arms] exI [of _ crossover] exI [of _ prov]) (simp add: common_response_def)
qed

section \<open>Comparisons\<close>

definition arm_ok :: "arm_result \<Rightarrow> bool" where
  "arm_ok a \<longleftrightarrow> 0 < ar_sample_size a \<and> 0 \<le> ar_conversions a \<and> ar_conversions a \<le> ar_sample_size a
     \<and> ar_conversion_rate a = fl (of_int (ar_conversions a) / of_int (ar_sample_size a))"

lemma arm_rate:
  assumes "arm_ok a"
  shows "0 \<le> ar_conversion_rate a \<and> ar_conversion_rate a \<le> 1"
proof -
  have "0 \<le> (of_int (ar_conversions a) :: rat) / of_int (ar_sample_size a)"
    "(of_int (ar_conversions a) :: rat) / of_int (ar_sample_size a) \<le> 1"
    using assms by (simp_all add: arm_ok_def)
  with fl_nonneg fl_idem_bounds [OF fl_one] assms show ?thesis by (simp add: arm_ok_def)
qed

lemma fl_quarters: "fl (3 / 4) = 3 / 4" "fl (1 / 4) = 1 / 4" "fl (1 / 2 ^ 25) = 1 / 2 ^ 25" "fl (1 - 1 / 2 ^ 25) = 1 - 1 / 2 ^ 25"
  by code_simp+

text \<open>The argument of the quantile function, for the levels and the arms the contract allows.\<close>

lemma level_in_range:
  assumes "MIN_STATISTICAL_VALUE \<le> level" and "level \<le> 1 / 2" and "1 \<le> n" and "n \<le> 9"
  shows "0 < fl (1 - fl (level / fl (2 * fl (of_int n)))) \<and> fl (1 - fl (level / fl (2 * fl (of_int n)))) < 1"
proof -
  have n: "fl (of_int n) = of_int n" "fl (2 * of_int n) = 2 * of_int n"
    using fl_of_int [of n] fl_of_int [of "2 * n"] assms(3,4) by simp_all
  let ?x = "level / (2 * of_int n)"
  have "?x \<le> (1 / 2) / (2 * 1)" using assms by (intro frac_le) simp_all
  then have hi: "fl ?x \<le> 1 / 4" using fl_idem_bounds [OF fl_quarters(2)] by simp
  have "9 / 10 ^ 7 \<le> MIN_STATISTICAL_VALUE" by code_simp
  then have "(9 / 10 ^ 7) / (2 * 9) \<le> ?x" using assms by (intro frac_le) simp_all
  then have "1 / 2 ^ 25 \<le> ?x" by simp
  from fl_mono [OF this] have lo: "1 / 2 ^ 25 \<le> fl ?x" by (simp only: fl_quarters)
  have "3 / 4 \<le> 1 - fl ?x" using hi by simp
  from fl_mono [OF this] have a: "3 / 4 \<le> fl (1 - fl ?x)" by (simp only: fl_quarters)
  have "1 - fl ?x \<le> 1 - 1 / 2 ^ 25" using lo by simp
  from fl_idem_bounds [OF fl_quarters(4) this] have b: "fl (1 - fl ?x) \<le> 1 - 1 / 2 ^ 25" .
  from a b show ?thesis by (simp add: n)
qed

text \<open>
  C15. For arms with actors and the levels and numbers of arms that the statistical contract
  allows, a comparison never raises: with a p-value from Fisher's test it satisfies every bound
  of its model, its interval is within \<open>[-1, 1]\<close>, and the adjusted p-value is not below the raw
  one.
\<close>

theorem comparison_in_range:
  assumes "arm_ok control" and "arm_ok treatment" and "MIN_STATISTICAL_VALUE \<le> level" and "level \<le> 1 / 2" and "1 \<le> n" and "n \<le> 9"
    and "fisher (ar_conversions treatment, ar_sample_size treatment - ar_conversions treatment)
           (ar_conversions control, ar_sample_size control - ar_conversions control) = Fin p" and "0 \<le> p" and "p \<le> 1" and "fl p = p"
  shows "\<exists>c. comparison lib fisher control treatment n level = Inr (Some c) \<and> comparison_ok c
    \<and> -1 \<le> fst (co_confidence_interval c) \<and> snd (co_confidence_interval c) \<le> 1
    \<and> co_raw_p_value c = p \<and> p \<le> co_adjusted_p_value c \<and> (co_significant c \<longleftrightarrow> co_adjusted_p_value c < level)"
proof -
  note rates = arm_rate [OF assms(1)] arm_rate [OF assms(2)]
  let ?d = "ar_conversion_rate treatment - ar_conversion_rate control"
  have "-1 \<le> ?d" "?d \<le> 1" using rates by simp_all
  then have d: "-1 \<le> fl ?d \<and> fl ?d \<le> 1"
    using fl_mono [of "-1" ?d] fl_idem_bounds [OF fl_one] by simp
  have "p * 1 \<le> p * of_int n" using assms(5,8) by (intro mult_left_mono) simp_all
  then have "fl p \<le> fl (p * of_int n)" using fl_mono by simp
  moreover have n: "fl (of_int n) = of_int n" using fl_of_int [of n] assms(5,6) by simp
  ultimately have p: "p \<le> min (fl (p * fl (of_int n))) 1" using assms(9,10) by simp
  have nz: "ar_sample_size control \<noteq> 0" "ar_sample_size treatment \<noteq> 0" using assms(1,2) by (simp_all add: arm_ok_def)
  show ?thesis
    using level_in_range [OF assms(3-6)] assms(5,7-9) rates d p nz
    by (auto simp: comparison_def Let_def comparison_ok_def not_less not_le split: prod.splits)
qed

end
