(* ===== verification/AnalysisExample.thy ===== *)
theory AnalysisExample
  imports AnalysisLaws
begin

text \<open>
  One experiment from the first event to the frozen decision: an event is published, the query
  service requests a boundary, its marker follows the event, the writer stores and finalizes both,
  and two requests are answered with the same snapshot.
\<close>

declare split_paired_All [simp del] split_paired_Ex [simp del] split_paired_all [simp del]

abbreviation demo_key :: string where "demo_key \<equiv> ''events:raw:demo''"

definition demo_plan :: statistical_plan where
  "demo_plan = \<lparr>sp_baseline_conversion_rate = 1 / 2, sp_minimum_detectable_effect = 1 / 4, sp_significance_level = 1 / 4,
     sp_nominal_power = 3 / 4, sp_required_sample_size_per_arm = 2, sp_data_settlement_seconds = 1\<rparr>"

definition demo_metadata :: experiment_analysis where
  "demo_metadata = \<lparr>ea_key = ''checkout'', ea_flag_key = ''checkout'', ea_status = ''completed'', ea_control_variant = ''a'',
     ea_variants = [''a'', ''b''], ea_metric_event = ''buy'', ea_metric_direction = Increase, ea_enrollment_mode = ''all'',
     ea_minimum_exposure_config_version = 1, ea_statistical_plan = demo_plan, ea_start_date = UNIX_EPOCH,
     ea_end_date = UNIX_EPOCH + 86400000000, ea_version = 1\<rparr>"

definition demo_lib :: float_library where
  "demo_lib = \<lparr>inv_cdf = (\<lambda>_. 1), fsqrt = (\<lambda>_. 1), fsquare = (\<lambda>x. fl (x * x))\<rparr>"

definition demo_fisher :: "int \<times> int \<Rightarrow> int \<times> int \<Rightarrow> pyfloat" where
  "demo_fisher _ _ = Fin 1"

definition demo_arm :: "string \<Rightarrow> dict" where
  "demo_arm v = [(''variant'', PStr v), (''sample_size'', PInt 2), (''conversions'', PInt 1), (''crossover_actors'', PInt 0),
     (''unknown_variant_actors'', PInt 0), (''identity_conflict_actors'', PInt 0)]"

definition demo_arms :: query where "demo_arms _ _ = Inr [demo_arm ''a'', demo_arm ''b'']"

definition demo_provenance :: query where "demo_provenance _ _ = Inr [[(''unprovenanced_events'', PInt 0)]]"

definition demo_authority :: boundary_authority where
  "demo_authority = authority ACovered (Some (2, 0)) None"

lemma demo_decides:
  obtains d where "decide demo_lib demo_fisher demo_metadata (Some demo_authority) (demo_arms q rows) (demo_provenance q rows) = Freeze d (id_text (2, 0))"
proof -
  have "(case decide demo_lib demo_fisher demo_metadata (Some demo_authority) (Inr [demo_arm ''a'', demo_arm ''b''])
      (Inr [[(''unprovenanced_events'', PInt 0)]]) of Freeze _ t \<Rightarrow> t = id_text (2, 0) | _ \<Rightarrow> False)" by code_simp
  then show thesis using that by (auto simp: demo_arms_def demo_provenance_def split: outcome.splits)
qed

definition demo_snapshot :: decision_snapshot where
  "demo_snapshot = (case decide demo_lib demo_fisher demo_metadata (Some demo_authority) (Inr [demo_arm ''a'', demo_arm ''b''])
      (Inr [[(''unprovenanced_events'', PInt 0)]]) of Freeze d _ \<Rightarrow> d)"

lemma demo_decided:
  "decide demo_lib demo_fisher demo_metadata (Some demo_authority) (demo_arms q rows) (demo_provenance q rows)
     = Freeze demo_snapshot (id_text (2, 0))"
  by (rule demo_decides [of q rows]) (simp add: demo_snapshot_def demo_arms_def demo_provenance_def)

lemma demo_snapshot_sel: "an_experiment_key demo_snapshot = ''checkout''" "an_config_version demo_snapshot = 1"
proof -
  have "an_experiment_key demo_snapshot = ''checkout'' \<and> an_config_version demo_snapshot = 1"
    using demo_decided
  proof (rule decide_Freeze)
    fix arms x assume "make_snapshot demo_lib demo_fisher demo_metadata (common_response demo_metadata arms x 0 0) (id_text (2, 0))
        = Freeze demo_snapshot (id_text (2, 0))"
    from make_snapshot_Freeze [OF this] have "analysis_base.truncate demo_snapshot = common_response demo_metadata arms x 0 0" by simp
    from arg_cong [OF this, of an_experiment_key] arg_cong [OF this, of an_config_version] show ?thesis
      by (simp add: analysis_base.truncate_def common_response_def demo_metadata_def)
  qed
  then show "an_experiment_key demo_snapshot = ''checkout''" "an_config_version demo_snapshot = 1" by simp_all
qed

definition demo_token :: string where "demo_token = replicate 64 (CHR ''a'')"

definition demo_codec :: codec where
  "demo_codec = \<lparr>cd_datetime = (\<lambda>_. []), cd_float = (\<lambda>_. ''0''), cd_validate = (\<lambda>_. Some demo_snapshot), cd_jsonb = (\<lambda>t. t),
     cd_sha = (\<lambda>_. demo_token)\<rparr>"

abbreviation demo_step :: "analysis_system \<Rightarrow> analysis_system \<Rightarrow> bool" where
  "demo_step \<equiv> astep sample_writer_config sample_loads demo_codec demo_lib demo_fisher demo_arms demo_provenance"

section \<open>States\<close>

text \<open>A state of the run on the one stream, before the decision.\<close>

definition demo_run ::
    "writer \<Rightarrow> redis_stream \<Rightarrow> event_row list \<Rightarrow> watermark option \<Rightarrow> marker_row list \<Rightarrow> (string \<times> stream_id \<times> fields) list \<Rightarrow> phase
     \<Rightarrow> (string \<times> stream_id \<times> fields) set \<Rightarrow> run" where
  "demo_run wr r rows wm marked inbox ph pub = \<lparr>rn_writer = wr,
     rn_pipe = \<lparr>pi_streams = (\<lambda>_. empty_stream)(demo_key := r), pi_dlq = (\<lambda>_. []), pi_rows = rows,
       pi_watermarks = (\<lambda>_. None)(''demo'' := wm), pi_boundaries = map boundary_of marked\<rparr>,
     rn_inbox = inbox, rn_phase = ph, rn_trim = None, rn_published = pub\<rparr>"

definition demo_tables :: "marker_row list \<Rightarrow> analysis_tables" where
  "demo_tables marked = \<lparr>tb_rows = marked,
     tb_windows = (if marked = [] then (\<lambda>_. None)
                   else (\<lambda>_. None)((''demo'', ''checkout'', 1) := Some (ea_start_date demo_metadata, ea_end_date demo_metadata))),
     tb_snapshots = (\<lambda>_. None)\<rparr>"

definition demo_system :: "run \<Rightarrow> marker_row list \<Rightarrow> bool \<Rightarrow> analysis_system" where
  "demo_system r marked added = \<lparr>sy_run = r, sy_dedup = (if added then (\<lambda>_. None)(demo_token := Some (DedupText (id_text (2, 0)))) else (\<lambda>_. None)),
     sy_added = (if added then [(demo_key, (2, 0), demo_token)] else []), sy_tables = demo_tables marked,
     sy_requests = [], sy_evidence = (\<lambda>_. None), sy_answers = []\<rparr>"

definition demo_stream :: "(stream_id \<times> fields) list \<Rightarrow> stream_id \<Rightarrow> stream_id \<Rightarrow> nat \<Rightarrow> stream_id list \<Rightarrow> redis_stream" where
  "demo_stream entries generated delivered_id amount pending = \<lparr>rs_entries = entries, rs_last_generated = generated,
     rs_last_delivered = delivered_id, rs_entries_read = amount, rs_pending = pending\<rparr>"

lemma demo_stream_sel [simp]:
  "rs_entries (demo_stream e g d n q) = e" "rs_pending (demo_stream e g d n q) = q" "rs_last_generated (demo_stream e g d n q) = g"
  "rs_last_delivered (demo_stream e g d n q) = d" "rs_entries_read (demo_stream e g d n q) = n"
  by (simp_all add: demo_stream_def)

lemma demo_run_sel [simp]:
  "rn_writer (demo_run wr r rows wm marked inbox ph pub) = wr" "rn_inbox (demo_run wr r rows wm marked inbox ph pub) = inbox"
  "rn_phase (demo_run wr r rows wm marked inbox ph pub) = ph" "rn_published (demo_run wr r rows wm marked inbox ph pub) = pub"
  "pi_streams (rn_pipe (demo_run wr r rows wm marked inbox ph pub)) demo_key = r"
  "pi_rows (rn_pipe (demo_run wr r rows wm marked inbox ph pub)) = rows"
  "pi_watermarks (rn_pipe (demo_run wr r rows wm marked inbox ph pub)) = (\<lambda>_. None)(''demo'' := wm)"
  "pi_boundaries (rn_pipe (demo_run wr r rows wm marked inbox ph pub)) = map boundary_of marked"
  by (simp_all add: demo_run_def)

lemma demo_system_sel [simp]:
  "sy_run (demo_system r marked added) = r" "sy_tables (demo_system r marked added) = demo_tables marked"
  "sy_requests (demo_system r marked added) = []" "sy_answers (demo_system r marked added) = []"
  "frontier (demo_system r marked added) = pi_watermarks (rn_pipe r)"
  by (simp_all add: demo_system_def frontier_def)

lemma demo_valid [simp]: "valid_key demo_key" "project_id_from_stream demo_key = Inr ''demo''"
  using sample_key by (simp_all add: valid_key_def)

lemma demo_initial:
  "initial_system 0 = demo_system (demo_run (initial_writer 0) empty_stream [] None [] [] Idle {}) [] False"
  by (simp add: initial_system_def demo_system_def demo_tables_def demo_run_def initial_run_def initial_pipe_def fun_upd_idem)

text \<open>A step of the pipeline that leaves the boundary table alone.\<close>

lemma demo_pipeline:
  assumes "demo_step\<^sup>*\<^sup>* (initial_system 0) (demo_system (demo_run wr r rows wm marked inbox ph pub) marked added)"
    and "wstep sample_writer_config sample_loads (demo_run wr r rows wm marked inbox ph pub) (demo_run wr' r' rows' wm' marked inbox' ph' pub')"
  shows "demo_step\<^sup>*\<^sup>* (initial_system 0) (demo_system (demo_run wr' r' rows' wm' marked inbox' ph' pub') marked added)"
proof -
  let ?s = "demo_system (demo_run wr r rows wm marked inbox ph pub) marked added"
  have "demo_step ?s (?s\<lparr>sy_run := demo_run wr' r' rows' wm' marked inbox' ph' pub'\<rparr>)"
    by (rule astep.pipeline) (use assms(2) in simp_all)
  moreover have "?s\<lparr>sy_run := demo_run wr' r' rows' wm' marked inbox' ph' pub'\<rparr>
      = demo_system (demo_run wr' r' rows' wm' marked inbox' ph' pub') marked added" by (simp add: demo_system_def)
  ultimately show ?thesis using assms(1) by (metis rtranclp.rtrancl_into_rtrancl)
qed

abbreviation demo_published :: "(string \<times> stream_id \<times> fields) set" where
  "demo_published \<equiv> {(demo_key, (1, 0), sample_fields)}"

lemma demo_event:
  "demo_step\<^sup>*\<^sup>* (initial_system 0) (demo_system (demo_run (initial_writer 0) (demo_stream [((1, 0), sample_fields)] (1, 0) (0, 0) 0 []) []
     (Some (row_at demo_key (0, 0) 0 ''healthy'' None)) [] [] Idle demo_published) [] False)"
proof -
  let ?r0 = "demo_run (initial_writer 0) empty_stream [] None [] [] Idle {}"
  let ?r1 = "demo_run (initial_writer 0) empty_stream [] (Some (row_at demo_key (0, 0) 0 ''healthy'' None)) [] [] Idle {}"
  let ?r2 = "demo_run (initial_writer 0) (demo_stream [((1, 0), sample_fields)] (1, 0) (0, 0) 0 []) []
     (Some (row_at demo_key (0, 0) 0 ''healthy'' None)) [] [] Idle demo_published"
  have i: "wstep sample_writer_config sample_loads ?r0 (?r0\<lparr>rn_pipe := rn_pipe ?r1\<rparr>)"
    by (rule wstep.initialize [where key = demo_key and max_deleted = "(0, 0)" and calls = "(CallOk, CallOk)" and ok = True])
      (simp_all add: initialize_pipeline_authority_def empty_stream_def row_at_def demo_run_def)
  have e1: "?r0\<lparr>rn_pipe := rn_pipe ?r1\<rparr> = ?r1" by (simp add: demo_run_def)
  have p: "wstep sample_writer_config sample_loads ?r1 (?r1\<lparr>rn_pipe := set_stream demo_key (xadd (1, 0) sample_fields
      (pi_streams (rn_pipe ?r1) demo_key)) (rn_pipe ?r1), rn_published := insert (demo_key, (1, 0), sample_fields) (rn_published ?r1)\<rparr>)"
    by (rule wstep.publish) (simp_all add: empty_stream_def)
  have e2: "?r1\<lparr>rn_pipe := set_stream demo_key (xadd (1, 0) sample_fields (pi_streams (rn_pipe ?r1) demo_key)) (rn_pipe ?r1),
      rn_published := insert (demo_key, (1, 0), sample_fields) (rn_published ?r1)\<rparr> = ?r2"
    by (simp add: demo_run_def set_stream_def xadd_def empty_stream_def demo_stream_def)
  have "demo_step\<^sup>*\<^sup>* (initial_system 0) (demo_system ?r0 [] False)" by (simp add: demo_initial)
  from demo_pipeline [OF demo_pipeline [OF this i [unfolded e1]] p [unfolded e2]] show ?thesis .
qed

section \<open>The boundary\<close>

definition demo_request :: marker_row where
  "demo_request = requested_marker 5 ''demo'' ''checkout'' 1 demo_token"

lemma demo_token_ok [simp]: "boundary_token_ok demo_token" "project_id_ok ''demo''" "resource_key ''checkout''"
  by code_simp+

lemma demo_codec_sel [simp]:
  "cd_sha demo_codec t = demo_token" "cd_validate demo_codec t = Some demo_snapshot" "cd_jsonb demo_codec t = t"
  "boundary_token demo_codec p k v ws we = demo_token"
  by (simp_all add: demo_codec_def boundary_token_def)

lemma demo_tables_sel [simp]:
  "tb_rows (demo_tables marked) = marked" "tb_snapshots (demo_tables marked) k = None"
  by (simp_all add: demo_tables_def)

lemma demo_windows:
  "marked \<noteq> [] \<Longrightarrow> tb_windows (demo_tables marked) (''demo'', ''checkout'', 1) = Some (ea_start_date demo_metadata, ea_end_date demo_metadata)"
  by (simp add: demo_tables_def)

lemma demo_metadata_sel [simp]:
  "ea_key demo_metadata = ''checkout''" "ea_version demo_metadata = 1" "ea_status demo_metadata = ''completed''"
  "ea_start_date demo_metadata = UNIX_EPOCH" "ea_end_date demo_metadata = UNIX_EPOCH + 86400000000"
  "sp_data_settlement_seconds (ea_statistical_plan demo_metadata) = 1"
  by (simp_all add: demo_metadata_def demo_plan_def)

lemma demo_insert:
  "insert_boundary 5 ''demo'' ''checkout'' 1 (ea_start_date demo_metadata, ea_end_date demo_metadata) demo_token (demo_tables [])
     = Inr (demo_tables [demo_request])"
  by (simp add: insert_boundary_def) (simp add: demo_tables_def demo_request_def)

lemma demo_request_sel [simp]:
  "marker_key demo_request = (''demo'', ''checkout'', 1)" "mr_stream_key demo_request = demo_key" "mr_token demo_request = demo_token"
  "mr_state demo_request = ''pending''" "mr_stream_id demo_request = None" "mr_attempts demo_request = 0"
  "mr_observed demo_request = None" "mr_next_attempt_at demo_request = Some 5" "mr_project demo_request = ''demo''"
  "mr_experiment demo_request = ''checkout''" "mr_version demo_request = 1"
  by (simp_all add: demo_request_def requested_marker_def marker_key_def stream_of_project_def)

lemma demo_stream_of [simp]: "stream_of_project ''demo'' = demo_key"
  by (simp add: stream_of_project_def)

lemma demo_open:
  "open_analysis demo_codec 5 (UNIX_EPOCH + 100000000000) True CallOk ''demo'' demo_metadata w (demo_tables [])
     = (Awaiting (Some (authority APending None None)), demo_tables [demo_request])"
  using demo_insert demo_windows [of "[demo_request]"]
  by (simp add: open_analysis_def MAX_EXPERIMENT_WINDOW_def get_or_create_experiment_boundary_def Let_def read_boundary_def authority_def)

lemma demo_requested:
  assumes "demo_step\<^sup>*\<^sup>* (initial_system 0) (demo_system (demo_run wr r rows wm [] inbox ph pub) [] False)"
  shows "demo_step\<^sup>*\<^sup>* (initial_system 0) (demo_system (demo_run wr r rows wm [demo_request] inbox ph pub) [demo_request] False)"
proof -
  let ?s = "demo_system (demo_run wr r rows wm [] inbox ph pub) [] False"
  let ?st = "Awaiting (Some (authority APending None None))"
  let ?t = "after_open ''demo'' demo_metadata ?st (demo_tables [demo_request]) ?s"
  have "demo_step ?s ?t"
    by (rule astep.open_request [where db_now = 5 and now = "UNIX_EPOCH + 100000000000" and pool = True and call = CallOk])
      (simp add: demo_open)
  moreover have "demo_step ?t (?t\<lparr>sy_requests := filter (\<lambda>_. False) (sy_requests ?t)\<rparr>)" by (rule astep.drop_requests)
  moreover have "?t\<lparr>sy_requests := filter (\<lambda>_. False) (sy_requests ?t)\<rparr>
      = demo_system (demo_run wr r rows wm [demo_request] inbox ph pub) [demo_request] False"
    by (simp add: after_open_def demo_system_def demo_run_def show_rows_def)
  ultimately show ?thesis using assms by (metis rtranclp.rtrancl_into_rtrancl)
qed

definition demo_calls :: publish_calls where
  "demo_calls = \<lparr>pc_script = CallOk, pc_new_id = (2, 0), pc_update = CallOk\<rparr>"

definition demo_marked :: marker_row where "demo_marked = published_row (2, 0) demo_request"

abbreviation demo_marker :: fields where "demo_marker \<equiv> marker_fields demo_token"

abbreviation demo_both :: "(string \<times> stream_id \<times> fields) set" where
  "demo_both \<equiv> {(demo_key, (2, 0), demo_marker), (demo_key, (1, 0), sample_fields)}"

lemma demo_marked_sel [simp]:
  "mr_state (published_row i demo_request) = ''published''" "mr_stream_id (published_row i demo_request) = Some i"
  "mr_observed (published_row i demo_request) = Some i" "marker_key (published_row i demo_request) = (''demo'', ''checkout'', 1)"
  "mr_stream_key (published_row i demo_request) = demo_key" "mr_token (published_row i demo_request) = demo_token"
  "mr_project (published_row i demo_request) = ''demo''"
  using demo_request_sel by (simp_all add: published_row_def marker_key_def)

lemma demo_publish:
  assumes "ms_rows m = [demo_request]" and "ms_dedup m = (\<lambda>_. None)" and "ms_added m = []"
    and "ms_streams m demo_key = demo_stream [((1, 0), sample_fields)] (1, 0) (0, 0) 0 []"
  shows "publish_row 9 demo_calls CallOk demo_request (m, stats) =
    (m\<lparr>ms_streams := (ms_streams m)(demo_key := demo_stream [((1, 0), sample_fields), ((2, 0), demo_marker)] (2, 0) (0, 0) 0 []),
       ms_dedup := (\<lambda>_. None)(demo_token := Some (DedupText (id_text (2, 0)))), ms_rows := [demo_marked],
       ms_added := [(demo_key, (2, 0), demo_token)]\<rparr>, count_state ''published'' stats)"
proof -
  have m: "pending_boundary_marker demo_request = Some (marker_for demo_request 0)"
    by (simp add: pending_boundary_marker_def marker_for_def BOUNDARY_MARKER_MAX_PUBLISH_ATTEMPTS_def)
  have k: "stream_key_for_project ''demo'' = Inr demo_key" using project_stream_inverse demo_valid(2) by blast
  have id: "stream_id_parts (id_text (2, 0)) = Inr (2, 0)" by (simp add: id_text_parts)
  have x: "xadd (2, 0) demo_marker (demo_stream [((1, 0), sample_fields)] (1, 0) (0, 0) 0 [])
      = demo_stream [((1, 0), sample_fields), ((2, 0), demo_marker)] (2, 0) (0, 0) 0 []"
    by (simp add: xadd_def demo_stream_def)
  show ?thesis using assms id k x
    by (simp add: publish_row_def m publish_one_boundary_marker_def marker_for_def demo_calls_def run_script_def
        boundary_marker_lua_def MARKER_STREAM_MAX_ENTRIES_def record_marker_def store_marker_def update_rows_def
        observed_unique_def marks_def pending_key_def Let_def demo_marked_def)
qed

lemma demo_marked_step:
  assumes "demo_step\<^sup>*\<^sup>* (initial_system 0) (demo_system (demo_run wr (demo_stream [((1, 0), sample_fields)] (1, 0) (0, 0) 0 []) rows wm
      [demo_request] inbox ph demo_published) [demo_request] False)"
  shows "demo_step\<^sup>*\<^sup>* (initial_system 0) (demo_system (demo_run wr (demo_stream [((1, 0), sample_fields), ((2, 0), demo_marker)] (2, 0) (0, 0) 0 [])
      rows wm [demo_marked] inbox ph demo_both) [demo_marked] True)"
proof -
  let ?s = "demo_system (demo_run wr (demo_stream [((1, 0), sample_fields)] (1, 0) (0, 0) 0 []) rows wm
      [demo_request] inbox ph demo_published) [demo_request] False"
  let ?stats = "\<lparr>sm_published = 0, sm_retried = 0, sm_quarantined = 0, sm_errors = 0\<rparr>"
  let ?m = "(markers_of ?s)\<lparr>ms_streams := (ms_streams (markers_of ?s))
        (demo_key := demo_stream [((1, 0), sample_fields), ((2, 0), demo_marker)] (2, 0) (0, 0) 0 []),
       ms_dedup := (\<lambda>_. None)(demo_token := Some (DedupText (id_text (2, 0)))), ms_rows := [demo_marked],
       ms_added := [(demo_key, (2, 0), demo_token)]\<rparr>"
  have pub: "publish_row 9 demo_calls CallOk demo_request (markers_of ?s, ?stats) = (?m, count_state ''published'' ?stats)"
    by (rule demo_publish) (simp_all add: markers_of_def demo_system_def)
  have step: "demo_step ?s (after_marker ?m ?s)"
    by (rule astep.marker [OF _ _ _ _ _ pub, where projects = None]) (simp_all add: due_def demo_calls_def)
  have "after_marker ?m ?s = demo_system (demo_run wr (demo_stream [((1, 0), sample_fields), ((2, 0), demo_marker)] (2, 0) (0, 0) 0 [])
      rows wm [demo_marked] inbox ph demo_both) [demo_marked] True"
    by (simp add: after_marker_def markers_of_def demo_system_def demo_run_def show_rows_def demo_tables_def)
  with step rtranclp.rtrancl_into_rtrancl [OF assms] show ?thesis by simp
qed

section \<open>The writer\<close>

abbreviation demo_entries :: "(stream_id \<times> fields) list" where
  "demo_entries \<equiv> [((1, 0), sample_fields), ((2, 0), demo_marker)]"

definition demo_ids :: "stream_id list" where "demo_ids = [(1, 0), (2, 0)]"

definition demo_batch :: "event_row \<Rightarrow> buffered_event list" where
  "demo_batch row = [\<lparr>be_stream = demo_key, be_id = (1, 0), be_row = Some row, be_token = None\<rparr>,
     \<lparr>be_stream = demo_key, be_id = (2, 0), be_row = None, be_token = Some demo_token\<rparr>]"

lemma demo_read:
  "wstep sample_writer_config sample_loads
     (demo_run (initial_writer 0) (demo_stream demo_entries (2, 0) (0, 0) 0 []) [] wm marked [] Idle pub)
     (demo_run (initial_writer 0) (demo_stream demo_entries (2, 0) (2, 0) 2 demo_ids) [] wm marked
        [(demo_key, (1, 0), sample_fields), (demo_key, (2, 0), demo_marker)] Idle pub)"
proof -
  let ?s = "demo_run (initial_writer 0) (demo_stream demo_entries (2, 0) (0, 0) 0 []) [] wm marked [] Idle pub"
  have "wstep sample_writer_config sample_loads ?s (?s\<lparr>rn_pipe := set_stream demo_key (demo_stream demo_entries (2, 0) (2, 0) 2 demo_ids)
      (rn_pipe ?s), rn_inbox := to_inbox demo_key demo_entries\<rparr>)"
    by (rule wstep.read_new)
      (simp_all add: stream_is_backpressured_def remaining_capacity_def initial_writer_def sample_writer_config_def has_key_def
        xreadgroup_def unread_def Let_def demo_ids_def demo_stream_def)
  then show ?thesis by (simp add: demo_run_def set_stream_def to_inbox_def)
qed

lemma demo_marker_message: "read_message loads p k i demo_marker = Inr (Some demo_token, None)"
  by (simp add: read_message_def parse_boundary_marker_def marker_fields_def BOUNDARY_MARKER_KIND_def has_key_def)

lemma demo_accept:
  assumes msg: "read_message sample_loads ''demo'' demo_key i f = Inr (token, row)"
    and cap: "length (wr_buffer wr) < 1000"
  shows "wstep sample_writer_config sample_loads (demo_run wr r rows wm marked ((demo_key, i, f) # rest) ph pub)
     (demo_run (wr\<lparr>wr_buffer := wr_buffer wr @ [\<lparr>be_stream = demo_key, be_id = i, be_row = row, be_token = token\<rparr>],
         wr_stats := (wr_stats wr)\<lparr>st_consumed := st_consumed (wr_stats wr) + 1\<rparr>\<rparr>) r rows wm marked rest ph pub)"
    (is "wstep _ _ ?s (demo_run ?wr r rows wm marked rest ph pub)")
proof -
  have "accept_message sample_writer_config sample_loads demo_key (i, f) (CallOk, CallOk) (rn_writer ?s, rn_pipe ?s) = (NextMessage, ?wr, rn_pipe ?s)"
    using msg cap by (simp add: accept_message_def remaining_capacity_def sample_writer_config_def)
  then have "wstep sample_writer_config sample_loads ?s (?s\<lparr>rn_writer := ?wr, rn_pipe := rn_pipe ?s, rn_inbox := rest\<rparr>)"
    by (rule wstep.accept [rotated]) simp
  then show ?thesis by (simp add: demo_run_def)
qed

lemma demo_flush:
  assumes "wr_buffer wr = ev # buf" and "wr_pending_ack wr = []"
  shows "wstep sample_writer_config sample_loads (demo_run wr r rows wm marked [] Idle pub)
     (demo_run wr r rows wm marked [] (Inserting True (ev # buf)) pub)"
proof -
  let ?s = "demo_run wr r rows wm marked [] Idle pub"
  have "wstep sample_writer_config sample_loads ?s (?s\<lparr>rn_writer := wr, rn_phase := Inserting True (ev # buf)\<rparr>)"
    by (rule wstep.flush) (use assms in \<open>simp_all add: start_flush_def copy_buffer_def\<close>)
  then show ?thesis by (simp add: demo_run_def)
qed

definition demo_insert_out :: "event_row \<Rightarrow> insert_outcome" where
  "demo_insert_out row = \<lparr>io_durable = demo_batch row, io_retry = [], io_transient = False\<rparr>"

definition demo_inserted :: "event_row \<Rightarrow> writer \<Rightarrow> writer" where
  "demo_inserted row wr = after_insert 0 (demo_batch row) (demo_insert_out row) wr"

lemma demo_inserted_sel:
  assumes "wr_buffer wr = demo_batch row" and "wr_pending_ack wr = []" and "wr_uncertain wr = {}" and "wr_tokens wr = []"
    and "wr_finalized wr = []"
  shows "wr_buffer (demo_inserted row wr) = []" "wr_pending_ack (demo_inserted row wr) = [(demo_key, demo_ids)]"
    "wr_uncertain (demo_inserted row wr) = {}" "wr_tokens (demo_inserted row wr) = [((demo_key, (2, 0)), demo_token)]"
    "wr_finalized (demo_inserted row wr) = []"
  using assms by (simp_all add: demo_inserted_def after_insert_def demo_insert_out_def demo_batch_def queue_durable_ack_def
      queue_one_def demo_ids_def Let_def)

lemma demo_insertion:
  assumes "wr_buffer wr = demo_batch row" and "wr_pending_ack wr = []" and "wr_uncertain wr = {}" and "wr_tokens wr = []"
    and "wr_finalized wr = []"
  shows "wstep sample_writer_config sample_loads (demo_run wr r [] wm marked [] (Inserting True (demo_batch row)) pub)
     (demo_run (demo_inserted row wr) r [row] wm marked [] (Acking [(demo_key, demo_ids)] [] (AtEnd False)) pub)"
proof -
  let ?s = "demo_run wr r [] wm marked [] (Inserting True (demo_batch row)) pub"
  let ?px = "(rn_pipe ?s)\<lparr>pi_rows := [row]\<rparr>"
  have i: "insert_or_isolate sample_writer_config (\<lambda>_ _. Inserted) (\<lambda>_. (CallOk, CallOk)) 0 (demo_batch row) (rn_writer ?s, rn_pipe ?s)
      = (demo_insert_out row, wr, ?px)"
    by (simp add: insert_or_isolate.simps demo_batch_def batch_rows_def List.map_filter_def demo_insert_out_def)
  have fin: "finish_insert 0 True (demo_batch row) (demo_insert_out row) wr
      = (demo_inserted row wr, Acking [(demo_key, demo_ids)] [] (AtEnd False))"
    using demo_inserted_sel [OF assms] by (simp add: finish_insert_def Let_def demo_inserted_def demo_insert_out_def)
  have "wstep sample_writer_config sample_loads ?s (?s\<lparr>rn_writer := demo_inserted row wr, rn_pipe := ?px,
      rn_phase := Acking [(demo_key, demo_ids)] [] (AtEnd False)\<rparr>)"
    by (rule wstep.insert [OF _ i fin]) simp
  then show ?thesis by (simp add: demo_run_def)
qed

lemma demo_ack:
  "ack_and_delete demo_ids (demo_stream demo_entries g d n demo_ids) = ((2, 2), demo_stream [] g d n [])"
  by (simp add: ack_and_delete_def xack_def xdel_def demo_ids_def demo_stream_def)

lemma demo_verify:
  assumes "wr_tokens wr = [((demo_key, (2, 0)), demo_token)]" and "pi_boundaries px = [boundary_of demo_marked]"
  shows "verify_boundary_deliveries sample_writer_config demo_key demo_ids (CallOk, CallOk) (wr, px) = (True, px)"
proof -
  have e: "expected_tokens wr demo_key demo_ids = [((2, 0), demo_token)]"
    using assms(1) by (simp add: expected_tokens_def List.map_filter_def demo_ids_def)
  have "selected_boundary ''demo'' demo_key [((2, 0), demo_token)] (boundary_of demo_marked)"
    by (simp add: selected_boundary_def boundary_of_def demo_marked_def)
  moreover have "observed_delivery [((2, 0), demo_token)] (boundary_of demo_marked) = Some (((2, 0), demo_token), False)"
    by (simp add: observed_delivery_def boundary_of_def demo_marked_def)
  ultimately show ?thesis
    using assms(2) e by (simp add: verify_boundary_deliveries_def Let_def List.map_filter_def Collect_conv_if)
qed

lemma demo_advance:
  assumes "wr_finalized wr = []" and "pi_streams px demo_key = demo_stream [] (2, 0) (2, 0) 2 []"
    and "pi_watermarks px ''demo'' = Some (row_at demo_key (0, 0) 0 ''healthy'' None)"
  shows "advance_pipeline_frontier sample_writer_config demo_key demo_ids (fz_frontier good_calls) (wr, px) =
    (True, wr, px\<lparr>pi_watermarks := (pi_watermarks px)(''demo'' := Some (row_at demo_key (2, 0) 2 ''healthy'' None))\<rparr>)"
proof -
  let ?w = "row_at demo_key (0, 0) 0 ''healthy'' None"
  let ?g = "group_info_of True (demo_stream [] (2, 0) (2, 0) 2 [])"
  let ?fresh = "{(1, 0), (2, 0)} :: stream_id set"
  have ids: "remdups demo_ids = demo_ids" "demo_ids \<noteq> []" by (simp_all add: demo_ids_def)
  have fresh: "{i \<in> set demo_ids. id_less (0, 0) i} = ?fresh" by (auto simp: demo_ids_def id_less_def)
  have "card ?fresh = 2" by simp
  then have adv: "exact_advance ?w ?g ?fresh" by (simp add: exact_advance_def group_info_of_def)
  have row: "advanced_row ?w ?g ?fresh = row_at demo_key (2, 0) 2 ''healthy'' None"
    using adv by (simp add: advanced_row_def invalid_authority_def group_info_of_def row_at_def)
  have "wr\<lparr>wr_finalized := []\<rparr> = wr" using assms(1) by simp
  with assms show ?thesis
    using fresh row ids by (simp add: advance_pipeline_frontier_def Let_def good_calls_def finalized_ids_def dpop_def
        group_info_of_def)
qed

lemma demo_finalize:
  assumes wr: "wr_uncertain wr = {}" "wr_tokens wr = [((demo_key, (2, 0)), demo_token)]" "wr_finalized wr = []"
  shows "wstep sample_writer_config sample_loads
     (demo_run wr (demo_stream demo_entries (2, 0) (2, 0) 2 demo_ids) rows (Some (row_at demo_key (0, 0) 0 ''healthy'' None)) [demo_marked] []
        (Acking [(demo_key, demo_ids)] [] stage) pub)
     (demo_run (mark_uncertain demo_key wr) (demo_stream [] (2, 0) (2, 0) 2 []) rows (Some (row_at demo_key (2, 0) 2 ''healthy'' None))
        [demo_marked] [] (Acking [] [((demo_key, demo_ids), True)] stage) pub)"
proof -
  let ?s = "demo_run wr (demo_stream demo_entries (2, 0) (2, 0) 2 demo_ids) rows (Some (row_at demo_key (0, 0) 0 ''healthy'' None))
      [demo_marked] [] (Acking [(demo_key, demo_ids)] [] stage) pub"
  let ?t = "demo_run (mark_uncertain demo_key wr) (demo_stream [] (2, 0) (2, 0) 2 []) rows
      (Some (row_at demo_key (2, 0) 2 ''healthy'' None)) [demo_marked] [] (Acking [] [((demo_key, demo_ids), True)] stage) pub"
  have v: "verify_boundary_deliveries sample_writer_config demo_key demo_ids (CallOk, CallOk) (rn_writer ?s, rn_pipe ?s) = (True, rn_pipe ?s)"
    by (rule demo_verify) (use wr in simp_all)
  let ?px = "(rn_pipe ?s)\<lparr>pi_streams := (pi_streams (rn_pipe ?s))(demo_key := demo_stream [] (2, 0) (2, 0) 2 [])\<rparr>"
  have a: "advance_pipeline_frontier sample_writer_config demo_key demo_ids (fz_frontier good_calls) (mark_uncertain demo_key wr, ?px)
      = (True, mark_uncertain demo_key wr, rn_pipe ?t)"
    by (subst demo_advance) (use wr in simp_all, simp add: demo_run_def)
  have two: "length demo_ids = 2" by (simp add: demo_ids_def)
  have fin: "finalize_durable_stream sample_writer_config demo_key demo_ids good_calls (rn_writer ?s, rn_pipe ?s)
      = (True, mark_uncertain demo_key wr, rn_pipe ?t)"
    using v a by (simp add: finalize_durable_stream_def demo_ack [simplified] two Let_def good_calls_def)
  have "rn_phase ?s = Acking ([] @ (demo_key, demo_ids) # []) [] stage" by simp
  from wstep.finalize [OF this fin] show ?thesis by (simp add: demo_run_def)
qed

section \<open>The decision\<close>

abbreviation demo_ready :: "writer \<Rightarrow> event_row \<Rightarrow> analysis_system" where
  "demo_ready wr row \<equiv> demo_system (demo_run wr (demo_stream [] (2, 0) (2, 0) 2 []) [row]
     (Some (row_at demo_key (2, 0) 2 ''healthy'' None)) [demo_marked] [] (Acking [] [((demo_key, demo_ids), True)] (AtEnd False)) demo_both)
     [demo_marked] True"

lemma demo_stored:
  obtains wr row where "demo_step\<^sup>*\<^sup>* (initial_system 0) (demo_ready wr row)"
    and "read_message sample_loads ''demo'' demo_key (1, 0) sample_fields = Inr (None, Some row)"
proof -
  obtain row where msg: "read_message sample_loads ''demo'' demo_key (1, 0) sample_fields = Inr (None, Some row)"
    by (rule sample_message)
  let ?wr = "initial_writer 0"
  let ?wr1 = "?wr\<lparr>wr_buffer := wr_buffer ?wr @ [\<lparr>be_stream = demo_key, be_id = (1, 0), be_row = Some row, be_token = None\<rparr>],
      wr_stats := (wr_stats ?wr)\<lparr>st_consumed := st_consumed (wr_stats ?wr) + 1\<rparr>\<rparr>"
  let ?wr2 = "?wr1\<lparr>wr_buffer := wr_buffer ?wr1 @ [\<lparr>be_stream = demo_key, be_id = (2, 0), be_row = None, be_token = Some demo_token\<rparr>],
      wr_stats := (wr_stats ?wr1)\<lparr>st_consumed := st_consumed (wr_stats ?wr1) + 1\<rparr>\<rparr>"
  have wr2: "wr_buffer ?wr2 = demo_batch row" "wr_pending_ack ?wr2 = []" "wr_uncertain ?wr2 = {}" "wr_tokens ?wr2 = []"
    "wr_finalized ?wr2 = []" by (simp_all add: initial_writer_def demo_batch_def)
  have cap: "length (wr_buffer ?wr) < 1000" "length (wr_buffer ?wr1) < 1000" by (simp_all add: initial_writer_def)
  note s1 = demo_pipeline [OF demo_marked_step [OF demo_requested [OF demo_event]] demo_read]
  note s2 = demo_pipeline [OF demo_pipeline [OF s1 demo_accept [OF msg cap(1)]] demo_accept [OF demo_marker_message cap(2)]]
  note s3 = demo_pipeline [OF s2 demo_flush [OF wr2(1) [unfolded demo_batch_def] wr2(2), folded demo_batch_def]]
  note s4 = demo_pipeline [OF s3 demo_insertion [OF wr2]]
  note queued = demo_inserted_sel [OF wr2]
  show thesis by (rule that [OF demo_pipeline [OF s4 demo_finalize [OF queued(3-5)]] msg])
qed

lemma demo_marked_window:
  "tb_windows (demo_tables [demo_marked]) (''demo'', ''checkout'', 1) = Some (UNIX_EPOCH, UNIX_EPOCH + 86400000000)"
  using demo_windows [of "[demo_marked]"] by simp

lemma demo_covered:
  assumes "tb_rows tb = [demo_marked]" and "tb_windows tb = tb_windows (demo_tables [demo_marked])"
  shows "open_analysis demo_codec 5 (UNIX_EPOCH + 100000000000) True CallOk ''demo'' demo_metadata
      ((\<lambda>_. None)(''demo'' := Some (row_at demo_key (2, 0) 2 ''healthy'' None))) tb
     = (case tb_snapshots tb (''demo'', ''checkout'', 1) of
          None \<Rightarrow> (Awaiting (Some demo_authority), tb)
        | Some row \<Rightarrow> if sn_boundary row = (2, 0) \<and> sn_sha256 row = demo_token then (Answered (Decision demo_snapshot), tb)
                      else (Awaiting None, tb))"
proof -
  have ids: "parse_stream_id (id_text (2, 0)) = Inr (2, 0)" "parse_stream_id (id_text (0, 0)) = Inr (0, 0)"
    by (simp_all add: parse_stream_id_iff)
  have w: "tb_windows tb (''demo'', ''checkout'', 1) = Some (UNIX_EPOCH, UNIX_EPOCH + 86400000000)"
    using assms(2) demo_marked_window by simp
  show ?thesis
    using assms(1) w ids
    by (auto simp: open_analysis_def MAX_EXPERIMENT_WINDOW_def get_or_create_experiment_boundary_def Let_def read_boundary_def
        authority_def insert_boundary_def demo_marked_def frontier_authority_def demo_authority_def validate_snapshot_payload_def
        split: option.splits)
qed

lemma demo_freezes:
  assumes "tb_rows tb = [demo_marked]" and "tb_snapshots tb (''demo'', ''checkout'', 1) = None"
  shows "freeze demo_codec CallOk ''demo'' demo_metadata demo_snapshot (id_text (2, 0))
      ((\<lambda>_. None)(''demo'' := Some (row_at demo_key (2, 0) 2 ''healthy'' None))) tb
     = (Decision demo_snapshot, tb\<lparr>tb_snapshots := (tb_snapshots tb)((''demo'', ''checkout'', 1)
          := Some (new_snapshot_row demo_codec (2, 0) demo_snapshot))\<rparr>)"
proof -
  have id: "parse_stream_id (id_text (2, 0)) = Inr (2, 0)" by (simp add: parse_stream_id_iff)
  note demo_snapshot_sel
  moreover have "covered_boundary (''demo'', ''checkout'', 1) (2, 0)
      ((\<lambda>_. None)(''demo'' := Some (row_at demo_key (2, 0) 2 ''healthy'' None))) demo_marked"
    by (simp add: covered_boundary_def demo_marked_def)
  ultimately show ?thesis
    using assms id by (simp add: freeze_def persist_experiment_snapshot_def Let_def new_snapshot_row_def validate_snapshot_payload_def)
qed

lemma demo_answers:
  assumes "demo_step\<^sup>*\<^sup>* (initial_system 0) (demo_ready wr row)"
  obtains s t where "demo_step\<^sup>*\<^sup>* (initial_system 0) s" "demo_step\<^sup>*\<^sup>* s t" "sy_run s = sy_run (demo_ready wr row)"
    "sy_answers s = [(''demo'', demo_metadata, demo_snapshot)]" "length (sy_answers t) = 2"
    "(''demo'', demo_metadata, demo_snapshot) \<in> set (sy_answers t)"
    "tb_snapshots (sy_tables s) (''demo'', ''checkout'', 1) = Some (new_snapshot_row demo_codec (2, 0) demo_snapshot)"
proof -
  let ?s = "demo_ready wr row" and ?a = "Some demo_authority" and ?m = "id_text (2, 0)"
  define s1 where "s1 = after_open ''demo'' demo_metadata (Awaiting ?a) (demo_tables [demo_marked]) ?s"
  define s2 where "s2 = after_decide ''demo'' demo_metadata ?a (Freeze demo_snapshot ?m) s1"
  define tb where "tb = (demo_tables [demo_marked])\<lparr>tb_snapshots := (tb_snapshots (demo_tables [demo_marked]))((''demo'', ''checkout'', 1)
      := Some (new_snapshot_row demo_codec (2, 0) demo_snapshot))\<rparr>"
  define s3 where "s3 = after_freeze ''demo'' demo_metadata (Decided ?a demo_snapshot ?m [row]) (demo_metadata, ?a, demo_snapshot, [row])
      (Decision demo_snapshot) tb s2"
  define s4 where "s4 = after_open ''demo'' demo_metadata (Answered (Decision demo_snapshot)) tb s3"
  have run: "sy_run s1 = sy_run ?s"
    by (simp add: s1_def after_open_def show_rows_def demo_run_def)
  have f1: "frontier s1 = frontier ?s" and rows1: "pi_rows (rn_pipe (sy_run s1)) = [row]" using run by (simp_all add: frontier_def)
  have t1: "sy_tables s1 = demo_tables [demo_marked]" "sy_requests s1 = [(''demo'', demo_metadata, Opened ?a)]" "sy_answers s1 = []"
    by (simp_all add: s1_def after_open_def)
  have t2: "sy_tables s2 = demo_tables [demo_marked]" "sy_requests s2 = [(''demo'', demo_metadata, Decided ?a demo_snapshot ?m [row])]"
    "sy_answers s2 = []" "frontier s2 = frontier ?s" "sy_run s2 = sy_run ?s"
    using f1 t1 run rows1 by (simp_all add: s2_def after_decide_def frontier_def)
  have t3: "sy_tables s3 = tb" "sy_answers s3 = [(''demo'', demo_metadata, demo_snapshot)]" "frontier s3 = frontier ?s" "sy_run s3 = sy_run ?s"
    using t2 by (simp_all add: s3_def after_freeze_def Let_def frontier_def)
  have step1: "demo_step ?s s1" unfolding s1_def
    by (rule astep.open_request [where db_now = 5 and now = "UNIX_EPOCH + 100000000000" and pool = True and call = CallOk])
      (simp add: demo_covered)
  have step2: "demo_step s1 s2" unfolding s2_def by (intro astep.decide_request) (simp_all add: t1 demo_decided)
  have "freeze demo_codec CallOk ''demo'' demo_metadata demo_snapshot ?m (frontier s2) (sy_tables s2) = (Decision demo_snapshot, tb)"
    using demo_freezes [of "demo_tables [demo_marked]"] t2(1,4) by (simp add: tb_def)
  then have step3: "demo_step s2 s3" unfolding s3_def by (intro astep.freeze_request) (simp_all add: t2)
  have "open_analysis demo_codec 5 (UNIX_EPOCH + 100000000000) True CallOk ''demo'' demo_metadata (frontier s3) (sy_tables s3)
      = (Answered (Decision demo_snapshot), tb)"
    using t3 demo_covered [of tb] by (simp add: tb_def new_snapshot_row_def)
  then have step4: "demo_step s3 s4" unfolding s4_def by (rule astep.open_request)
  have "demo_step\<^sup>*\<^sup>* (initial_system 0) s3"
    using assms step1 step2 step3 by (meson rtranclp.rtrancl_into_rtrancl)
  moreover have "length (sy_answers s4) = 2" "(''demo'', demo_metadata, demo_snapshot) \<in> set (sy_answers s4)"
    using t3 by (simp_all add: s4_def after_open_def)
  moreover have "tb_snapshots (sy_tables s3) (''demo'', ''checkout'', 1) = Some (new_snapshot_row demo_codec (2, 0) demo_snapshot)"
    using t3 by (simp add: tb_def)
  ultimately show thesis using that [of s3 s4] step4 t3 by blast
qed

section \<open>Witnesses\<close>

theorem decision_on_complete_data_witness:
  "\<exists>s rows. demo_step\<^sup>*\<^sup>* (initial_system 0) s \<and> (''demo'', demo_metadata, demo_snapshot) \<in> set (sy_answers s)
     \<and> (demo_key, (1, 0), sample_fields) \<in> rn_published (sy_run s) \<and> in_rows sample_loads rows demo_key (1, 0) sample_fields
     \<and> rows \<noteq> []"
proof -
  obtain wr row where ready: "demo_step\<^sup>*\<^sup>* (initial_system 0) (demo_ready wr row)"
    and msg: "read_message sample_loads ''demo'' demo_key (1, 0) sample_fields = Inr (None, Some row)" by (rule demo_stored)
  from ready obtain s t where s: "demo_step\<^sup>*\<^sup>* (initial_system 0) s" "sy_run s = sy_run (demo_ready wr row)"
    "sy_answers s = [(''demo'', demo_metadata, demo_snapshot)]"
    "tb_snapshots (sy_tables s) (''demo'', ''checkout'', 1) = Some (new_snapshot_row demo_codec (2, 0) demo_snapshot)"
    by (rule demo_answers)
  have ans: "(''demo'', demo_metadata, demo_snapshot) \<in> set (sy_answers s)" using s(3) by simp
  from decision_on_complete_data [OF s(1) ans] obtain m d0 rows where
    row: "tb_snapshots (sy_tables s) (''demo'', ''checkout'', 1) = Some (new_snapshot_row demo_codec m d0)"
    and up: "\<forall>i f. (demo_key, i, f) \<in> rn_published (sy_run s) \<longrightarrow> i \<le> m \<longrightarrow> in_rows sample_loads rows demo_key i f"
    by auto
  have "m = (2, 0)" using row s(4) by (simp add: new_snapshot_row_def)
  moreover have "(demo_key, (1, 0), sample_fields) \<in> rn_published (sy_run s)" using s(2) by simp
  ultimately have "in_rows sample_loads rows demo_key (1, 0) sample_fields" using up by (simp add: less_eq_prod_def)
  moreover from this msg have "rows \<noteq> []" by (auto simp: in_rows_def)
  ultimately show ?thesis using s ans \<open>(demo_key, (1, 0), sample_fields) \<in> rn_published (sy_run s)\<close> by blast
qed

theorem decisions_never_change_witness:
  "\<exists>t d. demo_step\<^sup>*\<^sup>* (initial_system 0) t \<and> length (sy_answers t) = 2 \<and> (''demo'', demo_metadata, d) \<in> set (sy_answers t)
     \<and> d = demo_snapshot"
proof -
  obtain wr row where ready: "demo_step\<^sup>*\<^sup>* (initial_system 0) (demo_ready wr row)" by (rule demo_stored)
  from ready obtain s t where s: "demo_step\<^sup>*\<^sup>* (initial_system 0) s" "demo_step\<^sup>*\<^sup>* s t"
    "sy_answers s = [(''demo'', demo_metadata, demo_snapshot)]" "length (sy_answers t) = 2"
    "(''demo'', demo_metadata, demo_snapshot) \<in> set (sy_answers t)" by (rule demo_answers)
  have "(''demo'', demo_metadata, demo_snapshot) \<in> set (sy_answers s)" using s(3) by simp
  from decisions_never_change [OF s(1,2) this s(5) refl refl] s show ?thesis by (meson rtranclp_trans)
qed

theorem decision_requires_witness:
  "\<exists>d rs arms. decide demo_lib demo_fisher demo_metadata (Some demo_authority) (Inr rs) (Inr [[(''unprovenanced_events'', PInt 0)]])
       = Freeze d (id_text (2, 0))
     \<and> aggregate_arms demo_metadata rs = Inr (arms, 0, 0, 0) \<and> an_arms d = arms \<and> length (an_comparisons d) = 1"
proof -
  obtain d where d: "decide demo_lib demo_fisher demo_metadata (Some demo_authority) (Inr [demo_arm ''a'', demo_arm ''b''])
      (Inr [[(''unprovenanced_events'', PInt 0)]]) = Freeze d (id_text (2, 0))"
    using demo_decides unfolding demo_arms_def demo_provenance_def by blast
  have "(case aggregate_arms demo_metadata [demo_arm ''a'', demo_arm ''b''] of Inr (_, x, _, _) \<Rightarrow> x = 0 | _ \<Rightarrow> False)" by code_simp
  with decision_requires [OF d] d show ?thesis
    by (auto simp: demo_metadata_def common_response_def analysis_base.truncate_def)
qed

theorem comparison_in_range_witness:
  "\<exists>c. comparison demo_lib demo_fisher \<lparr>ar_variant = ''a'', ar_sample_size = 4, ar_conversions = 1, ar_conversion_rate = fl (1 / 4)\<rparr>
       \<lparr>ar_variant = ''b'', ar_sample_size = 4, ar_conversions = 3, ar_conversion_rate = fl (3 / 4)\<rparr> 1 (1 / 20) = Inr (Some c)
     \<and> comparison_ok c \<and> co_raw_p_value c = 1 \<and> \<not> co_significant c"
proof -
  let ?a = "\<lparr>ar_variant = ''a'', ar_sample_size = 4, ar_conversions = 1, ar_conversion_rate = fl (1 / 4)\<rparr>"
  let ?b = "\<lparr>ar_variant = ''b'', ar_sample_size = 4, ar_conversions = 3, ar_conversion_rate = fl (3 / 4)\<rparr>"
  have level: "MIN_STATISTICAL_VALUE \<le> 1 / 20" by code_simp
  have "arm_ok ?a" "arm_ok ?b" by (simp_all add: arm_ok_def)
  from comparison_in_range [OF this, where level = "1 / 20" and n = 1 and p = 1 and fisher = demo_fisher and lib = demo_lib] level
  show ?thesis by (auto simp: demo_fisher_def)
qed

end
