(* ===== verification/Spec2Isabelle.thy ===== *)
theory Spec2Isabelle
  imports ConfigEvaluator Broadcaster RedisCache EventQueue GatewayLimiter IngestionRateLimit ExperimentLaws AnalysisExample
begin

text \<open>
  \<^bold>\<open>The program.\<close> APDL is a product-development platform: feature flags, experiments and an
  analytics pipeline. Its services are Python processes around PostgreSQL, Redis and ClickHouse.
  This library models the parts that carry the data and the decisions:

  \<^item> the Python SDK (\<open>src/sdk/python/apdl\<close>): it fetches flags, evaluates them locally and sends
    events in batches;
  \<^item> the Config service (\<open>src/services/config/app\<close>): it stores flags and experiments, evaluates
    flags, and tells clients and other services of each change through a transactional outbox, a
    Redis cache and server-sent events;
  \<^item> the ingestion service (\<open>src/services/ingestion/app\<close>): it admits, validates, reduces and
    enriches events and adds them to the Redis stream of their project;
  \<^item> the pipeline writer (\<open>src/pipeline/redis/clickhouse_writer.py\<close>): it moves stream entries
    into ClickHouse, keeps a completeness watermark per project in PostgreSQL, and publishes the
    boundary markers of experiments;
  \<^item> the query service's experiment analysis (\<open>src/services/query/app\<close>: \<open>completeness.py\<close>,
    \<open>routers/experiments.py\<close>): it asks for a boundary marker, waits until the watermark covers
    it, decides from ClickHouse aggregates and freezes the decision;
  \<^item> the gateway's rate limiter (\<open>src/services/gateway/app/rate_limit.py\<close>).

  \<^bold>\<open>The theories\<close>, each with the definitions of its component first and the lemmas after them.
  Definitions keep the names of the functions they model.

  \<^item> \<open>Prelude\<close>: Python values and dictionaries, results of fallible code, shared list lemmas, and the
    locales \<open>monotone_run\<close> and \<open>monotone_machine\<close>: a step relation that keeps an invariant and
    only moves forward in an order. The cache, the broadcaster, the outbox, the writer, the marker
    rows and the analysis system are interpretations of them.
    \<open>Float64\<close>: binary64 rounding and the float operations the services use.
  \<^item> \<open>Hashing\<close> (\<open>flags/hash.py\<close>): FNV-1a on machine words, buckets and rollouts.
    \<open>Contracts\<close> (\<open>targeting_contract.py\<close>, \<open>variant_contract.py\<close>).
    \<open>FlagModels\<close> (\<open>models.py\<close>, \<open>parse.py\<close>): validation and parsing of a flag payload.
  \<^item> \<open>FlagCache\<close> (\<open>cache.py\<close>): the store of the SDK, with the locale \<open>flag_store\<close> that its
    client, the evaluator, relies on. \<open>SdkEvaluator\<close> (\<open>evaluator.py\<close>).
  \<^item> \<open>Transport\<close> (\<open>transport.py\<close>): retries, \<open>Retry-After\<close> and cancellation. \<open>EventQueue\<close>
    (\<open>queue.py\<close>): intake, bisection of refused batches, requeueing, flush and stop.
  \<^item> \<open>ConfigModels\<close>, \<open>ConfigEvaluator\<close>: the server's models and evaluator, the payload it
    serves, and its agreement with the SDK.
  \<^item> \<open>Broadcaster\<close> (\<open>sse/broadcaster.py\<close>): connections, quotas and queues.
    \<open>RedisCache\<close> (\<open>store/redis_cache.py\<close>): the version-aware cache with its Lua scripts.
  \<^item> \<open>OutboxStore\<close>, \<open>Outbox\<close>, \<open>OutboxRun\<close> (\<open>outbox.py\<close>): the tables, the worker's
    statements, and the step relation of commits, workers, operators, retention and crashes; the
    locale \<open>row_update\<close> is what each statement that changes one row promises.
  \<^item> \<open>Experiments\<close>, \<open>Mutations\<close>, \<open>MutationLaws\<close>, \<open>ExperimentLaws\<close>
    (\<open>store/mutations.py\<close>, \<open>flags/experiment_flag.py\<close>, \<open>experiments/\<close>): every command that
    changes flags or experiments, the scheduler pass, and that each command is one commit step
    of the outbox.
  \<^item> \<open>GatewayLimiter\<close>, \<open>IngestionRateLimit\<close>: the sliding window of the gateway and the token
    buckets of the ingestion service.
  \<^item> \<open>Timestamps\<close>, \<open>CanonicalJson\<close>, \<open>IngestionEvents\<close>, \<open>IngestionEndpoint\<close>
    (\<open>validation/\<close>, \<open>models/schemas.py\<close>, \<open>privacy.py\<close>, \<open>routers/events.py\<close>,
    \<open>streaming/redis_producer.py\<close>): the request path from the body to the stream.
  \<^item> \<open>WriterRows\<close>: an entry becomes a row or a dead letter. \<open>PipelineLaws\<close>: what the endpoint
    accepts the writer accepts.
  \<^item> \<open>WriterState\<close>, \<open>WriterFlush\<close>, \<open>WriterRun\<close>: the writer's buffer, acknowledgement queue,
    retries, inserts, finalization, frontier and trimming, and the step relation \<open>wstep\<close> of its
    tasks. \<open>WriterLaws\<close>, \<open>WriterInvariant\<close>: the invariant \<open>run_inv\<close> and its preservation.
    \<open>WriterGuarantees\<close>: what follows for every run.
  \<^item> \<open>BoundaryMarkers\<close>, \<open>BoundaryMarkerLaws\<close>: the publication of boundary markers and the life
    of a marker row.
  \<^item> \<open>Completeness\<close>, \<open>AnalysisEndpoint\<close>: boundaries, authorities and snapshots in PostgreSQL,
    and the analysis request in its three parts (open, decide, freeze). \<open>AnalysisLaws\<close>: the step
    relation \<open>astep\<close>, in which producers, the writer, the publication of markers and racing
    requests share their streams and tables, with its invariant \<open>system_inv\<close>.
    \<open>AnalysisExample\<close>: a concrete run from an empty system to two answers.

  \<^bold>\<open>What is shown.\<close> Evaluation: the SDK and the server agree on every flag, ramping up a rollout
  keeps each unit's variant, the served payload parses back, and evaluation never raises.
  Delivery of changes: commands are atomic commits that refine the outbox system, versions sent
  to subscribers never decrease, a stale write is refused, workers make boundedly many claims,
  caches never go back, and subscribers miss nothing. Experiments: each live experiment is served
  by exactly its flag, and its analysis fields are frozen after draft. Events: the queue loses,
  duplicates and reorders nothing; admission is all or nothing; captured clicks are reduced; an
  accepted event is never rejected later, and it is in its stream or in ClickHouse in every later
  state, whatever calls fail, lose their replies or are cut off by a crash; a healthy watermark
  is complete and a degraded one stays degraded; a marker is added at most once. Decisions:
  a decision that is answered was computed from the row of every event published up to its
  boundary, all answers for one version of an experiment are the same, a decision needs a covered
  boundary and arms of the planned size, and the reported statistics are within their bounds. Six theorems
  state how the code departs from what it means to do, such as a redelivered entry, or a marker
  whose reply was lost, that blocks its stream.

  \<^bold>\<open>How the surroundings are modelled.\<close> PostgreSQL transactions, Redis commands and Lua scripts
  are functions on explicit tables and streams with their documented behaviour; a script and a
  \<open>MULTI\<close> block are atomic. A call to a store succeeds, fails without effect, or has its effect
  and loses its reply (\<open>CallOk\<close>, \<open>CallFails\<close>, \<open>CallLost\<close>), and properties hold for every such
  outcome. Concurrency is an interleaving of steps; the introductions of \<open>OutboxRun\<close>,
  \<open>WriterRun\<close>, \<open>BoundaryMarkerLaws\<close> and \<open>AnalysisLaws\<close> say what one step is. Third-party code is an argument of
  the definitions that use it: the JSON parser, pydantic's scalar coercions and error texts, IP
  parsing, the number printer, SHA-256, the HTTP client, the clocks, the ClickHouse driver's
  serializer, the snapshot codec, Fisher's test and the normal quantile; the two ClickHouse
  queries of the analysis are functions of their parameters and the stored rows. Each property that relies on such code says what it assumes of it, and its witness
  instantiates it.

  \<^bold>\<open>Bounds and termination.\<close> Floats are exact binary64 values, hashes are 32-bit words, and
  Python integers are unbounded. Functions whose recursion is not structural have a termination
  proof; no definition uses fuel. Where a loop of the program has a limit, such as the attempts
  of a request or the passes of the worker, the limit is that of the code.

  \<^bold>\<open>Not modelled.\<close> Of the modelled services: start-up and shutdown of the processes, the
  environment, metrics, logging, read-only queries, HTTP plumbing and authentication against
  other services; of the writer, stream discovery, the maintenance locks, the drain of an insert
  in flight at shutdown and monitoring. Of the platform: the rest of the query service (its
  other endpoints and the SQL text they send to ClickHouse), the admin API (sessions and a proxy), the agents and code
  generation services (they drive language models, git and GitHub), the key vault
  (cryptography of a library), migrations, the analytics deletion command, operator and release
  scripts, and the JavaScript packages.
\<close>

end
